(* ===== verification/Floating.thy ===== *)
theory Floating
  imports Complex_Main
begin

text \<open>
  Numbers as the program has them. A Python \<open>float\<close> is an IEEE 754 binary64 value and every
  operation on it rounds; a \<open>decimal.Decimal\<close> operation rounds to the 28 significant digits of
  the default context. Both are the same function here: \<open>rnd b p emin x\<close> rounds the rational
  number \<open>x\<close> to \<open>p\<close> significant digits in base \<open>b\<close> with smallest exponent \<open>emin\<close>, half to
  even. \<open>fl\<close> is binary64 (53 bits, exponents from -1074, so subnormals are covered) and \<open>dec28\<close>
  is the decimal context. Overflow to infinity and NaN are outside the model: values are finite.

  The locale \<open>rounding\<close> proves the facts the components use (rounding is monotone, odd,
  idempotent, and exact on representable numbers) once; it is interpreted for both formats.
\<close>

named_theorems fl_simps \<open>exact values of binary64 rounding\<close>
named_theorems fl_intros \<open>bounds kept by binary64 operations\<close>

section \<open>Digits and logarithms\<close>

function flen :: "int \<Rightarrow> int \<Rightarrow> int" where
  "flen b n = (if b > 1 \<and> n > 0 then 1 + flen b (n div b) else 0)"
  by auto
termination
proof (relation "measure (\<lambda>(b, n). nat n)", goal_cases)
  case 1 show ?case by simp
next
  case (2 b n)
  then have "n div b < n" by (simp add: int_div_less_self)
  with 2 show ?case by simp
qed

declare flen.simps [simp del]

definition flog :: "int \<Rightarrow> rat \<Rightarrow> int" where
  "flog b x = (if 1 \<le> x then flen b \<lfloor>x\<rfloor> - 1 else - flen b (\<lceil>1 / x\<rceil> - 1))"

definition round_half_even :: "rat \<Rightarrow> int" where
  "round_half_even x =
     (let n = \<lfloor>x\<rfloor>; f = x - of_int n in
      if f < 1 / 2 then n else if f > 1 / 2 then n + 1 else if even n then n else n + 1)"

definition rnd :: "int \<Rightarrow> int \<Rightarrow> int \<Rightarrow> rat \<Rightarrow> rat" where
  "rnd b p emin x =
     (if x = 0 then 0
      else let e = max (flog b \<bar>x\<bar> - (p - 1)) emin
           in of_int (round_half_even (x / of_int b powi e)) * of_int b powi e)"

lemma flen_nonneg: "0 \<le> flen b n"
  by (induction b n rule: flen.induct) (simp add: flen.simps)

lemma flen_bounds:
  assumes "1 < b" and "0 < n"
  shows "b ^ nat (flen b n - 1) \<le> n \<and> n < b ^ nat (flen b n) \<and> 1 \<le> flen b n"
  using assms
proof (induction b n rule: flen.induct)
  case (1 b n)
  show ?case
  proof (cases "n < b")
    case True
    with 1 have "n div b = 0" by simp
    with 1 True show ?thesis by (simp add: flen.simps [of b n] flen.simps [of b 0])
  next
    case False
    with 1 have d: "0 < n div b" by (simp add: pos_imp_zdiv_pos_iff)
    with 1 have IH: "b ^ nat (flen b (n div b) - 1) \<le> n div b"
        "n div b < b ^ nat (flen b (n div b))" "1 \<le> flen b (n div b)" by auto
    define k where "k = nat (flen b (n div b) - 1)"
    have k: "nat (flen b (n div b)) = Suc k" using IH(3) by (simp add: k_def)
    have f: "flen b n = int (Suc (Suc k))"
      using 1 IH(3) by (simp add: flen.simps [of b n] k_def)
    have dm: "n = b * (n div b) + n mod b" "0 \<le> n mod b" "n mod b < b"
      using 1 by auto
    have "b * b ^ k \<le> b * (n div b)"
      using IH(1) 1 by (simp add: k_def)
    then have lo: "b ^ Suc k \<le> n" unfolding power_Suc using dm by linarith
    have "n div b + 1 \<le> b ^ Suc k" using IH(2) k by simp
    then have "b * (n div b + 1) \<le> b * b ^ Suc k" using 1 by simp
    then have hi: "n < b ^ Suc (Suc k)"
      unfolding power_Suc distrib_left mult_1_right using dm by linarith
    have "nat (flen b n - 1) = Suc k" "nat (flen b n) = Suc (Suc k)" using f by simp_all
    then show ?thesis using lo hi f by simp
  qed
qed

lemma flog_bounds:
  assumes b: "1 < b" and x: "0 < x"
  shows "of_int b powi flog b x \<le> x" and "x < of_int b powi (flog b x + 1)"
proof -
  have B: "1 < (of_int b :: rat)" using b by simp
  have "of_int b powi flog b x \<le> x \<and> x < of_int b powi (flog b x + 1)"
  proof (cases "1 \<le> x")
    case True
    define k where "k = nat (flen b \<lfloor>x\<rfloor> - 1)"
    from True have "0 < \<lfloor>x\<rfloor>" by simp
    from flen_bounds [OF b this] have fb: "b ^ k \<le> \<lfloor>x\<rfloor>" "\<lfloor>x\<rfloor> < b ^ Suc k" "flen b \<lfloor>x\<rfloor> = int (Suc k)"
      by (auto simp: k_def Suc_nat_eq_nat_zadd1)
    have "of_int (b ^ k) \<le> x" using fb(1) by (simp only: le_floor_iff [symmetric])
    moreover have "x < of_int (b ^ Suc k)" using fb(2) by (simp only: floor_less_iff [symmetric])
    moreover have "flog b x = int k" using True fb(3) by (simp add: flog_def)
    moreover have "int k + 1 = int (Suc k)" by simp
    ultimately show ?thesis by (simp only: power_int_of_nat) simp
  next
    case False
    define m where "m = \<lceil>1 / x\<rceil> - 1"
    have "1 < 1 / x" using False x by simp
    then have m: "0 < m" by (simp add: m_def less_ceiling_iff)
    define k where "k = nat (flen b m - 1)"
    from flen_bounds [OF b m] have fb: "b ^ k \<le> m" "m < b ^ Suc k" "flen b m = int (Suc k)"
      by (auto simp: k_def Suc_nat_eq_nat_zadd1)
    have "of_int (b ^ k) < 1 / x"
      using fb(1) by (simp only: m_def less_ceiling_iff [symmetric])
    then have hi: "x < 1 / of_int b ^ k" using x B by (simp add: field_simps)
    have "1 / x \<le> of_int (b ^ Suc k)"
      using fb(2) by (simp only: m_def ceiling_le_iff [symmetric])
    then have lo: "1 / of_int b ^ Suc k \<le> x" using x B by (simp add: field_simps)
    have "flog b x = - int (Suc k)" using False fb(3) by (simp add: flog_def m_def)
    moreover have "- int (Suc k) + 1 = - int k" by simp
    ultimately show ?thesis
      using lo hi by (simp only: power_int_minus_divide power_int_of_nat)
  qed
  then show "of_int b powi flog b x \<le> x" and "x < of_int b powi (flog b x + 1)" by auto
qed

section \<open>Rounding to an integer, half to even\<close>

lemma rhe_of_int [simp]: "round_half_even (of_int n) = n"
  by (simp add: round_half_even_def)

lemma rhe_0 [simp]: "round_half_even 0 = 0"
  using rhe_of_int [of 0] by simp

lemma rhe_error: "\<bar>of_int (round_half_even x) - x\<bar> \<le> 1 / 2"
proof -
  define n where "n = \<lfloor>x\<rfloor>"
  have "of_int n \<le> x" "x < of_int n + 1" unfolding n_def by linarith+
  then show ?thesis
    unfolding round_half_even_def Let_def abs_le_iff n_def [symmetric] by auto
qed

lemma rhe_mono: "x \<le> y \<Longrightarrow> round_half_even x \<le> round_half_even y"
proof -
  assume xy: "x \<le> y"
  show ?thesis
  proof (cases "\<lfloor>x\<rfloor> = \<lfloor>y\<rfloor>")
    case True
    with xy show ?thesis by (auto simp: round_half_even_def Let_def)
  next
    case False
    then have "\<lfloor>x\<rfloor> + 1 \<le> \<lfloor>y\<rfloor>" using floor_mono [OF xy] by simp
    moreover have "round_half_even x \<le> \<lfloor>x\<rfloor> + 1" "\<lfloor>y\<rfloor> \<le> round_half_even y"
      by (auto simp: round_half_even_def Let_def)
    ultimately show ?thesis by simp
  qed
qed

lemma rhe_minus: "round_half_even (- x) = - round_half_even x"
proof (cases "x = of_int \<lfloor>x\<rfloor>")
  case True
  then show ?thesis by (metis of_int_minus rhe_of_int)
next
  case False
  then have "\<lfloor>- x\<rfloor> = - \<lfloor>x\<rfloor> - 1"
    by (metis add_uminus_conv_diff ceiling_altdef ceiling_def minus_add_distrib minus_minus)
  then show ?thesis
    by (auto simp: round_half_even_def Let_def)
qed

lemma rhe_nonneg: "0 \<le> x \<Longrightarrow> 0 \<le> round_half_even x"
  using rhe_mono [of 0 x] by simp

lemma rhe_le_int: "x \<le> of_int n \<Longrightarrow> round_half_even x \<le> n"
  using rhe_mono [of x "of_int n"] by simp

lemma rhe_ge_int: "of_int n \<le> x \<Longrightarrow> n \<le> round_half_even x"
  using rhe_mono [of "of_int n" x] by simp

section \<open>Evaluation\<close>

text \<open>
  The equations that evaluation uses: rounding on the numerator and the denominator, with powers by
  squaring and digit counts in strides, so that a rational is brought to lowest terms once per
  rounding.
\<close>

function ipow :: "int \<Rightarrow> int \<Rightarrow> int" where
  "ipow b k = (if k \<le> 0 then 1 else let h = ipow b (k div 2) in if even k then h * h else b * (h * h))"
  by auto
termination by (relation "measure (\<lambda>(b, k). nat k)") auto

declare ipow.simps [simp del]

lemma ipow_eq: "ipow b k = b ^ nat k"
proof (induction b k rule: ipow.induct)
  case (1 b k)
  show ?case
  proof (cases "k \<le> 0")
    case False
    have "nat k = nat (k div 2) + nat (k div 2) + (if even k then 0 else 1)"
      using False by (auto elim!: evenE oddE)
    then show ?thesis using 1 False
      by (subst ipow.simps) (simp add: Let_def power_add)
  qed (simp add: ipow.simps)
qed

fun flen_chunks :: "int list \<Rightarrow> int \<Rightarrow> int \<Rightarrow> int" where
  "flen_chunks [] b n = flen b n"
| "flen_chunks (k # ks) b n = (let c = ipow b k in if c \<le> n then k + flen_chunks ks b (n div c) else flen_chunks ks b n)"

lemma flen_div: "1 < b \<Longrightarrow> b ^ k \<le> n \<Longrightarrow> flen b n = int k + flen b (n div b ^ k)"
proof (induction k arbitrary: n)
  case (Suc k)
  have pos: "0 < b ^ k" "0 < b" using Suc.prems by simp_all
  have le: "b ^ k * b \<le> n" using Suc.prems by (simp add: mult.commute)
  then have "0 < n" using pos by (meson less_le_trans zero_less_mult_iff)
  have "b ^ k * b div b \<le> n div b" by (rule zdiv_mono1 [OF le pos(2)])
  then have "b ^ k \<le> n div b" using pos by simp
  then have "flen b (n div b) = int k + flen b (n div b div b ^ k)" using Suc by blast
  then show ?case using Suc.prems(1) \<open>0 < n\<close> pos by (subst flen.simps) (simp add: zdiv_zmult2_eq)
qed simp

declare flen_chunks.simps [simp del]

lemma flen_chunks_eq: "1 < b \<Longrightarrow> list_all (\<lambda>k. 0 \<le> k) ks \<Longrightarrow> flen_chunks ks b n = flen b n"
proof (induction ks arbitrary: n)
  case (Cons k ks)
  then show ?case using flen_div [of b "nat k" n]
    by (auto simp: flen_chunks.simps Let_def ipow_eq)
qed (simp add: flen_chunks.simps)

definition flog_int :: "int \<Rightarrow> int \<Rightarrow> int \<Rightarrow> int" where
  "flog_int b a d =
     (if d \<le> a then flen_chunks [64, 32, 16, 8, 4] b (a div d) - 1
      else - flen_chunks [64, 32, 16, 8, 4] b ((d - 1) div a))"

lemma flog_int_eq: "1 < b \<Longrightarrow> 0 < a \<Longrightarrow> 0 < d \<Longrightarrow> flog_int b a d = flog b (of_int a / of_int d)"
proof -
  assume b: "1 < b" "0 < a" "0 < d"
  have "\<lceil>(of_int d :: rat) / of_int a\<rceil> - 1 = (d - 1) div a"
  proof -
    have "\<lceil>(of_int d :: rat) / of_int a\<rceil> = - ((- d) div a)"
      unfolding ceiling_def minus_divide_left of_int_minus [symmetric] floor_divide_of_int_eq ..
    also have "\<dots> = (d - 1) div a + 1"
    proof -
      have m: "0 \<le> (d - 1) mod a" "(d - 1) mod a < a" using b by simp_all
      have "- d = a * (- ((d - 1) div a) - 1) + (a - 1 - (d - 1) mod a)"
        using mult_div_mod_eq [of a "d - 1"] by (simp add: algebra_simps)
      then have "- d div a = - ((d - 1) div a) - 1"
        by (rule int_div_pos_eq) (use m in simp_all)
      then show ?thesis by simp
    qed
    finally show ?thesis by simp
  qed
  then show ?thesis using b
    by (simp add: flog_int_def flog_def flen_chunks_eq floor_divide_of_int_eq)
qed

definition rhe_int :: "int \<Rightarrow> int \<Rightarrow> int" where
  "rhe_int n d = (let q = n div d; r = 2 * (n mod d) in
     if r < d then q else if d < r then q + 1 else if even q then q else q + 1)"

lemma rhe_int_eq: "0 < d \<Longrightarrow> round_half_even (of_int n / of_int d) = rhe_int n d"
proof -
  assume d: "0 < d"
  have f: "\<lfloor>(of_int n :: rat) / of_int d\<rfloor> = n div d" by (rule floor_divide_of_int_eq)
  have "of_int n = of_int (n div d) * of_int d + (of_int (n mod d) :: rat)"
    by (metis div_mult_mod_eq of_int_add of_int_mult)
  then have r: "(of_int n :: rat) / of_int d - of_int (n div d) = of_int (n mod d) / of_int d"
    using d by (simp add: field_simps)
  have "(of_int (n mod d) / of_int d < (1 / 2 :: rat)) = (2 * (n mod d) < d)"
    using d by (simp add: field_simps flip: of_int_mult) (metis of_int_less_iff of_int_mult of_int_numeral)
  moreover have "((1 / 2 :: rat) < of_int (n mod d) / of_int d) = (d < 2 * (n mod d))"
    using d by (simp add: field_simps) (metis of_int_less_iff of_int_mult of_int_numeral)
  ultimately show ?thesis unfolding round_half_even_def rhe_int_def Let_def f r
    by (auto simp only: split: if_split)
qed

definition rnd_int :: "int \<Rightarrow> int \<Rightarrow> int \<Rightarrow> int \<Rightarrow> int \<Rightarrow> rat" where
  "rnd_int b p emin n d =
     (let e = max (flog_int b \<bar>n\<bar> d - (p - 1)) emin
      in if 0 \<le> e then of_int (rhe_int n (d * ipow b e) * ipow b e)
         else of_int (rhe_int (n * ipow b (- e)) d) / of_int (ipow b (- e)))"

definition rnd_plain :: "int \<Rightarrow> int \<Rightarrow> int \<Rightarrow> rat \<Rightarrow> rat" where
  "rnd_plain b p emin x = of_int (round_half_even (x / of_int b powi max (flog b \<bar>x\<bar> - (p - 1)) emin))
     * of_int b powi max (flog b \<bar>x\<bar> - (p - 1)) emin"

lemma rnd_code [code]:
  "rnd b p emin x =
     (if x = 0 then 0 else if b \<le> 1 then rnd_plain b p emin x
      else case quotient_of x of (n, d) \<Rightarrow> rnd_int b p emin n d)"
proof (cases "b \<le> 1 \<or> x = 0")
  case False
  obtain n d where q: "quotient_of x = (n, d)" by force
  have d: "0 < d" and x: "x = of_int n / of_int d"
    using quotient_of_denom_pos [OF q] quotient_of_div [OF q] by auto
  have n: "n \<noteq> 0" using x False by auto
  have ax: "\<bar>x\<bar> = of_int \<bar>n\<bar> / of_int d" using x d by simp
  have fg: "flog b \<bar>x\<bar> = flog_int b \<bar>n\<bar> d" using flog_int_eq [of b "\<bar>n\<bar>" d] False n d by (simp add: ax)
  define e where "e = max (flog_int b \<bar>n\<bar> d - (p - 1)) emin"
  have B: "0 < b" using False by simp
  show ?thesis
  proof (cases "0 \<le> e")
    case True
    have "x / of_int b powi e = of_int n / of_int (d * ipow b e)"
      using True by (simp add: x ipow_eq power_int_def)
    then have "round_half_even (x / of_int b powi e) = rhe_int n (d * ipow b e)"
      using rhe_int_eq [of "d * ipow b e" n] d B by (simp add: ipow_eq)
    moreover have "of_int b powi e = (of_int (ipow b e) :: rat)" using True by (simp add: ipow_eq power_int_def)
    ultimately show ?thesis using False True by (simp add: rnd_def fg e_def [symmetric] Let_def q rnd_int_def)
  next
    case neg: False
    have "x / of_int b powi e = of_int (n * ipow b (- e)) / of_int d"
      using neg by (simp add: x ipow_eq power_int_def field_simps)
    then have "round_half_even (x / of_int b powi e) = rhe_int (n * ipow b (- e)) d"
      using rhe_int_eq [of d "n * ipow b (- e)"] d by (simp add: ipow_eq)
    moreover have "of_int b powi e = 1 / (of_int (ipow b (- e)) :: rat)"
      using neg by (simp add: ipow_eq power_int_def field_simps)
    ultimately show ?thesis using False neg by (simp add: rnd_def fg e_def [symmetric] Let_def q rnd_int_def)
  qed
qed (auto simp: rnd_def rnd_plain_def Let_def)

section \<open>Rounding to a given precision\<close>

locale rounding =
  fixes b p emin :: int
  assumes base: "1 < b" and prec: "1 \<le> p"
begin

abbreviation "B \<equiv> (of_int b :: rat)"
abbreviation "ex x \<equiv> max (flog b \<bar>x\<bar> - (p - 1)) emin"
abbreviation "R \<equiv> rnd b p emin"

lemma B_gt_1: "1 < B" using base by simp

lemma powi_le: "i \<le> j \<Longrightarrow> B powi i \<le> B powi j"
  using B_gt_1 by (intro power_int_increasing) auto

lemma powi_pos [simp]: "0 < B powi i"
  using B_gt_1 by (intro zero_less_power_int) auto

lemma powi_ge_0 [simp]: "0 \<le> B powi i" and powi_ne_0 [simp]: "B powi i \<noteq> 0"
  using powi_pos [of i] by (auto simp del: powi_pos power_int_eq_0_iff)

lemma powi_less_imp: "B powi i < B powi j \<Longrightarrow> i < j"
  using powi_le [of j i] by (cases "i < j") auto

lemma powi_nonneg_of_int: "0 \<le> i \<Longrightarrow> B powi i = of_int (b ^ nat i)"
  by (simp add: power_int_nonneg_exp)

lemma R_0 [simp]: "R 0 = 0"
  by (simp add: rnd_def)

lemma R_minus: "R (- x) = - R x"
  by (simp add: rnd_def Let_def rhe_minus)

lemma R_pos_form: "0 < x \<Longrightarrow> R x = of_int (round_half_even (x / B powi ex x)) * B powi ex x"
  by (simp add: rnd_def Let_def)

lemma flog_mono: "0 < x \<Longrightarrow> x \<le> y \<Longrightarrow> flog b x \<le> flog b y"
proof -
  assume "0 < x" "x \<le> y"
  then have "B powi flog b x < B powi (flog b y + 1)"
    using flog_bounds [OF base, of x] flog_bounds [OF base, of y] by auto
  then have "flog b x < flog b y + 1" by (rule powi_less_imp)
  then show ?thesis by simp
qed

lemma R_upper: "0 < x \<Longrightarrow> R x \<le> B powi (ex x + p)"
proof -
  assume x: "0 < x"
  have "x < B powi (flog b x + 1)" by (rule flog_bounds [OF base x])
  also have "\<dots> \<le> B powi (ex x + p)" using x by (intro powi_le) auto
  also have "\<dots> = B powi ex x * B powi p" using B_gt_1 by (simp add: power_int_add)
  finally have "x / B powi ex x \<le> B powi p" by (simp add: pos_divide_le_eq mult.commute)
  then have "x / B powi ex x \<le> of_int (b ^ nat p)" using prec by (simp add: powi_nonneg_of_int)
  then have "round_half_even (x / B powi ex x) \<le> b ^ nat p" by (rule rhe_le_int)
  then have "of_int (round_half_even (x / B powi ex x)) \<le> B powi p"
    using prec by (simp add: powi_nonneg_of_int del: of_int_power)
  then show ?thesis
    using B_gt_1 x by (simp add: R_pos_form power_int_add mult.commute)
qed

lemma R_lower:
  assumes x: "0 < x" and e: "ex x = flog b x - (p - 1)"
  shows "B powi (ex x + (p - 1)) \<le> R x"
proof -
  have "B powi ex x * B powi (p - 1) = B powi flog b x"
    using e B_gt_1 by (simp add: power_int_add [symmetric])
  also have "\<dots> \<le> x" by (rule flog_bounds [OF base x])
  finally have "of_int (b ^ nat (p - 1)) \<le> x / B powi ex x"
    using prec by (simp add: powi_nonneg_of_int pos_le_divide_eq mult.commute)
  then have "b ^ nat (p - 1) \<le> round_half_even (x / B powi ex x)" by (rule rhe_ge_int)
  then have "B powi (p - 1) \<le> of_int (round_half_even (x / B powi ex x))"
    using prec by (simp add: powi_nonneg_of_int del: of_int_power)
  then show ?thesis
    using B_gt_1 x by (simp add: R_pos_form power_int_add mult.commute)
qed

lemma R_nonneg: "0 \<le> x \<Longrightarrow> 0 \<le> R x"
  by (cases "x = 0") (auto simp: R_pos_form intro!: mult_nonneg_nonneg rhe_nonneg divide_nonneg_nonneg)

lemma R_mono_pos:
  assumes x: "0 < x" and xy: "x \<le> y"
  shows "R x \<le> R y"
proof -
  have y: "0 < y" using x xy by simp
  have le: "ex x \<le> ex y" using flog_mono [OF x xy] x y by (auto simp: max_def)
  show ?thesis
  proof (cases "ex x = ex y")
    case True
    have "x / B powi ex x \<le> y / B powi ex x" using xy by (intro divide_right_mono) auto
    from rhe_mono [OF this] show ?thesis
      using x y True by (simp add: R_pos_form)
  next
    case False
    then have lt: "ex x < ex y" using le by (rule order.not_eq_order_implies_strict)
    have "emin \<le> ex x" by simp
    then have "emin < ex y" using lt by (rule order.strict_trans1)
    then have "ex y = flog b y - (p - 1)" using y by (auto simp: max_def split: if_splits)
    from R_lower [OF y this] have "B powi (ex y + (p - 1)) \<le> R y" .
    moreover have "B powi (ex x + p) \<le> B powi (ex y + (p - 1))"
      using lt by (intro powi_le) auto
    ultimately show ?thesis using R_upper [OF x] by simp
  qed
qed

lemma R_mono: "x \<le> y \<Longrightarrow> R x \<le> R y"
proof -
  assume xy: "x \<le> y"
  consider "0 < x" | "x \<le> 0" "0 \<le> y" | "y < 0" using xy by linarith
  then show ?thesis
  proof cases
    case 1 then show ?thesis using xy by (rule R_mono_pos)
  next
    case 2
    then have "R x \<le> 0" using R_nonneg [of "- x"] by (simp add: R_minus)
    then show ?thesis using R_nonneg [OF 2(2)] by simp
  next
    case 3
    then have "R (- y) \<le> R (- x)" using xy by (intro R_mono_pos) auto
    then show ?thesis by (simp add: R_minus)
  qed
qed

lemma R_nonpos: "x \<le> 0 \<Longrightarrow> R x \<le> 0"
  using R_mono [of x 0] by simp

text \<open>A number with at most \<open>p\<close> digits is its own rounding.\<close>

lemma R_exact_pos:
  assumes x: "x = of_int m * B powi e" and m: "0 < m" "m \<le> b ^ nat p" and e: "emin \<le> e"
  shows "R x = x"
proof -
  have xpos: "0 < x" using x m by simp
  have exact: "R x = x" if "x / B powi ex x = of_int k" for k
  proof -
    have "R x = of_int k * B powi ex x" using R_pos_form [OF xpos] that by simp
    also have "\<dots> = x" using powi_ne_0 [of "ex x"] by (simp add: that [symmetric] del: power_int_eq_0_iff)
    finally show ?thesis .
  qed
  have quot: "B powi i / B powi j = of_int (b ^ nat (i - j))" if "j \<le> i" for i j
  proof -
    have "B powi i = B powi j * B powi (i - j)"
      using B_gt_1 by (simp add: power_int_add [symmetric])
    then have "B powi i / B powi j = B powi (i - j)"
      using powi_ne_0 [of j] by (simp del: power_int_eq_0_iff)
    then show ?thesis using that by (simp add: powi_nonneg_of_int)
  qed
  show ?thesis
  proof (cases "m = b ^ nat p")
    case True
    then have xe: "x = B powi (p + e)"
      using x prec B_gt_1 by (simp add: power_int_add powi_nonneg_of_int)
    have "B powi flog b x < B powi (p + e + 1)"
      using flog_bounds [OF base xpos] powi_le [of "p + e" "p + e + 1"] xe
      by (metis add.commute le_less_trans less_le_not_le linorder_not_le power_int_strict_increasing
          B_gt_1 zless_add1_eq)
    then have "flog b x < p + e + 1" by (rule powi_less_imp)
    then have "ex x \<le> p + e" using xpos e prec by auto
    then have "x / B powi ex x = of_int (b ^ nat (p + e - ex x))" unfolding xe by (rule quot)
    then show ?thesis by (rule exact)
  next
    case False
    then have "of_int m < B powi p" using m prec
      by (simp add: powi_nonneg_of_int del: of_int_power)
    then have "x < B powi (p + e)"
      using x B_gt_1 by (simp add: power_int_add)
    then have "B powi flog b x < B powi (p + e)" using flog_bounds [OF base xpos] by simp
    then have "flog b x < p + e" by (rule powi_less_imp)
    then have "ex x \<le> e" using xpos e by auto
    have "x / B powi ex x = of_int m * (B powi e / B powi ex x)"
      by (subst (1) x) (rule times_divide_eq_right [symmetric])
    also have "\<dots> = of_int (m * b ^ nat (e - ex x))" using quot [OF \<open>ex x \<le> e\<close>] by simp
    finally show ?thesis by (rule exact)
  qed
qed

lemma R_exact:
  assumes x: "x = of_int m * B powi e" and m: "\<bar>m\<bar> \<le> b ^ nat p" and e: "emin \<le> e"
  shows "R x = x"
proof -
  consider "m = 0" | "0 < m" | "m < 0" by linarith
  then show ?thesis
  proof cases
    case 1 then show ?thesis using x by simp
  next
    case 2 then show ?thesis using R_exact_pos [OF x _ _ e] m by simp
  next
    case 3
    then have "R (- x) = - x" using m e x by (intro R_exact_pos [of _ "- m" e]) auto
    then show ?thesis by (simp add: R_minus)
  qed
qed

lemma R_of_int: "\<bar>m\<bar> \<le> b ^ nat p \<Longrightarrow> emin \<le> 0 \<Longrightarrow> R (of_int m) = of_int m"
  by (rule R_exact [of _ m 0]) auto

lemma R_form: "\<exists>m e. R x = of_int m * B powi e \<and> \<bar>m\<bar> \<le> b ^ nat p \<and> emin \<le> e"
proof -
  have pos: "\<exists>m e. R x = of_int m * B powi e \<and> \<bar>m\<bar> \<le> b ^ nat p \<and> emin \<le> e" if x: "0 < x" for x
  proof -
    have "of_int (round_half_even (x / B powi ex x)) * B powi ex x \<le> B powi p * B powi ex x"
      using R_upper [OF x] R_pos_form [OF x] B_gt_1 by (simp add: power_int_add mult.commute)
    then have "round_half_even (x / B powi ex x) \<le> b ^ nat p"
      using prec by (simp add: powi_nonneg_of_int del: of_int_power)
    moreover have "0 \<le> round_half_even (x / B powi ex x)"
      using x by (intro rhe_nonneg divide_nonneg_nonneg) auto
    moreover have "emin \<le> ex x" by simp
    ultimately show ?thesis using R_pos_form [OF x] by (metis abs_of_nonneg)
  qed
  consider "x = 0" | "0 < x" | "0 < - x" by linarith
  then show ?thesis
  proof cases
    case 1 then show ?thesis using base by (intro exI [of _ 0] exI [of _ emin]) auto
  next
    case 2 then show ?thesis by (rule pos)
  next
    case 3
    from pos [OF this] obtain m e where
      "R (- x) = of_int m * B powi e" "\<bar>m\<bar> \<le> b ^ nat p" "emin \<le> e" by blast
    then show ?thesis by (intro exI [of _ "- m"] exI [of _ e]) (auto simp: R_minus)
  qed
qed

lemma R_idem [simp]: "R (R x) = R x"
  using R_form [of x] by (auto intro: R_exact)

text \<open>Moving the point to the right keeps the digits.\<close>

lemma R_scale: "0 \<le> k \<Longrightarrow> R (R x * B powi k) = R x * B powi k"
proof -
  assume k: "0 \<le> k"
  obtain m e where me: "R x = of_int m * B powi e" "\<bar>m\<bar> \<le> b ^ nat p" "emin \<le> e"
    using R_form [of x] by blast
  then have "R x * B powi k = of_int m * B powi (e + k)"
    using B_gt_1 by (simp add: power_int_add mult.assoc)
  then show ?thesis using me k by (intro R_exact [of _ m "e + k"]) auto
qed

end

section \<open>Binary64\<close>

abbreviation fl :: "rat \<Rightarrow> rat" where
  "fl \<equiv> rnd 2 53 (-1074)"

abbreviation is_float :: "rat \<Rightarrow> bool" where
  "is_float x \<equiv> fl x = x"

definition fadd :: "rat \<Rightarrow> rat \<Rightarrow> rat" where "fadd x y = fl (x + y)"

definition fsub :: "rat \<Rightarrow> rat \<Rightarrow> rat" where "fsub x y = fl (x - y)"

definition fmul :: "rat \<Rightarrow> rat \<Rightarrow> rat" where "fmul x y = fl (x * y)"

definition fdiv :: "rat \<Rightarrow> rat \<Rightarrow> rat" where "fdiv x y = fl (x / y)"

text \<open>Python's \<open>sum\<close> over floats, accumulated from the left from 0.\<close>

definition fsum :: "rat list \<Rightarrow> rat" where "fsum xs = fold (\<lambda>x acc. fadd acc x) xs 0"

text \<open>Python's \<open>round(x, n)\<close>: the nearest multiple of \<open>10 ^ -n\<close>, as a float.\<close>

definition py_round :: "rat \<Rightarrow> nat \<Rightarrow> rat" where
  "py_round x n = fl (of_int (round_half_even (x * 10 ^ n)) / 10 ^ n)"

interpretation f64: rounding 2 53 "-1074"
  by unfold_locales auto

interpretation d28: rounding 10 28 "-1000026"
  by unfold_locales auto

lemmas fl_mono = f64.R_mono and fl_idem = f64.R_idem

lemma fl_0 [simp]: "fl 0 = 0" by (rule f64.R_0)

lemma fl_int: "\<bar>m\<bar> \<le> 9007199254740992 \<Longrightarrow> fl (of_int m) = of_int m"
  by (rule f64.R_of_int) auto

lemma fl_nat: "n \<le> 9007199254740992 \<Longrightarrow> fl (of_nat n) = of_nat n"
  using fl_int [of "int n"] by simp

lemma fl_1 [simp, fl_simps]: "fl 1 = 1"
  using fl_int [of 1] by simp

lemma fl_numeral [fl_simps]: "numeral k \<le> (9007199254740992 :: int) \<Longrightarrow> fl (numeral k) = numeral k"
  using fl_int [of "numeral k"] by simp

lemma fl_ge: "is_float a \<Longrightarrow> a \<le> x \<Longrightarrow> a \<le> fl x"
  using fl_mono [of a x] by simp

lemma fl_le: "is_float a \<Longrightarrow> x \<le> a \<Longrightarrow> fl x \<le> a"
  using fl_mono [of x a] by simp

lemma fl_nonneg [fl_intros]: "0 \<le> x \<Longrightarrow> 0 \<le> fl x"
  by (rule f64.R_nonneg)

lemma is_float_ops [simp]:
  "is_float (fadd x y)" "is_float (fsub x y)" "is_float (fmul x y)" "is_float (fdiv x y)"
  by (simp_all add: fadd_def fsub_def fmul_def fdiv_def)

lemma fadd_nonneg [fl_intros]: "0 \<le> x \<Longrightarrow> 0 \<le> y \<Longrightarrow> 0 \<le> fadd x y"
  by (simp add: fadd_def fl_nonneg)

lemma fmul_nonneg [fl_intros]: "0 \<le> x \<Longrightarrow> 0 \<le> y \<Longrightarrow> 0 \<le> fmul x y"
  by (simp add: fmul_def fl_nonneg)

lemma fdiv_nonneg [fl_intros]: "0 \<le> x \<Longrightarrow> 0 \<le> y \<Longrightarrow> 0 \<le> fdiv x y"
  by (simp add: fdiv_def fl_nonneg)

lemma fsub_nonneg [fl_intros]: "y \<le> x \<Longrightarrow> 0 \<le> fsub x y"
  by (simp add: fsub_def fl_nonneg)

lemma fsub_self [simp]: "fsub x x = 0" and fmul_0 [simp]: "fmul x 0 = 0" "fmul 0 x = 0"
  by (simp_all add: fsub_def fmul_def)

lemma fsub_0 [simp]: "is_float x \<Longrightarrow> fsub x 0 = x"
  and fadd_0 [simp]: "is_float x \<Longrightarrow> fadd x 0 = x" "is_float x \<Longrightarrow> fadd 0 x = x"
  and fmul_1 [simp]: "is_float x \<Longrightarrow> fmul x 1 = x" "is_float x \<Longrightarrow> fmul 1 x = x"
  by (simp_all add: fsub_def fadd_def fmul_def)

lemma fsub_le: "is_float x \<Longrightarrow> 0 \<le> y \<Longrightarrow> fsub x y \<le> x"
  unfolding fsub_def by (rule fl_le) auto

lemma fadd_ge: "is_float x \<Longrightarrow> 0 \<le> y \<Longrightarrow> x \<le> fadd x y"
  unfolding fadd_def by (rule fl_ge) auto

lemma fadd_mono: "x \<le> x' \<Longrightarrow> y \<le> y' \<Longrightarrow> fadd x y \<le> fadd x' y'"
  unfolding fadd_def by (rule fl_mono) auto

lemma fsub_mono: "x \<le> x' \<Longrightarrow> y' \<le> y \<Longrightarrow> fsub x y \<le> fsub x' y'"
  unfolding fsub_def by (rule fl_mono) auto

lemma fsum_fold_nonneg: "0 \<le> a \<Longrightarrow> (\<And>x. x \<in> set xs \<Longrightarrow> 0 \<le> x) \<Longrightarrow> 0 \<le> fold (\<lambda>x acc. fadd acc x) xs a"
  by (induction xs arbitrary: a) (auto intro!: fl_intros)

lemma fsum_nonneg [fl_intros]: "(\<And>x. x \<in> set xs \<Longrightarrow> 0 \<le> x) \<Longrightarrow> 0 \<le> fsum xs"
  by (simp add: fsum_def fsum_fold_nonneg)

lemma fsum_Nil [simp]: "fsum [] = 0"
  by (simp add: fsum_def)

text \<open>The difference of two whole numbers of moderate size is exact.\<close>

lemma fsub_int: "\<bar>m - n\<bar> \<le> 9007199254740992 \<Longrightarrow> fsub (of_int m) (of_int n) = of_int (m - n)"
  unfolding fsub_def of_int_diff [symmetric] by (rule fl_int)

lemma fadd_int: "\<bar>m + n\<bar> \<le> 9007199254740992 \<Longrightarrow> fadd (of_int m) (of_int n) = of_int (m + n)"
  unfolding fadd_def of_int_add [symmetric] by (rule fl_int)

section \<open>Decimal arithmetic\<close>

abbreviation dec28 :: "rat \<Rightarrow> rat" where
  "dec28 \<equiv> rnd 10 28 (-1000026)"

text \<open>
  \<open>repr_dec x\<close> is the value of \<open>Decimal(str(x))\<close>: \<open>str\<close> prints the decimal of fewest digits that
  reads back as \<open>x\<close>, the nearest one when several have that many digits. Seventeen digits are
  enough for every binary64 value; were none of them to read back, the value itself is used.
\<close>

definition repr_cand :: "int \<Rightarrow> rat \<Rightarrow> rat option" where
  "repr_cand n x =
     (let u = 10 powi (flog 10 \<bar>x\<bar> - (n - 1));
          lo = of_int \<lfloor>x / u\<rfloor> * u; hi = of_int \<lceil>x / u\<rceil> * u in
      if fl lo = x \<and> (fl hi = x \<longrightarrow> x - lo \<le> hi - x) then Some lo
      else if fl hi = x then Some hi else None)"

text \<open>The candidate of \<open>n\<close> digits, computed on numerator and denominator.\<close>

definition repr_cand_int :: "int \<Rightarrow> rat \<Rightarrow> int \<Rightarrow> int \<Rightarrow> rat option" where
  "repr_cand_int k x n d =
     (let e = flog_int 10 \<bar>n\<bar> d - (k - 1); pw = ipow 10 \<bar>e\<bar>;
          a = (if 0 \<le> e then n else n * pw); c = (if 0 \<le> e then d * pw else d);
          back = (\<lambda>q. if 0 \<le> e then of_int (q * pw) else of_int q / of_int pw);
          lo = back (a div c); hi = back (- ((- a) div c))
      in if fl lo = x \<and> (fl hi = x \<longrightarrow> x - lo \<le> hi - x) then Some lo
         else if fl hi = x then Some hi else None)"

lemma repr_cand_code [code]:
  "repr_cand k x = (if x = 0 then Some 0 else case quotient_of x of (n, d) \<Rightarrow> repr_cand_int k x n d)"
proof (cases "x = 0")
  case False
  obtain n d where q: "quotient_of x = (n, d)" by force
  have d: "0 < d" and x: "x = of_int n / of_int d"
    using quotient_of_denom_pos [OF q] quotient_of_div [OF q] by auto
  have fg: "flog 10 \<bar>x\<bar> = flog_int 10 \<bar>n\<bar> d" using flog_int_eq [of 10 "\<bar>n\<bar>" d] False d by (simp add: x)
  define e where "e = flog_int 10 \<bar>n\<bar> d - (k - 1)"
  define u where "u = (10 :: rat) powi e"
  define a where "a = (if 0 \<le> e then n else n * ipow 10 \<bar>e\<bar>)"
  define c where "c = (if 0 \<le> e then d * ipow 10 \<bar>e\<bar> else d)"
  have xu: "x / u = of_int a / of_int c"
    by (simp add: u_def x a_def c_def ipow_eq power_int_def field_simps)
  have b: "of_int m * u = (if 0 \<le> e then of_int (m * ipow 10 \<bar>e\<bar>) else of_int m / of_int (ipow 10 \<bar>e\<bar>))" for m
    by (simp add: u_def ipow_eq power_int_def field_simps)
  have fc: "\<lfloor>x / u\<rfloor> = a div c" "\<lceil>x / u\<rceil> = - ((- a) div c)"
    unfolding xu ceiling_def minus_divide_left of_int_minus [symmetric] floor_divide_of_int_eq by (rule refl)+
  have "repr_cand_int k x n d = repr_cand k x"
    unfolding repr_cand_def repr_cand_int_def fg Let_def e_def [symmetric] u_def [symmetric] fc
      a_def [symmetric] c_def [symmetric] b ..
  then show ?thesis using False q by simp
qed (simp add: repr_cand_def)

fun repr_from :: "nat \<Rightarrow> int \<Rightarrow> rat \<Rightarrow> rat" where
  "repr_from 0 n x = x"
| "repr_from (Suc k) n x = (case repr_cand n x of Some c \<Rightarrow> c | None \<Rightarrow> repr_from k (n + 1) x)"

definition repr_dec :: "rat \<Rightarrow> rat" where
  "repr_dec x = (if x = 0 then 0 else repr_from 17 1 x)"

lemma repr_cand_Some: "repr_cand n x = Some c \<Longrightarrow> fl c = x"
  by (auto simp: repr_cand_def Let_def split: if_splits)

lemma repr_from_fl: "is_float x \<Longrightarrow> fl (repr_from k n x) = x"
  by (induction k n x rule: repr_from.induct) (auto split: option.splits dest: repr_cand_Some)

lemma repr_dec_fl: "is_float x \<Longrightarrow> fl (repr_dec x) = x"
  by (simp add: repr_dec_def repr_from_fl)

lemma repr_dec_0 [simp]: "repr_dec 0 = 0"
  by (simp add: repr_dec_def)

lemma repr_dec_1 [simp]: "repr_dec 1 = 1"
  by code_simp

lemma repr_dec_nonneg: "is_float x \<Longrightarrow> 0 \<le> x \<Longrightarrow> 0 \<le> repr_dec x"
proof (rule ccontr)
  assume f: "is_float x" and "0 \<le> x" and neg: "\<not> 0 \<le> repr_dec x"
  then have "fl (repr_dec x) \<le> 0" by (intro f64.R_nonpos) auto
  with f \<open>0 \<le> x\<close> have "x = 0" by (simp add: repr_dec_fl)
  with neg show False by simp
qed

lemma repr_dec_le_1: "is_float x \<Longrightarrow> x \<le> 1 \<Longrightarrow> repr_dec x \<le> 1"
proof (rule ccontr)
  assume f: "is_float x" and "x \<le> 1" and big: "\<not> repr_dec x \<le> 1"
  then have "1 \<le> fl (repr_dec x)" by (intro fl_ge) auto
  with f \<open>x \<le> 1\<close> have "x = 1" by (simp add: repr_dec_fl)
  with big show False by simp
qed

end
