(* ===== verification/PyBase.thy ===== *)
theory PyBase
  imports Floating "HOL-Library.AList" "HOL-Library.Sublist" "HOL-Library.Char_ord"
begin

text \<open>
  The Python data the components share. A value decoded from JSON is a \<open>json\<close>; dictionaries
  keep insertion order and are association lists (\<open>AList.update\<close> replaces in place and appends
  a new key, as a Python dict does). \<open>py_float\<close>, \<open>py_str\<close> and \<open>truthy\<close> are the built-in
  conversions the source applies to untyped values, exceptions being the left of a sum. Strings
  are ASCII; \<open>float\<close> of the texts \<open>inf\<close>, \<open>nan\<close> and of digits grouped by underscores is read
  as a \<open>ValueError\<close>, since values of the model are finite.
\<close>

datatype pyexn = TypeError | ValueError | KeyError | AttributeError

datatype json =
    JNull
  | JBool bool
  | JInt int
  | JNum rat
  | JStr string
  | JList "json list"
  | JObj "(string \<times> json) list"

type_synonym obj = "(string \<times> json) list"

section \<open>Dictionaries\<close>

text \<open>\<open>d.get(k)\<close> and \<open>d.get(k, default)\<close>; \<open>a or b\<close> on values.\<close>

definition get_or :: "json \<Rightarrow> obj \<Rightarrow> string \<Rightarrow> json" where
  "get_or d ob k = (case map_of ob k of Some v \<Rightarrow> v | None \<Rightarrow> d)"

abbreviation get :: "obj \<Rightarrow> string \<Rightarrow> json" where
  "get \<equiv> get_or JNull"

fun truthy :: "json \<Rightarrow> bool" where
  "truthy JNull = False"
| "truthy (JBool b) = b"
| "truthy (JInt i) = (i \<noteq> 0)"
| "truthy (JNum x) = (x \<noteq> 0)"
| "truthy (JStr s) = (s \<noteq> [])"
| "truthy (JList xs) = (xs \<noteq> [])"
| "truthy (JObj ob) = (ob \<noteq> [])"

definition py_or :: "json \<Rightarrow> json \<Rightarrow> json" where
  "py_or a b = (if truthy a then a else b)"

text \<open>The first true value of a chain \<open>d.get(k1) or d.get(k2) or ...\<close>, the last one if none is.\<close>

fun get_first :: "obj \<Rightarrow> string list \<Rightarrow> json" where
  "get_first ob [] = JNull"
| "get_first ob [k] = get ob k"
| "get_first ob (k # ks) = py_or (get ob k) (get_first ob ks)"

fun is_obj :: "json \<Rightarrow> bool" where
  "is_obj (JObj ob) = True"
| "is_obj _ = False"

fun obj_of :: "json \<Rightarrow> obj" where
  "obj_of (JObj ob) = ob"
| "obj_of _ = []"

fun elems :: "json \<Rightarrow> json list" where
  "elems (JList xs) = xs"
| "elems _ = []"

section \<open>Strings\<close>

definition is_space :: "char \<Rightarrow> bool" where
  "is_space c \<longleftrightarrow> c \<in> set [CHR '' '', CHR 0x09, CHR 0x0A, CHR 0x0B, CHR 0x0C, CHR 0x0D,
     CHR 0x1C, CHR 0x1D, CHR 0x1E, CHR 0x1F]"

definition strip :: "string \<Rightarrow> string" where
  "strip s = rev (dropWhile is_space (rev (dropWhile is_space s)))"

definition char_lower :: "char \<Rightarrow> char" where
  "char_lower c = (let n = of_char c :: nat in
     if 65 \<le> n \<and> n \<le> 90 then char_of (n + 32) else c)"

definition char_upper :: "char \<Rightarrow> char" where
  "char_upper c = (let n = of_char c :: nat in
     if 97 \<le> n \<and> n \<le> 122 then char_of (n - 32) else c)"

definition lower :: "string \<Rightarrow> string" where "lower s = map char_lower s"

definition upper :: "string \<Rightarrow> string" where "upper s = map char_upper s"

text \<open>\<open>sub in s\<close> and \<open>s.startswith(p)\<close>.\<close>

definition contains :: "string \<Rightarrow> string \<Rightarrow> bool" where
  "contains pat s \<longleftrightarrow> list_ex (\<lambda>t. prefix pat t) (suffixes s)"

lemma contains_iff: "contains pat s \<longleftrightarrow> (\<exists>u v. s = u @ pat @ v)"
proof
  assume "contains pat s"
  then show "\<exists>u v. s = u @ pat @ v"
    by (auto simp: contains_def list_ex_iff) (metis prefix_def suffix_def)
next
  assume "\<exists>u v. s = u @ pat @ v"
  then obtain u v where s: "s = u @ pat @ v" by blast
  then have "pat @ v \<in> set (suffixes s)" by (auto simp: suffix_def)
  then show "contains pat s" unfolding contains_def list_ex_iff by (metis prefixI)
qed

definition is_digit :: "char \<Rightarrow> bool" where
  "is_digit c \<longleftrightarrow> 48 \<le> (of_char c :: nat) \<and> (of_char c :: nat) \<le> 57"

definition digit_val :: "char \<Rightarrow> int" where
  "digit_val c = int (of_char c) - 48"

definition digits_val :: "string \<Rightarrow> int" where
  "digits_val s = fold (\<lambda>c n. 10 * n + digit_val c) s 0"

text \<open>An optional sign: whether it is a minus, and the text after it.\<close>

definition take_sign :: "string \<Rightarrow> bool \<times> string" where
  "take_sign s = (case s of [] \<Rightarrow> (False, [])
     | c # t \<Rightarrow> if c = CHR ''-'' then (True, t) else if c = CHR ''+'' then (False, t) else (False, s))"

text \<open>
  \<open>float(s)\<close> of a string: white space around, a sign, digits with an optional point (at least
  one digit), an optional exponent, and nothing else.
\<close>

definition parse_exp :: "string \<Rightarrow> int option" where
  "parse_exp s = (case s of [] \<Rightarrow> Some 0
     | c # t \<Rightarrow> if c = CHR ''e'' \<or> c = CHR ''E''
         then let (neg, ds) = take_sign t in
              if ds \<noteq> [] \<and> list_all is_digit ds
              then Some (if neg then - digits_val ds else digits_val ds) else None
         else None)"

definition parse_num :: "string \<Rightarrow> rat option" where
  "parse_num s0 =
     (let (neg, s) = take_sign (strip s0);
          ip = takeWhile is_digit s; r = dropWhile is_digit s;
          fp = (if r \<noteq> [] \<and> hd r = CHR ''.'' then takeWhile is_digit (tl r) else []);
          r' = (if r \<noteq> [] \<and> hd r = CHR ''.'' then dropWhile is_digit (tl r) else r) in
      if ip = [] \<and> fp = [] then None
      else case parse_exp r' of None \<Rightarrow> None
        | Some e \<Rightarrow>
            let v = of_int (digits_val (ip @ fp)) * 10 powi (e - int (length fp))
            in Some (if neg then - v else v))"

definition parse_float :: "string \<Rightarrow> rat option" where
  "parse_float s = map_option fl (parse_num s)"

fun py_float :: "json \<Rightarrow> pyexn + rat" where
  "py_float (JInt i) = Inr (fl (of_int i))"
| "py_float (JNum x) = Inr x"
| "py_float (JBool b) = Inr (if b then 1 else 0)"
| "py_float (JStr s) = (case parse_float s of Some x \<Rightarrow> Inr x | None \<Rightarrow> Inl ValueError)"
| "py_float JNull = Inl TypeError"
| "py_float (JList xs) = Inl TypeError"
| "py_float (JObj ob) = Inl TypeError"

section \<open>Printing\<close>

function nat_digits :: "int \<Rightarrow> string" where
  "nat_digits n = (if n < 10 then [char_of (48 + nat n)]
     else nat_digits (n div 10) @ [char_of (48 + nat (n mod 10))])"
  by auto
termination
proof (relation "measure nat", goal_cases)
  case 1 show ?case by simp
next
  case (2 n)
  then have "n div 10 < n" "0 < n" by simp_all
  then show ?case by simp
qed

declare nat_digits.simps [simp del]

definition int_str :: "int \<Rightarrow> string" where
  "int_str i = (if i < 0 then CHR ''-'' # nat_digits (- i) else nat_digits i)"

definition rstrip_zeros :: "string \<Rightarrow> string" where
  "rstrip_zeros s = rev (dropWhile (\<lambda>c. c = CHR ''0'') (rev s))"

text \<open>\<open>repr\<close> of a float: shortest digits; scientific below 1e-4 and from 1e16.\<close>

definition float_repr :: "rat \<Rightarrow> string" where
  "float_repr x =
     (if x = 0 then ''0.0''
      else let c = \<bar>repr_dec x\<bar>; e = flog 10 c;
               ds = rstrip_zeros (nat_digits \<lfloor>c * 10 powi (16 - e)\<rfloor>);
               sgn = (if x < 0 then ''-'' else []);
               body =
                 (if e < -4 \<or> 16 \<le> e
                  then [hd ds] @ (if tl ds = [] then [] else ''.'' @ tl ds) @ ''e'' @
                       (if e < 0 then ''-'' else ''+'') @
                       (if \<bar>e\<bar> < 10 then ''0'' else []) @ nat_digits \<bar>e\<bar>
                  else if e < 0 then ''0.'' @ replicate (nat (- e - 1)) (CHR ''0'') @ ds
                  else let k = nat e + 1; ds' = ds @ replicate (k - length ds) (CHR ''0'') in
                       take k ds' @ ''.'' @ (if drop k ds' = [] then ''0'' else drop k ds'))
           in sgn @ body)"

definition str_quote :: "string \<Rightarrow> string" where
  "str_quote s =
     (let q = (if CHR 0x27 \<in> set s \<and> CHR 0x22 \<notin> set s then CHR 0x22 else CHR 0x27) in
      [q] @ concat (map (\<lambda>c. if c = q \<or> c = CHR 0x5C then [CHR 0x5C, c]
                             else if c = CHR 0x0A then [CHR 0x5C, CHR ''n'']
                             else if c = CHR 0x0D then [CHR 0x5C, CHR ''r'']
                             else if c = CHR 0x09 then [CHR 0x5C, CHR ''t''] else [c]) s) @ [q])"

definition comma_join :: "string list \<Rightarrow> string" where
  "comma_join ss = (case ss of [] \<Rightarrow> [] | s # r \<Rightarrow> s @ concat (map (\<lambda>t. '', '' @ t) r))"

fun py_repr :: "json \<Rightarrow> string" where
  "py_repr JNull = ''None''"
| "py_repr (JBool b) = (if b then ''True'' else ''False'')"
| "py_repr (JInt i) = int_str i"
| "py_repr (JNum x) = float_repr x"
| "py_repr (JStr s) = str_quote s"
| "py_repr (JList xs) = ''['' @ comma_join (map py_repr xs) @ '']''"
| "py_repr (JObj ob) =
     ''{'' @ comma_join (map (\<lambda>kv. str_quote (fst kv) @ '': '' @ py_repr (snd kv)) ob) @ ''}''"

fun py_str :: "json \<Rightarrow> string" where
  "py_str (JStr s) = s"
| "py_str v = py_repr v"

section \<open>Shared lemmas\<close>

lemma strip_Nil [simp]: "strip [] = []"
  by (simp add: strip_def)

lemma lower_Nil [simp]: "lower [] = []" and lower_append [simp]: "lower (s @ t) = lower s @ lower t"
  by (simp_all add: lower_def)

lemma py_or_simps [simp]: "truthy a \<Longrightarrow> py_or a b = a" "\<not> truthy a \<Longrightarrow> py_or a b = b"
  by (simp_all add: py_or_def)

lemma get_or_Nil [simp]: "get_or d [] k = d"
  by (simp add: get_or_def)

lemma get_or_Cons [simp]:
  "get_or d ((k', v) # ob) k = (if k' = k then v else get_or d ob k)"
  by (simp add: get_or_def)

lemma py_float_is_float: "py_float v = Inr x \<Longrightarrow> (\<And>y. v = JNum y \<Longrightarrow> is_float y) \<Longrightarrow> is_float x"
  by (cases v) (auto split: option.splits if_splits simp: parse_float_def Let_def prod.case_eq_if)

lemma distinct_keys_update:
  "distinct (map fst al) \<Longrightarrow> distinct (map fst (AList.update k v al))"
  by (rule distinct_update)

lemma map_of_update: "map_of (AList.update k v al) j = (if j = k then Some v else map_of al j)"
  by (simp add: update_conv)

end
