(* ===== verification/Config.thy ===== *)
theory Config
  imports PyBase
begin

text \<open>
  The execution settings of \<open>config.py\<close> the modelled components read, as a record with the
  source's names, and the values the source gives them. Every operation takes the configuration
  as an argument: tests and operators change it at run time, and no operation writes it. Float
  settings hold the binary64 value of the literal.
\<close>

record config =
  EXECUTION_ENABLED :: bool
  EXECUTION_MODE :: string
  POLYMARKET_ESTIMATED_FEE_RATE_BPS :: int
  POLYMARKET_FEE_RATE_TTL_SECONDS :: rat
  KALSHI_ORDER_TTL_SECONDS :: int
  POLYMARKET_ORDER_TYPE :: string
  MAX_POSITION_SIZE_USD :: rat
  MAX_DAILY_LOSS_USD :: rat
  EXECUTION_TIMEOUT_SECONDS :: int
  HEDGE_ENABLED :: bool
  MIN_PROFIT_AFTER_FEES_USD :: rat
  POLYMARKET_ORDER_TTL_SECONDS :: int
  EXECUTION_MAX_RETRIES :: nat
  EXECUTION_RETRY_BASE_DELAY :: rat
  FILL_POLL_BUDGET_SECONDS :: rat
  FILL_POLL_BASE_INTERVAL :: rat
  FILL_POLL_MAX_INTERVAL :: rat
  HEDGE_TIMEOUT_SECONDS :: int
  HEDGE_PRICE_CONCESSION :: rat
  RISK_GATE_ENABLED :: bool
  MAX_RISK_SCORE :: rat
  MIN_RISK_CONFIDENCE :: rat
  EXECUTION_CB_FAILURE_THRESHOLD :: int
  EXECUTION_CB_RECOVERY_TIMEOUT :: rat
  REQUIRE_BALANCE_CHECK :: bool
  EXECUTION_CAPTURE_ENABLED :: bool
  LIVE_MAX_NOTIONAL_USD :: rat
  LIVE_MAX_CONCURRENT_POSITIONS :: int
  MATCH_REQUIRE_ALLOWLIST_FOR_LIVE :: bool

definition default_config :: config where
  "default_config = \<lparr>
     EXECUTION_ENABLED = True,
     EXECUTION_MODE = ''paper'',
     POLYMARKET_ESTIMATED_FEE_RATE_BPS = 500,
     POLYMARKET_FEE_RATE_TTL_SECONDS = 300,
     KALSHI_ORDER_TTL_SECONDS = 5,
     POLYMARKET_ORDER_TYPE = ''FOK'',
     MAX_POSITION_SIZE_USD = 100,
     MAX_DAILY_LOSS_USD = 50,
     EXECUTION_TIMEOUT_SECONDS = 10,
     HEDGE_ENABLED = True,
     MIN_PROFIT_AFTER_FEES_USD = fl (50 / 100),
     POLYMARKET_ORDER_TTL_SECONDS = 5,
     EXECUTION_MAX_RETRIES = 2,
     EXECUTION_RETRY_BASE_DELAY = fl (5 / 10),
     FILL_POLL_BUDGET_SECONDS = 15,
     FILL_POLL_BASE_INTERVAL = fl (25 / 100),
     FILL_POLL_MAX_INTERVAL = 2,
     HEDGE_TIMEOUT_SECONDS = 15,
     HEDGE_PRICE_CONCESSION = fl (2 / 100),
     RISK_GATE_ENABLED = True,
     MAX_RISK_SCORE = 60,
     MIN_RISK_CONFIDENCE = fl (3 / 10),
     EXECUTION_CB_FAILURE_THRESHOLD = 4,
     EXECUTION_CB_RECOVERY_TIMEOUT = 120,
     REQUIRE_BALANCE_CHECK = True,
     EXECUTION_CAPTURE_ENABLED = True,
     LIVE_MAX_NOTIONAL_USD = 5,
     LIVE_MAX_CONCURRENT_POSITIONS = 1,
     MATCH_REQUIRE_ALLOWLIST_FOR_LIVE = True\<rparr>"

text \<open>Whether the configuration allows real orders at all.\<close>

abbreviation live_mode :: "config \<Rightarrow> bool" where
  "live_mode cfg \<equiv> EXECUTION_MODE cfg = ''live''"

end
