(* ===== verification/Machines.thy ===== *)
theory Machines
  imports Main
begin

text \<open>
  The contract of a stateful component: a step function over its events, the events allowed, and
  an invariant every allowed step keeps. What follows for runs is proved once here; each
  component interprets \<open>machine\<close> on its own step function, and its properties about whole runs
  are the instances of \<open>run_inv\<close>.
\<close>

fun run :: "('s \<Rightarrow> 'e \<Rightarrow> 's) \<Rightarrow> 's \<Rightarrow> 'e list \<Rightarrow> 's" where
  "run step s [] = s"
| "run step s (e # es) = run step (step s e) es"

lemma run_append: "run step s (es @ fs) = run step (run step s es) fs"
  by (induction es arbitrary: s) auto

locale machine =
  fixes step :: "'s \<Rightarrow> 'e \<Rightarrow> 's" and allowed :: "'e \<Rightarrow> bool" and inv :: "'s \<Rightarrow> bool"
  assumes step_inv: "inv s \<Longrightarrow> allowed e \<Longrightarrow> inv (step s e)"
begin

lemma run_inv: "inv s \<Longrightarrow> list_all allowed es \<Longrightarrow> inv (run step s es)"
  by (induction es arbitrary: s) (auto intro: step_inv)

text \<open>The invariant holds in every state a run passes through, not only in its last one.\<close>

lemma prefix_inv: "inv s \<Longrightarrow> list_all allowed (es @ fs) \<Longrightarrow> inv (run step s es)"
  by (rule run_inv) auto

end

text \<open>A machine whose steps also keep a measure from going down.\<close>

locale monotone_machine = machine +
  fixes level :: "'a \<Rightarrow> nat"
  assumes step_level: "inv s \<Longrightarrow> allowed e \<Longrightarrow> level s \<le> level (step s e)"
begin

lemma run_level: "inv s \<Longrightarrow> list_all allowed es \<Longrightarrow> level s \<le> level (run step s es)"
proof (induction es arbitrary: s)
  case (Cons e es)
  then have "level s \<le> level (step s e)" "level (step s e) \<le> level (run step (step s e) es)"
    by (auto intro: step_level step_inv)
  then show ?case by simp
qed simp

end

end
