(* ===== verification/SafetyGates.thy ===== *)
theory SafetyGates
  imports Config Machines
begin

text \<open>
  The two process-wide gates on order placement: the kill switch of \<open>execution/kill_switch.py\<close>
  and the live-trading lock of \<open>execution/live_lock.py\<close>. Their state is one record: the
  in-process flags of the two singletons, the contents of the two files under \<open>DATA_DIR\<close>
  (\<open>None\<close> when the file is absent or cannot be opened) and the arming environment variable.
  \<open>fs_writable\<close> says whether the data directory can be written; where the source swallows an
  \<open>OSError\<close> the model leaves the file as it was. Clock readings are arguments, in the order the
  source takes them. \<open>safety_step\<close> adds the restart of the process, which keeps the files only.
\<close>

record safety =
  ks_tripped :: bool
  ks_reason :: "string option"
  ks_tripped_at :: "rat option"
  sentinel :: "string option"
  arm_file :: "string option"
  arm_env :: string
  fs_writable :: bool
  lk_warned :: bool

section \<open>Kill switch\<close>

text \<open>\<open>is_active\<close>: whether placement is halted, and why.\<close>

definition ks_is_active :: "config \<Rightarrow> safety \<Rightarrow> bool \<times> string option" where
  "ks_is_active cfg s =
     (if \<not> EXECUTION_ENABLED cfg then (True, Some ''execution_disabled'')
      else if ks_tripped s then
        (True, Some (case ks_reason s of None \<Rightarrow> ''tripped''
                       | Some r \<Rightarrow> if r = [] then ''tripped'' else r))
      else if sentinel s \<noteq> None then (True, Some ''halt_sentinel_present'')
      else (False, None))"

abbreviation halted :: "config \<Rightarrow> safety \<Rightarrow> bool" where
  "halted cfg s \<equiv> fst (ks_is_active cfg s)"

definition ks_trip :: "string \<Rightarrow> rat \<Rightarrow> rat \<Rightarrow> safety \<Rightarrow> safety" where
  "ks_trip reason t1 t2 s =
     (let s1 = s\<lparr>ks_tripped := True, ks_reason := Some reason, ks_tripped_at := Some t1\<rparr> in
      if fs_writable s1
      then s1\<lparr>sentinel := Some (reason @ [CHR 0x0A] @ float_repr t2 @ [CHR 0x0A])\<rparr>
      else s1)"

definition ks_reset :: "safety \<Rightarrow> safety" where
  "ks_reset s =
     (let s1 = s\<lparr>ks_tripped := False, ks_reason := None, ks_tripped_at := None\<rparr> in
      if fs_writable s1 then s1\<lparr>sentinel := None\<rparr> else s1)"

section \<open>Live-trading lock\<close>

definition ARM_PHRASE :: string where
  "ARM_PHRASE = ''I_HAVE_VALIDATED_AND_ACCEPT_REAL_MONEY_RISK''"

definition arm_token_present :: "safety \<Rightarrow> bool" where
  "arm_token_present s =
     (if strip (arm_env s) = ARM_PHRASE then True
      else case arm_file s of Some txt \<Rightarrow> contains ARM_PHRASE txt | None \<Rightarrow> False)"

definition is_armed :: "config \<Rightarrow> safety \<Rightarrow> bool" where
  "is_armed cfg s =
     (if \<not> EXECUTION_ENABLED cfg then False
      else if EXECUTION_MODE cfg \<noteq> ''live'' then False
      else arm_token_present s)"

definition assert_or_warn :: "config \<Rightarrow> safety \<Rightarrow> (bool \<times> string option) \<times> safety" where
  "assert_or_warn cfg s =
     (if is_armed cfg s then ((True, None), s)
      else ((False, Some ''live_trading_locked''), s\<lparr>lk_warned := True\<rparr>))"

text \<open>\<open>arm\<close> raises the \<open>OSError\<close> of an unwritable directory (\<open>None\<close>); \<open>disarm\<close> logs it.\<close>

definition lk_arm :: "safety \<Rightarrow> safety option" where
  "lk_arm s =
     (if fs_writable s then Some (s\<lparr>arm_file := Some (ARM_PHRASE @ [CHR 0x0A]), lk_warned := False\<rparr>)
      else None)"

definition lk_disarm :: "safety \<Rightarrow> safety" where
  "lk_disarm s =
     (let s1 = (if fs_writable s then s\<lparr>arm_file := None\<rparr> else s) in s1\<lparr>lk_warned := False\<rparr>)"

definition lk_status :: "config \<Rightarrow> safety \<Rightarrow> string" where
  "lk_status cfg s =
     (let b = (\<lambda>x. if x then ''True'' else ''False'') in
      ''EXECUTION_ENABLED='' @ b (EXECUTION_ENABLED cfg) @ '' | EXECUTION_MODE='' @
      str_quote (EXECUTION_MODE cfg) @ '' | arm_token_present='' @ b (arm_token_present s) @
      '' | => ARMED='' @ b (is_armed cfg s))"

section \<open>The gates as a state machine\<close>

datatype safety_event =
    Trip string rat rat
  | Reset
  | Arm
  | Disarm
  | Check
  | Restart

fun safety_step :: "config \<Rightarrow> safety \<Rightarrow> safety_event \<Rightarrow> safety" where
  "safety_step cfg s (Trip r t1 t2) = ks_trip r t1 t2 s"
| "safety_step cfg s Reset = ks_reset s"
| "safety_step cfg s Arm = (case lk_arm s of Some s' \<Rightarrow> s' | None \<Rightarrow> s)"
| "safety_step cfg s Disarm = lk_disarm s"
| "safety_step cfg s Check = snd (assert_or_warn cfg s)"
| "safety_step cfg s Restart =
     s\<lparr>ks_tripped := False, ks_reason := None, ks_tripped_at := None, lk_warned := False\<rparr>"

lemmas safety_defs = ks_is_active_def ks_trip_def ks_reset_def is_armed_def arm_token_present_def
  assert_or_warn_def lk_arm_def lk_disarm_def Let_def

lemma contains_append: "contains pat (u @ pat @ v)"
  unfolding contains_iff by blast

lemma halted_iff: "halted cfg s \<longleftrightarrow> \<not> EXECUTION_ENABLED cfg \<or> ks_tripped s \<or> sentinel s \<noteq> None"
  by (simp add: ks_is_active_def)

lemma is_armed_iff:
  "is_armed cfg s \<longleftrightarrow> EXECUTION_ENABLED cfg \<and> EXECUTION_MODE cfg = ''live'' \<and> arm_token_present s"
  by (simp add: is_armed_def)

lemma is_armed_live: "is_armed cfg s \<Longrightarrow> live_mode cfg"
  by (simp add: is_armed_iff)

lemma ks_trip_halted [simp]: "halted cfg (ks_trip r t1 t2 s)"
  by (simp add: safety_defs)

lemma is_armed_ks_trip [simp]: "is_armed cfg (ks_trip r t1 t2 s) = is_armed cfg s"
  by (simp add: safety_defs)

lemma assert_or_warn_simps [simp]:
  "fst (fst (assert_or_warn cfg s)) = is_armed cfg s"
  "halted cfg' (snd (assert_or_warn cfg s)) = halted cfg' s"
  "is_armed cfg' (snd (assert_or_warn cfg s)) = is_armed cfg' s"
  by (simp_all add: safety_defs)

text \<open>The two promises the operator relies on, as machines: what keeps a halt, what keeps a disarm.\<close>

interpretation halt: machine "safety_step cfg" "\<lambda>e. e \<noteq> Reset" "\<lambda>s. sentinel s \<noteq> None" for cfg
proof unfold_locales
  fix s :: safety and e
  assume "sentinel s \<noteq> None" "e \<noteq> Reset"
  then show "sentinel (safety_step cfg s e) \<noteq> None"
    by (cases e) (auto simp: safety_defs split: option.splits)
qed

interpretation disarm: machine "safety_step cfg" "\<lambda>e. e \<noteq> Arm" "\<lambda>s. \<not> arm_token_present s" for cfg
proof unfold_locales
  fix s :: safety and e
  assume "\<not> arm_token_present s" "e \<noteq> Arm"
  then show "\<not> arm_token_present (safety_step cfg s e)"
    by (cases e) (auto simp: safety_defs split: if_splits option.splits)
qed

section \<open>Properties\<close>

text \<open>C9. A halt is durable: once the kill switch was tripped with the data directory writable,
  placement stays halted through every later trip, arming, disarming, lock check and restart of
  the process, under any configuration, until an operator resets the switch.\<close>
theorem trip_survives_until_reset:
  assumes "fs_writable s" and "list_all (\<lambda>e. e \<noteq> Reset) es"
  shows "halted cfg' (run (safety_step cfg) (safety_step cfg s (Trip reason t1 t2)) es)"
proof -
  have "sentinel (safety_step cfg s (Trip reason t1 t2)) \<noteq> None"
    using assms(1) by (simp add: safety_defs)
  from halt.run_inv [OF this assms(2)] show ?thesis by (simp add: halted_iff)
qed

definition fresh_safety :: safety where
  "fresh_safety = \<lparr>ks_tripped = False, ks_reason = None, ks_tripped_at = None, sentinel = None,
     arm_file = None, arm_env = [], fs_writable = True, lk_warned = False\<rparr>"

theorem trip_survives_until_reset_witness:
  "halted default_config (run (safety_step default_config)
     (safety_step default_config fresh_safety (Trip ''unwind_failed:o1'' 1 1)) [Arm, Restart, Check])"
  by (rule trip_survives_until_reset) (simp_all add: fresh_safety_def)

text \<open>Disarming is final: after a disarm with the data directory writable and no arming phrase
  in the environment, no real order can be placed in any later state, whatever the configuration
  says, until the lock is armed again; and arming is what it takes (it makes the live
  configuration armed).\<close>
theorem disarm_until_arm:
  assumes "fs_writable s" and "strip (arm_env s) \<noteq> ARM_PHRASE" and "list_all (\<lambda>e. e \<noteq> Arm) es"
  shows "\<not> is_armed cfg' (run (safety_step cfg) (safety_step cfg s Disarm) es) \<and>
    (EXECUTION_ENABLED cfg \<and> live_mode cfg \<longrightarrow> is_armed cfg (safety_step cfg s Arm))"
proof -
  have "\<not> arm_token_present (safety_step cfg s Disarm)" using assms by (simp add: safety_defs)
  from disarm.run_inv [OF this assms(3)] have "\<not> is_armed cfg' (run (safety_step cfg) (safety_step cfg s Disarm) es)"
    by (simp add: is_armed_iff)
  moreover have "arm_token_present (safety_step cfg s Arm)"
    using assms(1) contains_append [of ARM_PHRASE "[]"] by (simp add: lk_arm_def arm_token_present_def)
  ultimately show ?thesis by (simp add: is_armed_iff)
qed

theorem disarm_until_arm_witness:
  "\<not> is_armed (default_config\<lparr>EXECUTION_MODE := ''live''\<rparr>)
     (run (safety_step default_config) (safety_step default_config fresh_safety Disarm) [Restart, Reset])"
proof -
  have "strip (arm_env fresh_safety) \<noteq> ARM_PHRASE" by code_simp
  moreover have "fs_writable fresh_safety" by (simp add: fresh_safety_def)
  ultimately show ?thesis
    using disarm_until_arm [of fresh_safety "[Restart, Reset]"] by simp
qed

end
