(* ===== verification/CircuitBreaker.thy ===== *)
theory CircuitBreaker
  imports PyBase Machines
begin

text \<open>
  The circuit breaker of \<open>circuit_breaker.py\<close>. \<open>call\<close> is three steps, because the protected
  coroutine runs outside the lock: admission (\<open>cb_admit\<close>, the code under the first lock), then
  \<open>on_success\<close> or \<open>on_failure\<close> when the coroutine ends. Concurrent calls interleave these steps
  freely, so the state machine \<open>cb_step\<close> allows them in any order. A handler takes the readings
  of \<open>time.time()\<close> it makes as a function of their position; times and the window are floats.
  State-change handlers are callbacks whose exceptions are swallowed: what they are called with
  is recorded in \<open>notified\<close>, newest first.
\<close>

datatype circuit_state = CLOSED | OPEN | HALF_OPEN

record cb_config =
  failure_threshold :: int
  recovery_timeout :: rat
  success_threshold :: int
  monitoring_window :: rat
  failure_rate_threshold :: rat

definition default_cb_config :: cb_config where
  "default_cb_config = \<lparr>failure_threshold = 5, recovery_timeout = 60, success_threshold = 3,
     monitoring_window = 300, failure_rate_threshold = fl (5 / 10)\<rparr>"

record cb_stats =
  total_calls :: nat
  successful_calls :: nat
  failed_calls :: nat
  circuit_opens :: nat
  last_failure_time :: "rat option"
  last_success_time :: "rat option"
  consecutive_failures :: nat
  consecutive_successes :: nat
  failure_timestamps :: "rat list"

definition empty_stats :: cb_stats where
  "empty_stats = \<lparr>total_calls = 0, successful_calls = 0, failed_calls = 0, circuit_opens = 0,
     last_failure_time = None, last_success_time = None, consecutive_failures = 0,
     consecutive_successes = 0, failure_timestamps = []\<rparr>"

record breaker =
  cb_name :: string
  cb_conf :: cb_config
  cb_state :: circuit_state
  stats :: cb_stats
  state_changed_at :: rat
  notified :: "circuit_state list"

definition new_breaker :: "string \<Rightarrow> cb_config option \<Rightarrow> rat \<Rightarrow> breaker" where
  "new_breaker nm conf t =
     \<lparr>cb_name = nm, cb_conf = (case conf of Some c \<Rightarrow> c | None \<Rightarrow> default_cb_config),
      cb_state = CLOSED, stats = empty_stats, state_changed_at = t, notified = []\<rparr>"

section \<open>Transitions\<close>

definition transition_to_closed :: "rat \<Rightarrow> breaker \<Rightarrow> breaker" where
  "transition_to_closed t b =
     b\<lparr>cb_state := CLOSED, state_changed_at := t,
       stats := (stats b)\<lparr>consecutive_failures := 0\<rparr>, notified := CLOSED # notified b\<rparr>"

definition transition_to_open :: "rat \<Rightarrow> breaker \<Rightarrow> breaker" where
  "transition_to_open t b =
     b\<lparr>cb_state := OPEN, state_changed_at := t,
       stats := (stats b)\<lparr>circuit_opens := circuit_opens (stats b) + 1\<rparr>,
       notified := OPEN # notified b\<rparr>"

definition transition_to_half_open :: "rat \<Rightarrow> breaker \<Rightarrow> breaker" where
  "transition_to_half_open t b =
     b\<lparr>cb_state := HALF_OPEN, state_changed_at := t,
       stats := (stats b)\<lparr>consecutive_successes := 0\<rparr>, notified := HALF_OPEN # notified b\<rparr>"

section \<open>Handlers\<close>

text \<open>Failures later than the start of the window that ends at \<open>t\<close>.\<close>

definition recent :: "breaker \<Rightarrow> rat \<Rightarrow> rat list" where
  "recent b t = filter (\<lambda>ts. ts > fsub t (monitoring_window (cb_conf b))) (failure_timestamps (stats b))"

definition check_failure_rate :: "(nat \<Rightarrow> rat) \<Rightarrow> breaker \<Rightarrow> breaker" where
  "check_failure_rate clk b =
     (if failure_timestamps (stats b) = [] then b
      else let recent_failures = recent b (clk 0) in
        if int (length recent_failures) \<ge> failure_threshold (cb_conf b) then
          let total_in_window = length (recent b (clk 1)) in
          if total_in_window > 0 then
            let failure_rate = fdiv (of_nat (length recent_failures)) (of_nat total_in_window) in
            if failure_rate \<ge> failure_rate_threshold (cb_conf b) then
              (if cb_state b = CLOSED then transition_to_open (clk 2) b else b)
            else b
          else b
        else b)"

definition should_attempt_reset :: "rat \<Rightarrow> breaker \<Rightarrow> bool" where
  "should_attempt_reset t b \<longleftrightarrow> fsub t (state_changed_at b) \<ge> recovery_timeout (cb_conf b)"

text \<open>The code of \<open>call\<close> under its first lock: False is the \<open>CircuitOpenError\<close>.\<close>

definition cb_admit :: "(nat \<Rightarrow> rat) \<Rightarrow> breaker \<Rightarrow> bool \<times> breaker" where
  "cb_admit clk b0 =
     (let b = check_failure_rate clk b0 in
      if cb_state b = OPEN then
        (if should_attempt_reset (clk 3) b then (True, transition_to_half_open (clk 4) b)
         else (False, b))
      else (True, b))"

definition on_success :: "(nat \<Rightarrow> rat) \<Rightarrow> breaker \<Rightarrow> breaker" where
  "on_success clk b0 =
     (let s = stats b0;
          b = b0\<lparr>stats := s\<lparr>total_calls := total_calls s + 1,
                            successful_calls := successful_calls s + 1,
                            consecutive_successes := consecutive_successes s + 1,
                            consecutive_failures := 0,
                            last_success_time := Some (clk 0)\<rparr>\<rparr> in
      if cb_state b = HALF_OPEN then
        (if int (consecutive_successes (stats b)) \<ge> success_threshold (cb_conf b)
         then transition_to_closed (clk 1) b else b)
      else b)"

definition on_failure :: "(nat \<Rightarrow> rat) \<Rightarrow> breaker \<Rightarrow> breaker" where
  "on_failure clk b0 =
     (let s = stats b0;
          b1 = b0\<lparr>stats := s\<lparr>total_calls := total_calls s + 1,
                             failed_calls := failed_calls s + 1,
                             consecutive_failures := consecutive_failures s + 1,
                             consecutive_successes := 0,
                             last_failure_time := Some (clk 0),
                             failure_timestamps := failure_timestamps s @ [clk 1]\<rparr>\<rparr>;
          b = b1\<lparr>stats := (stats b1)\<lparr>failure_timestamps := recent b1 (clk 2)\<rparr>\<rparr> in
      if cb_state b = HALF_OPEN then transition_to_open (clk 3) b
      else if cb_state b = CLOSED then
        (if int (consecutive_failures (stats b)) \<ge> failure_threshold (cb_conf b)
         then transition_to_open (clk 3) b else b)
      else b)"

definition cb_reset :: "rat \<Rightarrow> breaker \<Rightarrow> breaker" where
  "cb_reset t b =
     b\<lparr>cb_state := CLOSED, state_changed_at := t,
       stats := (stats b)\<lparr>consecutive_failures := 0, consecutive_successes := 0\<rparr>\<rparr>"

definition success_rate :: "breaker \<Rightarrow> rat" where
  "success_rate b =
     (if total_calls (stats b) > 0
      then fdiv (of_nat (successful_calls (stats b))) (of_nat (total_calls (stats b))) else 0)"

section \<open>The manager\<close>

type_synonym breakers = "(string \<times> breaker) list"

definition get_or_create :: "string \<Rightarrow> cb_config option \<Rightarrow> rat \<Rightarrow> breakers \<Rightarrow> breaker \<times> breakers" where
  "get_or_create nm conf t bs =
     (case map_of bs nm of
        Some b \<Rightarrow> (b, bs)
      | None \<Rightarrow> let b = new_breaker nm conf t in (b, AList.update nm b bs))"

definition reset_all :: "rat \<Rightarrow> breakers \<Rightarrow> breakers" where
  "reset_all t bs = map (\<lambda>(nm, b). (nm, cb_reset t b)) bs"

record health_status =
  total_services :: nat
  healthy_services :: nat
  degraded_services :: nat
  failed_services :: nat
  health_percentage :: rat

definition get_health_status :: "breakers \<Rightarrow> health_status" where
  "get_health_status bs =
     (let total = length bs;
          opened = length (filter (\<lambda>(nm, b). cb_state b = OPEN) bs);
          half = length (filter (\<lambda>(nm, b). cb_state b = HALF_OPEN) bs)
      in \<lparr>total_services = total, healthy_services = total - opened, degraded_services = half,
          failed_services = opened,
          health_percentage = (if total > 0
            then fmul (fdiv (of_nat (total - opened)) (of_nat total)) 100 else 100)\<rparr>)"

section \<open>The breaker as a state machine\<close>

datatype cb_event =
    Admit "nat \<Rightarrow> rat"
  | Succeed "nat \<Rightarrow> rat"
  | Fail "nat \<Rightarrow> rat"
  | ManualReset rat

fun cb_step :: "breaker \<Rightarrow> cb_event \<Rightarrow> breaker" where
  "cb_step b (Admit clk) = snd (cb_admit clk b)"
| "cb_step b (Succeed clk) = on_success clk b"
| "cb_step b (Fail clk) = on_failure clk b"
| "cb_step b (ManualReset t) = cb_reset t b"

lemmas cb_trans_defs = transition_to_closed_def transition_to_open_def transition_to_half_open_def

lemmas cb_defs = cb_trans_defs check_failure_rate_def cb_admit_def on_success_def on_failure_def
  cb_reset_def Let_def

text \<open>The configuration and the name of a breaker never change.\<close>

lemma check_failure_rate_cases:
  "check_failure_rate clk b = b \<or>
   check_failure_rate clk b = transition_to_open (clk 2) b \<and> cb_state b = CLOSED"
  unfolding check_failure_rate_def Let_def by (simp split: if_split)

lemma cb_step_conf [simp]: "cb_conf (cb_step b e) = cb_conf b"
  by (cases e) (auto simp: cb_defs)

text \<open>
  What the counters promise each other in every interleaving: calls are successes plus failures,
  a run of failures and a run of successes never coexist, every remembered timestamp is a
  counted failure, a breaker that is not closed has opened, and a closed breaker has fewer
  consecutive failures than its threshold.
\<close>

definition cb_inv :: "breaker \<Rightarrow> bool" where
  "cb_inv b \<longleftrightarrow>
     total_calls (stats b) = successful_calls (stats b) + failed_calls (stats b) \<and>
     consecutive_failures (stats b) \<le> failed_calls (stats b) \<and>
     consecutive_successes (stats b) \<le> successful_calls (stats b) \<and>
     (consecutive_failures (stats b) = 0 \<or> consecutive_successes (stats b) = 0) \<and>
     length (failure_timestamps (stats b)) \<le> failed_calls (stats b) \<and>
     (cb_state b \<noteq> CLOSED \<longrightarrow> 0 < circuit_opens (stats b)) \<and>
     (cb_state b = CLOSED \<longrightarrow> int (consecutive_failures (stats b)) < failure_threshold (cb_conf b)) \<and>
     0 < failure_threshold (cb_conf b)"

lemma cb_inv_admit: "cb_inv b \<Longrightarrow> cb_inv (snd (cb_admit clk b))"
  unfolding cb_admit_def Let_def
  using check_failure_rate_cases [of clk b] by (auto simp: cb_inv_def cb_trans_defs)

lemma cb_inv_success: "cb_inv b \<Longrightarrow> cb_inv (on_success clk b)"
  by (auto simp: cb_inv_def on_success_def Let_def transition_to_closed_def)

lemma length_recent: "length (recent b t) \<le> length (failure_timestamps (stats b))"
  by (simp add: recent_def)

lemma cb_inv_failure: "cb_inv b \<Longrightarrow> cb_inv (on_failure clk b)"
proof -
  assume b: "cb_inv b"
  have len: "length (filter P (failure_timestamps (stats b) @ [t])) \<le> Suc (failed_calls (stats b))"
    for P t
    by (rule order.trans [OF length_filter_le]) (use b in \<open>simp add: cb_inv_def\<close>)
  show ?thesis
    using b len
    by (simp add: cb_inv_def on_failure_def Let_def transition_to_open_def recent_def not_le
        del: filter_append)
qed

lemma cb_inv_reset: "cb_inv b \<Longrightarrow> cb_inv (cb_reset t b)"
  by (auto simp: cb_inv_def cb_reset_def)

lemma opens_mono: "circuit_opens (stats b) \<le> circuit_opens (stats (cb_step b e))"
  by (cases e) (auto simp: cb_defs)

interpretation breaker: monotone_machine cb_step "\<lambda>_. True" cb_inv "\<lambda>b. circuit_opens (stats b)"
proof unfold_locales
  fix b :: breaker and e
  assume "cb_inv b"
  then show "cb_inv (cb_step b e)"
    by (cases e) (simp_all add: cb_inv_admit cb_inv_success cb_inv_failure cb_inv_reset)
qed (rule opens_mono)

section \<open>The three-state automaton\<close>

text \<open>
  What the breaker promises to whoever watches its state changes: the edges of the circuit
  breaker pattern. \<open>history\<close> is every state announced to the handlers, newest first, down to the
  initial one.
\<close>

inductive cb_edge :: "circuit_state \<Rightarrow> circuit_state \<Rightarrow> bool" where
  trip: "cb_edge CLOSED OPEN"
| probe: "cb_edge OPEN HALF_OPEN"
| retrip: "cb_edge HALF_OPEN OPEN"
| recover: "cb_edge HALF_OPEN CLOSED"

code_pred cb_edge .

inductive_simps cb_edge_simps [simp]:
  "cb_edge CLOSED s" "cb_edge OPEN s" "cb_edge HALF_OPEN s"

definition history :: "breaker \<Rightarrow> circuit_state list" where
  "history b = notified b @ [CLOSED]"

definition traced :: "breaker \<Rightarrow> bool" where
  "traced b \<longleftrightarrow> hd (history b) = cb_state b \<and> successively (\<lambda>new old. cb_edge old new) (history b)"

fun is_manual_reset :: "cb_event \<Rightarrow> bool" where
  "is_manual_reset (ManualReset t) = True"
| "is_manual_reset _ = False"

lemma traced_notify:
  assumes "traced b" and "notified b' = s # notified b" and "cb_state b' = s" and "cb_edge (cb_state b) s"
  shows "traced b'"
  using assms by (cases "notified b") (auto simp: traced_def history_def)

lemma traced_same: "traced b \<Longrightarrow> notified b' = notified b \<Longrightarrow> cb_state b' = cb_state b \<Longrightarrow> traced b'"
  by (simp add: traced_def history_def)

lemma traced_open: "traced b \<Longrightarrow> cb_state b \<noteq> OPEN \<Longrightarrow> traced (transition_to_open t b)"
  by (rule traced_notify [of b]) (cases "cb_state b"; simp add: transition_to_open_def)+

lemma traced_half_open: "traced b \<Longrightarrow> cb_state b = OPEN \<Longrightarrow> traced (transition_to_half_open t b)"
  by (rule traced_notify [of b]) (simp_all add: transition_to_half_open_def)

lemma traced_closed: "traced b \<Longrightarrow> cb_state b = HALF_OPEN \<Longrightarrow> traced (transition_to_closed t b)"
  by (rule traced_notify [of b]) (auto simp: transition_to_closed_def)

lemma traced_admit: "traced b \<Longrightarrow> traced (snd (cb_admit clk b))"
proof -
  assume "traced b"
  with check_failure_rate_cases [of clk b] have "traced (check_failure_rate clk b)"
    using \<open>traced b\<close> traced_open [of b] by auto
  then show ?thesis by (auto simp: cb_admit_def Let_def intro: traced_half_open)
qed

interpretation announced: machine cb_step "\<lambda>e. \<not> is_manual_reset e" traced
proof unfold_locales
  fix b :: breaker and e
  assume tr: "traced b" and "\<not> is_manual_reset e"
  then show "traced (cb_step b e)"
  proof (cases e)
    case (Succeed clk)
    have "traced (b\<lparr>stats := st\<rparr>)" for st using tr by (rule traced_same) simp_all
    then show ?thesis using Succeed by (auto simp: on_success_def Let_def intro: traced_closed)
  next
    case (Fail clk)
    have "traced (b\<lparr>stats := st\<rparr>)" for st using tr by (rule traced_same) simp_all
    then show ?thesis using Fail by (auto simp: on_failure_def Let_def intro!: traced_open)
  qed (auto intro: traced_admit)
qed

section \<open>Lemmas on runs of failures and of successes\<close>

lemma fail_step_state:
  "cb_state b = CLOSED \<Longrightarrow> cb_state (on_failure clk b) =
     (if failure_threshold (cb_conf b) \<le> int (consecutive_failures (stats b)) + 1 then OPEN else CLOSED)"
  "cb_state b \<noteq> CLOSED \<Longrightarrow> cb_state (on_failure clk b) = OPEN"
  "consecutive_failures (stats (on_failure clk b)) = consecutive_failures (stats b) + 1"
  by (cases "cb_state b"; simp add: on_failure_def Let_def transition_to_open_def)+

lemma fail_run:
  "cb_state (run cb_step b (map Fail clks)) =
     (if clks = [] then cb_state b
      else if cb_state b = CLOSED \<and>
        int (consecutive_failures (stats b)) + int (length clks) < failure_threshold (cb_conf b)
      then CLOSED else OPEN)"
proof (induction clks arbitrary: b)
  case (Cons c clks)
  have "cb_conf (on_failure c b) = cb_conf b" using cb_step_conf [of b "Fail c"] by simp
  then show ?case
    using Cons.IH [of "on_failure c b"] by (cases "cb_state b = CLOSED") (auto simp: fail_step_state)
qed simp

lemma success_run_half_open:
  "cb_state b = HALF_OPEN \<Longrightarrow>
   int (consecutive_successes (stats b)) + int (length clks) < success_threshold (cb_conf b) \<Longrightarrow>
   cb_state (run cb_step b (map Succeed clks)) = HALF_OPEN \<and>
   consecutive_successes (stats (run cb_step b (map Succeed clks))) =
     consecutive_successes (stats b) + length clks"
proof (induction clks arbitrary: b)
  case (Cons c clks)
  have c: "cb_conf (on_success c b) = cb_conf b" using cb_step_conf [of b "Succeed c"] by simp
  have "cb_state (on_success c b) = HALF_OPEN"
    "consecutive_successes (stats (on_success c b)) = consecutive_successes (stats b) + 1"
    using Cons.prems by (auto simp: on_success_def Let_def transition_to_closed_def)
  then show ?case using Cons.IH [of "on_success c b"] Cons.prems c by simp
qed simp

lemma run_conf [simp]: "cb_conf (run cb_step b es) = cb_conf b"
  by (induction es arbitrary: b) auto

lemma recent_antimono: "t \<le> t' \<Longrightarrow> length (recent b t') \<le> length (recent b t)"
proof -
  assume "t \<le> t'"
  then have "fsub t w \<le> fsub t' w" for w by (rule fsub_mono) simp
  then have "fsub t (monitoring_window (cb_conf b)) < x" if "fsub t' (monitoring_window (cb_conf b)) < x" for x
    using that by (meson le_less_trans)
  then have "recent b t' = filter (\<lambda>x. x > fsub t' (monitoring_window (cb_conf b))) (recent b t)"
    by (simp add: recent_def) (metis (mono_tags, lifting) filter_cong)
  then show ?thesis by (metis length_filter_le)
qed

lemma fdiv_ge_1: "0 < k \<Longrightarrow> k \<le> n \<Longrightarrow> 1 \<le> fdiv (of_nat n) (of_nat k)"
  unfolding fdiv_def by (rule fl_ge) (auto simp: field_simps)

section \<open>Properties\<close>

text \<open>However concurrent calls interleave their admissions, successes and failures, and
  whenever an operator resets it, a breaker's statistics stay consistent: calls are successes
  plus failures, remembered failure times never outnumber the failures, a breaker that is not
  closed has opened at least once, and a closed breaker has fewer consecutive failures than its
  threshold.\<close>
theorem breaker_statistics_consistent:
  assumes "0 < failure_threshold (cb_conf (new_breaker nm conf t))"
  shows "cb_inv (run cb_step (new_breaker nm conf t) es)"
  using assms
  by (intro breaker.run_inv) (auto simp: cb_inv_def new_breaker_def empty_stats_def list_all_iff)

theorem breaker_statistics_consistent_witness:
  "cb_inv (run cb_step (new_breaker ''exec:kalshi'' None 0)
     [Admit (\<lambda>_. 1), Fail (\<lambda>_. 2), Succeed (\<lambda>_. 3), ManualReset 4])"
  by (rule breaker_statistics_consistent) (simp add: new_breaker_def default_cb_config_def)

text \<open>C10. The breaker refines the three-state automaton: without manual resets, the states
  announced to the handlers over any interleaved run form a path of the automaton from CLOSED to
  the current state, so it never goes from OPEN to CLOSED, nor from CLOSED to HALF_OPEN, without
  the state between.\<close>
theorem breaker_refines_automaton:
  assumes "list_all (\<lambda>e. \<not> is_manual_reset e) es"
  shows "hd (history (run cb_step (new_breaker nm conf t) es)) = cb_state (run cb_step (new_breaker nm conf t) es) \<and>
    successively (\<lambda>new old. cb_edge old new) (history (run cb_step (new_breaker nm conf t) es))"
proof -
  have "traced (new_breaker nm conf t)" by (simp add: traced_def history_def new_breaker_def)
  from announced.run_inv [OF this assms] show ?thesis by (simp add: traced_def)
qed

theorem breaker_refines_automaton_witness:
  "hd (history (run cb_step (new_breaker ''exec:kalshi'' None 0) (map Fail (replicate 5 (\<lambda>_. 10))))) =
     cb_state (run cb_step (new_breaker ''exec:kalshi'' None 0) (map Fail (replicate 5 (\<lambda>_. 10)))) \<and>
   successively (\<lambda>new old. cb_edge old new)
     (history (run cb_step (new_breaker ''exec:kalshi'' None 0) (map Fail (replicate 5 (\<lambda>_. 10)))))"
  by (rule breaker_refines_automaton) (simp add: list_all_iff)

text \<open>As many consecutive failures as the threshold open a closed breaker, and an open breaker
  refuses every call, unchanged, until the recovery timeout has passed.\<close>
theorem failures_open_and_block:
  assumes "cb_state b = CLOSED" and "clks \<noteq> []"
    and "failure_threshold (cb_conf b) \<le> int (length clks)"
    and "b' = run cb_step b (map Fail clks)"
    and "fsub (clk 3) (state_changed_at b') < recovery_timeout (cb_conf b')"
  shows "cb_state b' = OPEN \<and> cb_admit clk b' = (False, b')"
proof -
  have "cb_state b' = OPEN" using assms fail_run [of b clks] by auto
  moreover from this have "check_failure_rate clk b' = b'" using check_failure_rate_cases [of clk b'] by auto
  ultimately show ?thesis using assms(5) by (simp add: cb_admit_def Let_def should_attempt_reset_def)
qed

theorem failures_open_and_block_witness:
  "cb_state (run cb_step (new_breaker ''exec:kalshi'' None 0) (map Fail (replicate 5 (\<lambda>_. 100)))) = OPEN"
proof -
  let ?b = "run cb_step (new_breaker ''exec:kalshi'' None 0) (map Fail (replicate 5 (\<lambda>_. 100)))"
  have "fsub ((\<lambda>_. 101) (3::nat)) (state_changed_at ?b) < recovery_timeout (cb_conf ?b)" by code_simp
  then have "cb_state ?b = OPEN \<and> cb_admit (\<lambda>_. 101) ?b = (False, ?b)"
    by (intro failures_open_and_block [of "new_breaker ''exec:kalshi'' None 0" "replicate 5 (\<lambda>_. 100)"])
      (simp_all add: new_breaker_def default_cb_config_def)
  then show ?thesis by simp
qed

text \<open>A half-open breaker is closed by exactly \<open>success_threshold\<close> successes in a row: it stays
  half-open on fewer, the one that completes them closes it, and a failure before that reopens
  it.\<close>
theorem half_open_recovery:
  assumes "cb_state b = HALF_OPEN" and "consecutive_successes (stats b) = 0"
    and "int (length clks) < success_threshold (cb_conf b)"
    and "b' = run cb_step b (map Succeed clks)"
  shows "cb_state b' = HALF_OPEN \<and> cb_state (on_failure clk b') = OPEN \<and>
    (cb_state (on_success clk b') = CLOSED \<longleftrightarrow> int (length clks) + 1 = success_threshold (cb_conf b))"
proof -
  have b': "cb_state b' = HALF_OPEN" "consecutive_successes (stats b') = length clks" "cb_conf b' = cb_conf b"
    using success_run_half_open [of b clks] assms by auto
  then show ?thesis
    using assms(3) by (auto simp: fail_step_state on_success_def Let_def transition_to_closed_def)
qed

theorem half_open_recovery_witness:
  "cb_state ((new_breaker ''exec:kalshi'' None 0)\<lparr>cb_state := HALF_OPEN\<rparr>) = HALF_OPEN \<and>
   cb_state (on_success (\<lambda>_. 9) (run cb_step ((new_breaker ''exec:kalshi'' None 0)\<lparr>cb_state := HALF_OPEN\<rparr>)
     (map Succeed [\<lambda>_. 7, \<lambda>_. 8]))) = CLOSED"
  using half_open_recovery [of "(new_breaker ''exec:kalshi'' None 0)\<lparr>cb_state := HALF_OPEN\<rparr>"
      "[\<lambda>_. 7, \<lambda>_. 8]" _ "\<lambda>_. 9"]
  by (simp add: new_breaker_def empty_stats_def default_cb_config_def)

text \<open>C11. The failure rate is not a rate: both counts it divides are the recent failures, so a closed
  breaker with as many failures inside the monitoring window as the threshold opens again on its
  next call, which is refused, whatever successes closed it. Neither closing nor a manual reset
  forgets those failures.\<close>
theorem closed_with_recent_failures_trips:
  assumes "cb_state b = CLOSED" and "failure_rate_threshold (cb_conf b) \<le> 1"
    and "failure_threshold (cb_conf b) \<le> int (length (recent b (clk 0)))"
    and "recent b (clk 1) \<noteq> []" and "clk 0 \<le> clk 1"
    and "fsub (clk 3) (clk 2) < recovery_timeout (cb_conf b)"
  shows "cb_admit clk b = (False, transition_to_open (clk 2) b) \<and>
    cb_admit clk (cb_reset t b) = (False, transition_to_open (clk 2) (cb_reset t b))"
proof -
  have ne: "failure_timestamps (stats b) \<noteq> []" using assms(4) by (auto simp: recent_def)
  have "1 \<le> fdiv (of_nat (length (recent b (clk 0)))) (of_nat (length (recent b (clk 1))))"
    using assms(4) recent_antimono [OF assms(5), of b] by (intro fdiv_ge_1) auto
  then have rate: "failure_rate_threshold (cb_conf b) \<le>
      fdiv (of_nat (length (recent b (clk 0)))) (of_nat (length (recent b (clk 1))))"
    using assms(2) by simp
  have *: "check_failure_rate clk b' = transition_to_open (clk 2) b'"
    if "cb_state b' = CLOSED" "cb_conf b' = cb_conf b"
      "failure_timestamps (stats b') = failure_timestamps (stats b)" for b'
  proof -
    have "recent b' = recent b" using that by (simp add: recent_def fun_eq_iff)
    then show ?thesis using that ne rate assms by (simp add: check_failure_rate_def Let_def)
  qed
  have "check_failure_rate clk b = transition_to_open (clk 2) b" by (rule *) (use assms in auto)
  moreover have "check_failure_rate clk (cb_reset t b) = transition_to_open (clk 2) (cb_reset t b)"
    by (rule *) (simp_all add: cb_reset_def)
  ultimately show ?thesis
    using assms(6) by (simp add: cb_admit_def Let_def should_attempt_reset_def transition_to_open_def cb_reset_def)
qed

text \<open>Five failures, the recovery timeout, the three successes that close the breaker, and the next
  call, four seconds later, is refused.\<close>

definition recovered :: breaker where
  "recovered = run cb_step (new_breaker ''exec:kalshi'' None 0)
     (map Fail (replicate 5 (\<lambda>_. 100)) @ [Admit (\<lambda>_. 161), Succeed (\<lambda>_. 162), Succeed (\<lambda>_. 163), Succeed (\<lambda>_. 164)])"

theorem closed_with_recent_failures_trips_witness:
  "cb_state recovered = CLOSED \<and> cb_admit (\<lambda>_. 168) recovered = (False, transition_to_open 168 recovered)"
proof -
  have "cb_state recovered = CLOSED" "failure_rate_threshold (cb_conf recovered) \<le> 1"
    "failure_threshold (cb_conf recovered) \<le> int (length (recent recovered 168))"
    "recent recovered 168 \<noteq> []" "fsub 168 168 < recovery_timeout (cb_conf recovered)"
    by code_simp+
  then show ?thesis using closed_with_recent_failures_trips [of recovered "\<lambda>_. 168"] by simp
qed

end
