(* ===== verification/OrderTypes.thy ===== *)
theory OrderTypes
  imports PyBase
begin

text \<open>
  The venue-agnostic order types of \<open>execution/order_types.py\<close>. Field names carry the prefix
  \<open>rq_\<close> (\<open>OrderRequest\<close>) or \<open>oc_\<close> (\<open>OrderOutcome\<close>); statuses are a datatype instead of the
  source's string constants. The client order id is derived from a digest of the request, the
  first 24 digits of the SHA-256 the standard library computes: that hash is the parameter
  \<open>sha\<close> of the definitions that use it.
\<close>

definition KALSHI :: string where "KALSHI = ''kalshi''"

definition POLYMARKET :: string where "POLYMARKET = ''polymarket''"

lemma venues_distinct [simp]: "KALSHI \<noteq> POLYMARKET" "POLYMARKET \<noteq> KALSHI"
  by (simp_all add: KALSHI_def POLYMARKET_def)

datatype order_status = FILLED | PARTIAL | FAILED | REJECTED | HALTED

record order_request =
  rq_venue :: string
  rq_action :: string
  rq_size :: rat
  rq_limit_price :: rat
  rq_ticker :: "string option"
  rq_outcome_side :: string
  rq_token_id :: "string option"
  rq_tif :: string
  rq_ttl_seconds :: int
  rq_client_order_id :: "string option"
  rq_risk_reducing :: bool
  rq_meta :: obj

text \<open>A request with the dataclass defaults in every optional field.\<close>

definition order_request_of :: "string \<Rightarrow> string \<Rightarrow> rat \<Rightarrow> rat \<Rightarrow> order_request" where
  "order_request_of venue action sz price =
     \<lparr>rq_venue = venue, rq_action = action, rq_size = sz, rq_limit_price = price,
      rq_ticker = None, rq_outcome_side = ''yes'', rq_token_id = None, rq_tif = ''IOC'',
      rq_ttl_seconds = 0, rq_client_order_id = None, rq_risk_reducing = False, rq_meta = []\<rparr>"

text \<open>\<open>f"{x:.6f}"\<close>: the exact value rounded half to even to six decimals.\<close>

definition format6 :: "rat \<Rightarrow> string" where
  "format6 x =
     (let n = round_half_even (\<bar>x\<bar> * 1000000);
          frac = nat_digits (n mod 1000000)
      in (if x < 0 then ''-'' else []) @ nat_digits (n div 1000000) @ ''.'' @
         replicate (6 - length frac) (CHR ''0'') @ frac)"

definition opt_str :: "string option \<Rightarrow> string" where
  "opt_str v = (case v of None \<Rightarrow> ''None'' | Some s \<Rightarrow> s)"

definition bar_join :: "string list \<Rightarrow> string" where
  "bar_join ss = (case ss of [] \<Rightarrow> [] | s # r \<Rightarrow> s @ concat (map (\<lambda>t. ''|'' @ t) r))"

definition id_seed :: "order_request \<Rightarrow> string list \<Rightarrow> string" where
  "id_seed rq parts =
     bar_join ([rq_venue rq, opt_str (rq_ticker rq), opt_str (rq_token_id rq), rq_outcome_side rq,
                rq_action rq, format6 (rq_size rq), format6 (rq_limit_price rq)] @ parts)"

definition has_client_order_id :: "order_request \<Rightarrow> bool" where
  "has_client_order_id rq = (case rq_client_order_id rq of None \<Rightarrow> False | Some s \<Rightarrow> s \<noteq> [])"

definition ensure_client_order_id ::
    "(string \<Rightarrow> string) \<Rightarrow> string list \<Rightarrow> order_request \<Rightarrow> order_request" where
  "ensure_client_order_id sha parts rq =
     (if has_client_order_id rq then rq
      else rq\<lparr>rq_client_order_id := Some (''coid-'' @ take 24 (sha (id_seed rq parts)))\<rparr>)"

record order_outcome =
  oc_venue :: string
  oc_status :: order_status
  oc_requested_size :: rat
  oc_filled_size :: rat
  oc_avg_price :: rat
  oc_fees :: rat
  oc_order_id :: "string option"
  oc_client_order_id :: "string option"
  oc_fill_ids :: "string list"
  oc_trade_ids :: "string list"
  oc_attempts :: nat
  oc_error :: "string option"
  oc_raw :: "json option"
  oc_retryable :: bool

definition order_outcome_of :: "string \<Rightarrow> order_status \<Rightarrow> rat \<Rightarrow> order_outcome" where
  "order_outcome_of venue st sz =
     \<lparr>oc_venue = venue, oc_status = st, oc_requested_size = sz, oc_filled_size = 0,
      oc_avg_price = 0, oc_fees = 0, oc_order_id = None, oc_client_order_id = None,
      oc_fill_ids = [], oc_trade_ids = [], oc_attempts = 0, oc_error = None, oc_raw = None,
      oc_retryable = True\<rparr>"

definition is_done :: "order_outcome \<Rightarrow> bool" where
  "is_done oc \<longleftrightarrow> oc_status oc = FILLED \<or> oc_status oc = PARTIAL"

definition unfilled_size :: "order_outcome \<Rightarrow> rat" where
  "unfilled_size oc = max 0 (fsub (oc_requested_size oc) (oc_filled_size oc))"

definition outcome_failed ::
    "string \<Rightarrow> rat \<Rightarrow> string \<Rightarrow> string option \<Rightarrow> json option \<Rightarrow> order_outcome" where
  "outcome_failed venue sz err coid rw =
     (order_outcome_of venue FAILED sz)
       \<lparr>oc_error := Some err, oc_client_order_id := coid, oc_raw := rw\<rparr>"

definition outcome_halted :: "string \<Rightarrow> rat \<Rightarrow> order_outcome" where
  "outcome_halted venue sz =
     (order_outcome_of venue HALTED sz)\<lparr>oc_error := Some ''kill_switch_active''\<rparr>"

lemmas order_defs = order_request_of_def order_outcome_of_def outcome_failed_def outcome_halted_def

lemma outcome_failed_simps [simp]:
  "oc_status (outcome_failed v s e c r) = FAILED" "oc_filled_size (outcome_failed v s e c r) = 0"
  "oc_retryable (outcome_failed v s e c r) = True" "\<not> is_done (outcome_failed v s e c r)"
  "oc_error (outcome_failed v s e c r) = Some e" "oc_venue (outcome_failed v s e c r) = v"
  by (simp_all add: order_defs is_done_def)

lemma outcome_halted_simps [simp]:
  "oc_status (outcome_halted v s) = HALTED" "oc_filled_size (outcome_halted v s) = 0"
  "\<not> is_done (outcome_halted v s)" "oc_venue (outcome_halted v s) = v"
  by (simp_all add: order_defs is_done_def)

text \<open>Deriving the id a second time, with whatever parts, changes nothing.\<close>

lemma has_id_ensure [simp]: "has_client_order_id (ensure_client_order_id sha parts rq)"
  by (auto simp: ensure_client_order_id_def has_client_order_id_def split: option.splits)

lemma ensure_idem [simp]:
  "ensure_client_order_id sha parts' (ensure_client_order_id sha parts rq) = ensure_client_order_id sha parts rq"
  by (simp add: ensure_client_order_id_def [of sha parts'])

lemma ensure_fields [simp]:
  "rq_venue (ensure_client_order_id sha parts rq) = rq_venue rq"
  "rq_action (ensure_client_order_id sha parts rq) = rq_action rq"
  "rq_size (ensure_client_order_id sha parts rq) = rq_size rq"
  "rq_limit_price (ensure_client_order_id sha parts rq) = rq_limit_price rq"
  "rq_ticker (ensure_client_order_id sha parts rq) = rq_ticker rq"
  "rq_outcome_side (ensure_client_order_id sha parts rq) = rq_outcome_side rq"
  "rq_token_id (ensure_client_order_id sha parts rq) = rq_token_id rq"
  "rq_tif (ensure_client_order_id sha parts rq) = rq_tif rq"
  "rq_ttl_seconds (ensure_client_order_id sha parts rq) = rq_ttl_seconds rq"
  "rq_risk_reducing (ensure_client_order_id sha parts rq) = rq_risk_reducing rq"
  "rq_meta (ensure_client_order_id sha parts rq) = rq_meta rq"
  by (simp_all add: ensure_client_order_id_def)

end
