(* ===== verification/Engine.thy ===== *)
theory Engine
  imports SafetyGates CircuitBreaker OrderTypes
begin

text \<open>
  The single-leg execution engine of \<open>execution/single_leg.py\<close>. The world it runs in is the state
  of the safety gates, the process-wide breakers, the clock (a stream of readings and how many
  were taken) and \<open>net\<close>, whatever lies behind the gateways. A gateway is a function of the request
  and the world; it may change the world in any way, so it also stands for what other coroutines
  do while the engine awaits it. An exception it raises is its message. \<open>execute\<close> returns the
  outcome, the request as the engine leaves it (the id and the attempt number are written into
  it), the calls it made with their results, and the world.
\<close>

record 'v world =
  safe :: safety
  brks :: breakers
  clock :: "nat \<Rightarrow> rat"
  ticks :: nat
  net :: 'v

definition readings :: "'v world \<Rightarrow> nat \<Rightarrow> rat" where
  "readings w = (\<lambda>i. clock w (ticks w + i))"

definition tick :: "nat \<Rightarrow> 'v world \<Rightarrow> 'v world" where
  "tick k w = w\<lparr>ticks := ticks w + k\<rparr>"

datatype place_result = Returned order_outcome | Raised string

type_synonym 'v gateway = "order_request \<Rightarrow> 'v world \<Rightarrow> place_result \<times> 'v world"

type_synonym 'v gateways = "(string \<times> 'v gateway) list"

type_synonym calls = "(order_request \<times> place_result) list"

definition exec_cb_config :: "config \<Rightarrow> cb_config" where
  "exec_cb_config cfg = default_cb_config\<lparr>
     failure_threshold := EXECUTION_CB_FAILURE_THRESHOLD cfg,
     recovery_timeout := EXECUTION_CB_RECOVERY_TIMEOUT cfg\<rparr>"

definition breaker_name :: "string \<Rightarrow> string" where "breaker_name venue = ''exec:'' @ venue"

definition get_breaker :: "config \<Rightarrow> string \<Rightarrow> 'v world \<Rightarrow> breaker \<times> 'v world" where
  "get_breaker cfg venue w =
     (let (b, bs) = get_or_create (breaker_name venue) (Some (exec_cb_config cfg)) (readings w 0) (brks w)
      in (b, tick 1 (w\<lparr>brks := bs\<rparr>)))"

definition update_breaker ::
    "config \<Rightarrow> string \<Rightarrow> ((nat \<Rightarrow> rat) \<Rightarrow> breaker \<Rightarrow> breaker) \<Rightarrow> 'v world \<Rightarrow> 'v world" where
  "update_breaker cfg venue f w0 =
     (let (b, w) = get_breaker cfg venue w0
      in tick 5 (w\<lparr>brks := AList.update (breaker_name venue) (f (readings w) b) (brks w)\<rparr>))"

definition trip_world :: "string \<Rightarrow> 'v world \<Rightarrow> 'v world" where
  "trip_world reason w = tick 2 (w\<lparr>safe := ks_trip reason (readings w 0) (readings w 1) (safe w)\<rparr>)"

text \<open>What the handlers of \<open>execute\<close> make of a gateway's result.\<close>

definition outcome_of :: "order_request \<Rightarrow> place_result \<Rightarrow> order_outcome" where
  "outcome_of rq res = (case res of
     Returned out \<Rightarrow> out
   | Raised msg \<Rightarrow> outcome_failed (rq_venue rq) (rq_size rq) msg (rq_client_order_id rq) None)"

text \<open>
  \<open>breaker.call(_place_counted)\<close>: \<open>None\<close> is the \<open>CircuitOpenError\<close>. A returned failure and an
  exception are failures of the breaker, every other outcome is a success.
\<close>

definition counted_as_failure :: "place_result \<Rightarrow> bool" where
  "counted_as_failure res = (case res of Returned out \<Rightarrow> oc_status out = FAILED | Raised msg \<Rightarrow> True)"

definition breaker_call ::
    "config \<Rightarrow> 'v gateway \<Rightarrow> order_request \<Rightarrow> 'v world \<Rightarrow> place_result option \<times> 'v world" where
  "breaker_call cfg place rq w0 =
     (let (b, w1) = get_breaker cfg (rq_venue rq) w0;
          admitted = fst (cb_admit (readings w1) b);
          w2 = update_breaker cfg (rq_venue rq) (\<lambda>clk b. snd (cb_admit clk b)) w0
      in if admitted then
           let (res, w3) = place rq w2 in
           (Some res, update_breaker cfg (rq_venue rq)
              (if counted_as_failure res then on_failure else on_success) w3)
         else (None, w2))"

text \<open>One attempt of the loop: the result of the gateway call, \<open>None\<close> when the breaker is open.\<close>

definition attempt_once ::
    "config \<Rightarrow> 'v gateway \<Rightarrow> order_request \<Rightarrow> 'v world \<Rightarrow> place_result option \<times> 'v world" where
  "attempt_once cfg place rq w =
     (if rq_risk_reducing rq then let (res, w') = place rq w in (Some res, w')
      else breaker_call cfg place rq w)"

text \<open>The retry loop, over the number of attempts left; \<open>attempt\<close> counts from 0.\<close>

fun retry_loop ::
    "config \<Rightarrow> 'v gateway \<Rightarrow> nat \<Rightarrow> nat \<Rightarrow> order_outcome option \<Rightarrow> order_request \<Rightarrow> 'v world \<Rightarrow>
     order_outcome \<times> order_request \<times> calls \<times> 'v world" where
  "retry_loop cfg place 0 attempt prev rq w =
     ((case prev of Some out \<Rightarrow> out
       | None \<Rightarrow> outcome_failed (rq_venue rq) (rq_size rq) ''exhausted_retries'' (rq_client_order_id rq) None),
      rq, [], w)"
| "retry_loop cfg place (Suc left) attempt prev rq0 w =
     (let rq = rq0\<lparr>rq_meta := AList.update ''attempt'' (JInt (int attempt)) (rq_meta rq0)\<rparr> in
      case attempt_once cfg place rq w of
        (None, w1) \<Rightarrow>
          (outcome_halted (rq_venue rq) (rq_size rq), rq, [],
           trip_world (''circuit_open:'' @ rq_venue rq) w1)
      | (Some res, w1) \<Rightarrow>
          let out = (outcome_of rq res)\<lparr>oc_attempts := attempt + 1\<rparr> in
          if is_done out \<or> \<not> oc_retryable out then (out, rq, [(rq, res)], w1)
          else let (o', rq', cs, w2) = retry_loop cfg place left (attempt + 1) (Some out) rq w1
               in (o', rq', (rq, res) # cs, w2))"

definition execute ::
    "(string \<Rightarrow> string) \<Rightarrow> config \<Rightarrow> 'v gateways \<Rightarrow> string \<Rightarrow> order_request \<Rightarrow> 'v world \<Rightarrow>
     order_outcome \<times> order_request \<times> calls \<times> 'v world" where
  "execute sha cfg gws stable_key rq w =
     (if halted cfg (safe w) \<and> \<not> rq_risk_reducing rq
      then (outcome_halted (rq_venue rq) (rq_size rq), rq, [], w)
      else case map_of gws (rq_venue rq) of
        None \<Rightarrow> (outcome_failed (rq_venue rq) (rq_size rq) ''no_gateway'' None None, rq, [], w)
      | Some place \<Rightarrow>
          retry_loop cfg place (EXECUTION_MAX_RETRIES cfg + 1) 0 None
            (ensure_client_order_id sha [stable_key] rq) w)"

section \<open>Lemmas\<close>

lemma tick_simps [simp]:
  "safe (tick k w) = safe w" "brks (tick k w) = brks w" "net (tick k w) = net w"
  "clock (tick k w) = clock w"
  by (simp_all add: tick_def)

lemma get_breaker_simps [simp]:
  "safe (snd (get_breaker cfg v w)) = safe w" "net (snd (get_breaker cfg v w)) = net w"
  by (simp_all add: get_breaker_def split: prod.split)

lemma update_breaker_simps [simp]:
  "safe (update_breaker cfg v f w) = safe w" "net (update_breaker cfg v f w) = net w"
  by (simp_all add: update_breaker_def prod.case_eq_if)

lemma trip_world_simps [simp]:
  "halted cfg (safe (trip_world r w))" "is_armed cfg (safe (trip_world r w)) = is_armed cfg (safe w)"
  "net (trip_world r w) = net w"
  by (simp_all add: trip_world_def)

lemma outcome_of_simps [simp]:
  "outcome_of rq (Returned out) = out" "\<not> is_done (outcome_of rq (Raised msg))"
  "oc_retryable (outcome_of rq (Raised msg))"
  by (simp_all add: outcome_of_def)

lemma attempts_fields [simp]:
  "is_done (out\<lparr>oc_attempts := n\<rparr>) = is_done out"
  by (simp add: is_done_def)

text \<open>A request as an attempt sends it differs from the one the loop started with in its attempt
  number only.\<close>

definition same_order :: "order_request \<Rightarrow> order_request \<Rightarrow> bool" where
  "same_order r r' \<longleftrightarrow> r\<lparr>rq_meta := []\<rparr> = r'\<lparr>rq_meta := []\<rparr>"

lemma same_order_refl [simp]: "same_order r r"
  by (simp add: same_order_def)

lemma same_order_meta [simp]: "same_order (r\<lparr>rq_meta := m\<rparr>) r' = same_order r r'"
  by (simp add: same_order_def)

lemma retry_loop_length: "retry_loop cfg place n a prev rq w = (out, rq', cs, w') \<Longrightarrow> length cs \<le> n"
proof (induction n arbitrary: a prev rq w out rq' cs w')
  case (Suc n)
  then show ?case
    by (auto simp: Let_def split: prod.splits option.splits if_splits)
qed simp

lemma retry_loop_same_order:
  "retry_loop cfg place n a prev rq w = (out, rq', cs, w') \<Longrightarrow> same_order r0 rq \<Longrightarrow>
   same_order r0 rq' \<and> (\<forall>(r, res) \<in> set cs. same_order r0 r)"
proof (induction n arbitrary: a prev rq w out rq' cs w')
  case (Suc n)
  have same: "same_order r0 (rq\<lparr>rq_meta := m\<rparr>)" for m using Suc.prems(2) by (simp add: same_order_def)
  show ?case
    using Suc.prems(1) same
    by (fastforce simp: Let_def split: prod.splits option.splits if_splits dest: Suc.IH)
qed simp

lemma retry_loop_retries:
  "retry_loop cfg place n a prev rq w = (out, rq', cs, w') \<Longrightarrow>
   (r, res) \<in> set (butlast cs) \<Longrightarrow> \<not> is_done (outcome_of r res) \<and> oc_retryable (outcome_of r res)"
proof (induction n arbitrary: a prev rq w out rq' cs w')
  case (Suc n)
  then show ?case
    by (fastforce simp: Let_def split: prod.splits option.splits if_splits)
qed simp

lemma retry_loop_last:
  "retry_loop cfg place n a prev rq w = (out, rq', cs, w') \<Longrightarrow> cs \<noteq> [] \<Longrightarrow>
   oc_status out = HALTED \<and> halted cfg' (safe w') \<or>
   out = (outcome_of (fst (last cs)) (snd (last cs)))\<lparr>oc_attempts := a + length cs\<rparr>"
proof (induction n arbitrary: a prev rq w out rq' cs w')
  case (Suc n)
  let ?rq = "rq\<lparr>rq_meta := AList.update ''attempt'' (JInt (int a)) (rq_meta rq)\<rparr>"
  obtain res w1 where at: "attempt_once cfg place ?rq w = (Some res, w1)"
    using Suc.prems by (auto simp: Let_def split: prod.splits option.splits)
  let ?out = "(outcome_of ?rq res)\<lparr>oc_attempts := a + 1\<rparr>"
  show ?case
  proof (cases "is_done ?out \<or> \<not> oc_retryable ?out")
    case True
    then show ?thesis using Suc.prems at by (auto simp: Let_def)
  next
    case False
    then obtain cs' where rec: "retry_loop cfg place n (a + 1) (Some ?out) ?rq w1 = (out, rq', cs', w')"
      and cs: "cs = (?rq, res) # cs'"
      using Suc.prems(1) at by (auto simp: Let_def split: prod.splits)
    show ?thesis
    proof (cases "cs' = []")
      case True
      then show ?thesis
        using rec cs by (cases n) (auto simp: Let_def split: prod.splits option.splits if_splits)
    next
      case False
      then show ?thesis using Suc.IH [OF rec False] cs by simp
    qed
  qed
qed simp

text \<open>An open breaker whose timeout has not passed refuses the call.\<close>

lemma risk_reducing_called:
  assumes "rq_risk_reducing rq" and "map_of gws (rq_venue rq) = Some place"
  shows "fst (snd (snd (execute h cfg gws k rq w))) \<noteq> []"
proof -
  obtain n where n: "EXECUTION_MAX_RETRIES cfg + 1 = Suc n" by simp
  with assms show ?thesis by (simp add: execute_def attempt_once_def Let_def prod.case_eq_if)
qed

lemma breaker_call_open:
  assumes "map_of (brks w) (breaker_name (rq_venue rq)) = Some b" and "cb_state b = OPEN"
    and "fsub (clock w (ticks w + 4)) (state_changed_at b) < recovery_timeout (cb_conf b)"
  shows "\<exists>w'. breaker_call cfg place rq w = (None, w') \<and> safe w' = safe w \<and> net w' = net w"
proof -
  have g: "get_breaker cfg (rq_venue rq) w = (b, tick 1 w)"
    using assms(1) by (simp add: get_breaker_def get_or_create_def)
  have "\<not> fst (cb_admit (readings (tick 1 w)) b)"
    using assms(2,3) check_failure_rate_cases [of "readings (tick 1 w)" b]
    by (auto simp: cb_admit_def Let_def should_attempt_reset_def readings_def tick_def add.commute)
  then show ?thesis by (simp add: breaker_call_def g Let_def)
qed

section \<open>Properties\<close>

text \<open>C2. While placement is halted no order that opens risk reaches a gateway: the engine answers
  \<open>HALTED\<close> and nothing changes. An order marked risk-reducing is never blocked: it always reaches
  its gateway at least once, whatever the kill switch and the breaker of the venue say.\<close>
theorem halt_blocks_only_opening_orders:
  assumes "halted cfg (safe w)" and "map_of gws (rq_venue rq) = Some place"
  shows "if rq_risk_reducing rq
    then \<exists>r cs. fst (snd (snd (execute sha cfg gws k rq w))) = (r, fst (place r w)) # cs \<and>
           same_order (ensure_client_order_id sha [k] rq) r
    else execute sha cfg gws k rq w = (outcome_halted (rq_venue rq) (rq_size rq), rq, [], w)"
proof (cases "rq_risk_reducing rq")
  case True
  obtain n where n: "EXECUTION_MAX_RETRIES cfg + 1 = Suc n" by simp
  with True assms show ?thesis
    by (auto simp: execute_def attempt_once_def Let_def prod.case_eq_if same_order_def)
qed (use assms in \<open>simp add: execute_def\<close>)

definition unwind_order :: order_request where
  "unwind_order = (order_request_of KALSHI ''sell'' 3 (fl (40 / 100)))
     \<lparr>rq_risk_reducing := True, rq_client_order_id := Some ''coid-1''\<rparr>"

definition calm_world :: "'v \<Rightarrow> 'v world" where
  "calm_world v = \<lparr>safe = fresh_safety, brks = [], clock = (\<lambda>i. of_nat i), ticks = 0, net = v\<rparr>"

text \<open>A gateway that fails twice, then fills; \<open>net\<close> counts the orders it got.\<close>

definition flaky :: "nat gateway" where
  "flaky rq w =
     (if net w < 2 then Raised ''connection lost''
      else Returned ((order_outcome_of KALSHI FILLED (rq_size rq))\<lparr>oc_filled_size := rq_size rq\<rparr>),
      w\<lparr>net := net w + 1\<rparr>)"

theorem halt_blocks_only_opening_orders_witness:
  "fst (snd (snd (execute (\<lambda>s. s) default_config [(KALSHI, flaky)] ''k'' unwind_order
     (trip_world ''test'' (calm_world 0))))) \<noteq> []"
proof -
  have "if rq_risk_reducing unwind_order
    then \<exists>r cs. fst (snd (snd (execute (\<lambda>s. s) default_config [(KALSHI, flaky)] ''k'' unwind_order
        (trip_world ''test'' (calm_world 0))))) = (r, fst (flaky r (trip_world ''test'' (calm_world 0)))) # cs \<and>
           same_order (ensure_client_order_id (\<lambda>s. s) [''k''] unwind_order) r
    else execute (\<lambda>s. s) default_config [(KALSHI, flaky)] ''k'' unwind_order (trip_world ''test'' (calm_world 0)) =
      (outcome_halted (rq_venue unwind_order) (rq_size unwind_order), unwind_order, [], trip_world ''test'' (calm_world 0))"
    by (rule halt_blocks_only_opening_orders) (simp_all add: unwind_order_def order_request_of_def)
  then show ?thesis by (auto simp: unwind_order_def order_request_of_def)
qed

text \<open>C7. Retry discipline: an order is sent at most \<open>EXECUTION_MAX_RETRIES + 1\<close> times, each time as
  the same order under the one client order id fixed before the first attempt (only the attempt
  number differs); it is sent again only after an outcome that is neither a fill nor marked
  non-retryable; and the caller gets the outcome of the last call with the number of calls made,
  or \<open>HALTED\<close> with the kill switch tripped.\<close>
theorem retry_discipline:
  assumes "execute sha cfg gws k rq w = (out, rq', cs, w')"
  shows "length cs \<le> EXECUTION_MAX_RETRIES cfg + 1 \<and>
    (\<forall>(r, res) \<in> set cs. same_order (ensure_client_order_id sha [k] rq) r) \<and>
    (\<forall>(r, res) \<in> set (butlast cs). \<not> is_done (outcome_of r res) \<and> oc_retryable (outcome_of r res)) \<and>
    (cs \<noteq> [] \<longrightarrow> oc_status out = HALTED \<and> halted cfg (safe w') \<or>
       out = (outcome_of (fst (last cs)) (snd (last cs)))\<lparr>oc_attempts := length cs\<rparr>)"
proof (cases "cs = []")
  case False
  then obtain place where loop: "retry_loop cfg place (EXECUTION_MAX_RETRIES cfg + 1) 0 None
      (ensure_client_order_id sha [k] rq) w = (out, rq', cs, w')"
    using assms unfolding execute_def by (auto split: if_splits option.splits)
  show ?thesis
    using retry_loop_length [OF loop] retry_loop_same_order [OF loop same_order_refl]
      retry_loop_retries [OF loop] retry_loop_last [OF loop False, of cfg] by fastforce
qed simp

theorem retry_discipline_witness:
  "length (fst (snd (snd (execute (\<lambda>s. s) default_config [(KALSHI, flaky)] ''k'' unwind_order (calm_world 0))))) = 3 \<and>
   oc_attempts (fst (execute (\<lambda>s. s) default_config [(KALSHI, flaky)] ''k'' unwind_order (calm_world 0))) = 3"
proof -
  let ?e = "execute (\<lambda>s. s) default_config [(KALSHI, flaky)] ''k'' unwind_order (calm_world 0)"
  have len: "length (fst (snd (snd ?e))) = 3" and st: "oc_status (fst ?e) = FILLED" by code_simp+
  have "?e = (fst ?e, fst (snd ?e), fst (snd (snd ?e)), snd (snd (snd ?e)))" by simp
  from retry_discipline [OF this] len st show ?thesis by (auto simp del: prod.collapse)
qed

text \<open>C8. An open breaker stops trading, not just its venue: while its recovery timeout has not passed, an
  opening order on a venue whose breaker is open is not sent and trips the kill switch, after which every opening order on any venue is
  refused without a call.\<close>
theorem open_breaker_trips_kill_switch:
  assumes "map_of (brks w) (breaker_name (rq_venue rq)) = Some b" and "cb_state b = OPEN"
    and "fsub (clock w (ticks w + 4)) (state_changed_at b) < recovery_timeout (cb_conf b)"
    and "\<not> halted cfg (safe w)" and "\<not> rq_risk_reducing rq" and "map_of gws (rq_venue rq) = Some place"
    and "\<not> rq_risk_reducing rq2"
  shows "\<exists>rq' w'. execute sha cfg gws k rq w = (outcome_halted (rq_venue rq) (rq_size rq), rq', [], w') \<and>
    net w' = net w \<and>
    execute sha cfg gws' k2 rq2 w' = (outcome_halted (rq_venue rq2) (rq_size rq2), rq2, [], w')"
proof -
  let ?rq = "ensure_client_order_id sha [k] rq"
  let ?r = "?rq\<lparr>rq_meta := AList.update ''attempt'' (JInt (int 0)) (rq_meta ?rq)\<rparr>"
  obtain w1 where w1: "breaker_call cfg place ?r w = (None, w1)" "net w1 = net w"
    using breaker_call_open [of w ?r b cfg place] assms(1-3) by auto
  have "execute sha cfg gws k rq w =
      (outcome_halted (rq_venue rq) (rq_size rq), ?r, [], trip_world (''circuit_open:'' @ rq_venue rq) w1)"
    using assms(4-6) w1(1) by (simp add: execute_def attempt_once_def Let_def)
  then show ?thesis using w1(2) assms(7) by (auto simp: execute_def)
qed

definition tripped_breaker_world :: "nat world" where
  "tripped_breaker_world = (calm_world 0)\<lparr>brks :=
     [(''exec:kalshi'', transition_to_open 0 (new_breaker ''exec:kalshi'' None 0))]\<rparr>"

theorem open_breaker_trips_kill_switch_witness:
  "fst (execute (\<lambda>s. s) default_config [(KALSHI, flaky)] ''k''
     (order_request_of KALSHI ''buy'' 3 (fl (40 / 100))) tripped_breaker_world) = outcome_halted KALSHI 3"
proof -
  let ?rq = "order_request_of KALSHI ''buy'' 3 (fl (40 / 100))"
  let ?b = "transition_to_open 0 (new_breaker ''exec:kalshi'' None 0)"
  have "map_of (brks tripped_breaker_world) (breaker_name (rq_venue ?rq)) = Some ?b"
    "fsub (clock tripped_breaker_world (ticks tripped_breaker_world + 4)) (state_changed_at ?b) < recovery_timeout (cb_conf ?b)"
    "\<not> halted default_config (safe tripped_breaker_world)"
    by code_simp+
  from open_breaker_trips_kill_switch [OF this(1) _ this(2,3), where gws = "[(KALSHI, flaky)]" and
      place = flaky and ?rq2.0 = ?rq and sha = "\<lambda>s. s" and k = "''k''" and gws' = "[]" and ?k2.0 = "[]"]
  show ?thesis by (auto simp: transition_to_open_def order_request_of_def)
qed

end
