(* ===== verification/Effects.thy ===== *)
theory Effects
  imports Engine
begin

text \<open>
  Operations that read and change the world and may raise: what the source writes as a coroutine
  is an \<open>op\<close>, a function from the world to a result and the next world. A result is the text of
  an exception or a value; the text of a built-in exception is its class name. \<open>keeps R m\<close> says
  that \<open>m\<close> takes every world to one related by \<open>R\<close>, also when it raises; for a reflexive and
  transitive \<open>R\<close> (locale \<open>world_relation\<close>) it follows from the parts of \<open>m\<close>.
\<close>

type_synonym ('w, 'a) op = "'w \<Rightarrow> (string + 'a) \<times> 'w"

definition ret :: "'a \<Rightarrow> ('w, 'a) op" where "ret x = (\<lambda>w. (Inr x, w))"

definition raise :: "string \<Rightarrow> ('w, 'a) op" where "raise e = (\<lambda>w. (Inl e, w))"

definition bind :: "('w, 'a) op \<Rightarrow> ('a \<Rightarrow> ('w, 'b) op) \<Rightarrow> ('w, 'b) op" where
  "bind m f = (\<lambda>w. case m w of (Inl e, w') \<Rightarrow> (Inl e, w') | (Inr x, w') \<Rightarrow> f x w')"

text \<open>\<open>try: m except Exception as e: h(e)\<close>.\<close>

definition catch :: "('w, 'a) op \<Rightarrow> (string \<Rightarrow> ('w, 'a) op) \<Rightarrow> ('w, 'a) op" where
  "catch m h = (\<lambda>w. case m w of (Inl e, w') \<Rightarrow> h e w' | (Inr x, w') \<Rightarrow> (Inr x, w'))"

definition exn_text :: "pyexn \<Rightarrow> string" where
  "exn_text e = (case e of TypeError \<Rightarrow> ''TypeError'' | ValueError \<Rightarrow> ''ValueError''
     | KeyError \<Rightarrow> ''KeyError'' | AttributeError \<Rightarrow> ''AttributeError'')"

definition lift :: "pyexn + 'a \<Rightarrow> ('w, 'a) op" where
  "lift r = (case r of Inl e \<Rightarrow> raise (exn_text e) | Inr x \<Rightarrow> ret x)"

text \<open>A reading of the clock.\<close>

definition now :: "('v world, rat) op" where
  "now = (\<lambda>w. (Inr (readings w 0), tick 1 w))"

text \<open>\<open>asyncio.sleep\<close>: the time that passes shows in the readings that follow.\<close>

definition sleep :: "rat \<Rightarrow> ('v world, unit) op" where "sleep d = ret ()"

text \<open>A gateway's \<open>place\<close> as the engine sees it.\<close>

definition as_gateway :: "(order_request \<Rightarrow> ('v world, order_outcome) op) \<Rightarrow> 'v gateway" where
  "as_gateway place = (\<lambda>rq w. case place rq w of
     (Inl msg, w') \<Rightarrow> (Raised msg, w') | (Inr out, w') \<Rightarrow> (Returned out, w'))"

section \<open>More of the Python built-ins\<close>

text \<open>\<open>int(x)\<close> of a float, and of an untyped value.\<close>

definition trunc :: "rat \<Rightarrow> int" where
  "trunc x = (if 0 \<le> x then \<lfloor>x\<rfloor> else \<lceil>x\<rceil>)"

definition parse_int :: "string \<Rightarrow> int option" where
  "parse_int s = (let (neg, ds) = take_sign (strip s) in
     if ds \<noteq> [] \<and> list_all is_digit ds then Some (if neg then - digits_val ds else digits_val ds)
     else None)"

fun py_int :: "json \<Rightarrow> pyexn + int" where
  "py_int (JInt i) = Inr i"
| "py_int (JNum x) = Inr (trunc x)"
| "py_int (JBool b) = Inr (if b then 1 else 0)"
| "py_int (JStr s) = (case parse_int s of Some i \<Rightarrow> Inr i | None \<Rightarrow> Inl ValueError)"
| "py_int _ = Inl TypeError"

text \<open>\<open>for x in v\<close>.\<close>

fun py_iter :: "json \<Rightarrow> pyexn + json list" where
  "py_iter (JList xs) = Inr xs"
| "py_iter (JObj ob) = Inr (map (\<lambda>kv. JStr (fst kv)) ob)"
| "py_iter (JStr s) = Inr (map (\<lambda>c. JStr [c]) s)"
| "py_iter _ = Inl TypeError"

definition has_key :: "string \<Rightarrow> obj \<Rightarrow> bool" where
  "has_key k ob \<longleftrightarrow> map_of ob k \<noteq> None"

text \<open>An identifier of an untyped reply, kept as text where it is not \<open>None\<close>.\<close>

definition opt_text :: "json \<Rightarrow> string option" where
  "opt_text v = (if v = JNull then None else Some (py_str v))"

lemma trunc_bounds: "0 \<le> x \<Longrightarrow> 0 \<le> trunc x \<and> of_int (trunc x) \<le> x \<and> x < of_int (trunc x) + 1"
  by (simp add: trunc_def le_floor_iff) linarith

lemma trunc_int [simp]: "trunc (of_int n) = n"
  by (simp add: trunc_def)

section \<open>What an operation keeps\<close>

definition keeps :: "('w \<Rightarrow> 'w \<Rightarrow> bool) \<Rightarrow> ('w, 'a) op \<Rightarrow> bool" where
  "keeps R m \<longleftrightarrow> (\<forall>w. R w (snd (m w)))"

lemmas op_defs = ret_def raise_def bind_def catch_def lift_def now_def sleep_def

text \<open>
  Running an operation on a concrete world by the simplifier: \<open>run_ops\<close> steps through it, and the
  weak congruences \<open>run_congs\<close> keep it from working on continuations before their argument is known.
\<close>

lemma bind_w: "w = w' \<Longrightarrow> bind m f w = bind m f w'" and catch_w: "w = w' \<Longrightarrow> catch m h w = catch m h w'"
  by simp_all

lemma bind_run: "bind m f w = (case m w of (r, w') \<Rightarrow> case r of Inl e \<Rightarrow> (Inl e, w') | Inr x \<Rightarrow> f x w')"
  and catch_run: "catch m h w = (case m w of (r, w') \<Rightarrow> case r of Inl e \<Rightarrow> h e w' | Inr x \<Rightarrow> (Inr x, w'))"
  by (simp_all add: bind_def catch_def split: prod.split sum.split)

lemmas run_ops = bind_run catch_run ret_def raise_def lift_def now_def sleep_def

lemmas run_congs = bind_w catch_w prod.case_cong_weak sum.case_cong_weak option.case_cong_weak
  if_weak_cong let_weak_cong

named_theorems keep

lemma keepsI: "(\<And>w. R w (snd (m w))) \<Longrightarrow> keeps R m"
  by (simp add: keeps_def)

lemma keepsD: "keeps R m \<Longrightarrow> m w = (r, w') \<Longrightarrow> R w w'"
  unfolding keeps_def by (metis snd_conv)

lemma keeps_if [keep]: "keeps R m \<Longrightarrow> keeps R m' \<Longrightarrow> keeps R (if c then m else m')"
  by simp

lemma keeps_option [keep]:
  "keeps R m \<Longrightarrow> (\<And>x. keeps R (f x)) \<Longrightarrow> keeps R (case v of None \<Rightarrow> m | Some x \<Rightarrow> f x)"
  by (cases v) auto

lemma keeps_sum [keep]:
  "(\<And>x. keeps R (f x)) \<Longrightarrow> (\<And>x. keeps R (g x)) \<Longrightarrow> keeps R (case v of Inl x \<Rightarrow> f x | Inr x \<Rightarrow> g x)"
  by (cases v) auto

lemma keeps_prod [keep]: "(\<And>x y. keeps R (f x y)) \<Longrightarrow> keeps R (case p of (x, y) \<Rightarrow> f x y)"
  by (cases p) auto

locale world_relation =
  fixes R :: "'w \<Rightarrow> 'w \<Rightarrow> bool"
  assumes R_refl: "R w w" and R_trans: "R w w' \<Longrightarrow> R w' w'' \<Longrightarrow> R w w''"
begin

lemma keeps_ret: "keeps R (ret x)" and keeps_raise: "keeps R (raise e)"
  by (simp_all add: keeps_def ret_def raise_def R_refl)

lemma keeps_lift: "keeps R (lift r)"
  by (cases r) (simp_all add: lift_def keeps_ret keeps_raise)

lemma keeps_bind:
  assumes "keeps R m" and "\<And>x. keeps R (f x)" shows "keeps R (bind m f)"
proof (rule keepsI)
  fix w
  show "R w (snd (bind m f w))"
    using keepsD [OF assms(1), of w] keepsD [OF assms(2)]
    by (auto simp: bind_def split: prod.split sum.split) (metis R_trans surjective_pairing)
qed

lemma keeps_catch:
  assumes "keeps R m" and "\<And>e. keeps R (h e)" shows "keeps R (catch m h)"
proof (rule keepsI)
  fix w
  show "R w (snd (catch m h w))"
    using keepsD [OF assms(1), of w] keepsD [OF assms(2)]
    by (auto simp: catch_def split: prod.split sum.split) (metis R_trans surjective_pairing)
qed

lemmas keeps_intros = keeps_ret keeps_raise keeps_lift keeps_bind keeps_catch

end

text \<open>Every call of a gateway is a step of \<open>R\<close>.\<close>

definition obeys :: "('v world \<Rightarrow> 'v world \<Rightarrow> bool) \<Rightarrow> 'v gateway \<Rightarrow> bool" where
  "obeys R place \<longleftrightarrow> (\<forall>rq w. R w (snd (place rq w)))"

text \<open>
  A relation on worlds that the engine's own steps keep: breakers and clock do not matter, and
  tripping the kill switch is allowed. If every gateway of a table keeps it, so does the engine.
\<close>

locale engine_relation = world_relation R for R :: "'v world \<Rightarrow> 'v world \<Rightarrow> bool" +
  assumes R_same: "safe w' = safe w \<Longrightarrow> net w' = net w \<Longrightarrow> R w w'"
    and R_trip: "R w (trip_world reason w)"
begin

lemma keeps_now: "keeps R now" and keeps_sleep: "keeps R (sleep d)"
  by (auto simp: keeps_def now_def sleep_def ret_def intro: R_same R_refl)

lemma obeys_op: "(\<And>rq. keeps R (place rq)) \<Longrightarrow> obeys R (as_gateway place)"
  by (auto simp: obeys_def as_gateway_def keeps_def split: prod.split sum.split) (metis snd_conv)+

lemma breaker_call_R: "obeys R place \<Longrightarrow> R w (snd (breaker_call cfg place rq w))"
proof -
  assume "obeys R place"
  then have call: "R w' (snd (place rq w'))" for w' by (simp add: obeys_def)
  let ?w2 = "update_breaker cfg (rq_venue rq) (\<lambda>clk b. snd (cb_admit clk b)) w"
  have "R w ?w2" by (rule R_same) simp_all
  moreover have "R (snd (place rq ?w2)) (update_breaker cfg (rq_venue rq) f (snd (place rq ?w2)))" for f
    by (rule R_same) simp_all
  ultimately show ?thesis
    using call [of ?w2] by (auto simp: breaker_call_def Let_def prod.case_eq_if intro: R_trans)
qed

lemma attempt_R: "obeys R place \<Longrightarrow> attempt_once cfg place rq w = (res, w') \<Longrightarrow> R w w'"
  using breaker_call_R [of place w cfg rq]
  by (auto simp: attempt_once_def obeys_def split: if_splits prod.splits) (metis snd_conv)+

lemma retry_loop_R: "obeys R place \<Longrightarrow> retry_loop cfg place n a prev rq w = (out, rq', cs, w') \<Longrightarrow> R w w'"
proof (induction n arbitrary: a prev rq w out rq' cs w')
  case (Suc n)
  let ?rq = "rq\<lparr>rq_meta := AList.update ''attempt'' (JInt (int a)) (rq_meta rq)\<rparr>"
  obtain r w1 where at: "attempt_once cfg place ?rq w = (r, w1)" by (rule prod.exhaust)
  note w1 = attempt_R [OF Suc.prems(1) at]
  show ?case
    using Suc.prems(2) at w1 Suc.IH [OF Suc.prems(1)]
    by (auto simp: Let_def split: option.splits if_splits prod.splits intro: R_trans R_trip)
qed (simp add: R_refl)

lemma execute_R:
  assumes "list_all (\<lambda>(v, place). obeys R place) gws"
    and "execute sha cfg gws k rq w = (out, rq', cs, w')"
  shows "R w w'"
proof -
  have "obeys R place" if "map_of gws v = Some place" for v place
    using assms(1) map_of_SomeD [OF that] by (auto simp: list_all_iff)
  then show ?thesis
    using assms(2) by (auto simp: execute_def R_refl simp del: retry_loop.simps split: if_splits option.splits intro: retry_loop_R)
qed

end

section \<open>Polling with backoff\<close>

text \<open>
  \<open>_backoff_poll\<close>. How often it polls is up to the clock: the loop runs at most \<open>n\<close> times, and
  \<open>backoff_rounds_enough\<close> shows that \<open>n\<close> does not matter once the clock passes the deadline
  within \<open>n\<close> readings.
\<close>

fun backoff_loop ::
    "nat \<Rightarrow> rat \<Rightarrow> rat \<Rightarrow> rat \<Rightarrow> ('v world, 'a option) op \<Rightarrow> ('v world, 'a option) op" where
  "backoff_loop 0 deadline interval cap poll = ret None"
| "backoff_loop (Suc n) deadline interval cap poll =
     bind now (\<lambda>t. if t < deadline then
       bind now (\<lambda>t'. bind (sleep (min interval (max 0 (fsub deadline t')))) (\<lambda>_.
       bind poll (\<lambda>r. case r of Some x \<Rightarrow> ret (Some x)
         | None \<Rightarrow> backoff_loop n deadline (min (fmul interval 2) cap) cap poll)))
     else ret None)"

definition backoff_poll :: "nat \<Rightarrow> config \<Rightarrow> ('v world, 'a option) op \<Rightarrow> ('v world, 'a option) op" where
  "backoff_poll n cfg poll = bind now (\<lambda>t.
     backoff_loop n (fadd t (FILL_POLL_BUDGET_SECONDS cfg)) (FILL_POLL_BASE_INTERVAL cfg)
       (FILL_POLL_MAX_INTERVAL cfg) poll)"

context engine_relation begin

lemma keeps_backoff_loop: "keeps R poll \<Longrightarrow> keeps R (backoff_loop n d i c poll)"
  by (induction n arbitrary: i) (auto intro!: keeps_intros keeps_now keeps_sleep keep)

lemma keeps_backoff_poll: "keeps R poll \<Longrightarrow> keeps R (backoff_poll n cfg poll)"
  by (auto simp: backoff_poll_def intro!: keeps_intros keeps_now keeps_backoff_loop)

end

text \<open>An operation that keeps the clock and only moves forward in its readings.\<close>

definition onward :: "('v world, 'a) op \<Rightarrow> bool" where
  "onward m \<longleftrightarrow> keeps (\<lambda>w w'. clock w' = clock w \<and> ticks w \<le> ticks w') m"

lemma backoff_rounds_enough:
  assumes "onward poll" and "\<And>i. ticks w + n \<le> i \<Longrightarrow> deadline \<le> clock w i" and "n < m"
  shows "backoff_loop m deadline i cap poll w = backoff_loop (Suc n) deadline i cap poll w"
  using assms(2,3)
proof (induction n arbitrary: m w i)
  case 0
  then obtain m' where "m = Suc m'" by (cases m) auto
  then show ?case
    using 0(1) [of "ticks w"] by (simp add: op_defs readings_def not_less [symmetric])
next
  case (Suc n)
  then obtain m' where m: "m = Suc m'" "n < m'" by (cases m) auto
  have "backoff_loop m' deadline i' cap poll w2 = backoff_loop (Suc n) deadline i' cap poll w2"
    if "poll (tick 1 (tick 1 w)) = (Inr None, w2)" for w2 i'
  proof (rule Suc.IH)
    have w2: "clock w2 = clock w" "ticks w + 2 \<le> ticks w2"
      using keepsD [OF assms(1) [unfolded onward_def] that] by (simp_all add: tick_def)
    fix j assume "ticks w2 + n \<le> j"
    with w2 show "deadline \<le> clock w2 j" using Suc.prems(1) [of j] by simp
  qed (rule m(2))
  then show ?case
    unfolding m(1) by (auto simp: op_defs simp del: backoff_loop.simps(2) [of n]
      split: prod.split sum.split option.split intro!: ext)
qed

end
