(* ===== verification/VenueFees.thy ===== *)
theory VenueFees
  imports PyBase
begin

text \<open>
  The canonical fee schedules of \<open>venue_fees.py\<close>. Prices, sizes and multipliers arrive as floats
  and are turned into decimals through their printed form (\<open>repr_dec\<close>); the products are
  28-digit decimal operations in the source's order; the Kalshi fee rounds up to the next cent,
  the Polymarket fee half up to 5 decimals with a minimum; the result is converted back to a float.
\<close>

section \<open>Decimal operations\<close>

definition dmul :: "rat \<Rightarrow> rat \<Rightarrow> rat" where "dmul x y = dec28 (x * y)"

definition dsub :: "rat \<Rightarrow> rat \<Rightarrow> rat" where "dsub x y = dec28 (x - y)"

definition dadd :: "rat \<Rightarrow> rat \<Rightarrow> rat" where "dadd x y = dec28 (x + y)"

definition ddiv :: "rat \<Rightarrow> rat \<Rightarrow> rat" where "ddiv x y = dec28 (x / y)"

text \<open>\<open>ROUND_UP\<close> (away from zero) and \<open>ROUND_HALF_UP\<close> to an integer; \<open>quantize\<close> to \<open>k\<close> decimals.\<close>

definition round_up :: "rat \<Rightarrow> int" where
  "round_up x = (if 0 \<le> x then \<lceil>x\<rceil> else \<lfloor>x\<rfloor>)"

definition round_half_up :: "rat \<Rightarrow> int" where
  "round_half_up x = (if 0 \<le> x then \<lfloor>x + 1 / 2\<rfloor> else - \<lfloor>1 / 2 - x\<rfloor>)"

definition quantize_half_up :: "nat \<Rightarrow> rat \<Rightarrow> rat" where
  "quantize_half_up k x = of_int (round_half_up (x * 10 ^ k)) / 10 ^ k"

section \<open>Kalshi\<close>

definition KALSHI_TAKER_FACTOR :: rat where "KALSHI_TAKER_FACTOR = 7 / 100"

definition KALSHI_MAKER_FACTOR :: rat where "KALSHI_MAKER_FACTOR = 175 / 10000"

definition KALSHI_FEE_TYPE_QUADRATIC :: string where
  "KALSHI_FEE_TYPE_QUADRATIC = ''quadratic''"

definition KALSHI_FEE_TYPE_WITH_MAKER :: string where
  "KALSHI_FEE_TYPE_WITH_MAKER = ''quadratic_with_maker_fees''"

definition KALSHI_SERIES_FEE_SNAPSHOT :: "(string \<times> (string \<times> rat)) list" where
  "KALSHI_SERIES_FEE_SNAPSHOT =
    [(''KXNBA'', (KALSHI_FEE_TYPE_WITH_MAKER, 1)),
     (''KXNBASERIES'', (KALSHI_FEE_TYPE_WITH_MAKER, 1)),
     (''KXBTCD'', (KALSHI_FEE_TYPE_QUADRATIC, 1)),
     (''KXETHD'', (KALSHI_FEE_TYPE_QUADRATIC, 1)),
     (''KXHIGHNY'', (KALSHI_FEE_TYPE_QUADRATIC, 1)),
     (''KXINX'', (KALSHI_FEE_TYPE_QUADRATIC, 1 / 2))]"

definition kalshi_series_fee_params :: "string \<Rightarrow> string \<times> rat" where
  "kalshi_series_fee_params series_ticker =
     (case map_of KALSHI_SERIES_FEE_SNAPSHOT (upper series_ticker) of
        Some pm \<Rightarrow> pm | None \<Rightarrow> (KALSHI_FEE_TYPE_WITH_MAKER, 1))"

text \<open>The decimal fee before it is rounded to cents, and the fee.\<close>

definition kalshi_raw :: "rat \<Rightarrow> rat \<Rightarrow> rat \<Rightarrow> rat \<Rightarrow> rat" where
  "kalshi_raw price sz factor fee_multiplier =
     (let p = repr_dec price; c = repr_dec sz
      in dmul (dmul (dmul (dmul factor (repr_dec fee_multiplier)) c) p) (dsub 1 p))"

definition kalshi_quadratic :: "rat \<Rightarrow> rat \<Rightarrow> rat \<Rightarrow> rat \<Rightarrow> rat" where
  "kalshi_quadratic price sz factor fee_multiplier =
     (let raw = kalshi_raw price sz factor fee_multiplier;
          fee = ddiv (of_int (round_up (dmul raw 100))) 100
      in fl fee)"

definition kalshi_taker_fee :: "rat \<Rightarrow> rat \<Rightarrow> rat \<Rightarrow> rat" where
  "kalshi_taker_fee price sz fee_multiplier =
     kalshi_quadratic price sz KALSHI_TAKER_FACTOR fee_multiplier"

definition kalshi_maker_fee :: "rat \<Rightarrow> rat \<Rightarrow> string \<Rightarrow> rat \<Rightarrow> rat" where
  "kalshi_maker_fee price sz fee_type fee_multiplier =
     (if fee_type \<noteq> KALSHI_FEE_TYPE_WITH_MAKER then 0
      else kalshi_quadratic price sz KALSHI_MAKER_FACTOR fee_multiplier)"

section \<open>Polymarket\<close>

definition PM_CATEGORY_FEE_RATE_BPS :: "(string \<times> int) list" where
  "PM_CATEGORY_FEE_RATE_BPS =
    [(''geopolitics'', 0), (''sports'', 300), (''politics'', 400), (''finance'', 400),
     (''tech'', 400), (''mentions'', 400), (''economics'', 500), (''culture'', 500),
     (''weather'', 500), (''other'', 500), (''crypto'', 700)]"

definition PM_DEFAULT_FEE_RATE_BPS :: int where "PM_DEFAULT_FEE_RATE_BPS = 500"

text \<open>The rate that applies: an explicit one, else the category's, else the default.\<close>

definition pm_rate :: "int option \<Rightarrow> string option \<Rightarrow> pyexn + int" where
  "pm_rate fee_rate_bps category =
     (case fee_rate_bps of
        Some r \<Rightarrow> Inr r
      | None \<Rightarrow>
          (case category of
             Some cat \<Rightarrow>
               (case map_of PM_CATEGORY_FEE_RATE_BPS (lower (strip cat)) of
                  Some r \<Rightarrow> Inr r | None \<Rightarrow> Inl ValueError)
           | None \<Rightarrow> Inr PM_DEFAULT_FEE_RATE_BPS))"

definition pm_raw :: "rat \<Rightarrow> rat \<Rightarrow> int \<Rightarrow> rat" where
  "pm_raw price sz bps =
     (let p = repr_dec price; c = repr_dec sz; rate = ddiv (of_int bps) 10000
      in dmul (dmul (dmul c rate) p) (dsub 1 p))"

definition pm_fee_dec :: "rat \<Rightarrow> rat" where
  "pm_fee_dec raw =
     (let fee = quantize_half_up 5 raw
      in if 0 < raw \<and> fee < 1 / 100000 then 1 / 100000 else fee)"

definition pm_taker_fee :: "rat \<Rightarrow> rat \<Rightarrow> int option \<Rightarrow> string option \<Rightarrow> pyexn + rat" where
  "pm_taker_fee price sz fee_rate_bps category =
     (case pm_rate fee_rate_bps category of
        Inl e \<Rightarrow> Inl e
      | Inr bps \<Rightarrow>
          if bps = 0 \<or> bps \<le> 0 then Inr 0
          else Inr (fl (pm_fee_dec (pm_raw price sz bps))))"

definition pm_maker_fee :: "rat \<Rightarrow> rat \<Rightarrow> rat" where
  "pm_maker_fee price sz = 0"

definition LEGACY_PM_FLAT_TAKER_RATE :: rat where "LEGACY_PM_FLAT_TAKER_RATE = fl (2 / 100)"

definition LEGACY_PM_CURVE_FEE_RATE_BPS :: int where "LEGACY_PM_CURVE_FEE_RATE_BPS = 1000"

definition legacy_pm_taker_fee :: "rat \<Rightarrow> rat \<Rightarrow> rat" where
  "legacy_pm_taker_fee price sz =
     (let p = repr_dec price; c = repr_dec sz;
          trade_value = dmul p c;
          fee_rate = ddiv (of_int LEGACY_PM_CURVE_FEE_RATE_BPS) 4000;
          q = dmul p (dsub 1 p);
          curve = dmul (dmul trade_value fee_rate) (dmul q q);
          flat = dmul trade_value (repr_dec LEGACY_PM_FLAT_TAKER_RATE)
      in fl (quantize_half_up 4 (dadd curve flat)))"

section \<open>Venue dispatchers\<close>

definition taker_fee ::
    "string \<Rightarrow> rat \<Rightarrow> rat \<Rightarrow> string option \<Rightarrow> int option \<Rightarrow> rat \<Rightarrow> bool \<Rightarrow> pyexn + rat" where
  "taker_fee venue price sz category fee_rate_bps fee_multiplier legacy =
     (let v = lower (strip venue) in
      if v = ''kalshi'' then Inr (kalshi_taker_fee price sz fee_multiplier)
      else if v = ''polymarket'' then
        (if legacy then Inr (legacy_pm_taker_fee price sz)
         else pm_taker_fee price sz fee_rate_bps category)
      else Inl ValueError)"

definition maker_fee :: "string \<Rightarrow> rat \<Rightarrow> rat \<Rightarrow> string option \<Rightarrow> rat \<Rightarrow> pyexn + rat" where
  "maker_fee venue price sz fee_type fee_multiplier =
     (let v = lower (strip venue) in
      if v = ''kalshi'' then
        (let ft = (case fee_type of None \<Rightarrow> KALSHI_FEE_TYPE_WITH_MAKER | Some t \<Rightarrow> t)
         in Inr (kalshi_maker_fee price sz ft fee_multiplier))
      else if v = ''polymarket'' then Inr (pm_maker_fee price sz)
      else Inl ValueError)"

section \<open>Lemmas\<close>

lemma dmul_nonneg: "0 \<le> x \<Longrightarrow> 0 \<le> y \<Longrightarrow> 0 \<le> dmul x y"
  by (simp add: dmul_def d28.R_nonneg)

lemma dmul_mono: "x \<le> x' \<Longrightarrow> 0 \<le> y \<Longrightarrow> dmul x y \<le> dmul x' y"
  unfolding dmul_def by (intro d28.R_mono mult_right_mono)

lemma dmul_mono_right: "y \<le> y' \<Longrightarrow> 0 \<le> x \<Longrightarrow> dmul x y \<le> dmul x y'"
  unfolding dmul_def by (intro d28.R_mono mult_left_mono)

lemma ddiv_mono: "x \<le> x' \<Longrightarrow> 0 \<le> y \<Longrightarrow> ddiv x y \<le> ddiv x' y"
  unfolding ddiv_def by (intro d28.R_mono divide_right_mono)

lemma dsub_1_nonneg: "p \<le> 1 \<Longrightarrow> 0 \<le> dsub 1 p"
  by (simp add: dsub_def d28.R_nonneg)

lemma dmul_dmul_100: "dmul (dmul x y) 100 = 100 * dmul x y"
  using d28.R_scale [of 2 "x * y"] by (simp add: dmul_def mult.commute)

text \<open>An order's price and size as the fee functions get them.\<close>

definition fee_args :: "rat \<Rightarrow> rat \<Rightarrow> bool" where
  "fee_args price sz \<longleftrightarrow> is_float price \<and> 0 \<le> price \<and> price \<le> 1 \<and> is_float sz \<and> 0 \<le> sz"

lemma kalshi_raw_nonneg:
  assumes "fee_args price sz" and "0 \<le> factor" and "is_float m" "0 \<le> m"
  shows "0 \<le> kalshi_raw price sz factor m"
  using assms unfolding kalshi_raw_def Let_def fee_args_def
  by (intro dmul_nonneg dsub_1_nonneg repr_dec_nonneg repr_dec_le_1) auto

lemma kalshi_raw_mono:
  assumes a: "fee_args price sz" and "0 \<le> factor" "factor \<le> factor'" and "0 \<le> repr_dec m"
    and "repr_dec m \<le> repr_dec m'"
  shows "kalshi_raw price sz factor m \<le> kalshi_raw price sz factor' m'"
proof -
  have nn: "0 \<le> repr_dec sz" "0 \<le> repr_dec price" "0 \<le> dsub 1 (repr_dec price)"
    using a by (auto simp: fee_args_def intro!: repr_dec_nonneg dsub_1_nonneg repr_dec_le_1)
  have "dmul factor (repr_dec m) \<le> dmul factor (repr_dec m')"
    using assms by (intro dmul_mono_right) auto
  also have "\<dots> \<le> dmul factor' (repr_dec m')" using assms by (intro dmul_mono) auto
  finally show ?thesis
    unfolding kalshi_raw_def Let_def using nn by (intro dmul_mono)
qed

lemma round_up_mono: "x \<le> y \<Longrightarrow> round_up x \<le> round_up y"
proof -
  assume xy: "x \<le> y"
  consider "0 \<le> x" | "x < 0" "0 \<le> y" | "y < 0" by linarith
  then show ?thesis
  proof cases
    case 2
    then have "\<lfloor>x\<rfloor> \<le> 0" "0 \<le> \<lceil>y\<rceil>" by linarith+
    then have "\<lfloor>x\<rfloor> \<le> \<lceil>y\<rceil>" by linarith
    then show ?thesis using 2 by (simp add: round_up_def)
  qed (use xy in \<open>auto simp: round_up_def ceiling_mono floor_mono\<close>)
qed

lemma kalshi_quadratic_mono:
  "kalshi_raw price sz f m \<le> kalshi_raw price sz f' m' \<Longrightarrow>
   kalshi_quadratic price sz f m \<le> kalshi_quadratic price sz f' m'"
  unfolding kalshi_quadratic_def Let_def
  by (intro fl_mono ddiv_mono dmul_mono) (auto intro!: round_up_mono dmul_mono)

lemma kalshi_quadratic_nonneg:
  assumes "0 \<le> kalshi_raw price sz f m"
  shows "0 \<le> kalshi_quadratic price sz f m"
proof -
  have "0 \<le> dmul (kalshi_raw price sz f m) 100" using assms by (intro dmul_nonneg) auto
  then have "0 \<le> round_up (dmul (kalshi_raw price sz f m) 100)" by (simp add: round_up_def)
  then show ?thesis
    unfolding kalshi_quadratic_def Let_def ddiv_def
    by (intro fl_nonneg d28.R_nonneg divide_nonneg_nonneg) auto
qed

lemma round_half_up_error: "\<bar>of_int (round_half_up x) - x\<bar> \<le> 1 / 2"
proof (cases "0 \<le> x")
  case True
  then show ?thesis unfolding round_half_up_def abs_le_iff by (simp only: if_True) linarith
next
  case False
  then show ?thesis unfolding round_half_up_def abs_le_iff by (simp only: if_False of_int_minus) linarith
qed

lemma round_half_up_nonneg: "0 \<le> x \<Longrightarrow> 0 \<le> round_half_up x"
  by (simp add: round_half_up_def)

lemma quantize_half_up_error: "\<bar>quantize_half_up k x - x\<bar> \<le> 1 / (2 * 10 ^ k)"
proof -
  have "quantize_half_up k x - x = (of_int (round_half_up (x * 10 ^ k)) - x * 10 ^ k) / 10 ^ k"
    by (simp add: quantize_half_up_def field_simps)
  then have "\<bar>quantize_half_up k x - x\<bar> = \<bar>of_int (round_half_up (x * 10 ^ k)) - x * 10 ^ k\<bar> / 10 ^ k"
    by simp
  also have "\<dots> \<le> (1 / 2) / 10 ^ k" by (intro divide_right_mono round_half_up_error) simp
  finally show ?thesis by (simp add: field_simps)
qed

lemma pm_raw_nonneg: "fee_args price sz \<Longrightarrow> 0 \<le> bps \<Longrightarrow> 0 \<le> pm_raw price sz bps"
  unfolding pm_raw_def Let_def fee_args_def ddiv_def
  by (intro dmul_nonneg dsub_1_nonneg repr_dec_nonneg repr_dec_le_1 d28.R_nonneg divide_nonneg_nonneg)
    auto

lemma pm_fee_dec_bounds:
  assumes "0 \<le> raw"
  shows "0 \<le> pm_fee_dec raw" and "0 < raw \<Longrightarrow> 1 / 100000 \<le> pm_fee_dec raw"
    and "\<bar>pm_fee_dec raw - raw\<bar> \<le> 1 / 100000"
    and "1 / 200000 \<le> raw \<Longrightarrow> \<bar>pm_fee_dec raw - raw\<bar> \<le> 1 / 200000"
proof -
  have q: "\<bar>quantize_half_up 5 raw - raw\<bar> \<le> 1 / 200000" using quantize_half_up_error [of 5 raw] by simp
  have nn: "0 \<le> quantize_half_up 5 raw"
    using assms by (simp add: quantize_half_up_def round_half_up_nonneg)
  have half: "1 / 100000 \<le> quantize_half_up 5 raw" if "1 / 200000 \<le> raw"
    using that by (simp add: quantize_half_up_def round_half_up_def le_floor_iff)
  show "0 \<le> pm_fee_dec raw" using nn by (simp add: pm_fee_dec_def Let_def)
  show "1 / 100000 \<le> pm_fee_dec raw" if "0 < raw" using that by (auto simp: pm_fee_dec_def Let_def)
  show "\<bar>pm_fee_dec raw - raw\<bar> \<le> 1 / 100000"
  proof (cases "1 / 200000 \<le> raw")
    case True
    then have "pm_fee_dec raw = quantize_half_up 5 raw" using half by (simp add: pm_fee_dec_def Let_def)
    then show ?thesis using q by linarith
  next
    case False
    then show ?thesis
      unfolding pm_fee_dec_def Let_def using q nn assms by (simp split: if_split)
  qed
  show "\<bar>pm_fee_dec raw - raw\<bar> \<le> 1 / 200000" if "1 / 200000 \<le> raw"
    using q half that by (simp add: pm_fee_dec_def Let_def)
qed

lemma pm_rate_error_iff:
  "pm_rate bps category = Inl e \<longleftrightarrow> e = ValueError \<and> bps = None \<and>
     (\<exists>cat. category = Some cat \<and> lower (strip cat) \<notin> fst ` set PM_CATEGORY_FEE_RATE_BPS)"
  unfolding pm_rate_def
  by (auto split: option.splits dest: map_of_SomeD intro: rev_image_eqI
      simp flip: map_of_eq_None_iff)

lemma pm_taker_fee_error_iff: "pm_taker_fee price sz bps category = Inl e \<longleftrightarrow> pm_rate bps category = Inl e"
  by (simp add: pm_taker_fee_def split: sum.split)

section \<open>Properties\<close>

text \<open>A Kalshi taker fee is the least whole number of cents at or above the quadratic
  \<open>0.07 x mult x C x P x (1 - P)\<close> as the decimal context computes it: never below it, never a full
  cent above it, and never negative.\<close>
theorem kalshi_taker_fee_ceil_cents:
  assumes "fee_args price sz" and "is_float m" and "0 \<le> m"
  shows "\<exists>n::int. 0 \<le> n \<and> kalshi_taker_fee price sz m = fl (ddiv (of_int n) 100) \<and>
           of_int n - 1 < 100 * kalshi_raw price sz KALSHI_TAKER_FACTOR m \<and>
           100 * kalshi_raw price sz KALSHI_TAKER_FACTOR m \<le> of_int n"
proof -
  let ?raw = "kalshi_raw price sz KALSHI_TAKER_FACTOR m"
  have raw: "0 \<le> ?raw" using assms by (intro kalshi_raw_nonneg) (auto simp: KALSHI_TAKER_FACTOR_def)
  have "dmul ?raw 100 = 100 * ?raw" by (simp add: kalshi_raw_def Let_def dmul_dmul_100)
  then have "kalshi_taker_fee price sz m = fl (ddiv (of_int \<lceil>100 * ?raw\<rceil>) 100)"
    using raw by (simp add: kalshi_taker_fee_def kalshi_quadratic_def Let_def round_up_def)
  moreover have "0 \<le> \<lceil>100 * ?raw\<rceil>" using raw by simp
  ultimately show ?thesis
    by (intro exI [of _ "\<lceil>100 * ?raw\<rceil>"]) linarith
qed

theorem kalshi_taker_fee_ceil_cents_witness:
  "\<exists>n::int. 0 \<le> n \<and> kalshi_taker_fee (1 / 2) 3 1 = fl (ddiv (of_int n) 100) \<and>
     of_int n - 1 < 100 * kalshi_raw (1 / 2) 3 KALSHI_TAKER_FACTOR 1 \<and>
     100 * kalshi_raw (1 / 2) 3 KALSHI_TAKER_FACTOR 1 \<le> of_int n"
proof -
  have "fee_args (1 / 2) 3" by code_simp
  then show ?thesis using kalshi_taker_fee_ceil_cents [of "1 / 2" 3 1] by simp
qed

text \<open>A series that is not pinned in the snapshot is charged the conservative default: for
  every series, the taker and the maker fee under the parameters looked up are at most the fees
  under the default parameters, so a missing entry can only overstate costs.\<close>
theorem default_series_params_overcharge:
  assumes a: "fee_args price sz" and p: "kalshi_series_fee_params ticker = (ft, m)"
  shows "kalshi_taker_fee price sz m \<le> kalshi_taker_fee price sz 1 \<and>
    kalshi_maker_fee price sz ft m \<le> kalshi_maker_fee price sz KALSHI_FEE_TYPE_WITH_MAKER 1"
proof -
  have m: "(m = 1 \<or> m = 1 / 2)"
    using p unfolding kalshi_series_fee_params_def KALSHI_SERIES_FEE_SNAPSHOT_def
    by (auto split: if_splits option.splits)
  have half: "repr_dec (1 / 2) = 1 / 2" by code_simp
  have "0 \<le> repr_dec m" "repr_dec m \<le> 1" using m by (elim disjE; hypsubst; simp add: half)+
  then have le: "kalshi_quadratic price sz f m \<le> kalshi_quadratic price sz f 1" if "0 \<le> f" for f
    using a that by (intro kalshi_quadratic_mono kalshi_raw_mono) auto
  have "0 \<le> kalshi_quadratic price sz KALSHI_MAKER_FACTOR 1"
    using a by (intro kalshi_quadratic_nonneg kalshi_raw_nonneg) (auto simp: KALSHI_MAKER_FACTOR_def)
  then show ?thesis
    using le [of KALSHI_TAKER_FACTOR] le [of KALSHI_MAKER_FACTOR]
    by (auto simp: kalshi_taker_fee_def kalshi_maker_fee_def KALSHI_TAKER_FACTOR_def
        KALSHI_MAKER_FACTOR_def)
qed

theorem default_series_params_overcharge_witness:
  "kalshi_taker_fee (1 / 2) 3 (1 / 2) \<le> kalshi_taker_fee (1 / 2) 3 1 \<and>
   kalshi_maker_fee (1 / 2) 3 KALSHI_FEE_TYPE_QUADRATIC (1 / 2)
     \<le> kalshi_maker_fee (1 / 2) 3 KALSHI_FEE_TYPE_WITH_MAKER 1"
proof -
  have "fee_args (1 / 2) 3" by code_simp
  moreover have "kalshi_series_fee_params ''kxinx'' = (KALSHI_FEE_TYPE_QUADRATIC, 1 / 2)" by code_simp
  ultimately show ?thesis by (rule default_series_params_overcharge)
qed

text \<open>On one order, a Kalshi maker is never charged more than a taker, whatever the series' fee
  type, and is charged nothing on a series without maker fees.\<close>
theorem kalshi_maker_le_taker:
  assumes "fee_args price sz" and "is_float m" and "0 \<le> m"
  shows "kalshi_maker_fee price sz ft m \<le> kalshi_taker_fee price sz m \<and>
    0 \<le> kalshi_maker_fee price sz ft m \<and>
    (ft = KALSHI_FEE_TYPE_QUADRATIC \<longrightarrow> kalshi_maker_fee price sz ft m = 0)"
proof -
  have nn: "0 \<le> kalshi_quadratic price sz f m" if "0 \<le> f" for f
    using assms that by (intro kalshi_quadratic_nonneg kalshi_raw_nonneg) auto
  have "kalshi_quadratic price sz KALSHI_MAKER_FACTOR m \<le> kalshi_quadratic price sz KALSHI_TAKER_FACTOR m"
    using assms by (intro kalshi_quadratic_mono kalshi_raw_mono)
      (auto simp: KALSHI_TAKER_FACTOR_def KALSHI_MAKER_FACTOR_def repr_dec_nonneg)
  then show ?thesis
    using nn [of KALSHI_TAKER_FACTOR] nn [of KALSHI_MAKER_FACTOR]
    by (auto simp: kalshi_maker_fee_def kalshi_taker_fee_def KALSHI_TAKER_FACTOR_def
        KALSHI_MAKER_FACTOR_def KALSHI_FEE_TYPE_QUADRATIC_def KALSHI_FEE_TYPE_WITH_MAKER_def)
qed

theorem kalshi_maker_le_taker_witness:
  "kalshi_maker_fee (1 / 2) 3 KALSHI_FEE_TYPE_WITH_MAKER 1 \<le> kalshi_taker_fee (1 / 2) 3 1 \<and>
   0 \<le> kalshi_maker_fee (1 / 2) 3 KALSHI_FEE_TYPE_WITH_MAKER 1"
proof -
  have "fee_args (1 / 2) 3" by code_simp
  then show ?thesis
    using kalshi_maker_le_taker [of "1 / 2" 3 1 KALSHI_FEE_TYPE_WITH_MAKER] by simp
qed

text \<open>With an explicit positive rate a Polymarket taker fee always exists, whatever the category
  says: it is a decimal within half a 5th decimal of \<open>C x rate x P x (1 - P)\<close> (within one 5th decimal
  for a raw fee so small that the minimum applies), never negative, and at least 0.00001 as soon
  as the raw fee is positive.\<close>
theorem pm_taker_fee_bounds:
  assumes "fee_args price sz" and "0 < bps"
  shows "\<exists>fee. pm_taker_fee price sz (Some bps) cat = Inr (fl fee) \<and> 0 \<le> fee \<and>
    (0 < pm_raw price sz bps \<longrightarrow> 1 / 100000 \<le> fee) \<and>
    \<bar>fee - pm_raw price sz bps\<bar> \<le> 1 / 100000 \<and>
    (1 / 200000 \<le> pm_raw price sz bps \<longrightarrow> \<bar>fee - pm_raw price sz bps\<bar> \<le> 1 / 200000)"
proof -
  have raw: "0 \<le> pm_raw price sz bps" using assms by (intro pm_raw_nonneg) auto
  show ?thesis
    using pm_fee_dec_bounds [OF raw] assms(2)
    by (intro exI [of _ "pm_fee_dec (pm_raw price sz bps)"]) (simp add: pm_taker_fee_def pm_rate_def)
qed

theorem pm_taker_fee_bounds_witness:
  "\<exists>fee. pm_taker_fee (1 / 2) 3 (Some 300) (Some ''no such category'') = Inr (fl fee) \<and> 0 \<le> fee \<and>
    (0 < pm_raw (1 / 2) 3 300 \<longrightarrow> 1 / 100000 \<le> fee) \<and>
    \<bar>fee - pm_raw (1 / 2) 3 300\<bar> \<le> 1 / 100000 \<and>
    (1 / 200000 \<le> pm_raw (1 / 2) 3 300 \<longrightarrow> \<bar>fee - pm_raw (1 / 2) 3 300\<bar> \<le> 1 / 200000)"
proof -
  have "fee_args (1 / 2) 3" by code_simp
  then show ?thesis by (rule pm_taker_fee_bounds) simp
qed

text \<open>The taker-fee dispatcher fails, with \<open>ValueError\<close>, exactly for a venue that is neither
  Kalshi nor Polymarket (up to case and surrounding blanks) and for a Polymarket order priced by
  the current schedule with no explicit rate and a category outside the table.\<close>
theorem taker_fee_error_iff:
  "taker_fee venue price sz category bps mult legacy = Inl e \<longleftrightarrow>
     e = ValueError \<and>
     (lower (strip venue) \<notin> {''kalshi'', ''polymarket''} \<or>
      lower (strip venue) = ''polymarket'' \<and> \<not> legacy \<and> bps = None \<and>
        (\<exists>cat. category = Some cat \<and> lower (strip cat) \<notin> fst ` set PM_CATEGORY_FEE_RATE_BPS))"
  unfolding taker_fee_def Let_def
  by (auto simp: pm_taker_fee_error_iff pm_rate_error_iff)

theorem taker_fee_error_iff_witness:
  "taker_fee ''betfair'' (1 / 2) 3 None None 1 False = Inl ValueError"
proof -
  have "lower (strip ''betfair'') \<notin> {''kalshi'', ''polymarket''}" by code_simp
  then show ?thesis by (simp add: taker_fee_error_iff)
qed

end
