(* ===== verification/Venues.thy ===== *)
theory Venues
  imports Effects VenueFees
begin

text \<open>
  What lies behind the gateways: the two venues, reached over HTTP and through the CLOB SDK, and
  the clients' own caches. The services outside the repository are functions of a request and a
  state \<open>'x\<close> of the outside world (record \<open>services\<close>): the model assumes nothing about their
  answers. Every request that leaves the process is appended to a log, \<open>k_sent\<close> for Kalshi and
  \<open>p_sent\<close> for orders posted to Polymarket, so that what was sent can be stated.
\<close>

record http_request =
  hq_method :: string
  hq_url :: string
  hq_headers :: "(string \<times> string) list"
  hq_body :: "obj option"

text \<open>A JSON reply with its status (Kalshi's API returns JSON objects), a timeout, or another
  exception with its text.\<close>

datatype http_reply = Reply int obj | Timed_out | Broken string

text \<open>An order as the CLOB SDK is given it: a marketable one carries no price.\<close>

record pm_order =
  po_token :: "string option"
  po_side :: string
  po_price :: "rat option"
  po_size :: rat
  po_type :: string
  po_expiration :: "int option"
  po_tick :: string
  po_neg_risk :: bool

datatype fee_reply = Fee_reply int json | Fee_broken

record 'x services =
  api_key :: "string option"
  key_path :: "string option"
  key_exists :: "string \<Rightarrow> bool"
  pss_sign :: "string \<Rightarrow> string \<Rightarrow> string option"
  kalshi_http :: "http_request \<Rightarrow> 'x \<Rightarrow> http_reply \<times> 'x"
  sdk_client :: "'x \<Rightarrow> string option \<times> 'x"
  sdk_tick :: "string option \<Rightarrow> 'x \<Rightarrow> (string + json) \<times> 'x"
  sdk_neg_risk :: "string option \<Rightarrow> 'x \<Rightarrow> (string + json) \<times> 'x"
  sdk_post :: "pm_order \<Rightarrow> 'x \<Rightarrow> (string + json) \<times> 'x"
  sdk_get_order :: "string \<Rightarrow> 'x \<Rightarrow> (string + json) \<times> 'x"
  sdk_cancel :: "string \<Rightarrow> 'x \<Rightarrow> (string + json) \<times> 'x"
  sdk_trades :: "string option \<Rightarrow> 'x \<Rightarrow> (string + json) \<times> 'x"
  sdk_balance :: "'x \<Rightarrow> (string + json) \<times> 'x"
  sdk_positions :: "'x \<Rightarrow> (string + json) \<times> 'x"
  fee_http :: "string \<Rightarrow> 'x \<Rightarrow> fee_reply \<times> 'x"
  sha :: "string \<Rightarrow> string"
  uuid :: "'x \<Rightarrow> string \<times> 'x"

record 'x venues =
  k_sent :: "(http_request \<times> bool) list"
  p_sent :: "pm_order list"
  tick_cache :: "(string option \<times> string) list"
  neg_cache :: "(string option \<times> bool) list"
  fee_cache :: "(string \<times> (int \<times> rat)) list"
  outside :: 'x

type_synonym ('x, 'a) vop = "('x venues world, 'a) op"

text \<open>A call of an outside service; the log entry, if any, is made before it.\<close>

definition ask :: "('x \<Rightarrow> 'a \<times> 'x) \<Rightarrow> ('x, 'a) vop" where
  "ask f = (\<lambda>w. let (a, x) = f (outside (net w)) in (Inr a, w\<lparr>net := (net w)\<lparr>outside := x\<rparr>\<rparr>))"

text \<open>A call of an outside service that may raise.\<close>

definition ask_or_raise :: "('x \<Rightarrow> (string + 'a) \<times> 'x) \<Rightarrow> ('x, 'a) vop" where
  "ask_or_raise f = bind (ask f) (\<lambda>r. case r of Inl e \<Rightarrow> raise e | Inr a \<Rightarrow> ret a)"

definition get_net :: "('x, 'x venues) vop" where "get_net = (\<lambda>w. (Inr (net w), w))"

definition put_net :: "('x venues \<Rightarrow> 'x venues) \<Rightarrow> ('x, unit) vop" where
  "put_net f = (\<lambda>w. (Inr (), w\<lparr>net := f (net w)\<rparr>))"

definition get_safe :: "('x, safety) vop" where "get_safe = (\<lambda>w. (Inr (safe w), w))"

definition lock_check :: "config \<Rightarrow> ('x, bool \<times> string option) vop" where
  "lock_check cfg = (\<lambda>w. let (r, s) = assert_or_warn cfg (safe w) in (Inr r, w\<lparr>safe := s\<rparr>))"

text \<open>A string that is neither absent nor empty.\<close>

definition is_set :: "string option \<Rightarrow> bool" where
  "is_set v \<longleftrightarrow> v \<noteq> None \<and> v \<noteq> Some []"

lemmas venue_op_defs = op_defs ask_def ask_or_raise_def get_net_def put_net_def get_safe_def

section \<open>Growth of the logs\<close>

text \<open>
  What every operation of a client keeps: the safety gates are untouched and the logs only grow.
\<close>

definition grows :: "'x venues world \<Rightarrow> 'x venues world \<Rightarrow> bool" where
  "grows w w' \<longleftrightarrow> safe w' = safe w \<and> clock w' = clock w \<and> ticks w \<le> ticks w' \<and>
     prefix (k_sent (net w)) (k_sent (net w')) \<and> prefix (p_sent (net w)) (p_sent (net w'))"

interpretation grows: world_relation grows
  by unfold_locales (auto simp: grows_def)

lemma grows_basic [keep]:
  "keeps grows now" "keeps grows (sleep d)" "keeps grows (ask f)" "keeps grows get_net"
  "keeps grows get_safe"
  by (auto simp: keeps_def grows_def venue_op_defs tick_def prod.case_eq_if)

lemma grows_put [keep]:
  "(\<And>v. prefix (k_sent v) (k_sent (f v))) \<Longrightarrow> (\<And>v. prefix (p_sent v) (p_sent (f v))) \<Longrightarrow> keeps grows (put_net f)"
  by (auto simp: keeps_def grows_def put_net_def)

declare grows.keeps_intros [keep]

lemma grows_ask_or_raise [keep]: "keeps grows (ask_or_raise f)"
  unfolding ask_or_raise_def by (intro keep)

lemma grows_backoff_loop: "keeps grows poll \<Longrightarrow> keeps grows (backoff_loop n d i c poll)"
  by (induction n arbitrary: i) (auto intro!: keep)

lemma grows_backoff_poll [keep]: "keeps grows poll \<Longrightarrow> keeps grows (backoff_poll n cfg poll)"
  by (auto simp: backoff_poll_def intro!: keep grows_backoff_loop)

end
