(* ===== verification/KalshiClient.thy ===== *)
theory KalshiClient
  imports Venues
begin

text \<open>
  \<open>KalshiOrderClient\<close> of \<open>kalshi_executor.py\<close>: signing, the mutation gate inside the raw client,
  and the calls of the trading API. The RSA-PSS signature over a message (with the key in a given
  file), the existence of the key file and the HTTP exchange are services; a signing error makes
  the headers empty, as in the source. The evaluation of the gate itself cannot raise in the
  model. A reply without an \<open>error\<close> key is the venue's own.
\<close>

definition KALSHI_API_BASE :: string where
  "KALSHI_API_BASE = ''https://api.elections.kalshi.com/trade-api/v2''"

definition HTTP_USER_AGENT :: string where
  "HTTP_USER_AGENT = ''Mozilla/5.0 (X11; Linux x86_64) AppleWebKit/537.36 '' @
     ''(KHTML, like Gecko) Chrome/124.0 Safari/537.36''"

definition kalshi_auth_headers ::
    "'x services \<Rightarrow> string \<Rightarrow> string \<Rightarrow> ('x, (string \<times> string) list) vop" where
  "kalshi_auth_headers S meth path =
     (if \<not> is_set (api_key S) then ret []
      else if \<not> is_set (key_path S) then
        raise (''KALSHI_PRIVATE_KEY_PATH is not set. Refusing to sign Kalshi API '' @
          ''requests without an explicitly configured private-key path (the '' @
          ''implicit repo-root .pem fallback was removed). Set '' @
          ''KALSHI_PRIVATE_KEY_PATH to the RSA key that pairs with KALSHI_API_KEY.'')
      else if \<not> key_exists S (the (key_path S)) then
        raise (''Kalshi private key not found at '' @ the (key_path S) @
          '' (from KALSHI_PRIVATE_KEY_PATH). Refusing to sign.'')
      else bind now (\<lambda>t.
        let timestamp = int_str (trunc (fmul t 1000)) in
        case pss_sign S (the (key_path S)) (timestamp @ upper meth @ path) of
          None \<Rightarrow> ret []
        | Some sig \<Rightarrow> ret
            [(''Content-Type'', ''application/json''),
             (''User-Agent'', HTTP_USER_AGENT),
             (''KALSHI-ACCESS-KEY'', the (api_key S)),
             (''KALSHI-ACCESS-SIGNATURE'', sig),
             (''KALSHI-ACCESS-TIMESTAMP'', timestamp)]))"

definition api_path :: "string \<Rightarrow> string" where
  "api_path endpoint = ''/trade-api/v2'' @ endpoint"

definition MUTATING_METHODS :: "string list" where
  "MUTATING_METHODS = [''POST'', ''PUT'', ''PATCH'', ''DELETE'']"

definition mutation_blocked :: "config \<Rightarrow> string \<Rightarrow> bool \<Rightarrow> safety \<Rightarrow> string option" where
  "mutation_blocked cfg meth risk_reducing s =
     (if \<not> is_armed cfg s then Some ''live_trading_locked''
      else if meth \<noteq> ''DELETE'' then
        (let (active, why) = ks_is_active cfg s in
         if active then (if risk_reducing then None else Some (''halted:'' @ opt_str why))
         else None)
      else None)"

text \<open>The exchange itself: the request is logged, then sent.\<close>

definition send_request :: "'x services \<Rightarrow> http_request \<Rightarrow> bool \<Rightarrow> ('x, http_reply) vop" where
  "send_request S rq risk_reducing =
     bind (put_net (\<lambda>v. v\<lparr>k_sent := k_sent v @ [(rq, risk_reducing)]\<rparr>)) (\<lambda>_. ask (kalshi_http S rq))"

definition kalshi_request ::
    "'x services \<Rightarrow> config \<Rightarrow> string \<Rightarrow> string \<Rightarrow> obj option \<Rightarrow> bool \<Rightarrow> ('x, obj) vop" where
  "kalshi_request S cfg meth0 endpoint body risk_reducing =
     (let meth = upper meth0 in
      bind get_safe (\<lambda>s.
      let blocked = (if meth \<in> set MUTATING_METHODS then mutation_blocked cfg meth risk_reducing s else None)
      in if is_set blocked then ret [(''error'', JStr (the blocked))]
      else bind (kalshi_auth_headers S meth (api_path endpoint)) (\<lambda>headers.
      if headers = [] then ret [(''error'', JStr ''missing_credentials'')]
      else bind (send_request S \<lparr>hq_method = meth, hq_url = KALSHI_API_BASE @ endpoint,
                   hq_headers = headers, hq_body = body\<rparr> risk_reducing) (\<lambda>reply.
        case reply of
          Reply status data \<Rightarrow>
            if 400 \<le> status
            then ret [(''error'', JStr (''http_'' @ int_str status)), (''detail'', JObj data)]
            else ret data
        | Timed_out \<Rightarrow> ret [(''error'', JStr ''timeout'')]
        | Broken e \<Rightarrow> ret [(''error'', JStr e)]))))"

definition kalshi_get_balance :: "'x services \<Rightarrow> config \<Rightarrow> ('x, obj) vop" where
  "kalshi_get_balance S cfg = kalshi_request S cfg ''GET'' ''/portfolio/balance'' None False"

definition opt_json :: "string option \<Rightarrow> json" where
  "opt_json v = (case v of None \<Rightarrow> JNull | Some s \<Rightarrow> JStr s)"

text \<open>The body of an order, given the time it is built at.\<close>

definition order_body ::
    "config \<Rightarrow> string option \<Rightarrow> string \<Rightarrow> string \<Rightarrow> int \<Rightarrow> int \<Rightarrow> int \<Rightarrow> string option \<Rightarrow> rat \<Rightarrow> obj" where
  "order_body cfg ticker side action count price_cents ttl coid t =
     (let ttl_seconds = (if ttl \<le> 0 then KALSHI_ORDER_TTL_SECONDS cfg else ttl) in
      [(''ticker'', opt_json ticker), (''action'', JStr action), (''side'', JStr side),
       (''type'', JStr ''limit''), (''count'', JInt count), (''sell_position_floor'', JInt 0),
       (''buy_max_cost'', JInt (price_cents * count)),
       (if side = ''yes'' then ''yes_price'' else ''no_price'', JInt price_cents)] @
      (if ttl_seconds > 0 then [(''expiration_ts'', JInt (trunc t + ttl_seconds))] else []) @
      (if is_set coid then [(''client_order_id'', opt_json coid)] else []))"

text \<open>The log line after a successful order reads the reply's \<open>order\<close>, which raises when it is not a
  dictionary.\<close>

definition kalshi_place_order ::
    "'x services \<Rightarrow> config \<Rightarrow> string option \<Rightarrow> string \<Rightarrow> string \<Rightarrow> int \<Rightarrow> int \<Rightarrow> int \<Rightarrow> string option \<Rightarrow>
     bool \<Rightarrow> ('x, obj) vop" where
  "kalshi_place_order S cfg ticker side action count price_cents ttl coid risk_reducing =
     bind now (\<lambda>t.
     bind (kalshi_request S cfg ''POST'' ''/portfolio/orders''
             (Some (order_body cfg ticker side action count price_cents ttl coid t)) risk_reducing) (\<lambda>result.
     if \<not> has_key ''error'' result \<and> \<not> is_obj (get_or (JObj []) result ''order'')
     then raise (exn_text AttributeError) else ret result))"

definition kalshi_cancel_order :: "'x services \<Rightarrow> config \<Rightarrow> string \<Rightarrow> ('x, bool) vop" where
  "kalshi_cancel_order S cfg order_id =
     bind (kalshi_request S cfg ''DELETE'' (''/portfolio/orders/'' @ order_id) None False)
       (\<lambda>result. ret (\<not> has_key ''error'' result))"

definition kalshi_get_order :: "'x services \<Rightarrow> config \<Rightarrow> string \<Rightarrow> ('x, obj) vop" where
  "kalshi_get_order S cfg order_id =
     kalshi_request S cfg ''GET'' (''/portfolio/orders/'' @ order_id) None False"

definition kalshi_get_fills ::
    "'x services \<Rightarrow> config \<Rightarrow> string option \<Rightarrow> string option \<Rightarrow> int \<Rightarrow> ('x, json) vop" where
  "kalshi_get_fills S cfg order_id ticker limit =
     bind (kalshi_request S cfg ''GET'' (''/portfolio/fills?limit='' @ int_str limit @
             (if is_set order_id then ''&order_id='' @ the order_id else []) @
             (if is_set ticker then ''&ticker='' @ the ticker else [])) None False)
       (\<lambda>result. ret (get_or (JList []) result ''fills''))"

definition kalshi_get_positions :: "'x services \<Rightarrow> config \<Rightarrow> ('x, json) vop" where
  "kalshi_get_positions S cfg =
     bind (kalshi_request S cfg ''GET'' ''/portfolio/positions'' None False)
       (\<lambda>result. ret (get_or (JList []) result ''market_positions''))"

definition market_resolved :: "obj \<Rightarrow> bool" where
  "market_resolved resp =
     (if has_key ''error'' resp then False
      else let market0 = py_or (get resp ''market'') (JObj []) in
        if \<not> is_obj market0 then False
        else let market = obj_of market0;
                 status = lower (py_str (py_or (get market ''status'') (JStr [])));
                 result = lower (py_str (py_or (get market ''result'') (JStr [])))
             in status \<in> set [''settled'', ''finalized'', ''determined''] \<or> result \<in> set [''yes'', ''no''])"

definition kalshi_is_resolved :: "'x services \<Rightarrow> config \<Rightarrow> string option \<Rightarrow> ('x, bool) vop" where
  "kalshi_is_resolved S cfg ticker =
     (if \<not> is_set ticker then ret False
      else bind (kalshi_request S cfg ''GET'' (''/markets/'' @ the ticker) None False)
        (\<lambda>resp. ret (market_resolved resp)))"

text \<open>The four convenience methods: no client order id, never risk-reducing.\<close>

definition buy_yes where "buy_yes S cfg ticker count price_cents ttl =
  kalshi_place_order S cfg ticker ''yes'' ''buy'' count price_cents ttl None False"

definition buy_no where "buy_no S cfg ticker count price_cents ttl =
  kalshi_place_order S cfg ticker ''no'' ''buy'' count price_cents ttl None False"

definition sell_yes where "sell_yes S cfg ticker count price_cents ttl =
  kalshi_place_order S cfg ticker ''yes'' ''sell'' count price_cents ttl None False"

definition sell_no where "sell_no S cfg ticker count price_cents ttl =
  kalshi_place_order S cfg ticker ''no'' ''sell'' count price_cents ttl None False"

section \<open>Lemmas\<close>

lemma grows_send [keep]: "keeps grows (send_request S rq rr)"
  unfolding send_request_def by (intro keep) auto

lemma grows_auth [keep]: "keeps grows (kalshi_auth_headers S meth path)"
  unfolding kalshi_auth_headers_def Let_def by (intro keep)

lemma grows_request [keep]: "keeps grows (kalshi_request S cfg meth ep body rr)"
  unfolding kalshi_request_def Let_def
  by (intro keep) (auto split: http_reply.split intro!: keep)

lemma grows_kalshi_client [keep]:
  "keeps grows (kalshi_place_order S cfg tk sd ac n p ttl coid rr)"
  "keeps grows (kalshi_cancel_order S cfg oid)" "keeps grows (kalshi_get_order S cfg oid)"
  "keeps grows (kalshi_get_balance S cfg)" "keeps grows (kalshi_get_positions S cfg)"
  "keeps grows (kalshi_get_fills S cfg oid' tk' cap)" "keeps grows (kalshi_is_resolved S cfg tk')"
  unfolding kalshi_place_order_def kalshi_cancel_order_def kalshi_get_order_def kalshi_get_balance_def
    kalshi_get_positions_def kalshi_get_fills_def kalshi_is_resolved_def
  by (intro keep)+

text \<open>A request adds at most one entry to the log, and only through the gate.\<close>

lemma auth_log: "kalshi_auth_headers S meth path w = (r, w') \<Longrightarrow> net w' = net w \<and> safe w' = safe w"
  by (auto simp: kalshi_auth_headers_def op_defs Let_def split: if_splits option.splits)

lemma request_log:
  assumes "kalshi_request S cfg meth ep body rr w = (r, w')"
  shows "p_sent (net w') = p_sent (net w) \<and> (k_sent (net w') = k_sent (net w) \<or>
    (\<exists>rq. k_sent (net w') = k_sent (net w) @ [(rq, rr)] \<and> hq_method rq = upper meth \<and> hq_body rq = body \<and>
      (upper meth \<in> set MUTATING_METHODS \<longrightarrow> mutation_blocked cfg (upper meth) rr (safe w) = None)))"
proof -
  obtain a w1 where auth: "kalshi_auth_headers S (upper meth) (api_path ep) w = (a, w1)" by (rule prod.exhaust)
  show ?thesis
    using assms auth auth_log [OF auth]
    by (auto simp: kalshi_request_def send_request_def venue_op_defs is_set_def mutation_blocked_def Let_def
        prod.case_eq_if split: if_splits sum.splits http_reply.splits)
qed

end
