(* ===== verification/PolymarketClient.thy ===== *)
theory PolymarketClient
  imports Venues
begin

text \<open>
  \<open>PolymarketOrderClient\<close> of \<open>polymarket_executor.py\<close>. The SDK is outside the repository: creating
  its client (with the credentials of the environment) and each of its calls are services, which
  answer a value or raise. The model takes the SDK's current layout, in which every class and
  method the source looks up exists; the fallbacks for older layouts are not modelled. As in the
  source, nothing in this client checks the live-trading lock or the kill switch: that is left to
  the gateway above it.
\<close>

definition pm_client :: "'x services \<Rightarrow> ('x, unit) vop" where
  "pm_client S = bind (ask (sdk_client S)) (\<lambda>e. case e of None \<Rightarrow> ret () | Some msg \<Rightarrow> raise msg)"

definition pm_tick_size :: "'x services \<Rightarrow> string option \<Rightarrow> ('x, string) vop" where
  "pm_tick_size S token_id =
     bind get_net (\<lambda>v.
     let cached = map_of (tick_cache v) token_id in
     if is_set cached then ret (the cached)
     else catch
       (bind (pm_client S) (\<lambda>_.
        bind (ask_or_raise (sdk_tick S token_id)) (\<lambda>raw.
        if truthy raw then
          bind (put_net (\<lambda>v. v\<lparr>tick_cache := AList.update token_id (py_str raw) (tick_cache v)\<rparr>))
            (\<lambda>_. ret (py_str raw))
        else ret ''0.01'')))
       (\<lambda>_. ret ''0.01''))"

definition pm_neg_risk :: "'x services \<Rightarrow> string option \<Rightarrow> ('x, bool) vop" where
  "pm_neg_risk S token_id =
     bind get_net (\<lambda>v.
     case map_of (neg_cache v) token_id of
       Some neg \<Rightarrow> ret neg
     | None \<Rightarrow> catch
       (bind (pm_client S) (\<lambda>_.
        bind (ask_or_raise (sdk_neg_risk S token_id)) (\<lambda>raw.
        let neg = truthy (if is_obj raw then get (obj_of raw) ''neg_risk'' else raw) in
        bind (put_net (\<lambda>v. v\<lparr>neg_cache := AList.update token_id neg (neg_cache v)\<rparr>)) (\<lambda>_. ret neg))))
       (\<lambda>_. ret False))"

definition normalize_response :: "json \<Rightarrow> obj" where
  "normalize_response resp =
     (if is_obj resp then
        let ob = obj_of resp in
        if get ob ''success'' = JBool False \<and> \<not> truthy (get ob ''orderID'') then
          (if has_key ''error'' ob then ob
           else ob @ [(''error'', py_or (get ob ''errorMsg'') (JStr ''order_rejected''))])
        else ob
      else [(''raw'', JStr (py_str resp))])"

text \<open>The post itself: the order is logged, then handed to the SDK.\<close>

definition send_order :: "'x services \<Rightarrow> pm_order \<Rightarrow> ('x, json) vop" where
  "send_order S po =
     bind (put_net (\<lambda>v. v\<lparr>p_sent := p_sent v @ [po]\<rparr>)) (\<lambda>_. ask_or_raise (sdk_post S po))"

definition marketable :: "string \<Rightarrow> bool" where
  "marketable order_type \<longleftrightarrow> order_type = ''FOK'' \<or> order_type = ''FAK''"

definition pm_place_order ::
    "'x services \<Rightarrow> config \<Rightarrow> string option \<Rightarrow> string \<Rightarrow> rat \<Rightarrow> rat \<Rightarrow> string \<Rightarrow> int \<Rightarrow> ('x, obj) vop" where
  "pm_place_order S cfg token_id side price sz order_type0 ttl_seconds =
     (let order_type = (if order_type0 = [] then POLYMARKET_ORDER_TYPE cfg else order_type0) in
      bind (pm_client S) (\<lambda>_.
      bind (pm_tick_size S token_id) (\<lambda>tick_size.
      bind (pm_neg_risk S token_id) (\<lambda>neg_risk.
      catch
        (bind (if marketable order_type then ret None
               else if order_type = ''GTD'' \<and> 0 < ttl_seconds
                 then bind now (\<lambda>t. ret (Some (trunc t + ttl_seconds)))
               else ret None) (\<lambda>expiration.
         bind (send_order S \<lparr>po_token = token_id, po_side = upper side,
                 po_price = (if marketable order_type then None else Some price), po_size = sz,
                 po_type = order_type, po_expiration = expiration, po_tick = tick_size,
                 po_neg_risk = neg_risk\<rparr>) (\<lambda>resp.
         ret (normalize_response resp))))
        (\<lambda>e. ret [(''error'', JStr e)])))))"

text \<open>\<open>order_id in v\<close>.\<close>

fun py_in :: "string \<Rightarrow> json \<Rightarrow> pyexn + bool" where
  "py_in s (JList xs) = Inr (JStr s \<in> set xs)"
| "py_in s (JObj ob) = Inr (has_key s ob)"
| "py_in s (JStr t) = Inr (contains s t)"
| "py_in s _ = Inl TypeError"

definition pm_cancel_order :: "'x services \<Rightarrow> string \<Rightarrow> ('x, bool) vop" where
  "pm_cancel_order S order_id =
     catch
       (bind (pm_client S) (\<lambda>_.
        bind (ask_or_raise (sdk_cancel S order_id)) (\<lambda>resp.
        lift (py_in order_id
          (if is_obj resp then get_or (JList []) (obj_of resp) ''canceled'' else JList [])))))
       (\<lambda>_. ret False)"

definition pm_get_order :: "'x services \<Rightarrow> string \<Rightarrow> ('x, obj) vop" where
  "pm_get_order S order_id =
     catch
       (bind (pm_client S) (\<lambda>_.
        bind (ask_or_raise (sdk_get_order S order_id)) (\<lambda>resp.
        ret (if is_obj resp then obj_of resp else [(''raw'', JStr (py_str resp))]))))
       (\<lambda>e. ret [(''error'', JStr e)])"

text \<open>The filter of \<open>get_trades\<close>: trades of the order, or, when none is, all trades.\<close>

definition trade_of_order :: "string \<Rightarrow> json \<Rightarrow> bool" where
  "trade_of_order order_id t \<longleftrightarrow>
     py_str (py_or (get_first (obj_of t) [''taker_order_id'', ''order_id'']) (JStr [])) = order_id \<or>
     contains order_id (py_str (py_or (get (obj_of t) ''maker_orders'') (JStr [])))"

definition filter_trades :: "string \<Rightarrow> json \<Rightarrow> pyexn + json" where
  "filter_trades order_id trades =
     (case py_iter trades of Inl e \<Rightarrow> Inl e
      | Inr ts \<Rightarrow>
          if list_ex (\<lambda>t. \<not> is_obj t) ts then Inl AttributeError
          else let mine = filter (trade_of_order order_id) ts in
               Inr (if mine \<noteq> [] then JList mine else trades))"

definition pm_get_trades :: "'x services \<Rightarrow> string option \<Rightarrow> ('x, json) vop" where
  "pm_get_trades S order_id =
     catch
       (bind (pm_client S) (\<lambda>_.
        bind (ask_or_raise (sdk_trades S (if is_set order_id then order_id else None))) (\<lambda>resp.
        let trades = (case resp of JList xs \<Rightarrow> resp
                       | JObj ob \<Rightarrow> get_or (JList []) ob ''trades'' | _ \<Rightarrow> JList []) in
        if is_set order_id then lift (filter_trades (the order_id) trades) else ret trades)))
       (\<lambda>_. ret (JList []))"

definition parse_balance :: "json \<Rightarrow> pyexn + rat option" where
  "parse_balance resp =
     (if \<not> is_obj resp then Inr None
      else let raw = get (obj_of resp) ''balance'' in
        if raw = JNull then Inr None
        else case py_float raw of Inl e \<Rightarrow> Inl e
          | Inr val \<Rightarrow> Inr (Some (if 10000 < val then fdiv val 1000000 else val)))"

definition pm_get_balance_usdc :: "'x services \<Rightarrow> ('x, rat option) vop" where
  "pm_get_balance_usdc S =
     catch
       (bind (pm_client S) (\<lambda>_. bind (ask_or_raise (sdk_balance S)) (\<lambda>resp. lift (parse_balance resp))))
       (\<lambda>_. ret None)"

definition pm_get_positions :: "'x services \<Rightarrow> ('x, json) vop" where
  "pm_get_positions S =
     catch
       (bind (pm_client S) (\<lambda>_.
        bind (ask_or_raise (sdk_positions S)) (\<lambda>resp.
        ret (case resp of JList xs \<Rightarrow> resp | JObj ob \<Rightarrow> get_or (JList []) ob ''positions''
             | _ \<Rightarrow> JList []))))
       (\<lambda>_. ret (JList []))"

section \<open>Lemmas\<close>

lemma grows_pm_client [keep]: "keeps grows (pm_client S)"
  unfolding pm_client_def by (intro keep)

lemma grows_pm_caches [keep]: "keeps grows (pm_tick_size S t)" "keeps grows (pm_neg_risk S t)"
  unfolding pm_tick_size_def pm_neg_risk_def Let_def by (intro keep; simp)+

lemma grows_send_order [keep]: "keeps grows (send_order S po)"
  unfolding send_order_def by (intro keep; simp)

lemma grows_pm_place [keep]: "keeps grows (pm_place_order S cfg t sd p z ty ttl)"
  unfolding pm_place_order_def Let_def by (intro keep)

lemma grows_pm_reads [keep]:
  "keeps grows (pm_cancel_order S oid)" "keeps grows (pm_get_order S oid)"
  "keeps grows (pm_get_trades S oid')" "keeps grows (pm_get_balance_usdc S)"
  "keeps grows (pm_get_positions S)"
  unfolding pm_cancel_order_def pm_get_order_def pm_get_trades_def pm_get_balance_usdc_def
    pm_get_positions_def Let_def
  by (intro keep)+

end
