(* ===== verification/MockExecution.thy ===== *)
theory MockExecution
  imports Venues "HOL-Library.Multiset"
begin

text \<open>
  \<open>mock_execution.py\<close>: the fee-rate client with its cache, the fee model, and the simulated
  execution of a two-leg opportunity against order books. The fee endpoint is a service. The
  second look at the cache under the client's lock sees what the first one saw, since nothing
  else runs in between, so one look is modelled; \<open>uuid4\<close> is a service.
\<close>

record fill =
  f_price :: rat
  f_size :: rat

record execution_result =
  er_opportunity_id :: string
  er_buy_platform :: string
  er_sell_platform :: string
  er_requested_volume :: rat
  er_filled_volume :: rat
  er_avg_buy_price :: rat
  er_avg_sell_price :: rat
  er_buy_fees :: rat
  er_sell_fees :: rat
  er_gross_profit :: rat
  er_net_profit :: rat
  er_profit_margin :: rat
  er_latency_ms :: int
  er_timestamp :: rat
  er_skipped_reason :: "string option"
  er_execution_id :: "string option"
  er_buy_order_id :: "string option"
  er_sell_order_id :: "string option"
  er_buy_fill_id :: "string option"
  er_sell_fill_id :: "string option"
  er_buy_trade_id :: "string option"
  er_sell_trade_id :: "string option"
  er_settlement_id :: "string option"
  er_confirmation_source :: string

section \<open>Fee rates\<close>

text \<open>A cached rate that is still fresh at time \<open>t\<close>.\<close>

definition cached_rate :: "config \<Rightarrow> (string \<times> (int \<times> rat)) list \<Rightarrow> string \<Rightarrow> rat \<Rightarrow> int option" where
  "cached_rate cfg cache token_id t =
     (case map_of cache token_id of
        Some (bps, ts) \<Rightarrow> if fsub t ts \<le> POLYMARKET_FEE_RATE_TTL_SECONDS cfg then Some bps else None
      | None \<Rightarrow> None)"

definition get_fee_rate_bps :: "'x services \<Rightarrow> config \<Rightarrow> string option \<Rightarrow> ('x, int option) vop" where
  "get_fee_rate_bps S cfg token =
     (if \<not> is_set token then ret None
      else let token_id = the token in
      bind now (\<lambda>t. bind get_net (\<lambda>v.
      case cached_rate cfg (fee_cache v) token_id t of
        Some bps \<Rightarrow> ret (Some bps)
      | None \<Rightarrow>
          bind (ask (fee_http S token_id)) (\<lambda>reply.
          case reply of
            Fee_broken \<Rightarrow> ret None
          | Fee_reply status data \<Rightarrow>
              if status \<noteq> 200 then ret None
              else if \<not> is_obj data then raise (exn_text AttributeError)
              else let raw = get (obj_of data) ''fee_rate_bps'' in
                if raw = JNull then ret None
                else case py_int raw of
                  Inl e \<Rightarrow> ret None
                | Inr bps \<Rightarrow>
                    bind (put_net (\<lambda>v. v\<lparr>fee_cache := AList.update token_id (bps, t) (fee_cache v)\<rparr>))
                      (\<lambda>_. ret (Some bps))))))"

definition FeeModel_kalshi_taker_fee :: "rat \<Rightarrow> rat \<Rightarrow> rat" where
  "FeeModel_kalshi_taker_fee price sz = kalshi_taker_fee price sz 1"

definition FeeModel_polymarket_taker_fee :: "rat \<Rightarrow> rat \<Rightarrow> int \<Rightarrow> pyexn + rat" where
  "FeeModel_polymarket_taker_fee price sz bps =
     (if bps \<le> 0 then Inr 0 else pm_taker_fee price sz (Some bps) None)"

text \<open>\<open>rate or 0\<close>.\<close>

definition rate_or :: "int \<Rightarrow> int option \<Rightarrow> int" where
  "rate_or d r = (case r of Some bps \<Rightarrow> if bps = 0 then d else bps | None \<Rightarrow> d)"

section \<open>Filling against a book\<close>

definition level_fields :: "json \<Rightarrow> (json \<times> json) option" where
  "level_fields level = (case level of
     JObj ob \<Rightarrow> Some (get ob ''price'',
       if get ob ''size'' \<noteq> JNull then get ob ''size'' else get ob ''quantity'')
   | JList (p # s # r) \<Rightarrow> Some (p, s)
   | _ \<Rightarrow> None)"

definition normalize_level :: "json \<Rightarrow> (rat \<times> rat) option" where
  "normalize_level level = (case level_fields level of
     None \<Rightarrow> None
   | Some (p, s) \<Rightarrow> (case (py_float p, py_float s) of
       (Inr p', Inr s') \<Rightarrow> Some (p', s') | _ \<Rightarrow> None))"

definition normalize_levels :: "json list \<Rightarrow> (rat \<times> rat) list" where
  "normalize_levels levels = List.map_filter normalize_level levels"

text \<open>The loop of \<open>_fill_from_asks\<close> and \<open>_fill_from_bids\<close> over sorted levels: the fills and what
  remains.\<close>

fun take_levels :: "(rat \<times> rat) list \<Rightarrow> rat \<Rightarrow> fill list \<times> rat" where
  "take_levels [] remaining = ([], remaining)"
| "take_levels ((price, sz) # ls) remaining =
     (if remaining \<le> 0 then ([], remaining)
      else let amount = min sz remaining in
        if 0 < amount then
          let (fs, r) = take_levels ls (fsub remaining amount)
          in (\<lparr>f_price = price, f_size = amount\<rparr> # fs, r)
        else take_levels ls remaining)"

definition fill_from_asks :: "(rat \<times> rat) list \<Rightarrow> rat \<Rightarrow> fill list \<times> rat" where
  "fill_from_asks asks target =
     (let (fs, remaining) = take_levels (sort_key fst asks) target in (fs, fsub target remaining))"

definition fill_from_bids :: "(rat \<times> rat) list \<Rightarrow> rat \<Rightarrow> fill list \<times> rat" where
  "fill_from_bids bids target =
     (let (fs, remaining) = take_levels (sort_key (\<lambda>l. - fst l) bids) target
      in (fs, fsub target remaining))"

fun truncate_fills :: "fill list \<Rightarrow> rat \<Rightarrow> fill list" where
  "truncate_fills [] remaining = []"
| "truncate_fills (f # fs) remaining =
     (if remaining \<le> 0 then []
      else let amount = min (f_size f) remaining
        in \<lparr>f_price = f_price f, f_size = amount\<rparr> # truncate_fills fs (fsub remaining amount))"

definition notional :: "fill list \<Rightarrow> rat" where
  "notional fs = fsum (map (\<lambda>f. fmul (f_price f) (f_size f)) fs)"

definition fills_size :: "fill list \<Rightarrow> rat" where
  "fills_size fs = fsum (map f_size fs)"

definition avg_price :: "fill list \<Rightarrow> rat" where
  "avg_price fs = (if fills_size fs > 0 then fdiv (notional fs) (fills_size fs) else 0)"

section \<open>A simulated two-leg execution\<close>

definition kalshi_fees :: "fill list \<Rightarrow> rat" where
  "kalshi_fees fs = fsum (map (\<lambda>f. FeeModel_kalshi_taker_fee (f_price f) (f_size f)) fs)"

fun sum_results :: "(pyexn + rat) list \<Rightarrow> rat \<Rightarrow> pyexn + rat" where
  "sum_results [] acc = Inr acc"
| "sum_results (r # rs) acc = (case r of Inl e \<Rightarrow> Inl e | Inr x \<Rightarrow> sum_results rs (fadd acc x))"

definition platform_fees ::
    "'x services \<Rightarrow> config \<Rightarrow> string \<Rightarrow> string option \<Rightarrow> fill list \<Rightarrow> ('x, rat) vop" where
  "platform_fees S cfg platform token_id fs =
     (if platform = KALSHI then ret (kalshi_fees fs)
      else if platform = POLYMARKET then
        bind (get_fee_rate_bps S cfg token_id) (\<lambda>rate.
        lift (sum_results (map (\<lambda>f. FeeModel_polymarket_taker_fee (f_price f) (f_size f) (rate_or 0 rate)) fs) 0))
      else ret 0)"

definition skipped_mock :: "string \<Rightarrow> string \<Rightarrow> string \<Rightarrow> rat \<Rightarrow> int \<Rightarrow> rat \<Rightarrow> string \<Rightarrow> execution_result" where
  "skipped_mock opp buy sell volume latency t reason =
     \<lparr>er_opportunity_id = opp, er_buy_platform = buy, er_sell_platform = sell,
      er_requested_volume = volume, er_filled_volume = 0, er_avg_buy_price = 0,
      er_avg_sell_price = 0, er_buy_fees = 0, er_sell_fees = 0, er_gross_profit = 0,
      er_net_profit = 0, er_profit_margin = 0, er_latency_ms = latency, er_timestamp = t,
      er_skipped_reason = Some reason, er_execution_id = None, er_buy_order_id = None,
      er_sell_order_id = None, er_buy_fill_id = None, er_sell_fill_id = None,
      er_buy_trade_id = None, er_sell_trade_id = None, er_settlement_id = None,
      er_confirmation_source = ''simulation''\<rparr>"

definition mock_result ::
    "string \<Rightarrow> string \<Rightarrow> string \<Rightarrow> rat \<Rightarrow> rat \<Rightarrow> int \<Rightarrow> fill list \<Rightarrow> fill list \<Rightarrow> rat \<Rightarrow> rat \<Rightarrow> string \<Rightarrow> rat \<Rightarrow>
     execution_result" where
  "mock_result opp buy sell volume filled latency bf sf buy_fees sell_fees hex t =
     (let buy_notional = notional bf;
          gross = fsub (notional sf) buy_notional;
          net_profit = fsub (fsub gross buy_fees) sell_fees;
          exid = ''sim-exec-'' @ take 16 hex
      in \<lparr>er_opportunity_id = opp, er_buy_platform = buy, er_sell_platform = sell,
          er_requested_volume = volume, er_filled_volume = filled,
          er_avg_buy_price = avg_price bf, er_avg_sell_price = avg_price sf,
          er_buy_fees = buy_fees, er_sell_fees = sell_fees, er_gross_profit = gross,
          er_net_profit = net_profit,
          er_profit_margin = (if buy_notional > 0 then fdiv net_profit buy_notional else 0),
          er_latency_ms = latency, er_timestamp = t, er_skipped_reason = None,
          er_execution_id = Some exid,
          er_buy_order_id = Some (exid @ ''-buy-order''),
          er_sell_order_id = Some (exid @ ''-sell-order''),
          er_buy_fill_id = Some (exid @ ''-buy-fill''),
          er_sell_fill_id = Some (exid @ ''-sell-fill''),
          er_buy_trade_id = Some (exid @ ''-buy-trade''),
          er_sell_trade_id = Some (exid @ ''-sell-trade''),
          er_settlement_id = Some (exid @ ''-settlement''),
          er_confirmation_source = ''simulation''\<rparr>)"

definition execute_market ::
    "'x services \<Rightarrow> config \<Rightarrow> string \<Rightarrow> string \<Rightarrow> string \<Rightarrow> json list \<Rightarrow> json list \<Rightarrow> string option \<Rightarrow>
     rat \<Rightarrow> int \<Rightarrow> ('x, execution_result) vop" where
  "execute_market S cfg opp buy sell buy_asks sell_bids token_id volume latency =
     (let buy_levels = normalize_levels buy_asks; sell_levels = normalize_levels sell_bids in
      if buy_levels = [] \<or> sell_levels = []
      then bind now (\<lambda>t. ret (skipped_mock opp buy sell volume latency t ''empty_orderbook''))
      else
        let (buy_fills, buy_filled) = fill_from_asks buy_levels volume;
            (sell_fills, sell_filled) = fill_from_bids sell_levels volume;
            filled = min buy_filled sell_filled
        in if filled \<le> 0
        then bind now (\<lambda>t. ret (skipped_mock opp buy sell volume latency t ''no_liquidity''))
        else
          let bf = truncate_fills buy_fills filled; sf = truncate_fills sell_fills filled in
          bind (platform_fees S cfg buy token_id bf) (\<lambda>buy_fees.
          bind (platform_fees S cfg sell token_id sf) (\<lambda>sell_fees.
          bind (ask (uuid S)) (\<lambda>hex. bind now (\<lambda>t.
          ret (mock_result opp buy sell volume filled latency bf sf buy_fees sell_fees hex t))))))"

section \<open>Lemmas\<close>

lemma grows_fee_rate [keep]: "keeps grows (get_fee_rate_bps S cfg tok)"
  unfolding get_fee_rate_bps_def Let_def
  by (intro keep) (auto split: fee_reply.split intro!: keep)

lemma grows_platform_fees [keep]: "keeps grows (platform_fees S cfg p t fs)"
  unfolding platform_fees_def by (intro keep)

lemma grows_execute_market: "keeps grows (execute_market S cfg opp buy sell ba sb tok vol lat)"
  unfolding execute_market_def Let_def by (intro keep)

text \<open>A Polymarket fee with an explicit rate never fails.\<close>

lemma pm_fee_total: "\<exists>x. FeeModel_polymarket_taker_fee p s bps = Inr x"
  by (simp add: FeeModel_polymarket_taker_fee_def pm_taker_fee_def pm_rate_def)

text \<open>The loop takes levels in order, each at its price and at most its size, never more than asked;
  a remainder is left only when every level was used up.\<close>

lemma take_levels_remaining:
  "take_levels ls r = (fs, r') \<Longrightarrow> is_float r \<Longrightarrow> 0 \<le> r \<Longrightarrow> 0 \<le> r' \<and> r' \<le> r \<and> is_float r'"
proof (induction ls arbitrary: r fs r')
  case (Cons l ls)
  obtain p z where l: "l = (p, z)" by (rule prod.exhaust)
  consider "r \<le> 0 \<or> min z r \<le> 0" | "0 < r" "0 < min z r" by linarith
  then show ?case
  proof cases
    case 1
    show ?thesis
    proof (cases "r \<le> 0")
      case True
      then show ?thesis using Cons.prems by (simp add: l)
    next
      case False
      then have "take_levels ls r = (fs, r')" using Cons.prems(1) 1 by (simp add: l Let_def split: if_splits)
      then show ?thesis using Cons.IH Cons.prems by blast
    qed
  next
    case 2
    let ?r = "fsub r (min z r)"
    obtain fs1 where rec: "take_levels ls ?r = (fs1, r')"
      using Cons.prems(1) 2 by (auto simp: l Let_def split: prod.splits)
    have "0 \<le> ?r" by (intro fsub_nonneg) simp
    moreover have "?r \<le> r" using Cons.prems 2 by (intro fsub_le) simp_all
    ultimately show ?thesis using Cons.IH [OF rec] by auto
  qed
qed simp

lemma take_levels_fills:
  "take_levels ls r = (fs, r') \<Longrightarrow>
   (\<exists>ls'. subseq ls' ls \<and> list_all2 (\<lambda>f l. f_price f = fst l \<and> 0 < f_size f \<and> f_size f \<le> snd l) fs ls')"
proof (induction ls arbitrary: r fs r')
  case (Cons l ls)
  obtain p z where l: "l = (p, z)" by (rule prod.exhaust)
  show ?case
  proof (cases "0 < r \<and> 0 < min z r")
    case True
    then obtain fs1 where rec: "take_levels ls (fsub r (min z r)) = (fs1, r')"
      and fs: "fs = \<lparr>f_price = p, f_size = min z r\<rparr> # fs1"
      using Cons.prems(1) by (auto simp: l Let_def split: prod.splits)
    obtain ls' where "subseq ls' ls"
      "list_all2 (\<lambda>f l. f_price f = fst l \<and> 0 < f_size f \<and> f_size f \<le> snd l) fs1 ls'"
      using Cons.IH [OF rec] by blast
    then show ?thesis using True by (intro exI [of _ "l # ls'"]) (simp add: l fs)
  next
    case False
    then have "fs = [] \<or> take_levels ls r = (fs, r')"
      using Cons.prems by (auto simp: l Let_def split: if_splits)
    then show ?thesis using Cons.IH [of r fs r'] by (auto intro: exI [of _ "[]"])
  qed
qed (auto intro: exI [of _ "[]"])

lemma take_levels_exhausts:
  "take_levels ls r = (fs, r') \<Longrightarrow> is_float r \<Longrightarrow> 0 \<le> r \<Longrightarrow> 0 < r' \<Longrightarrow>
   map (\<lambda>f. (f_price f, f_size f)) fs = filter (\<lambda>l. 0 < snd l) ls"
proof (induction ls arbitrary: r fs r')
  case (Cons l ls)
  obtain p z where l: "l = (p, z)" by (rule prod.exhaust)
  have r: "0 < r" using take_levels_remaining [OF Cons.prems(1-3)] Cons.prems(4) by simp
  show ?case
  proof (cases "0 < z")
    case True
    obtain fs1 where rec: "take_levels ls (fsub r (min z r)) = (fs1, r')"
      and fs: "fs = \<lparr>f_price = p, f_size = min z r\<rparr> # fs1"
      using Cons.prems(1) r True by (auto simp: l Let_def split: prod.splits)
    have "0 \<le> fsub r (min z r)" by (intro fsub_nonneg) simp
    then have "z \<le> r" and "map (\<lambda>f. (f_price f, f_size f)) fs1 = filter (\<lambda>l. 0 < snd l) ls"
      using Cons.IH [OF rec] Cons.prems(4) take_levels_remaining [OF rec] by (auto simp: min_def split: if_splits)
    then show ?thesis using True by (simp add: l fs)
  next
    case False
    then show ?thesis using Cons r l by (auto simp: Let_def split: if_splits)
  qed
qed simp

section \<open>Properties\<close>

lemma sorted_subseq: "subseq xs ys \<Longrightarrow> sorted ys \<Longrightarrow> sorted xs"
  by (auto simp: subseq_conv_nths sorted_nths)

lemma subseq_set: "subseq xs ys \<Longrightarrow> set xs \<subseteq> set ys"
  by (auto simp: subseq_conv_nths dest: in_set_nthsD)

text \<open>Simulated buys are priced honestly: the fills come at non-decreasing prices, each from a
  level of the book at that level's price and for at most its size; no more is filled than was
  asked; and less is filled only when the book was used up.\<close>
theorem mock_buy_fills_best_first:
  assumes "fill_from_asks asks target = (fs, filled)" and "is_float target" and "0 \<le> target"
  shows "0 \<le> filled \<and> filled \<le> target \<and> sorted (map f_price fs) \<and>
    (\<forall>f \<in> set fs. 0 < f_size f \<and> (\<exists>l \<in> set asks. f_price f = fst l \<and> f_size f \<le> snd l)) \<and>
    (filled < target \<longrightarrow> mset (map (\<lambda>f. (f_price f, f_size f)) fs) = mset (filter (\<lambda>l. 0 < snd l) asks))"
proof -
  let ?ls = "sort_key fst asks"
  obtain r where take: "take_levels ?ls target = (fs, r)" and filled: "filled = fsub target r"
    using assms(1) by (auto simp: fill_from_asks_def split: prod.splits)
  note rem = take_levels_remaining [OF take assms(2,3)]
  obtain ls' where sub: "subseq ls' ?ls"
    and fs: "list_all2 (\<lambda>f l. f_price f = fst l \<and> 0 < f_size f \<and> f_size f \<le> snd l) fs ls'"
    using take_levels_fills [OF take] by blast
  have "map f_price fs = map fst ls'" using fs by (induction rule: list_all2_induct) auto
  moreover have "sorted (map fst ls')"
    using subseq_map [OF sub, of fst] by (rule sorted_subseq) simp
  moreover have "0 < f_size f \<and> (\<exists>l \<in> set asks. f_price f = fst l \<and> f_size f \<le> snd l)" if "f \<in> set fs" for f
    using fs that subseq_set [OF sub] by (auto simp: list_all2_conv_all_nth in_set_conv_nth) force
  moreover have "mset (map (\<lambda>f. (f_price f, f_size f)) fs) = mset (filter (\<lambda>l. 0 < snd l) asks)" if "filled < target"
  proof -
    have "r \<noteq> 0" using that filled assms(2) by auto
    with rem have "map (\<lambda>f. (f_price f, f_size f)) fs = filter (\<lambda>l. 0 < snd l) ?ls"
      using take_levels_exhausts [OF take assms(2,3)] by simp
    then show ?thesis by (simp add: filter_sort)
  qed
  moreover have "0 \<le> filled" "filled \<le> target"
    using rem assms(2) by (auto simp: filled intro: fsub_nonneg fsub_le)
  ultimately show ?thesis by auto
qed

theorem mock_buy_fills_best_first_witness:
  "snd (fill_from_asks [(fl (50 / 100), 10), (fl (40 / 100), 5)] 8) \<le> 8"
proof -
  have "is_float 8" by code_simp
  from mock_buy_fills_best_first [OF surjective_pairing this] show ?thesis by simp
qed

end
