(* ===== verification/VenueGateway.thy ===== *)
theory VenueGateway
  imports KalshiClient PolymarketClient MockExecution
begin

text \<open>
  The venue gateways of \<open>execution/venue_gateway.py\<close> and the simulated gateway of
  \<open>execution/simulated_gateway.py\<close>: one order from submission to an outcome with its fills and
  fees. \<open>rounds\<close> bounds the polls of \<open>_backoff_poll\<close> (see \<open>backoff_rounds_enough\<close>). The
  request's client order id is derived with the digest service, as in \<open>OrderTypes\<close>.
\<close>

section \<open>Kalshi\<close>

definition price_to_cents :: "rat \<Rightarrow> int" where
  "price_to_cents p = max 1 (min 99 (round_half_even (fmul p 100)))"

definition fill_ids_of :: "obj \<Rightarrow> pyexn + string list" where
  "fill_ids_of order =
     (case py_iter (py_or (get order ''fills'') (JList [])) of Inl e \<Rightarrow> Inl e
      | Inr fs \<Rightarrow> Inr (filter (\<lambda>fid. fid \<noteq> [] \<and> fid \<noteq> ''None'')
          (map (\<lambda>f. py_str (get_first (obj_of f) [''trade_id'', ''fill_id''])) (filter is_obj fs))))"

text \<open>\<open>_outcome_from_order\<close>: the conversions of the reply may raise.\<close>

definition kalshi_outcome ::
    "order_request \<Rightarrow> obj \<Rightarrow> string option \<Rightarrow> string option \<Rightarrow> obj \<Rightarrow> pyexn + order_outcome" where
  "kalshi_outcome rq order order_id coid resp =
     (case py_float (get_or (JInt 0) order ''count_filled'') of Inl e \<Rightarrow> Inl e
      | Inr filled \<Rightarrow>
          let avg_cents = get order ''average_fill_price'' in
          case (if avg_cents = JNull then Inr (rq_limit_price rq)
                else case py_float avg_cents of Inl e \<Rightarrow> Inl e | Inr c \<Rightarrow> Inr (fdiv c 100)) of
            Inl e \<Rightarrow> Inl e
          | Inr avg \<Rightarrow>
              let fees = (if filled > 0 then FeeModel_kalshi_taker_fee avg filled else 0);
                  st = (if of_int (trunc (rq_size rq)) \<le> filled then FILLED
                        else if filled > 0 then PARTIAL else FAILED)
              in case fill_ids_of order of Inl e \<Rightarrow> Inl e
                 | Inr ids \<Rightarrow> Inr ((order_outcome_of KALSHI st (rq_size rq))
                     \<lparr>oc_filled_size := filled, oc_avg_price := avg, oc_fees := fees,
                      oc_order_id := order_id, oc_client_order_id := coid, oc_raw := Some (JObj resp),
                      oc_fill_ids := ids\<rparr>))"

definition terminal :: "string list \<Rightarrow> json \<Rightarrow> bool" where
  "terminal sts st \<longleftrightarrow> st \<in> set (map JStr sts)"

text \<open>One poll of \<open>place\<close>: the order once it is terminal.\<close>

definition kalshi_poll :: "'x services \<Rightarrow> config \<Rightarrow> string \<Rightarrow> ('x, obj option) vop" where
  "kalshi_poll S cfg order_id =
     bind (kalshi_get_order S cfg order_id) (\<lambda>r.
     let ob = get_or (JObj []) r ''order'' in
     if \<not> is_obj ob then raise (exn_text AttributeError)
     else if terminal [''executed'', ''filled'', ''canceled'', ''expired'']
               (get_or (JStr []) (obj_of ob) ''status'')
       then ret (Some (obj_of ob)) else ret None)"

text \<open>After the poll ran out: cancel, look again, and never report an unverified order as retryable.\<close>

definition kalshi_unresolved ::
    "'x services \<Rightarrow> config \<Rightarrow> order_request \<Rightarrow> json \<Rightarrow> string option \<Rightarrow> obj \<Rightarrow> ('x, order_outcome) vop" where
  "kalshi_unresolved S cfg rq order_id coid resp =
     bind (kalshi_cancel_order S cfg (py_str order_id)) (\<lambda>_.
     bind (catch (bind (kalshi_get_order S cfg (py_str order_id)) (\<lambda>r.
              let ob = get r ''order'' in
              ret (if is_obj ob \<and> obj_of ob \<noteq> [] then Some (obj_of ob) else None)))
            (\<lambda>_. ret None)) (\<lambda>refreshed.
     case refreshed of
       Some order \<Rightarrow>
         bind (lift (kalshi_outcome rq order (opt_text order_id) coid resp)) (\<lambda>out.
         ret (if oc_filled_size out \<le> 0 \<and> \<not> is_set (oc_error out)
              then out\<lparr>oc_error := Some ''poll_timeout''\<rparr> else out))
     | None \<Rightarrow> ret ((order_outcome_of KALSHI FAILED (rq_size rq))
         \<lparr>oc_order_id := opt_text order_id, oc_client_order_id := coid,
          oc_error := Some ''poll_timeout_unverified'', oc_raw := Some (JObj resp),
          oc_retryable := False\<rparr>)))"

definition kalshi_place ::
    "'x services \<Rightarrow> config \<Rightarrow> nat \<Rightarrow> order_request \<Rightarrow> ('x, order_outcome) vop" where
  "kalshi_place S cfg rounds rq0 =
     (let rq = ensure_client_order_id (sha S) [] rq0; coid = rq_client_order_id rq in
      bind (lock_check cfg) (\<lambda>(armed, reason).
      if \<not> armed then ret (outcome_failed KALSHI (rq_size rq) (opt_str reason) coid None)
      else
        let count = trunc (rq_size rq) in
        if count \<le> 0 then ret (outcome_failed KALSHI (rq_size rq) ''non_positive_size'' coid None)
        else
          let price_cents = price_to_cents (rq_limit_price rq);
              ttl = (if rq_ttl_seconds rq = 0 then KALSHI_ORDER_TTL_SECONDS cfg else rq_ttl_seconds rq)
          in bind (kalshi_place_order S cfg (rq_ticker rq) (rq_outcome_side rq) (rq_action rq) count
                     price_cents ttl coid (rq_risk_reducing rq)) (\<lambda>resp.
          if has_key ''error'' resp
          then ret (outcome_failed KALSHI (rq_size rq) (py_str (get_or (JStr ''error'') resp ''error''))
                      coid (Some (JObj resp)))
          else
            let order = obj_of (get_or (JObj []) resp ''order'');
                order_id = get_or (JStr []) order ''order_id''
            in if terminal [''executed'', ''filled''] (get_or (JStr []) order ''status'')
            then lift (kalshi_outcome rq order (opt_text order_id) coid resp)
            else bind (backoff_poll rounds cfg (kalshi_poll S cfg (py_str order_id))) (\<lambda>final.
              case final of
                None \<Rightarrow> kalshi_unresolved S cfg rq order_id coid resp
              | Some ob \<Rightarrow> lift (kalshi_outcome rq ob (opt_text order_id) coid resp)))))"

definition kalshi_balance :: "'x services \<Rightarrow> config \<Rightarrow> ('x, rat option) vop" where
  "kalshi_balance S cfg =
     bind (kalshi_get_balance S cfg) (\<lambda>resp.
     case map_of resp ''balance'' of None \<Rightarrow> ret None
     | Some v \<Rightarrow> lift (case py_float v of Inl e \<Rightarrow> Inl e | Inr c \<Rightarrow> Inr (Some (fdiv c 100))))"

section \<open>Polymarket\<close>

definition PM_AMBIGUOUS_MARKERS :: "string list" where
  "PM_AMBIGUOUS_MARKERS =
    [''timeout'', ''timed out'', ''connection aborted'', ''connection reset'',
     ''connection error'', ''remote end closed'', ''broken pipe'',
     ''bad gateway'', ''gateway time-out'', ''gateway timeout'', ''service unavailable'']"

definition is_ambiguous_error :: "string \<Rightarrow> bool" where
  "is_ambiguous_error e \<longleftrightarrow> list_ex (\<lambda>m. contains m (lower e)) PM_AMBIGUOUS_MARKERS"

text \<open>The values \<open>_parse_fill\<close> reads: an amount that does not parse is skipped over, the price next
  to a matched size must parse.\<close>

fun first_matched :: "obj \<Rightarrow> string list \<Rightarrow> rat option" where
  "first_matched resp [] = None"
| "first_matched resp (k # ks) =
     (if get resp k = JNull then first_matched resp ks
      else case py_float (get resp k) of Inl e \<Rightarrow> first_matched resp ks | Inr x \<Rightarrow> Some x)"

definition amounts_fill :: "obj \<Rightarrow> string \<Rightarrow> (rat \<times> rat) option" where
  "amounts_fill resp action =
     (let taking = get_first resp [''takingAmount'', ''taking_amount''];
          making = get_first resp [''makingAmount'', ''making_amount'']
      in if taking = JNull \<or> making = JNull then None
      else case (py_float taking, py_float making) of
          (Inr t, Inr m) \<Rightarrow>
            if action = ''buy'' \<and> t > 0 then Some (t, fdiv m t)
            else if action = ''sell'' \<and> m > 0 then Some (m, fdiv t m)
            else None
        | _ \<Rightarrow> None)"

definition success_fill :: "obj \<Rightarrow> order_request \<Rightarrow> rat option \<Rightarrow> rat \<times> rat" where
  "success_fill resp rq amount =
     (if truthy (get resp ''success'') then
        (case amount of
           Some a \<Rightarrow>
             if rq_action rq = ''buy'' then
               let price = (case py_float (py_or (get resp ''price'') (JNum (rq_limit_price rq))) of
                              Inl e \<Rightarrow> rq_limit_price rq | Inr p \<Rightarrow> p)
               in if price > 0 then (fdiv a price, price) else (0, rq_limit_price rq)
             else (rq_size rq, rq_limit_price rq)
         | None \<Rightarrow> (rq_size rq, rq_limit_price rq))
      else (0, rq_limit_price rq))"

definition parse_fill :: "obj \<Rightarrow> order_request \<Rightarrow> rat option \<Rightarrow> pyexn + (rat \<times> rat)" where
  "parse_fill resp rq amount =
     (case first_matched resp [''size_matched'', ''sizeMatched'', ''matched_size''] of
        Some matched \<Rightarrow>
          (let price = get resp ''price'' in
           if price = JNull then Inr (matched, rq_limit_price rq)
           else case py_float price of Inl e \<Rightarrow> Inl e | Inr p \<Rightarrow> Inr (matched, p))
      | None \<Rightarrow>
          (case amounts_fill resp (rq_action rq) of
             Some f \<Rightarrow> Inr f
           | None \<Rightarrow> Inr (success_fill resp rq amount)))"

definition pm_side :: "order_request \<Rightarrow> string" where
  "pm_side rq = (if rq_action rq = ''buy'' then ''BUY'' else ''SELL'')"

text \<open>The scan of \<open>_find_recent_fill\<close>: whether a trade may be this order's, and its size and price.\<close>

definition trade_matches :: "order_request \<Rightarrow> rat \<Rightarrow> json \<Rightarrow> bool" where
  "trade_matches rq cutoff t =
     (if \<not> is_obj t then False
      else let ob = obj_of t;
               token = py_str (py_or (get_first ob [''asset_id'', ''token_id'', ''market'']) (JStr []));
               side = upper (py_str (py_or (get ob ''side'') (JStr [])));
               ts = get_first ob [''match_time'', ''timestamp'', ''created_at'']
           in if token \<noteq> opt_str (rq_token_id rq) then False
           else if side \<noteq> [] \<and> side \<noteq> pm_side rq then False
           else ts = JNull \<or> (case py_float ts of Inl e \<Rightarrow> True | Inr x \<Rightarrow> cutoff \<le> x))"

definition trade_fill :: "obj \<Rightarrow> (rat \<times> rat) option" where
  "trade_fill ob =
     (case (py_float (py_or (get ob ''size'') (JInt 0)), py_float (py_or (get ob ''price'') (JInt 0))) of
        (Inr sz, Inr price) \<Rightarrow> if sz \<le> 0 then None else Some (sz, price)
      | _ \<Rightarrow> None)"

record recent_fill =
  rf_filled :: rat
  rf_notional :: rat
  rf_order_id :: "string option"
  rf_trade_ids :: "string list"

definition scan_trade :: "order_request \<Rightarrow> rat \<Rightarrow> json \<Rightarrow> recent_fill \<Rightarrow> recent_fill" where
  "scan_trade rq cutoff t acc =
     (if \<not> trade_matches rq cutoff t then acc
      else case trade_fill (obj_of t) of None \<Rightarrow> acc
        | Some (sz, price) \<Rightarrow>
            let ob = obj_of t;
                oid = py_str (py_or (get_first ob [''taker_order_id'', ''order_id'']) (JStr []));
                tid = get_first ob [''id'', ''trade_id'']
            in acc\<lparr>rf_filled := fadd (rf_filled acc) sz,
                   rf_notional := fadd (rf_notional acc) (fmul sz price),
                   rf_order_id := (if is_set (rf_order_id acc) then rf_order_id acc
                                   else if oid = [] then None else Some oid),
                   rf_trade_ids := rf_trade_ids acc @ (if truthy tid then [py_str tid] else [])\<rparr>)"

definition no_fill :: recent_fill where
  "no_fill = \<lparr>rf_filled = 0, rf_notional = 0, rf_order_id = None, rf_trade_ids = []\<rparr>"

definition find_recent_fill :: "'x services \<Rightarrow> order_request \<Rightarrow> ('x, recent_fill) vop" where
  "find_recent_fill S rq =
     bind (pm_get_trades S None) (\<lambda>trades.
     bind now (\<lambda>t.
     bind (lift (py_iter (py_or trades (JList [])))) (\<lambda>ts.
     ret (fold (scan_trade rq (fsub t 120)) ts no_fill))))"

definition pm_fees :: "'x services \<Rightarrow> config \<Rightarrow> string option \<Rightarrow> rat \<Rightarrow> rat \<Rightarrow> ('x, rat) vop" where
  "pm_fees S cfg token_id price sz =
     (if sz \<le> 0 then ret 0
      else bind (get_fee_rate_bps S cfg token_id) (\<lambda>rate.
        lift (FeeModel_polymarket_taker_fee price sz (rate_or 0 rate))))"

definition enough_filled :: "order_request \<Rightarrow> rat \<Rightarrow> bool" where
  "enough_filled rq filled \<longleftrightarrow> fmul (rq_size rq) (fl (999 / 1000)) \<le> filled"

definition ambiguous_outcome ::
    "'x services \<Rightarrow> config \<Rightarrow> order_request \<Rightarrow> string option \<Rightarrow> string \<Rightarrow> obj \<Rightarrow> ('x, order_outcome) vop" where
  "ambiguous_outcome S cfg rq coid err resp =
     bind (find_recent_fill S rq) (\<lambda>rf.
     if 0 < rf_filled rf then
       let avg = fdiv (rf_notional rf) (rf_filled rf) in
       bind (pm_fees S cfg (rq_token_id rq) avg (rf_filled rf)) (\<lambda>fees.
       ret ((order_outcome_of POLYMARKET (if enough_filled rq (rf_filled rf) then FILLED else PARTIAL) (rq_size rq))
         \<lparr>oc_filled_size := rf_filled rf, oc_avg_price := avg, oc_fees := fees,
          oc_order_id := rf_order_id rf, oc_client_order_id := coid,
          oc_error := Some (''ambiguous_post_reconciled:'' @ err), oc_raw := Some (JObj resp),
          oc_trade_ids := rf_trade_ids rf\<rparr>))
     else ret ((outcome_failed POLYMARKET (rq_size rq) (''ambiguous_post:'' @ err) coid (Some (JObj resp)))
       \<lparr>oc_retryable := False\<rparr>))"

definition pm_order_type :: "config \<Rightarrow> order_request \<Rightarrow> string" where
  "pm_order_type cfg rq =
     (if rq_tif rq \<in> set [''FOK'', ''FAK'', ''GTC'', ''GTD''] then rq_tif rq else POLYMARKET_ORDER_TYPE cfg)"

text \<open>The dollars a marketable buy spends: the error, no conversion, or the amount.\<close>

definition buy_amount :: "string \<Rightarrow> order_request \<Rightarrow> string + rat option" where
  "buy_amount order_type rq =
     (if marketable order_type \<and> rq_action rq = ''buy'' then
        if rq_limit_price rq \<le> 0 then Inl ''marketable_buy_requires_limit_price''
        else let amount = py_round (fmul (rq_size rq) (rq_limit_price rq)) 2 in
          if amount \<le> 0 then Inl ''non_positive_notional'' else Inr (Some amount)
      else Inr None)"

definition pm_poll :: "'x services \<Rightarrow> string \<Rightarrow> ('x, obj option) vop" where
  "pm_poll S order_id =
     bind (pm_get_order S order_id) (\<lambda>r.
     ret (if terminal [''matched'', ''filled'', ''canceled'', ''expired''] (get_or (JStr []) r ''status'')
          then Some r else None))"

definition trade_ids_of :: "obj \<Rightarrow> string list" where
  "trade_ids_of resp =
     (let tx = py_or (get_first resp [''tradeIDs'', ''tradeIds'', ''transactionsHashes'', ''transactionHashes''])
                 (JList [])
      in map py_str (filter truthy (elems tx)))"

text \<open>The tail of \<open>place\<close>: an order with an id becomes an outcome.\<close>

definition pm_filled_outcome ::
    "'x services \<Rightarrow> config \<Rightarrow> nat \<Rightarrow> order_request \<Rightarrow> string option \<Rightarrow> string \<Rightarrow> rat option \<Rightarrow> obj \<Rightarrow>
     ('x, order_outcome) vop" where
  "pm_filled_outcome S cfg rounds rq coid order_type amount resp =
     (let order_id = get_or (JStr []) resp ''orderID'' in
      bind (lift (parse_fill resp rq amount)) (\<lambda>fill0.
      bind (if fst fill0 \<le> 0 \<and> order_type \<in> set [''GTC'', ''GTD''] then
              bind (backoff_poll rounds cfg (pm_poll S (py_str order_id))) (\<lambda>final.
              case final of None \<Rightarrow> ret fill0 | Some r \<Rightarrow> lift (parse_fill r rq None))
            else ret fill0) (\<lambda>(filled, avg).
      bind (pm_fees S cfg (rq_token_id rq) avg filled) (\<lambda>fees.
      ret ((order_outcome_of POLYMARKET
             (if enough_filled rq filled then FILLED else if filled > 0 then PARTIAL else FAILED) (rq_size rq))
        \<lparr>oc_filled_size := filled, oc_avg_price := avg, oc_fees := fees,
         oc_order_id := opt_text order_id, oc_client_order_id := coid, oc_raw := Some (JObj resp),
         oc_trade_ids := trade_ids_of resp\<rparr>)))))"

definition pm_place ::
    "'x services \<Rightarrow> config \<Rightarrow> nat \<Rightarrow> order_request \<Rightarrow> ('x, order_outcome) vop" where
  "pm_place S cfg rounds rq0 =
     (let rq = ensure_client_order_id (sha S) [] rq0; coid = rq_client_order_id rq in
      bind (lock_check cfg) (\<lambda>(armed, reason).
      if \<not> armed then ret (outcome_failed POLYMARKET (rq_size rq) (opt_str reason) coid None)
      else
        let order_type = pm_order_type cfg rq;
            ttl = (if rq_ttl_seconds rq = 0 then POLYMARKET_ORDER_TTL_SECONDS cfg else rq_ttl_seconds rq)
        in case buy_amount order_type rq of
          Inl err \<Rightarrow> ret (outcome_failed POLYMARKET (rq_size rq) err coid None)
        | Inr amount \<Rightarrow>
            let send_size = (case amount of Some a \<Rightarrow> a | None \<Rightarrow> rq_size rq) in
            bind (pm_place_order S cfg (rq_token_id rq) (pm_side rq) (rq_limit_price rq) send_size
                    order_type ttl) (\<lambda>resp.
            if truthy (get resp ''error'') then
              let err = py_str (get resp ''error'') in
              if is_ambiguous_error err then ambiguous_outcome S cfg rq coid err resp
              else ret (outcome_failed POLYMARKET (rq_size rq) err coid (Some (JObj resp)))
            else if \<not> truthy (get_or (JStr []) resp ''orderID'')
              then ambiguous_outcome S cfg rq coid ''no_order_id'' resp
            else pm_filled_outcome S cfg rounds rq coid order_type amount resp)))"

section \<open>The simulated gateway\<close>

definition sim_place ::
    "'x services \<Rightarrow> config \<Rightarrow> string \<Rightarrow> order_request \<Rightarrow> ('x, order_outcome) vop" where
  "sim_place S cfg venue rq0 =
     (let rq = ensure_client_order_id (sha S) [] rq0; coid = rq_client_order_id rq; sz = rq_size rq in
      if sz \<le> 0 then ret (outcome_failed venue sz ''non_positive_size'' coid None)
      else
        let price = max (fl (1 / 100)) (min (fl (99 / 100)) (rq_limit_price rq)) in
        bind (if venue = KALSHI then ret (FeeModel_kalshi_taker_fee price sz)
              else bind (get_fee_rate_bps S cfg (rq_token_id rq)) (\<lambda>rate.
                lift (FeeModel_polymarket_taker_fee price sz
                        (rate_or (POLYMARKET_ESTIMATED_FEE_RATE_BPS cfg) rate)))) (\<lambda>fee.
        bind (ask (uuid S)) (\<lambda>hex.
        ret ((order_outcome_of venue FILLED sz)
          \<lparr>oc_filled_size := sz, oc_avg_price := price, oc_fees := fee,
           oc_order_id := Some (''sim-'' @ take 12 hex), oc_client_order_id := coid,
           oc_raw := Some (JObj [(''simulated'', JBool True)])\<rparr>))))"

text \<open>The tables of gateways the executor gives the engine in live and in paper mode.\<close>

definition real_gateways :: "'x services \<Rightarrow> config \<Rightarrow> nat \<Rightarrow> 'x venues gateways" where
  "real_gateways S cfg rounds =
     [(KALSHI, as_gateway (kalshi_place S cfg rounds)), (POLYMARKET, as_gateway (pm_place S cfg rounds))]"

definition sim_gateways :: "'x services \<Rightarrow> config \<Rightarrow> 'x venues gateways" where
  "sim_gateways S cfg =
     [(KALSHI, as_gateway (sim_place S cfg KALSHI)), (POLYMARKET, as_gateway (sim_place S cfg POLYMARKET))]"

end
