(* ===== verification/Placement.thy ===== *)
theory Placement
  imports VenueGateway
begin

text \<open>
  What can reach the venues through the engine and the gateways. Each promise is a relation on
  worlds that the gateways of a table obey; the engine then obeys it too (\<open>execute_R\<close> of the
  locale \<open>engine_relation\<close>).
\<close>

section \<open>The live-trading lock\<close>

text \<open>Without the lock armed nothing behind the gateways changes, and the lock stays off.\<close>

definition locked :: "config \<Rightarrow> 'v world \<Rightarrow> 'v world \<Rightarrow> bool" where
  "locked cfg w w' \<longleftrightarrow> (\<not> is_armed cfg (safe w) \<longrightarrow> \<not> is_armed cfg (safe w') \<and> net w' = net w)"

interpretation locked: engine_relation "locked cfg" for cfg
  by unfold_locales (auto simp: locked_def)

lemma not_armed_reason: "\<not> is_armed cfg s \<Longrightarrow> fst (assert_or_warn cfg s) = (False, Some ''live_trading_locked'')"
  by (simp add: assert_or_warn_def)

lemma kalshi_place_locked:
  "\<not> is_armed cfg (safe w) \<Longrightarrow> \<exists>coid. kalshi_place S cfg n rq0 w =
     (Inr (outcome_failed KALSHI (rq_size rq0) ''live_trading_locked'' coid None),
      w\<lparr>safe := snd (assert_or_warn cfg (safe w))\<rparr>)"
  using not_armed_reason [of cfg "safe w"]
  by (auto simp: kalshi_place_def lock_check_def bind_def ret_def Let_def opt_str_def split: prod.split)

lemma pm_place_locked:
  "\<not> is_armed cfg (safe w) \<Longrightarrow> \<exists>coid. pm_place S cfg n rq0 w =
     (Inr (outcome_failed POLYMARKET (rq_size rq0) ''live_trading_locked'' coid None),
      w\<lparr>safe := snd (assert_or_warn cfg (safe w))\<rparr>)"
  using not_armed_reason [of cfg "safe w"]
  by (auto simp: pm_place_def lock_check_def bind_def ret_def Let_def opt_str_def split: prod.split)

lemma locked_places:
  "keeps (locked cfg) (kalshi_place S cfg n rq)" "keeps (locked cfg) (pm_place S cfg n rq)"
proof -
  show "keeps (locked cfg) (kalshi_place S cfg n rq)"
  proof (rule keepsI)
    fix w show "locked cfg w (snd (kalshi_place S cfg n rq w))"
      using kalshi_place_locked [of cfg w S n rq] by (auto simp: locked_def)
  qed
  show "keeps (locked cfg) (pm_place S cfg n rq)"
  proof (rule keepsI)
    fix w show "locked cfg w (snd (pm_place S cfg n rq w))"
      using pm_place_locked [of cfg w S n rq] by (auto simp: locked_def)
  qed
qed

lemma locked_table: "list_all (\<lambda>(v, place). obeys (locked cfg) place) (real_gateways S cfg n)"
  by (simp add: real_gateways_def locked.obeys_op locked_places)

section \<open>Halts last\<close>

text \<open>Nothing the engine or a gateway does ends a halt, arms the lock or takes a request back.\<close>

definition lasting :: "config \<Rightarrow> 'x venues world \<Rightarrow> 'x venues world \<Rightarrow> bool" where
  "lasting cfg w w' \<longleftrightarrow>
     (halted cfg (safe w) \<longrightarrow> halted cfg (safe w')) \<and> is_armed cfg (safe w') = is_armed cfg (safe w) \<and>
     prefix (k_sent (net w)) (k_sent (net w')) \<and> prefix (p_sent (net w)) (p_sent (net w'))"

interpretation lasting: engine_relation "lasting cfg" for cfg
  by unfold_locales (auto simp: lasting_def)

lemma lasting_grows: "keeps grows m \<Longrightarrow> keeps (lasting cfg) m"
  by (auto simp: keeps_def grows_def lasting_def)

lemma lasting_lock [keep]: "keeps (lasting cfg) (lock_check cfg)"
  by (auto simp: keeps_def lasting_def lock_check_def prod.case_eq_if)

lemma grows_kalshi_poll [keep]: "keeps grows (kalshi_poll S cfg oid)"
  unfolding kalshi_poll_def Let_def by (intro keep)

lemma grows_kalshi_unresolved [keep]: "keeps grows (kalshi_unresolved S cfg rq oid coid resp)"
  unfolding kalshi_unresolved_def Let_def by (intro keep)

lemma grows_pm_parts [keep]:
  "keeps grows (pm_fees S cfg tok p z)" "keeps grows (find_recent_fill S rq)" "keeps grows (pm_poll S oid)"
  unfolding pm_fees_def find_recent_fill_def pm_poll_def by (intro keep)+

lemma grows_pm_outcomes [keep]:
  "keeps grows (ambiguous_outcome S cfg rq coid err resp)"
  "keeps grows (pm_filled_outcome S cfg n rq coid ty amount resp)"
  unfolding ambiguous_outcome_def pm_filled_outcome_def Let_def by (intro keep)+

lemma lasting_places:
  "keeps (lasting cfg) (kalshi_place S cfg n rq)" "keeps (lasting cfg) (pm_place S cfg n rq)"
  unfolding kalshi_place_def pm_place_def Let_def
  by (intro lasting.keeps_bind lasting_lock keeps_prod keeps_if keeps_sum lasting.keeps_ret; (rule lasting_grows, intro keep)?)+

section \<open>How many orders are sent\<close>

text \<open>Orders are the POST requests to Kalshi and everything posted to Polymarket.\<close>

definition posts :: "'x venues \<Rightarrow> (http_request \<times> bool) list" where
  "posts v = filter (\<lambda>(q, _). hq_method q = ''POST'') (k_sent v)"

definition same_gates :: "config \<Rightarrow> 'x venues world \<Rightarrow> 'x venues world \<Rightarrow> bool" where
  "same_gates cfg w w' \<longleftrightarrow>
     halted cfg (safe w') = halted cfg (safe w) \<and> is_armed cfg (safe w') = is_armed cfg (safe w)"

definition no_orders :: "config \<Rightarrow> 'x venues world \<Rightarrow> 'x venues world \<Rightarrow> bool" where
  "no_orders cfg w w' \<longleftrightarrow> posts (net w') = posts (net w) \<and> p_sent (net w') = p_sent (net w) \<and> same_gates cfg w w'"

interpretation no_orders: world_relation "no_orders cfg" for cfg
  by unfold_locales (auto simp: no_orders_def same_gates_def)

declare no_orders.keeps_intros [keep]

text \<open>At most one order, and one that satisfies \<open>K\<close> or \<open>P\<close>, which may ask whether placement was
  halted and whether the lock was armed.\<close>

definition one_order ::
    "config \<Rightarrow> (bool \<Rightarrow> bool \<Rightarrow> http_request \<times> bool \<Rightarrow> bool) \<Rightarrow> (bool \<Rightarrow> bool \<Rightarrow> pm_order \<Rightarrow> bool) \<Rightarrow>
     'x venues world \<Rightarrow> 'x venues world \<Rightarrow> bool" where
  "one_order cfg K P w w' \<longleftrightarrow>
     no_orders cfg w w' \<or>
     same_gates cfg w w' \<and>
       ((\<exists>q. K (halted cfg (safe w)) (is_armed cfg (safe w)) q \<and>
             posts (net w') = posts (net w) @ [q] \<and> p_sent (net w') = p_sent (net w)) \<or>
        (\<exists>po. P (halted cfg (safe w)) (is_armed cfg (safe w)) po \<and>
             p_sent (net w') = p_sent (net w) @ [po] \<and> posts (net w') = posts (net w)))"

lemma one_orderI: "no_orders cfg w w' \<Longrightarrow> one_order cfg K P w w'"
  by (simp add: one_order_def)

lemma one_order_after: "no_orders cfg w w1 \<Longrightarrow> one_order cfg K P w1 w2 \<Longrightarrow> one_order cfg K P w w2"
  unfolding one_order_def no_orders_def same_gates_def by (elim conjE) simp

lemma one_order_before: "one_order cfg K P w w1 \<Longrightarrow> no_orders cfg w1 w2 \<Longrightarrow> one_order cfg K P w w2"
  unfolding one_order_def no_orders_def same_gates_def by (elim conjE) simp

lemmas one_order_trans = one_order_after one_order_before

lemma sends_none: "keeps (no_orders cfg) m \<Longrightarrow> keeps (one_order cfg K P) m"
  by (simp add: keeps_def one_orderI)

lemma sends_before:
  assumes "keeps (no_orders cfg) m" and "\<And>x. keeps (one_order cfg K P) (f x)"
  shows "keeps (one_order cfg K P) (bind m f)"
proof (rule keepsI)
  fix w
  obtain r w1 where m: "m w = (r, w1)" by (rule prod.exhaust)
  have 1: "no_orders cfg w w1" using keepsD [OF assms(1) m] .
  have "one_order cfg K P w1 (snd (f x w1))" for x using assms(2) by (simp add: keeps_def)
  with 1 show "one_order cfg K P w (snd (bind m f w))"
    by (cases r) (auto simp: bind_def m intro: one_orderI one_order_trans)
qed

lemma sends_then:
  assumes "keeps (one_order cfg K P) m" and "\<And>x. keeps (no_orders cfg) (f x)"
  shows "keeps (one_order cfg K P) (bind m f)"
proof (rule keepsI)
  fix w
  obtain r w1 where m: "m w = (r, w1)" by (rule prod.exhaust)
  have 1: "one_order cfg K P w w1" using keepsD [OF assms(1) m] .
  have "no_orders cfg w1 (snd (f x w1))" for x using assms(2) by (simp add: keeps_def)
  with 1 show "one_order cfg K P w (snd (bind m f w))"
    by (cases r) (auto simp: bind_def m intro: one_order_trans)
qed

lemma sends_catch:
  assumes "keeps (one_order cfg K P) m" and "\<And>e. keeps (no_orders cfg) (h e)"
  shows "keeps (one_order cfg K P) (catch m h)"
proof (rule keepsI)
  fix w
  obtain r w1 where m: "m w = (r, w1)" by (rule prod.exhaust)
  have 1: "one_order cfg K P w w1" using keepsD [OF assms(1) m] .
  have "no_orders cfg w1 (snd (h e w1))" for e using assms(2) by (simp add: keeps_def)
  with 1 show "one_order cfg K P w (snd (catch m h w))"
    by (cases r) (auto simp: catch_def m intro: one_order_trans)
qed

text \<open>Operations that send no order.\<close>

lemma no_orders_basic [keep]:
  "keeps (no_orders cfg) now" "keeps (no_orders cfg) (sleep d)" "keeps (no_orders cfg) (ask f)"
  "keeps (no_orders cfg) get_net" "keeps (no_orders cfg) get_safe" "keeps (no_orders cfg) (lock_check cfg)"
  by (auto simp: keeps_def no_orders_def same_gates_def venue_op_defs lock_check_def posts_def prod.case_eq_if)

lemma no_orders_put [keep]:
  "(\<And>v. posts (f v) = posts v) \<Longrightarrow> (\<And>v. p_sent (f v) = p_sent v) \<Longrightarrow> keeps (no_orders cfg) (put_net f)"
  by (auto simp: keeps_def no_orders_def same_gates_def put_net_def)

lemma posts_caches [simp]:
  "posts (v\<lparr>tick_cache := a\<rparr>) = posts v" "posts (v\<lparr>neg_cache := b\<rparr>) = posts v"
  "posts (v\<lparr>fee_cache := c\<rparr>) = posts v" "posts (v\<lparr>p_sent := d\<rparr>) = posts v"
  by (simp_all add: posts_def)

lemma no_orders_ask [keep]: "keeps (no_orders cfg) (ask_or_raise f)"
  unfolding ask_or_raise_def by (intro keep)

lemma no_orders_backoff [keep]: "keeps (no_orders cfg) poll \<Longrightarrow> keeps (no_orders cfg) (backoff_poll n c poll)"
proof -
  assume p: "keeps (no_orders cfg) poll"
  have "keeps (no_orders cfg) (backoff_loop n d i cap poll)" for d i cap
    by (induction n arbitrary: i) (auto intro!: keep p)
  then show ?thesis unfolding backoff_poll_def by (intro keep)
qed

lemma no_orders_auth [keep]: "keeps (no_orders cfg) (kalshi_auth_headers S meth path)"
  unfolding kalshi_auth_headers_def Let_def by (intro keep)

lemma no_orders_request:
  assumes "upper meth \<noteq> ''POST''" shows "keeps (no_orders cfg) (kalshi_request S cfg meth ep body rr)"
proof -
  have "keeps (no_orders cfg) (send_request S \<lparr>hq_method = upper meth, hq_url = u, hq_headers = h, hq_body = body\<rparr> rr)"
    for u h using assms unfolding send_request_def by (intro keep) (auto simp: posts_def)
  then show ?thesis unfolding kalshi_request_def Let_def by (intro keep) (auto split: http_reply.split intro!: keep)
qed

lemma upper_methods [simp]: "upper ''GET'' = ''GET''" "upper ''DELETE'' = ''DELETE''" "upper ''POST'' = ''POST''"
  by code_simp+

lemma no_orders_kalshi [keep]:
  "keeps (no_orders cfg) (kalshi_get_order S cfg oid)" "keeps (no_orders cfg) (kalshi_cancel_order S cfg oid)"
  unfolding kalshi_get_order_def kalshi_cancel_order_def
  by (intro keep no_orders_request; simp)+

lemma no_orders_kalshi_parts [keep]:
  "keeps (no_orders cfg) (kalshi_poll S cfg oid)" "keeps (no_orders cfg) (kalshi_unresolved S cfg rq j coid resp)"
  unfolding kalshi_poll_def kalshi_unresolved_def Let_def by (intro keep)+

lemma no_orders_pm [keep]:
  "keeps (no_orders cfg) (pm_client S)" "keeps (no_orders cfg) (pm_get_order S oid)"
  "keeps (no_orders cfg) (pm_get_trades S oid')"
  unfolding pm_client_def pm_get_order_def pm_get_trades_def Let_def by (intro keep)+

lemma no_orders_pm_caches [keep]:
  "keeps (no_orders cfg) (pm_tick_size S t)" "keeps (no_orders cfg) (pm_neg_risk S t)"
  unfolding pm_tick_size_def pm_neg_risk_def Let_def by (intro keep; simp)+

lemma no_orders_fee_rate [keep]: "keeps (no_orders cfg) (get_fee_rate_bps S cfg tok)"
  unfolding get_fee_rate_bps_def Let_def by (intro keep) (auto split: fee_reply.split intro!: keep)

lemma no_orders_pm_parts [keep]:
  "keeps (no_orders cfg) (pm_fees S cfg tok p z)" "keeps (no_orders cfg) (find_recent_fill S rq)"
  "keeps (no_orders cfg) (pm_poll S oid)"
  unfolding pm_fees_def find_recent_fill_def pm_poll_def by (intro keep)+

lemma no_orders_pm_outcomes [keep]:
  "keeps (no_orders cfg) (ambiguous_outcome S cfg rq coid err resp)"
  "keeps (no_orders cfg) (pm_filled_outcome S cfg n rq coid ty amount resp)"
  unfolding ambiguous_outcome_def pm_filled_outcome_def Let_def by (intro keep)+

lemma no_orders_sim: "keeps (no_orders cfg) (sim_place S cfg venue rq)"
  unfolding sim_place_def Let_def by (intro keep)

section \<open>What an order says\<close>

text \<open>The order a request may turn into at Kalshi: a whole number of contracts no larger than
  requested, at a price of 1 to 99 cents, sent only while the lock is armed and, unless it is
  marked risk-reducing, placement is not halted.\<close>

definition kalshi_order_ok :: "config \<Rightarrow> order_request \<Rightarrow> bool \<Rightarrow> bool \<Rightarrow> http_request \<times> bool \<Rightarrow> bool" where
  "kalshi_order_ok cfg rq halt armed q \<longleftrightarrow>
     armed \<and> (halt \<longrightarrow> rq_risk_reducing rq) \<and> snd q = rq_risk_reducing rq \<and>
     (\<exists>count cents ttl coid t.
        hq_body (fst q) = Some (order_body cfg (rq_ticker rq) (rq_outcome_side rq) (rq_action rq) count cents ttl coid t) \<and>
        (has_client_order_id rq \<longrightarrow> coid = rq_client_order_id rq) \<and>
        1 \<le> cents \<and> cents \<le> 99 \<and> 1 \<le> count \<and> of_int count \<le> rq_size rq)"

text \<open>The order a request may turn into at Polymarket: dollars for a marketable buy, shares
  otherwise.\<close>

definition pm_order_ok :: "config \<Rightarrow> order_request \<Rightarrow> bool \<Rightarrow> bool \<Rightarrow> pm_order \<Rightarrow> bool" where
  "pm_order_ok cfg rq halt armed po \<longleftrightarrow>
     armed \<and> po_token po = rq_token_id rq \<and> po_side po = pm_side rq \<and> po_type po = pm_order_type cfg rq \<and>
     (if marketable (po_type po) \<and> rq_action rq = ''buy''
      then po_size po = py_round (fmul (rq_size rq) (rq_limit_price rq)) 2 \<and> 0 < po_size po
      else po_size po = rq_size rq)"

lemma kalshi_post_one:
  assumes "\<And>h a q. a \<Longrightarrow> (h \<longrightarrow> rr) \<Longrightarrow> snd q = rr \<Longrightarrow> hq_body (fst q) = body \<Longrightarrow> K h a q"
  shows "keeps (one_order cfg K P) (kalshi_request S cfg ''POST'' ep body rr)"
proof (rule keepsI)
  fix w
  obtain r w' where req: "kalshi_request S cfg ''POST'' ep body rr w = (r, w')" by (rule prod.exhaust)
  have safe: "safe w' = safe w" using keepsD [OF grows_request req] by (simp add: grows_def)
  from request_log [OF req] consider "posts (net w') = posts (net w)" "p_sent (net w') = p_sent (net w)"
    | q where "posts (net w') = posts (net w) @ [(q, rr)]" "p_sent (net w') = p_sent (net w)" "hq_body q = body"
        "mutation_blocked cfg ''POST'' rr (safe w) = None"
    by (auto simp: posts_def MUTATING_METHODS_def)
  then have "one_order cfg K P w w'"
  proof cases
    case 1
    then show ?thesis by (simp add: one_order_def no_orders_def same_gates_def safe)
  next
    case 2
    have "is_armed cfg (safe w)" "halted cfg (safe w) \<longrightarrow> rr"
      using 2(4) by (auto simp: mutation_blocked_def prod.case_eq_if split: if_splits)
    then have "K (halted cfg (safe w)) (is_armed cfg (safe w)) (q, rr)" using 2(3) by (intro assms) auto
    then show ?thesis using 2(1,2) unfolding one_order_def same_gates_def by (auto simp: safe)
  qed
  then show "one_order cfg K P w (snd (kalshi_request S cfg ''POST'' ep body rr w))" by (simp add: req)
qed

lemma price_to_cents_bounds: "1 \<le> price_to_cents p" "price_to_cents p \<le> 99"
  by (auto simp: price_to_cents_def)

lemma kalshi_order_okI:
  "armed \<Longrightarrow> (halt \<longrightarrow> rq_risk_reducing rq) \<Longrightarrow> snd q = rq_risk_reducing rq \<Longrightarrow>
   hq_body (fst q) = Some (order_body cfg (rq_ticker rq) (rq_outcome_side rq) (rq_action rq) n cents ttl coid t) \<Longrightarrow>
   (has_client_order_id rq \<longrightarrow> coid = rq_client_order_id rq) \<Longrightarrow> 1 \<le> cents \<Longrightarrow> cents \<le> 99 \<Longrightarrow> 1 \<le> n \<Longrightarrow> of_int n \<le> rq_size rq \<Longrightarrow>
   kalshi_order_ok cfg rq halt armed q"
  unfolding kalshi_order_ok_def by blast

lemma kalshi_place_one: "keeps (one_order cfg (kalshi_order_ok cfg rq) P) (kalshi_place S cfg n rq)"
proof -
  let ?K = "kalshi_order_ok cfg rq"
  have po: "keeps (one_order cfg ?K P) (kalshi_place_order S cfg (rq_ticker rq) (rq_outcome_side rq)
      (rq_action rq) (trunc (rq_size rq)) (price_to_cents (rq_limit_price rq)) ttl coid (rq_risk_reducing rq))"
    if "\<not> trunc (rq_size rq) \<le> 0" and "has_client_order_id rq \<longrightarrow> coid = rq_client_order_id rq" for ttl coid
  proof -
    have "0 \<le> rq_size rq" using that by (auto simp: trunc_def split: if_splits)
    then have "of_int (trunc (rq_size rq)) \<le> rq_size rq" using trunc_bounds by blast
    then have "keeps (one_order cfg ?K P) (kalshi_request S cfg ''POST'' ep
        (Some (order_body cfg (rq_ticker rq) (rq_outcome_side rq) (rq_action rq) (trunc (rq_size rq))
           (price_to_cents (rq_limit_price rq)) ttl coid t)) (rq_risk_reducing rq))" for ep t
      using that by (intro kalshi_post_one, elim kalshi_order_okI) (use price_to_cents_bounds in auto)
    then show ?thesis unfolding kalshi_place_order_def by (intro sends_before sends_then keep)
  qed
  have id: "has_client_order_id rq \<longrightarrow>
      rq_client_order_id (ensure_client_order_id (sha S) [] rq) = rq_client_order_id rq"
    by (simp add: ensure_client_order_id_def)
  show ?thesis
  proof (cases "trunc (rq_size rq) \<le> 0")
    case True
    then show ?thesis
      unfolding kalshi_place_def Let_def ensure_fields
      by (simp only: if_True) (rule sends_none, intro keep)
  next
    case False
    then show ?thesis
      unfolding kalshi_place_def Let_def ensure_fields
      by (simp only: if_False)
        (intro sends_before [OF no_orders_basic(6)] keeps_prod keeps_if sends_then [OF po] keep sends_none; (rule id)?; simp)
  qed
qed

lemma kalshi_place_within_request_lemma: "one_order cfg (kalshi_order_ok cfg rq) P w (snd (kalshi_place S cfg n rq w))"
  using kalshi_place_one [of cfg rq P S n] by (simp add: keeps_def)

lemma upper_pm_side [simp]: "upper (pm_side rq) = pm_side rq"
proof -
  have "upper ''BUY'' = ''BUY''" "upper ''SELL'' = ''SELL''" by code_simp+
  then show ?thesis by (simp add: pm_side_def)
qed

lemma send_order_one:
  assumes "\<And>h a. P h a po" shows "keeps (one_order cfg K P) (send_order S po)"
proof -
  have "keeps (one_order cfg K P) (put_net (\<lambda>v. v\<lparr>p_sent := p_sent v @ [po]\<rparr>))"
    unfolding keeps_def one_order_def same_gates_def by (simp add: put_net_def assms)
  then show ?thesis unfolding send_order_def by (intro sends_then keep)
qed

lemma pm_place_order_one:
  assumes "\<And>h a po. po_token po = tok \<Longrightarrow> po_side po = upper side \<Longrightarrow> po_size po = sz \<Longrightarrow> po_type po = ty \<Longrightarrow> P h a po"
    and "ty \<noteq> []"
  shows "keeps (one_order cfg K P) (pm_place_order S cfg tok side price sz ty ttl)"
  unfolding pm_place_order_def Let_def
  by (intro sends_before sends_then sends_catch send_order_one keep) (simp_all add: assms)

lemma pm_order_type_nonempty [simp]: "POLYMARKET_ORDER_TYPE cfg \<noteq> [] \<Longrightarrow> pm_order_type cfg rq \<noteq> []"
  by (auto simp: pm_order_type_def)

lemma pm_place_one:
  assumes "pm_order_type cfg rq \<noteq> []"
  shows "keeps (one_order cfg K (\<lambda>h a. pm_order_ok cfg rq h True)) (pm_place S cfg n rq)"
proof -
  let ?R = "one_order cfg K (\<lambda>h a. pm_order_ok cfg rq h True)"
  have ty: "pm_order_type cfg (ensure_client_order_id (sha S) [] rq) = pm_order_type cfg rq"
    "buy_amount (pm_order_type cfg rq) (ensure_client_order_id (sha S) [] rq) = buy_amount (pm_order_type cfg rq) rq"
    "pm_side (ensure_client_order_id (sha S) [] rq) = pm_side rq"
    by (simp_all add: pm_order_type_def buy_amount_def pm_side_def)
  show ?thesis
  proof (cases "buy_amount (pm_order_type cfg rq) rq")
    case (Inl e)
    then show ?thesis
      unfolding pm_place_def Let_def ensure_fields ty by (simp only: sum.case) (rule sends_none, intro keep)
  next
    case (Inr amount)
    have post: "keeps ?R (pm_place_order S cfg (rq_token_id rq) (pm_side rq) price
        (case amount of Some a \<Rightarrow> a | None \<Rightarrow> rq_size rq) (pm_order_type cfg rq) ttl)" for price ttl
      using Inr assms
      by (intro pm_place_order_one) (auto simp: pm_order_ok_def buy_amount_def Let_def split: if_splits)
    then show ?thesis
      unfolding pm_place_def Let_def ensure_fields ty Inr sum.case
      by (intro sends_before [OF no_orders_basic(6)] keeps_prod keeps_if sends_then [OF post] keep sends_none)
  qed
qed

section \<open>Operations that do not raise\<close>

definition yields :: "('w, 'a) op \<Rightarrow> ('a \<Rightarrow> bool) \<Rightarrow> bool" where
  "yields m Q \<longleftrightarrow> (\<forall>w. \<exists>x w'. m w = (Inr x, w') \<and> Q x)"

named_theorems yield

lemma yields_ret [yield]: "Q x \<Longrightarrow> yields (ret x) Q"
  by (simp add: yields_def ret_def)

lemma yields_bind: "yields m P \<Longrightarrow> (\<And>x. P x \<Longrightarrow> yields (f x) Q) \<Longrightarrow> yields (bind m f) Q"
  unfolding yields_def bind_def by (metis (mono_tags, lifting) old.prod.case old.sum.simps(6))

lemma yields_any: "yields m (\<lambda>_. True) \<Longrightarrow> (\<And>x. yields (f x) Q) \<Longrightarrow> yields (bind m f) Q"
  by (rule yields_bind)

lemma yields_basic [yield]:
  "yields now (\<lambda>_. True)" "yields get_net (\<lambda>_. True)" "yields (put_net f) (\<lambda>_. True)" "yields (ask g) (\<lambda>_. True)"
  by (auto simp: yields_def venue_op_defs prod.case_eq_if)

lemma yields_lift [yield]: "r = Inr x \<Longrightarrow> Q x \<Longrightarrow> yields (lift r) Q"
  by (simp add: yields_def lift_def ret_def)

lemma yields_catch: "(\<And>e. yields (h e) Q) \<Longrightarrow> (\<And>w x w'. m w = (Inr x, w') \<Longrightarrow> Q x) \<Longrightarrow> yields (catch m h) Q"
  unfolding yields_def catch_def
  by (auto split: prod.split sum.split)

text \<open>What the model needs of the venues to know that nothing raises after a post: the fee endpoint
  answers with a JSON object, the trades endpoint of the SDK with a list.\<close>

definition well_formed_replies :: "'x services \<Rightarrow> bool" where
  "well_formed_replies S \<longleftrightarrow>
     (\<forall>tok x. case fst (fee_http S tok x) of Fee_reply st data \<Rightarrow> is_obj data | Fee_broken \<Rightarrow> True) \<and>
     (\<forall>x. case fst (sdk_trades S None x) of Inr v \<Rightarrow> (\<exists>ts. v = JList ts) | Inl e \<Rightarrow> True)"

lemma yields_fee_rate:
  assumes "well_formed_replies S" shows "yields (get_fee_rate_bps S cfg tok) (\<lambda>_. True)"
proof -
  have ask: "yields (ask (fee_http S t)) (\<lambda>r. case r of Fee_reply st data \<Rightarrow> is_obj data | Fee_broken \<Rightarrow> True)" for t
    using assms by (auto simp: yields_def ask_def well_formed_replies_def prod.case_eq_if)
  show ?thesis
    unfolding get_fee_rate_bps_def Let_def
    by (auto split: option.split fee_reply.split sum.split
        intro!: yields_ret yields_any [OF yields_basic(1)] yields_any [OF yields_basic(2)] yields_any [OF yields_basic(3)]
          yields_bind [OF ask])
qed

lemma yields_pm_fees: "well_formed_replies S \<Longrightarrow> yields (pm_fees S cfg tok p z) (\<lambda>_. True)"
proof -
  assume wf: "well_formed_replies S"
  obtain x where "FeeModel_polymarket_taker_fee p z b = Inr (x b)" for b using pm_fee_total by metis
  then show ?thesis
    unfolding pm_fees_def by (auto intro!: yields_ret yields_any [OF yields_fee_rate [OF wf]] yields_lift)
qed

lemma yields_trades: "well_formed_replies S \<Longrightarrow> yields (pm_get_trades S None) (\<lambda>v. \<exists>ts. v = JList ts)"
  unfolding pm_get_trades_def
  by (intro yields_catch yields_ret)
    (auto simp: bind_def pm_client_def ask_or_raise_def ask_def ret_def raise_def is_set_def well_formed_replies_def
      prod.case_eq_if split: option.splits sum.splits json.splits if_splits)

lemma yields_recent_fill: "well_formed_replies S \<Longrightarrow> yields (find_recent_fill S rq) (\<lambda>_. True)"
  unfolding find_recent_fill_def
  by (intro yields_bind [OF yields_trades] yields_any [OF yields_basic(1)])
    (auto simp: py_or_def intro!: yields_any yields_ret yields_lift)

text \<open>An outcome the engine does not retry.\<close>

definition final :: "order_outcome \<Rightarrow> bool" where
  "final out \<longleftrightarrow> is_done out \<or> \<not> oc_retryable out"

lemma ambiguous_final: "well_formed_replies S \<Longrightarrow> yields (ambiguous_outcome S cfg rq coid err resp) final"
  unfolding ambiguous_outcome_def Let_def
  by (rule yields_any [OF yields_recent_fill], assumption)
    (auto simp: final_def is_done_def order_outcome_of_def intro!: yields_any [OF yields_pm_fees] yields_ret)

text \<open>Every post ends in an exception that leaves open whether the order landed.\<close>

definition posts_time_out :: "'x services \<Rightarrow> bool" where
  "posts_time_out S \<longleftrightarrow> (\<forall>po x. case fst (sdk_post S po x) of Inl e \<Rightarrow> is_ambiguous_error e | Inr _ \<Rightarrow> False)"

text \<open>Nothing was posted, or the result is a value with \<open>Q\<close>.\<close>

definition settles :: "('x, 'a) vop \<Rightarrow> ('a \<Rightarrow> bool) \<Rightarrow> bool" where
  "settles m Q \<longleftrightarrow> (\<forall>w r w'. m w = (r, w') \<longrightarrow> p_sent (net w') = p_sent (net w) \<or> (\<exists>x. r = Inr x \<and> Q x))"

lemma settles_none: "keeps (no_orders cfg) m \<Longrightarrow> settles m Q"
  unfolding settles_def by (metis keepsD no_orders_def)

lemma settles_yields: "yields m Q \<Longrightarrow> settles m Q"
  unfolding settles_def yields_def by (metis prod.inject)

lemma settles_bind:
  assumes "settles m P" and "\<And>x. P x \<Longrightarrow> yields (f x) Q" and "\<And>x. settles (f x) Q"
  shows "settles (bind m f) Q"
  unfolding settles_def
proof (intro allI impI)
  fix w r w'
  assume run: "bind m f w = (r, w')"
  obtain r1 w1 where m: "m w = (r1, w1)" by (rule prod.exhaust)
  have sent: "p_sent (net w1) = p_sent (net w) \<or> (\<exists>x. r1 = Inr x \<and> P x)"
    using assms(1) m unfolding settles_def by blast
  show "p_sent (net w') = p_sent (net w) \<or> (\<exists>x. r = Inr x \<and> Q x)"
  proof (cases r1)
    case (Inl e)
    then show ?thesis using run m sent by (simp add: bind_def)
  next
    case (Inr x)
    then have fx: "f x w1 = (r, w')" using run m by (simp add: bind_def)
    show ?thesis
    proof (cases "P x")
      case True
      then show ?thesis using assms(2) [OF True] fx unfolding yields_def by (metis prod.inject)
    next
      case False
      then show ?thesis using sent Inr assms(3) fx unfolding settles_def by (metis sum.inject(2))
    qed
  qed
qed

lemma settles_before:
  assumes "keeps (no_orders cfg) m" and "\<And>x. settles (f x) Q" shows "settles (bind m f) Q"
  by (rule settles_bind [of m "\<lambda>_. False"]) (use assms settles_none in auto)

lemma settles_if: "settles m Q \<Longrightarrow> settles m' Q \<Longrightarrow> settles (if c then m else m') Q"
  by simp

lemma pm_place_order_settles:
  assumes "posts_time_out S"
  shows "settles (pm_place_order S cfg tok side price sz ty ttl)
    (\<lambda>resp. \<exists>e. resp = [(''error'', JStr e)] \<and> is_ambiguous_error e)"
proof -
  have send: "\<exists>e w'. send_order S po w = (Inl e, w') \<and> is_ambiguous_error e" for po w
  proof -
    have "case fst (sdk_post S po (outside (net w))) of Inl e \<Rightarrow> is_ambiguous_error e | Inr _ \<Rightarrow> False"
      using assms by (simp add: posts_time_out_def)
    then show ?thesis
      by (cases "fst (sdk_post S po (outside (net w)))")
        (auto simp: send_order_def venue_op_defs prod.case_eq_if)
  qed
  have "settles (catch (bind (if a then ret None else if b then bind now (\<lambda>t. ret (Some (g t))) else ret None)
            (\<lambda>ex. bind (send_order S (po ex)) (\<lambda>resp. ret (normalize_response resp))))
          (\<lambda>e. ret [(''error'', JStr e)]))
        (\<lambda>resp. \<exists>e. resp = [(''error'', JStr e)] \<and> is_ambiguous_error e)" for a b g po
    unfolding settles_def catch_def bind_def
    using send by (auto simp: op_defs split: prod.splits sum.splits if_splits) (metis prod.inject sum.inject(1) sum.distinct(1))+
  then show ?thesis
    unfolding pm_place_order_def Let_def by (intro settles_before keep)
qed

lemma not_ambiguous_Nil [simp]: "\<not> is_ambiguous_error []"
  by code_simp

lemma pm_place_settles:
  assumes "well_formed_replies S" and "posts_time_out S"
  shows "settles (pm_place S cfg n rq) final"
proof -
  have amb: "yields (if truthy (get resp ''error'')
      then if is_ambiguous_error (py_str (get resp ''error''))
        then ambiguous_outcome S cfg rq' coid (py_str (get resp ''error'')) resp else m
      else m') final"
    if "\<exists>e. resp = [(''error'', JStr e)] \<and> is_ambiguous_error e" for resp rq' coid m m'
    using that ambiguous_final [OF assms(1)] by (auto simp: get_or_def)
  show ?thesis
    unfolding pm_place_def Let_def
    by (intro settles_before [OF no_orders_basic(6)] keeps_prod)
      (auto split: sum.split
        intro!: settles_none [OF no_orders.keeps_ret] settles_bind [OF pm_place_order_settles [OF assms(2)]] amb
          settles_if settles_none [OF no_orders_pm_outcomes(1)] settles_none [OF no_orders_pm_outcomes(2)])
qed

lemma attempt_net:
  assumes "attempt_once cfg place rq w = (res, w')"
  shows "res = None \<and> net w' = net w \<or>
    (\<exists>r w1 w2. res = Some r \<and> place rq w1 = (r, w2) \<and> net w1 = net w \<and> net w' = net w2)"
  using assms
  by (auto simp: attempt_once_def breaker_call_def Let_def split: if_splits prod.splits)
    (metis update_breaker_simps(2))+

text \<open>If a call that posts always ends in a final outcome, the retry loop posts at most as often as
  one call does.\<close>

lemma retry_loop_posts_once:
  assumes one: "\<And>rq w res w'. place rq w = (res, w') \<Longrightarrow> length (p_sent (net w')) \<le> length (p_sent (net w)) + 1"
    and stop: "\<And>rq w res w'. place rq w = (res, w') \<Longrightarrow>
      p_sent (net w') = p_sent (net w) \<or> (\<exists>out. res = Returned out \<and> final out)"
  shows "retry_loop cfg place k a prev rq w = (out, rq', cs, w') \<Longrightarrow>
    length (p_sent (net w')) \<le> length (p_sent (net w)) + 1"
proof (induction k arbitrary: a prev rq w out rq' cs w')
  case (Suc k)
  let ?rq = "rq\<lparr>rq_meta := AList.update ''attempt'' (JInt (int a)) (rq_meta rq)\<rparr>"
  obtain res w1 where at: "attempt_once cfg place ?rq w = (res, w1)" by (rule prod.exhaust)
  show ?case
  proof (cases res)
    case None
    then show ?thesis using Suc.prems at attempt_net [OF at] by (auto simp: Let_def)
  next
    case (Some r)
    then obtain u1 u2 where u: "place ?rq u1 = (r, u2)" "net u1 = net w" "net w1 = net u2"
      using attempt_net [OF at] by auto
    let ?out = "(outcome_of ?rq r)\<lparr>oc_attempts := a + 1\<rparr>"
    show ?thesis
    proof (cases "is_done ?out \<or> \<not> oc_retryable ?out")
      case True
      then show ?thesis using Suc.prems at Some one [OF u(1)] u(2,3) by (auto simp: Let_def)
    next
      case False
      then have "p_sent (net w1) = p_sent (net w)"
        using stop [OF u(1)] u(2,3) by (auto simp: final_def outcome_of_def)
      then show ?thesis
        using Suc.prems at Some False Suc.IH by (auto simp: Let_def split: prod.splits) metis+
    qed
  qed
qed simp

text \<open>Everything the retry loop sends to Kalshi is a form of the one order it was given.\<close>

lemma kalshi_order_ok_same: "same_order r0 r \<Longrightarrow> kalshi_order_ok cfg r = kalshi_order_ok cfg r0"
  by (intro ext, cases r0, cases r) (simp add: same_order_def kalshi_order_ok_def has_client_order_id_def)

lemma retry_loop_posts:
  assumes place: "\<And>r w. same_order r0 r \<Longrightarrow> one_order cfg K (\<lambda>h a po. False) w (snd (place r w))"
  shows "retry_loop cfg place n a prev rq w = (out, rq', cs, w') \<Longrightarrow> same_order r0 rq \<Longrightarrow>
    \<exists>new. posts (net w') = posts (net w) @ new \<and> length new \<le> n \<and> (\<forall>q \<in> set new. \<exists>h a. K h a q)"
proof (induction n arbitrary: a prev rq w out rq' cs w')
  case (Suc n)
  let ?rq = "rq\<lparr>rq_meta := AList.update ''attempt'' (JInt (int a)) (rq_meta rq)\<rparr>"
  have rq: "same_order r0 ?rq" using Suc.prems(2) by (simp add: same_order_def)
  obtain res w1 where at: "attempt_once cfg place ?rq w = (res, w1)" by (rule prod.exhaust)
  have once: "\<exists>new. posts (net w1) = posts (net w) @ new \<and> length new \<le> 1 \<and> (\<forall>q \<in> set new. \<exists>h a. K h a q)"
    using attempt_net [OF at]
  proof (elim disjE exE conjE)
    fix r u1 u2
    assume "place ?rq u1 = (r, u2)" "net u1 = net w" "net w1 = net u2"
    then show ?thesis
      using place [OF rq, of u1] unfolding one_order_def no_orders_def
      by (elim disjE exE conjE) (force intro: exI [of _ "[q]" for q])+
  qed auto
  show ?case
  proof (cases res)
    case None
    then show ?thesis using Suc.prems at attempt_net [OF at] by (auto simp: Let_def)
  next
    case (Some r)
    let ?out = "(outcome_of ?rq r)\<lparr>oc_attempts := a + 1\<rparr>"
    show ?thesis
    proof (cases "is_done ?out \<or> \<not> oc_retryable ?out")
      case True
      then show ?thesis using Suc.prems at Some once by (fastforce simp: Let_def)
    next
      case False
      then obtain cs' where "retry_loop cfg place n (a + 1) (Some ?out) ?rq w1 = (out, rq', cs', w')"
        using Suc.prems at Some by (auto simp: Let_def split: prod.splits)
      from Suc.IH [OF this rq] once show ?thesis
      proof (elim exE conjE)
        fix new1 new2
        assume "posts (net w') = posts (net w1) @ new1" "posts (net w1) = posts (net w) @ new2"
          "length new1 \<le> n" "length new2 \<le> 1" "\<forall>q \<in> set new1. \<exists>h a. K h a q" "\<forall>q \<in> set new2. \<exists>h a. K h a q"
        then show ?thesis by (intro exI [of _ "new2 @ new1"]) auto
      qed
    qed
  qed
qed simp

section \<open>Sequences of orders\<close>

text \<open>The world after the engine executed an order under a stable key; the simulated gateways.\<close>

definition engine_step ::
    "'x services \<Rightarrow> config \<Rightarrow> 'x venues gateways \<Rightarrow> 'x venues world \<Rightarrow> string \<times> order_request \<Rightarrow> 'x venues world" where
  "engine_step S cfg gws w o1 = (case o1 of (k, rq) \<Rightarrow> snd (snd (snd (execute (sha S) cfg gws k rq w))))"

definition unsent :: "'x venues world \<Rightarrow> 'x venues world \<Rightarrow> bool" where
  "unsent w w' \<longleftrightarrow> posts (net w') = posts (net w) \<and> p_sent (net w') = p_sent (net w)"

interpretation unsent: engine_relation unsent
  by unfold_locales (auto simp: unsent_def)

lemma unsent_table: "list_all (\<lambda>(v, place). obeys unsent place) (sim_gateways S cfg)"
proof -
  have "keeps unsent (sim_place S cfg v rq)" for v rq
    using no_orders_sim [of cfg S v rq] by (auto simp: keeps_def no_orders_def unsent_def)
  then show ?thesis by (simp add: sim_gateways_def unsent.obeys_op)
qed

lemma lasting_table: "list_all (\<lambda>(v, place). obeys (lasting cfg) place) (real_gateways S cfg n)"
  by (simp add: real_gateways_def lasting.obeys_op lasting_places)

context engine_relation begin

lemma execute_final_R:
  "list_all (\<lambda>(v, place). obeys R place) gws \<Longrightarrow> R w (snd (snd (snd (execute h cfg gws k rq w))))"
  using execute_R [of gws h cfg k rq w] by (cases "execute h cfg gws k rq w") auto

end

interpretation unarmed_engine: machine "engine_step S cfg (real_gateways S cfg n)" "\<lambda>_. True"
    "\<lambda>w. \<not> is_armed cfg (safe w) \<and> net w = v" for S :: "'x services" and cfg n v
proof unfold_locales
  fix w :: "'x venues world" and e :: "string \<times> order_request"
  assume w: "\<not> is_armed cfg (safe w) \<and> net w = v"
  have "locked cfg w (engine_step S cfg (real_gateways S cfg n) w e)"
    unfolding engine_step_def prod.case_eq_if by (rule locked.execute_final_R [OF locked_table])
  with w show "\<not> is_armed cfg (safe (engine_step S cfg (real_gateways S cfg n) w e)) \<and>
      net (engine_step S cfg (real_gateways S cfg n) w e) = v"
    by (simp add: locked_def)
qed

interpretation halted_engine: machine "engine_step S cfg (real_gateways S cfg n)" "\<lambda>_. True"
    "\<lambda>w. lasting cfg w0 w" for S :: "'x services" and cfg n w0
proof unfold_locales
  fix w :: "'x venues world" and e :: "string \<times> order_request"
  assume "lasting cfg w0 w"
  moreover have "lasting cfg w (engine_step S cfg (real_gateways S cfg n) w e)"
    unfolding engine_step_def prod.case_eq_if by (rule lasting.execute_final_R [OF lasting_table])
  ultimately show "lasting cfg w0 (engine_step S cfg (real_gateways S cfg n) w e)" by (rule lasting.R_trans)
qed

interpretation simulated_engine: machine "engine_step S cfg (sim_gateways S cfg)" "\<lambda>_. True"
    "\<lambda>w. unsent w0 w" for S :: "'x services" and cfg w0
proof unfold_locales
  fix w :: "'x venues world" and e :: "string \<times> order_request"
  assume "unsent w0 w"
  moreover have "unsent w (engine_step S cfg (sim_gateways S cfg) w e)"
    unfolding engine_step_def prod.case_eq_if by (rule unsent.execute_final_R [OF unsent_table])
  ultimately show "unsent w0 (engine_step S cfg (sim_gateways S cfg) w e)" by (rule unsent.R_trans)
qed

section \<open>Properties\<close>

text \<open>A live configuration, an armed world, and services that fill every order.\<close>

definition live_config :: config where
  "live_config = default_config\<lparr>EXECUTION_MODE := ''live''\<rparr>"

definition empty_venues :: "nat venues" where
  "empty_venues = \<lparr>k_sent = [], p_sent = [], tick_cache = [], neg_cache = [], fee_cache = [], outside = 0\<rparr>"

definition armed_world :: "nat venues world" where
  "armed_world = (calm_world empty_venues)\<lparr>safe := fresh_safety\<lparr>arm_file := Some ARM_PHRASE\<rparr>\<rparr>"

definition filling_services :: "nat services" where
  "filling_services =
     \<lparr>api_key = Some ''key'', key_path = Some ''kalshi.pem'', key_exists = (\<lambda>_. True),
      pss_sign = (\<lambda>_ _. Some ''c2ln''),
      kalshi_http = (\<lambda>rq x. (Reply 200 [(''order'', JObj [(''order_id'', JStr ''k1''),
        (''status'', JStr ''executed''), (''count_filled'', JInt 3)])], x + 1)),
      sdk_client = (\<lambda>x. (None, x)), sdk_tick = (\<lambda>_ x. (Inr (JStr ''0.01''), x)),
      sdk_neg_risk = (\<lambda>_ x. (Inr (JBool False), x)),
      sdk_post = (\<lambda>po x. (Inr (JObj [(''orderID'', JStr ''p1''), (''size_matched'', JInt 3)]), x + 1)),
      sdk_get_order = (\<lambda>_ x. (Inr (JObj []), x)), sdk_cancel = (\<lambda>_ x. (Inr (JObj []), x)),
      sdk_trades = (\<lambda>_ x. (Inr (JList []), x)), sdk_balance = (\<lambda>x. (Inr (JObj []), x)),
      sdk_positions = (\<lambda>x. (Inr (JList []), x)),
      fee_http = (\<lambda>_ x. (Fee_reply 200 (JObj [(''fee_rate_bps'', JInt 0)]), x)),
      sha = (\<lambda>s. s), uuid = (\<lambda>x. (''0123456789abcdef0123'', x + 1))\<rparr>"

definition pm_buy :: order_request where
  "pm_buy = (order_request_of POLYMARKET ''buy'' 3 (fl (40 / 100)))\<lparr>rq_token_id := Some ''t1''\<rparr>"

text \<open>C1. Nothing real happens while the live-trading lock is off: whatever orders the engine executes
  through the real gateways, opening or risk-reducing, nothing is sent to either venue, no state
  behind the gateways changes, and the lock is still off afterwards.\<close>
theorem disarmed_engine_sends_nothing:
  assumes "\<not> is_armed cfg (safe w)"
  shows "net (run (engine_step S cfg (real_gateways S cfg n)) w orders) = net w \<and>
    \<not> is_armed cfg (safe (run (engine_step S cfg (real_gateways S cfg n)) w orders))"
  using unarmed_engine.run_inv [of cfg w "net w" orders S n] assms by (simp add: list_all_iff)

theorem disarmed_engine_sends_nothing_witness:
  "net (run (engine_step filling_services live_config (real_gateways filling_services live_config 5))
     (calm_world empty_venues) [(''a'', pm_buy), (''b'', unwind_order)]) = empty_venues"
proof -
  have "\<not> is_armed live_config (safe (calm_world empty_venues))" by code_simp
  from disarmed_engine_sends_nothing [OF this, of filling_services 5 "[(''a'', pm_buy), (''b'', unwind_order)]"]
  show ?thesis by (simp add: calm_world_def)
qed

text \<open>Paper trading is paper trading: with the simulated gateways no order request and no post ever
  leaves for either venue, whatever the orders, the configuration and the state of the gates.\<close>
theorem simulated_engine_sends_nothing:
  "posts (net (run (engine_step S cfg (sim_gateways S cfg)) w orders)) = posts (net w) \<and>
   p_sent (net (run (engine_step S cfg (sim_gateways S cfg)) w orders)) = p_sent (net w)"
  using simulated_engine.run_inv [of w w orders S cfg] by (simp add: list_all_iff unsent_def)

text \<open>Trading cannot switch itself back on: through any sequence of orders a halt stays in force, the
  lock stays as it was, and the record of what was sent is only ever extended.\<close>
theorem engine_never_resumes:
  assumes "w' = run (engine_step S cfg (real_gateways S cfg n)) w orders"
  shows "(halted cfg (safe w) \<longrightarrow> halted cfg (safe w')) \<and> is_armed cfg (safe w') = is_armed cfg (safe w) \<and>
    prefix (k_sent (net w)) (k_sent (net w')) \<and> prefix (p_sent (net w)) (p_sent (net w'))"
  using halted_engine.run_inv [of cfg w w orders S n] assms by (simp add: list_all_iff lasting_def)

theorem engine_never_resumes_witness:
  "halted live_config (safe (run (engine_step filling_services live_config (real_gateways filling_services live_config 5))
     (trip_world ''test'' armed_world) [(''a'', pm_buy)]))"
  using engine_never_resumes [OF refl, of live_config "trip_world ''test'' armed_world" filling_services 5 "[(''a'', pm_buy)]"]
  by simp

text \<open>C3. A call of the Kalshi gateway sends at most one order, and one that the request allows: a whole
  number of contracts, at least one and no more than requested, at 1 to 99 cents, with the
  request's market, side and action; it is sent only while the lock is armed and, when placement is
  halted, only if the request is risk-reducing. Nothing goes to Polymarket.\<close>
theorem kalshi_place_within_request:
  "one_order cfg (kalshi_order_ok cfg rq) (\<lambda>halt armed po. False) w (snd (kalshi_place S cfg n rq w))"
  by (rule kalshi_place_within_request_lemma)

text \<open>C4. A call of the Polymarket gateway posts at most one order, with the request's token and side: a
  marketable buy spends the dollars of size times limit price rounded to cents (a positive
  amount), any other order is in shares as requested; it is posted only while the lock is armed.
  Nothing goes to Kalshi.\<close>
theorem pm_place_within_request:
  assumes "POLYMARKET_ORDER_TYPE cfg \<noteq> []"
  shows "one_order cfg (\<lambda>halt armed q. False) (pm_order_ok cfg rq) w (snd (pm_place S cfg n rq w))"
proof (cases "is_armed cfg (safe w)")
  case True
  have "one_order cfg (\<lambda>halt armed q. False) (\<lambda>h a. pm_order_ok cfg rq h True) w (snd (pm_place S cfg n rq w))"
    using pm_place_one [OF pm_order_type_nonempty [OF assms], of "\<lambda>halt armed q. False" rq S n] by (simp add: keeps_def)
  then show ?thesis using True by (auto simp: one_order_def)
next
  case False
  then show ?thesis
    using pm_place_locked [of cfg w S n rq] by (auto simp: one_order_def no_orders_def same_gates_def)
qed

theorem pm_place_within_request_witness:
  "one_order live_config (\<lambda>halt armed q. False) (pm_order_ok live_config pm_buy) armed_world
     (snd (pm_place filling_services live_config 5 pm_buy armed_world)) \<and>
   length (p_sent (net (snd (pm_place filling_services live_config 5 pm_buy armed_world)))) = 1"
proof -
  have "POLYMARKET_ORDER_TYPE live_config \<noteq> []" by code_simp
  moreover have "length (p_sent (net (snd (pm_place filling_services live_config 5 pm_buy armed_world)))) = 1"
    by code_simp
  ultimately show ?thesis using pm_place_within_request by simp
qed

text \<open>Retries at Kalshi are recognisable as such: everything one execution posts to Kalshi is the one
  requested order under the one client order id fixed before the first attempt, at most
  \<open>EXECUTION_MAX_RETRIES + 1\<close> times, so that the exchange can drop the duplicates.\<close>
theorem kalshi_retries_share_one_id:
  assumes "execute (sha S) cfg (real_gateways S cfg n) k rq w = (out, rq', cs, w')" and "rq_venue rq = KALSHI"
    and "r0 = ensure_client_order_id (sha S) [k] rq"
  shows "\<exists>new. posts (net w') = posts (net w) @ new \<and> length new \<le> EXECUTION_MAX_RETRIES cfg + 1 \<and>
    (\<forall>q \<in> set new. \<exists>count cents ttl t. hq_body (fst q) =
       Some (order_body cfg (rq_ticker rq) (rq_outcome_side rq) (rq_action rq) count cents ttl (rq_client_order_id r0) t))"
proof (cases "halted cfg (safe w) \<and> \<not> rq_risk_reducing rq")
  case True
  then show ?thesis using assms(1) by (intro exI [of _ "[]"]) (simp add: execute_def)
next
  case False
  let ?place = "as_gateway (kalshi_place S cfg n)"
  have loop: "retry_loop cfg ?place (EXECUTION_MAX_RETRIES cfg + 1) 0 None r0 w = (out, rq', cs, w')"
    using assms False by (auto simp: execute_def real_gateways_def simp del: retry_loop.simps)
  have place: "one_order cfg (kalshi_order_ok cfg r0) (\<lambda>h a po. False) u (snd (?place r u))" if "same_order r0 r" for r u
    using kalshi_place_within_request_lemma [of cfg r "\<lambda>h a po. False" u S n] kalshi_order_ok_same [OF that, of cfg]
    by (simp add: as_gateway_def prod.case_eq_if split: sum.split)
  have ok: "\<exists>n cents ttl t. hq_body (fst q) = Some (order_body cfg (rq_ticker rq) (rq_outcome_side rq) (rq_action rq)
      n cents ttl (rq_client_order_id r0) t)" if "kalshi_order_ok cfg r0 h a q" for h a q
    using that has_id_ensure [of "sha S" "[k]" rq] unfolding kalshi_order_ok_def assms(3) ensure_fields by blast
  have "\<exists>new. posts (net w') = posts (net w) @ new \<and> length new \<le> EXECUTION_MAX_RETRIES cfg + 1 \<and>
      (\<forall>q \<in> set new. \<exists>h a. kalshi_order_ok cfg r0 h a q)"
    by (rule retry_loop_posts [OF _ loop same_order_refl]) (rule place)
  then obtain new where new: "posts (net w') = posts (net w) @ new" "length new \<le> EXECUTION_MAX_RETRIES cfg + 1"
    "\<And>q. q \<in> set new \<Longrightarrow> \<exists>h a. kalshi_order_ok cfg r0 h a q" by blast
  show ?thesis
  proof (intro exI [of _ new] conjI ballI)
    fix q assume "q \<in> set new"
    from new(3) [OF this] obtain h a where "kalshi_order_ok cfg r0 h a q" by blast
    then show "\<exists>count cents ttl t. hq_body (fst q) = Some (order_body cfg (rq_ticker rq) (rq_outcome_side rq)
        (rq_action rq) count cents ttl (rq_client_order_id r0) t)" by (rule ok)
  qed (use new in simp_all)
qed


definition kalshi_buy :: order_request where
  "kalshi_buy = (order_request_of KALSHI ''buy'' 3 (fl (40 / 100)))\<lparr>rq_ticker := Some ''KX''\<rparr>"

theorem kalshi_retries_share_one_id_witness:
  "length (posts (net (snd (snd (snd (execute (sha filling_services) live_config
     (real_gateways filling_services live_config 5) ''k'' kalshi_buy armed_world)))))) \<le> 3"
proof -
  let ?e = "execute (sha filling_services) live_config (real_gateways filling_services live_config 5) ''k'' kalshi_buy armed_world"
  have "?e = (fst ?e, fst (snd ?e), fst (snd (snd ?e)), snd (snd (snd ?e)))" by simp
  moreover have v: "rq_venue kalshi_buy = KALSHI" and w: "posts (net armed_world) = []"
    and r: "EXECUTION_MAX_RETRIES live_config = 2" by code_simp+
  ultimately obtain new where "posts (net (snd (snd (snd ?e)))) = posts (net armed_world) @ new"
    "length new \<le> EXECUTION_MAX_RETRIES live_config + 1"
    using kalshi_retries_share_one_id [OF _ v refl] by blast
  then show ?thesis using w r by simp
qed

text \<open>C5. No blind retry at Polymarket: when posts end in errors that leave open whether the order landed,
  one execution posts the order at most once, provided the replies the gateway reads afterwards
  have their documented shapes.\<close>
theorem ambiguous_post_never_repeated:
  assumes "execute (sha S) cfg (real_gateways S cfg n) k rq w = (out, rq', cs, w')" and "rq_venue rq = POLYMARKET"
    and "POLYMARKET_ORDER_TYPE cfg \<noteq> []" and "posts_time_out S" and "well_formed_replies S"
  shows "length (p_sent (net w')) \<le> length (p_sent (net w)) + 1"
proof (cases "halted cfg (safe w) \<and> \<not> rq_risk_reducing rq")
  case False
  let ?place = "as_gateway (pm_place S cfg n)"
  have loop: "retry_loop cfg ?place (EXECUTION_MAX_RETRIES cfg + 1) 0 None (ensure_client_order_id (sha S) [k] rq) w =
      (out, rq', cs, w')"
    using assms(1,2) False by (auto simp: execute_def real_gateways_def simp del: retry_loop.simps)
  have place: "length (p_sent (net u')) \<le> length (p_sent (net u)) + 1 \<and>
      (p_sent (net u') = p_sent (net u) \<or> (\<exists>out. res = Returned out \<and> final out))"
    if call: "?place r u = (res, u')" for r u res u'
  proof -
    obtain x where x: "pm_place S cfg n r u = (x, u')"
      and res: "res = (case x of Inl msg \<Rightarrow> Raised msg | Inr out \<Rightarrow> Returned out)"
      using call by (cases "pm_place S cfg n r u"; cases "fst (pm_place S cfg n r u)") (auto simp: as_gateway_def)
    have "one_order cfg (\<lambda>h a q. False) (\<lambda>h a. pm_order_ok cfg r h True) u u'"
      using keepsD [OF pm_place_one [OF pm_order_type_nonempty [OF assms(3)]] x] .
    then have "length (p_sent (net u')) \<le> length (p_sent (net u)) + 1"
      by (auto simp: one_order_def no_orders_def)
    moreover have "p_sent (net u') = p_sent (net u) \<or> (\<exists>out. x = Inr out \<and> final out)"
      using pm_place_settles [OF assms(5,4), of cfg n r] x unfolding settles_def by blast
    ultimately show ?thesis using res by auto
  qed
  show ?thesis by (rule retry_loop_posts_once [OF _ _ loop]) (use place in blast)+
qed (use assms(1) in \<open>simp add: execute_def\<close>)

definition timing_out_services :: "nat services" where
  "timing_out_services = filling_services\<lparr>sdk_post := (\<lambda>po x. (Inl ''Read timed out'', x))\<rparr>"

theorem ambiguous_post_never_repeated_witness:
  "length (p_sent (net (snd (snd (snd (execute (sha timing_out_services) live_config
     (real_gateways timing_out_services live_config 5) ''k'' pm_buy armed_world)))))) \<le> 1"
proof -
  let ?e = "execute (sha timing_out_services) live_config (real_gateways timing_out_services live_config 5) ''k'' pm_buy armed_world"
  have "?e = (fst ?e, fst (snd ?e), fst (snd (snd ?e)), snd (snd (snd ?e)))" by simp
  moreover have "is_ambiguous_error ''Read timed out''" "rq_venue pm_buy = POLYMARKET"
    "POLYMARKET_ORDER_TYPE live_config \<noteq> []" "p_sent (net armed_world) = []"
    by code_simp+
  moreover from this(1) have "posts_time_out timing_out_services" "well_formed_replies timing_out_services"
    by (simp_all add: posts_time_out_def well_formed_replies_def timing_out_services_def filling_services_def)
  ultimately show ?thesis
    using ambiguous_post_never_repeated [of timing_out_services live_config 5 "''k''" pm_buy armed_world] by (metis add_0 list.size(3))
qed

text \<open>A duplicate order: an exception raised after a successful post is retried like any other. If the
  fee endpoint answers with JSON that is not an object, an order the venue filled at once is
  posted a second and a third time, three real orders for one request, and the caller is told
  that nothing was filled.\<close>
theorem fee_error_after_fill_duplicates_order:
  "case execute (sha filling_services) live_config
      (real_gateways (filling_services\<lparr>fee_http := (\<lambda>tok x. (Fee_reply 200 (JList []), x))\<rparr>) live_config 5)
      ''k'' pm_buy armed_world
   of (out, rq', cs, w') \<Rightarrow>
     map po_size (p_sent (net w')) = replicate 3 (py_round (fmul 3 (fl (40 / 100))) 2) \<and>
     oc_status out = FAILED \<and> oc_filled_size out = 0 \<and> oc_error out = Some ''AttributeError''"
  by code_simp

end
