(* ===== verification/ConfirmedPnL.thy ===== *)
theory ConfirmedPnL
  imports PyBase Machines "HOL-Library.Multiset"
begin

text \<open>
  The confirmed-PnL ledger of \<open>confirmed_pnl.py\<close>: executions of two legs with their fills, when
  each leg was confirmed and the execution settled, and the summary that counts only what is
  confirmed and settled. Prices, sizes and fees are floats as the callers pass them; the data of
  the trade tape is untyped. Fresh identifiers (\<open>uuid4\<close>) and clock readings are arguments, used
  only where the caller gave none. The tape is oldest first and keeps the last \<open>max_tape\<close> events.
\<close>

definition safe_float :: "json \<Rightarrow> rat \<Rightarrow> rat" where
  "safe_float v d = (case py_float v of Inl e \<Rightarrow> d | Inr x \<Rightarrow> x)"

record fill_record =
  fr_fill_id :: string
  fr_order_id :: "string option"
  fr_trade_id :: "string option"
  fr_platform :: string
  fr_market_id :: "string option"
  fr_token_id :: "string option"
  fr_price :: rat
  fr_size :: rat
  fr_fee :: rat
  fr_timestamp :: rat
  fr_source :: string

definition fr_notional :: "fill_record \<Rightarrow> rat" where
  "fr_notional f = fmul (max (fr_price f) 0) (max (fr_size f) 0)"

record execution =
  ex_id :: string
  ex_opportunity_id :: string
  ex_buy_platform :: string
  ex_sell_platform :: string
  ex_created_at :: rat
  ex_metadata :: obj
  ex_buy_fills :: "fill_record list"
  ex_sell_fills :: "fill_record list"
  ex_buy_confirmed_at :: "rat option"
  ex_sell_confirmed_at :: "rat option"
  ex_settlement_id :: "string option"
  ex_settled_at :: "rat option"

section \<open>One execution\<close>

definition total_size :: "fill_record list \<Rightarrow> rat" where
  "total_size fs = fsum (map (\<lambda>f. max (fr_size f) 0) fs)"

definition total_notional :: "fill_record list \<Rightarrow> rat" where
  "total_notional fs = fsum (map fr_notional fs)"

definition total_fees :: "fill_record list \<Rightarrow> rat" where
  "total_fees fs = fsum (map (\<lambda>f. max (fr_fee f) 0) fs)"

definition matched_size :: "execution \<Rightarrow> rat" where
  "matched_size e = min (total_size (ex_buy_fills e)) (total_size (ex_sell_fills e))"

definition has_confirmed_legs :: "execution \<Rightarrow> bool" where
  "has_confirmed_legs e \<longleftrightarrow> ex_buy_confirmed_at e \<noteq> None \<and> ex_sell_confirmed_at e \<noteq> None"

definition is_settled :: "execution \<Rightarrow> bool" where
  "is_settled e \<longleftrightarrow> ex_settled_at e \<noteq> None"

definition has_simulation_source :: "execution \<Rightarrow> bool" where
  "has_simulation_source e \<longleftrightarrow>
     list_ex (\<lambda>f. lower (fr_source f) = ''simulation'') (ex_buy_fills e @ ex_sell_fills e)"

definition strategy_type :: "execution \<Rightarrow> string" where
  "strategy_type e = py_str (py_or (get (ex_metadata e) ''strategy_type'') (JStr ''same_outcome''))"

definition realized_pnl :: "execution \<Rightarrow> rat" where
  "realized_pnl e =
     (let matched = matched_size e;
          buy_size = total_size (ex_buy_fills e); sell_size = total_size (ex_sell_fills e)
      in if matched \<le> 0 then 0
      else if buy_size \<le> 0 \<or> sell_size \<le> 0 then 0
      else
        let buy_notional = fmul (total_notional (ex_buy_fills e)) (fdiv matched buy_size);
            sell_notional = fmul (total_notional (ex_sell_fills e)) (fdiv matched sell_size);
            buy_fees = fmul (total_fees (ex_buy_fills e)) (fdiv matched buy_size);
            sell_fees = fmul (total_fees (ex_sell_fills e)) (fdiv matched sell_size)
        in if strategy_type e = ''complementary''
           then fsub (fsub (fsub (fsub (fmul matched 1) buy_notional) sell_notional) buy_fees) sell_fees
           else fsub (fsub (fsub sell_notional buy_notional) buy_fees) sell_fees)"

section \<open>The tracker\<close>

record tape_event =
  te_platform :: string
  te_market_id :: string
  te_data :: obj
  te_timestamp :: rat

record tracker =
  allow_simulated_confirmed :: bool
  executions :: "(string \<times> execution) list"
  fill_ids :: "string list"
  trade_tape :: "tape_event list"
  max_tape :: nat

definition new_tracker :: "bool \<Rightarrow> nat \<Rightarrow> tracker" where
  "new_tracker allow n =
     \<lparr>allow_simulated_confirmed = allow, executions = [], fill_ids = [], trade_tape = [], max_tape = n\<rparr>"

definition or_else :: "string option \<Rightarrow> string \<Rightarrow> string" where
  "or_else v d = (case v of Some s \<Rightarrow> if s = [] then d else s | None \<Rightarrow> d)"

definition put_execution :: "string \<Rightarrow> execution \<Rightarrow> tracker \<Rightarrow> tracker" where
  "put_execution k e tr = tr\<lparr>executions := AList.update k e (executions tr)\<rparr>"

definition merge_meta :: "obj \<Rightarrow> obj \<Rightarrow> obj" where
  "merge_meta new old = fold (\<lambda>(k, v) m. AList.update k v m) new old"

definition register_execution ::
    "string \<Rightarrow> string \<Rightarrow> string \<Rightarrow> string option \<Rightarrow> obj \<Rightarrow> rat option \<Rightarrow> string \<Rightarrow> rat \<Rightarrow> tracker \<Rightarrow>
     string \<times> tracker" where
  "register_execution opp buy sell exid metadata created uuid_hex t tr =
     (let k = or_else exid (''exec-'' @ uuid_hex) in
      case map_of (executions tr) k of
        Some e \<Rightarrow>
          (k, if metadata = [] then tr
              else put_execution k (e\<lparr>ex_metadata := merge_meta metadata (ex_metadata e)\<rparr>) tr)
      | None \<Rightarrow>
          (k, put_execution k
             \<lparr>ex_id = k, ex_opportunity_id = opp, ex_buy_platform = buy, ex_sell_platform = sell,
              ex_created_at = (case created of Some c \<Rightarrow> c | None \<Rightarrow> t), ex_metadata = metadata,
              ex_buy_fills = [], ex_sell_fills = [], ex_buy_confirmed_at = None,
              ex_sell_confirmed_at = None, ex_settlement_id = None, ex_settled_at = None\<rparr> tr))"

definition mark_leg_confirmed ::
    "string \<Rightarrow> string \<Rightarrow> rat option \<Rightarrow> rat \<Rightarrow> tracker \<Rightarrow> pyexn + tracker" where
  "mark_leg_confirmed k leg stamp t tr =
     (case map_of (executions tr) k of
        None \<Rightarrow> Inl KeyError
      | Some e \<Rightarrow>
          let ts = (case stamp of Some x \<Rightarrow> x | None \<Rightarrow> t) in
          if leg = ''buy'' then Inr (put_execution k (e\<lparr>ex_buy_confirmed_at := Some ts\<rparr>) tr)
          else if leg = ''sell'' then Inr (put_execution k (e\<lparr>ex_sell_confirmed_at := Some ts\<rparr>) tr)
          else Inl ValueError)"

text \<open>The fields of a fill a caller gives; \<open>record_fill\<close> makes a record of them.\<close>

record new_fill =
  nf_leg :: string
  nf_fill_id :: "string option"
  nf_platform :: string
  nf_price :: rat
  nf_size :: rat
  nf_fee :: rat
  nf_order_id :: "string option"
  nf_trade_id :: "string option"
  nf_market_id :: "string option"
  nf_token_id :: "string option"
  nf_timestamp :: "rat option"
  nf_source :: string

definition fill_record_of :: "new_fill \<Rightarrow> string \<Rightarrow> rat \<Rightarrow> fill_record" where
  "fill_record_of nf fid t =
     \<lparr>fr_fill_id = fid, fr_order_id = nf_order_id nf, fr_trade_id = nf_trade_id nf,
      fr_platform = nf_platform nf, fr_market_id = nf_market_id nf, fr_token_id = nf_token_id nf,
      fr_price = max (nf_price nf) 0, fr_size = max (nf_size nf) 0, fr_fee = max (nf_fee nf) 0,
      fr_timestamp = (case nf_timestamp nf of Some x \<Rightarrow> x | None \<Rightarrow> t), fr_source = nf_source nf\<rparr>"

definition record_fill ::
    "string \<Rightarrow> new_fill \<Rightarrow> bool \<Rightarrow> string \<Rightarrow> rat \<Rightarrow> tracker \<Rightarrow> pyexn + bool \<times> tracker" where
  "record_fill k nf auto_confirm uuid_hex t tr =
     (case map_of (executions tr) k of
        None \<Rightarrow> Inl KeyError
      | Some e \<Rightarrow>
          if nf_leg nf \<noteq> ''buy'' \<and> nf_leg nf \<noteq> ''sell'' then Inl ValueError
          else if max (nf_size nf) 0 \<le> 0 then Inr (False, tr)
          else
            let fid = or_else (nf_fill_id nf) (''fill-'' @ uuid_hex) in
            if fid \<in> set (fill_ids tr) then Inr (False, tr)
            else
              let f = fill_record_of nf fid t;
                  e' = (if nf_leg nf = ''buy'' then e\<lparr>ex_buy_fills := ex_buy_fills e @ [f]\<rparr>
                        else e\<lparr>ex_sell_fills := ex_sell_fills e @ [f]\<rparr>);
                  tr' = (put_execution k e' tr)\<lparr>fill_ids := fid # fill_ids tr\<rparr>
              in if auto_confirm
                 then (case mark_leg_confirmed k (nf_leg nf) (Some (fr_timestamp f)) t tr' of
                         Inl x \<Rightarrow> Inl x | Inr tr'' \<Rightarrow> Inr (True, tr''))
                 else Inr (True, tr'))"

definition mark_settled ::
    "string \<Rightarrow> string option \<Rightarrow> rat option \<Rightarrow> bool \<Rightarrow> string \<Rightarrow> rat \<Rightarrow> tracker \<Rightarrow> pyexn + bool \<times> tracker" where
  "mark_settled k settlement stamp require_confirmed uuid_hex t tr =
     (case map_of (executions tr) k of
        None \<Rightarrow> Inl KeyError
      | Some e \<Rightarrow>
          if require_confirmed \<and> \<not> has_confirmed_legs e then Inr (False, tr)
          else
            let sid = or_else settlement (or_else (ex_settlement_id e) (''settle-'' @ uuid_hex));
                ts = (case stamp of Some x \<Rightarrow> x | None \<Rightarrow> t)
            in Inr (True, put_execution k (e\<lparr>ex_settlement_id := Some sid, ex_settled_at := Some ts\<rparr>) tr))"

text \<open>\<open>record_execution_receipt\<close>, with its arguments as a record.\<close>

record receipt =
  rc_opportunity_id :: string
  rc_execution_id :: "string option"
  rc_buy :: new_fill
  rc_sell :: new_fill
  rc_settlement_id :: "string option"
  rc_metadata :: obj
  rc_strategy_type :: "string option"
  rc_mark_confirmed :: bool
  rc_mark_settled :: bool
  rc_timestamp :: "rat option"

text \<open>The two legs of a receipt: their names, and the receipt's time.\<close>

definition receipt_leg :: "receipt \<Rightarrow> string \<Rightarrow> new_fill" where
  "receipt_leg rc leg =
     (if leg = ''buy'' then rc_buy rc else rc_sell rc)\<lparr>nf_leg := leg, nf_timestamp := rc_timestamp rc\<rparr>"

definition set_default :: "string \<Rightarrow> json \<Rightarrow> obj \<Rightarrow> obj" where
  "set_default k v ob = (if map_of ob k \<noteq> None then ob else ob @ [(k, v)])"

definition confirm_both :: "string \<Rightarrow> rat option \<Rightarrow> rat \<Rightarrow> tracker \<Rightarrow> pyexn + tracker" where
  "confirm_both k stamp t tr =
     (case mark_leg_confirmed k ''buy'' stamp t tr of Inl e \<Rightarrow> Inl e
      | Inr tr1 \<Rightarrow> mark_leg_confirmed k ''sell'' stamp t tr1)"

definition record_execution_receipt ::
    "receipt \<Rightarrow> (nat \<Rightarrow> string) \<Rightarrow> rat \<Rightarrow> tracker \<Rightarrow> pyexn + string \<times> tracker" where
  "record_execution_receipt rc ids t tr =
     (let metadata = (case rc_strategy_type rc of
            Some s \<Rightarrow> if s = [] then rc_metadata rc else set_default ''strategy_type'' (JStr s) (rc_metadata rc)
          | None \<Rightarrow> rc_metadata rc);
          (k, tr1) = register_execution (rc_opportunity_id rc) (nf_platform (rc_buy rc))
            (nf_platform (rc_sell rc)) (rc_execution_id rc) metadata (rc_timestamp rc) (ids 0) t tr
      in case record_fill k (receipt_leg rc ''buy'') (rc_mark_confirmed rc) (ids 1) t tr1 of
        Inl e \<Rightarrow> Inl e
      | Inr (_, tr2) \<Rightarrow>
          case record_fill k (receipt_leg rc ''sell'') (rc_mark_confirmed rc) (ids 2) t tr2 of
            Inl e \<Rightarrow> Inl e
          | Inr (_, tr3) \<Rightarrow>
              case (if rc_mark_confirmed rc then confirm_both k (rc_timestamp rc) t tr3 else Inr tr3) of
                Inl e \<Rightarrow> Inl e
              | Inr tr4 \<Rightarrow>
                  if rc_mark_settled rc
                  then (case mark_settled k (rc_settlement_id rc) (rc_timestamp rc) (rc_mark_confirmed rc) (ids 3) t tr4 of
                          Inl e \<Rightarrow> Inl e | Inr (_, tr5) \<Rightarrow> Inr (k, tr5))
                  else Inr (k, tr4))"

definition ingest_trade_tape_event ::
    "string \<Rightarrow> string \<Rightarrow> obj \<Rightarrow> rat option \<Rightarrow> rat \<Rightarrow> tracker \<Rightarrow> tracker" where
  "ingest_trade_tape_event platform market data stamp t tr =
     (let tape = trade_tape tr @ [\<lparr>te_platform = platform, te_market_id = market, te_data = data,
                    te_timestamp = (case stamp of Some x \<Rightarrow> x | None \<Rightarrow> t)\<rparr>]
      in tr\<lparr>trade_tape := drop (length tape - max_tape tr) tape\<rparr>)"

text \<open>The search of \<open>reconcile_leg_from_trade_tape\<close>, newest event first: the timestamp of the first
  event that matches, unless an event too old comes before it.\<close>

definition event_matches ::
    "string \<Rightarrow> string option \<Rightarrow> rat \<Rightarrow> rat \<Rightarrow> rat \<Rightarrow> rat \<Rightarrow> tape_event \<Rightarrow> bool" where
  "event_matches platform market expected_price expected_size price_tol size_tol ev =
     (if te_platform ev \<noteq> platform then False
      else if or_else market [] \<noteq> [] \<and> te_market_id ev \<noteq> or_else market [] then False
      else
        let price = safe_float (get (te_data ev) ''price'') 0;
            sz = safe_float (get_or (get_or (JNum 0) (te_data ev) ''size'') (te_data ev) ''count'') 0
        in if price \<le> 0 \<or> sz \<le> 0 then False
           else if \<bar>fsub price expected_price\<bar> > price_tol then False
           else fdiv \<bar>fsub sz expected_size\<bar> (max expected_size 1) \<le> size_tol)"

fun search_tape :: "(tape_event \<Rightarrow> bool) \<Rightarrow> rat \<Rightarrow> rat \<Rightarrow> tape_event list \<Rightarrow> rat option" where
  "search_tape ok max_age t [] = None"
| "search_tape ok max_age t (ev # evs) =
     (if fsub t (te_timestamp ev) > max_age then None
      else if ok ev then Some (te_timestamp ev)
      else search_tape ok max_age t evs)"

definition reconcile_leg_from_trade_tape ::
    "string \<Rightarrow> string \<Rightarrow> string \<Rightarrow> string option \<Rightarrow> rat \<Rightarrow> rat \<Rightarrow> rat \<Rightarrow> rat \<Rightarrow> tracker \<Rightarrow>
     pyexn + bool \<times> tracker" where
  "reconcile_leg_from_trade_tape k leg platform market max_age price_tol size_tol t tr =
     (case map_of (executions tr) k of
        None \<Rightarrow> Inr (False, tr)
      | Some e \<Rightarrow>
          let fs = (if leg = ''buy'' then ex_buy_fills e else ex_sell_fills e) in
          if fs = [] then Inr (False, tr)
          else
            let expected_size = fsum (map fr_size fs);
                expected_price = fdiv (fsum (map (\<lambda>f. fmul (fr_price f) (fr_size f)) fs))
                  (max expected_size (fl (1 / 1000000000)))
            in case search_tape (event_matches platform market expected_price expected_size price_tol size_tol)
                      max_age t (rev (trade_tape tr)) of
                 None \<Rightarrow> Inr (False, tr)
               | Some ts \<Rightarrow>
                   (case mark_leg_confirmed k leg (Some ts) t tr of
                      Inl x \<Rightarrow> Inl x | Inr tr' \<Rightarrow> Inr (True, tr')))"

section \<open>The summary\<close>

definition is_counted :: "tracker \<Rightarrow> rat option \<Rightarrow> execution \<Rightarrow> bool" where
  "is_counted tr since e =
     (if \<not> is_settled e \<or> \<not> has_confirmed_legs e then False
      else if (case since of None \<Rightarrow> False | Some s \<Rightarrow>
                 (case ex_settled_at e of Some x \<Rightarrow> x | None \<Rightarrow> 0) < s) then False
      else if \<not> allow_simulated_confirmed tr \<and> has_simulation_source e then False
      else True)"

definition is_locked :: "tracker \<Rightarrow> execution \<Rightarrow> bool" where
  "is_locked tr e =
     (if is_settled e \<or> \<not> has_confirmed_legs e then False
      else if \<not> allow_simulated_confirmed tr \<and> has_simulation_source e then False
      else True)"

record pnl_summary =
  sm_realized :: rat
  sm_per_hour :: rat
  sm_per_day :: rat
  sm_profitable :: nat
  sm_settled :: nat
  sm_pending :: nat
  sm_locked_pnl :: rat
  sm_locked :: nat
  sm_cumulative :: rat
  sm_cumulative_settled :: nat
  sm_simulated :: bool

definition summarize :: "rat \<Rightarrow> rat option \<Rightarrow> tracker \<Rightarrow> pnl_summary" where
  "summarize scan_interval since tr =
     (let interval = max scan_interval 1;
          scans_per_hour = fdiv 3600 interval;
          es = map snd (executions tr);
          window = filter (is_counted tr since) es;
          counted = filter (is_counted tr None) es;
          locked = filter (is_locked tr) es;
          realized = fsum (map realized_pnl window)
      in \<lparr>sm_realized = realized, sm_per_hour = fmul realized scans_per_hour,
          sm_per_day = fmul (fmul realized scans_per_hour) 24,
          sm_profitable = length (filter (\<lambda>e. realized_pnl e > 0) window),
          sm_settled = length window,
          sm_pending = length (filter (\<lambda>e. \<not> is_settled e) es),
          sm_locked_pnl = fsum (map realized_pnl locked), sm_locked = length locked,
          sm_cumulative = fsum (map realized_pnl counted), sm_cumulative_settled = length counted,
          sm_simulated = allow_simulated_confirmed tr\<rparr>)"

section \<open>The ledger as a state machine\<close>

datatype ledger_event =
    Register string string string "string option" obj "rat option" string rat
  | Record_fill string new_fill bool string rat
  | Confirm string string "rat option" rat
  | Settle string "string option" "rat option" bool string rat
  | Receipt receipt "nat \<Rightarrow> string" rat
  | Tape string string obj "rat option" rat
  | Match_tape string string string "string option" rat rat rat rat

text \<open>A call that raises leaves the tracker as it was (\<open>receipt_total\<close> below: a receipt never raises).\<close>

fun ledger_step :: "tracker \<Rightarrow> ledger_event \<Rightarrow> tracker" where
  "ledger_step tr (Register opp buy sell k md c u t) = snd (register_execution opp buy sell k md c u t tr)"
| "ledger_step tr (Record_fill k nf auto u t) =
     (case record_fill k nf auto u t tr of Inl e \<Rightarrow> tr | Inr (_, tr') \<Rightarrow> tr')"
| "ledger_step tr (Confirm k leg c t) = (case mark_leg_confirmed k leg c t tr of Inl e \<Rightarrow> tr | Inr tr' \<Rightarrow> tr')"
| "ledger_step tr (Settle k sid c req u t) =
     (case mark_settled k sid c req u t tr of Inl e \<Rightarrow> tr | Inr (_, tr') \<Rightarrow> tr')"
| "ledger_step tr (Receipt rc ids t) =
     (case record_execution_receipt rc ids t tr of Inl e \<Rightarrow> tr | Inr (_, tr') \<Rightarrow> tr')"
| "ledger_step tr (Tape p m d c t) = ingest_trade_tape_event p m d c t tr"
| "ledger_step tr (Match_tape k leg p m age pt st t) =
     (case reconcile_leg_from_trade_tape k leg p m age pt st t tr of Inl e \<Rightarrow> tr | Inr (_, tr') \<Rightarrow> tr')"

definition fills_of :: "execution \<Rightarrow> fill_record list" where
  "fills_of e = ex_buy_fills e @ ex_sell_fills e"

definition all_fills :: "tracker \<Rightarrow> fill_record list" where
  "all_fills tr = concat (map (\<lambda>ke. fills_of (snd ke)) (executions tr))"

definition fill_ok :: "fill_record \<Rightarrow> bool" where
  "fill_ok f \<longleftrightarrow> 0 < fr_size f \<and> 0 \<le> fr_price f \<and> 0 \<le> fr_fee f"

definition execution_ok :: "string \<Rightarrow> execution \<Rightarrow> bool" where
  "execution_ok k e \<longleftrightarrow> ex_id e = k \<and> list_all fill_ok (fills_of e) \<and>
     (is_settled e \<longrightarrow> ex_settlement_id e \<noteq> None)"

definition ledger_inv :: "tracker \<Rightarrow> bool" where
  "ledger_inv tr \<longleftrightarrow>
     distinct (map fst (executions tr)) \<and>
     (\<forall>(k, e) \<in> set (executions tr). execution_ok k e) \<and>
     distinct (fill_ids tr) \<and>
     mset (map fr_fill_id (all_fills tr)) = mset (fill_ids tr) \<and>
     length (trade_tape tr) \<le> max_tape tr"

text \<open>How the fills change when one execution is replaced.\<close>

lemma mset_update:
  "map_of al k = Some e \<Longrightarrow>
   mset (concat (map (\<lambda>ke. g (snd ke)) (AList.update k e' al))) + mset (g e) =
   mset (concat (map (\<lambda>ke. g (snd ke)) al)) + mset (g e')"
  by (induction al) (auto split: if_splits simp: ac_simps)

lemma concat_update_new:
  "map_of al k = None \<Longrightarrow>
   concat (map (\<lambda>ke. g (snd ke)) (AList.update k e' al)) = concat (map (\<lambda>ke. g (snd ke)) al) @ g e'"
  by (induction al) (auto split: if_splits)

lemma all_fills_put:
  assumes "map_of (executions tr) k = Some e"
  shows "mset (map fr_fill_id (all_fills (put_execution k e' tr))) + mset (map fr_fill_id (fills_of e)) =
    mset (map fr_fill_id (all_fills tr)) + mset (map fr_fill_id (fills_of e'))"
proof -
  have "mset (all_fills (put_execution k e' tr)) + mset (fills_of e) = mset (all_fills tr) + mset (fills_of e')"
    unfolding all_fills_def put_execution_def using mset_update [OF assms, of fills_of e'] by simp
  then have "image_mset fr_fill_id (mset (all_fills (put_execution k e' tr)) + mset (fills_of e)) =
      image_mset fr_fill_id (mset (all_fills tr) + mset (fills_of e'))" by simp
  then show ?thesis by simp
qed

lemma set_update: "(k', x) \<in> set (AList.update k e al) \<Longrightarrow> (k', x) = (k, e) \<or> (k', x) \<in> set al"
  by (induction al) (auto split: if_splits)

lemma ledger_inv_ok: "ledger_inv tr \<Longrightarrow> map_of (executions tr) k = Some e \<Longrightarrow> execution_ok k e"
  unfolding ledger_inv_def by (blast dest: map_of_SomeD)

text \<open>Replacing an execution by one with the same fills keeps the invariant.\<close>

lemma ledger_inv_put:
  assumes "ledger_inv tr" and "map_of (executions tr) k = Some e" and "fills_of e' = fills_of e" and "execution_ok k e'"
  shows "ledger_inv (put_execution k e' tr)"
proof -
  have "mset (map fr_fill_id (all_fills (put_execution k e' tr))) = mset (map fr_fill_id (all_fills tr))"
    using all_fills_put [OF assms(2), of e'] assms(3) by simp
  then show ?thesis
    using assms(1,4) unfolding ledger_inv_def
    by (auto simp: put_execution_def distinct_update dest!: set_update)
qed

lemma ledger_inv_new:
  assumes "ledger_inv tr" and "map_of (executions tr) k = None" and "fills_of e = []" and "execution_ok k e"
  shows "ledger_inv (put_execution k e tr)"
proof -
  have "all_fills (put_execution k e tr) = all_fills tr"
    using concat_update_new [OF assms(2), of fills_of e] assms(3) by (simp add: all_fills_def put_execution_def)
  then show ?thesis
    using assms(1,4) unfolding ledger_inv_def
    by (auto simp: put_execution_def distinct_update dest!: set_update)
qed

lemma inv_register:
  assumes "ledger_inv tr" shows "ledger_inv (snd (register_execution opp buy sell k md c u t tr))"
proof (cases "map_of (executions tr) (or_else k (''exec-'' @ u))")
  case None
  then show ?thesis
    using assms by (simp add: register_execution_def Let_def)
      (rule ledger_inv_new; simp add: fills_of_def execution_ok_def is_settled_def)
next
  case (Some e)
  then show ?thesis
    using assms ledger_inv_ok [OF assms Some]
    by (auto simp: register_execution_def Let_def fills_of_def execution_ok_def is_settled_def intro!: ledger_inv_put)
qed

lemma inv_confirm: "ledger_inv tr \<Longrightarrow> mark_leg_confirmed k leg c t tr = Inr tr' \<Longrightarrow> ledger_inv tr'"
  by (auto simp: mark_leg_confirmed_def Let_def fills_of_def execution_ok_def is_settled_def
      split: option.splits if_splits intro!: ledger_inv_put dest: ledger_inv_ok)

lemma inv_settle: "ledger_inv tr \<Longrightarrow> mark_settled k sid c req u t tr = Inr (b, tr') \<Longrightarrow> ledger_inv tr'"
  by (auto simp: mark_settled_def Let_def fills_of_def execution_ok_def
      split: option.splits if_splits intro!: ledger_inv_put dest: ledger_inv_ok)

lemma inv_tape: "ledger_inv tr \<Longrightarrow> ledger_inv (ingest_trade_tape_event p m d c t tr)"
  by (auto simp: ingest_trade_tape_event_def Let_def ledger_inv_def all_fills_def)

lemma inv_match: "ledger_inv tr \<Longrightarrow> reconcile_leg_from_trade_tape k leg p m age pt st t tr = Inr (b, tr') \<Longrightarrow> ledger_inv tr'"
  by (auto simp: reconcile_leg_from_trade_tape_def Let_def split: option.splits if_splits sum.splits dest: inv_confirm)

text \<open>Recording a fill: refused without a change, or one new fill under a new id.\<close>

lemma record_fill_cases:
  assumes "record_fill k nf auto u t tr = Inr (b, tr')"
  shows "\<not> b \<and> tr' = tr \<or>
    b \<and> (\<exists>e e' fid. map_of (executions tr) k = Some e \<and> fid \<notin> set (fill_ids tr) \<and> 0 < nf_size nf \<and>
      tr' = (put_execution k e' tr)\<lparr>fill_ids := fid # fill_ids tr\<rparr> \<and>
      mset (fills_of e') = add_mset (fill_record_of nf fid t) (mset (fills_of e)) \<and>
      ex_id e' = ex_id e \<and> ex_settled_at e' = ex_settled_at e \<and> ex_settlement_id e' = ex_settlement_id e)"
proof (cases "b")
  case True
  obtain e where e: "map_of (executions tr) k = Some e"
    using assms by (auto simp: record_fill_def split: option.splits)
  let ?fid = "or_else (nf_fill_id nf) (''fill-'' @ u)"
  let ?f = "fill_record_of nf ?fid t"
  let ?e1 = "if nf_leg nf = ''buy'' then e\<lparr>ex_buy_fills := ex_buy_fills e @ [?f]\<rparr>
    else e\<lparr>ex_sell_fills := ex_sell_fills e @ [?f]\<rparr>"
  let ?e' = "if \<not> auto then ?e1 else if nf_leg nf = ''buy'' then ?e1\<lparr>ex_buy_confirmed_at := Some (fr_timestamp ?f)\<rparr>
    else ?e1\<lparr>ex_sell_confirmed_at := Some (fr_timestamp ?f)\<rparr>"
  have "?fid \<notin> set (fill_ids tr)" "0 < nf_size nf"
    "tr' = (put_execution k ?e' tr)\<lparr>fill_ids := ?fid # fill_ids tr\<rparr>"
    using assms True e
    by (auto simp: record_fill_def mark_leg_confirmed_def put_execution_def Let_def max_def map_of_update split: if_splits)
  moreover have "mset (fills_of ?e') = add_mset ?f (mset (fills_of e))" by (simp add: fills_of_def)
  moreover have "ex_id ?e' = ex_id e" "ex_settled_at ?e' = ex_settled_at e" "ex_settlement_id ?e' = ex_settlement_id e"
    by simp_all
  ultimately show ?thesis using True e by blast
next
  case False
  then show ?thesis
    using assms by (auto simp: record_fill_def Let_def split: option.splits if_splits sum.splits)
qed

lemma inv_fill:
  assumes "ledger_inv tr" and "record_fill k nf auto u t tr = Inr (b, tr')" shows "ledger_inv tr'"
  using record_fill_cases [OF assms(2)]
proof (elim disjE conjE exE)
  fix e e' fid
  assume e: "map_of (executions tr) k = Some e" and fid: "fid \<notin> set (fill_ids tr)" and sz: "0 < nf_size nf"
    and tr': "tr' = (put_execution k e' tr)\<lparr>fill_ids := fid # fill_ids tr\<rparr>"
    and fs: "mset (fills_of e') = add_mset (fill_record_of nf fid t) (mset (fills_of e))"
    and same: "ex_id e' = ex_id e" "ex_settled_at e' = ex_settled_at e" "ex_settlement_id e' = ex_settlement_id e"
  have set_fs: "set (fills_of e') = insert (fill_record_of nf fid t) (set (fills_of e))"
    using arg_cong [OF fs, of set_mset] by simp
  have "execution_ok k e" by (rule ledger_inv_ok [OF assms(1) e])
  then have ok: "execution_ok k e'"
    using same set_fs sz by (auto simp: execution_ok_def list_all_iff is_settled_def fill_ok_def fill_record_of_def)
  have "mset (map fr_fill_id (fills_of e')) = add_mset fid (mset (map fr_fill_id (fills_of e)))"
    using arg_cong [OF fs, of "image_mset fr_fill_id"] by (simp add: fill_record_of_def)
  then have "mset (map fr_fill_id (all_fills (put_execution k e' tr))) = add_mset fid (mset (map fr_fill_id (all_fills tr)))"
    using all_fills_put [OF e, of e'] by simp
  then show ?thesis
    using assms(1) ok fid unfolding ledger_inv_def tr'
    by (auto simp: put_execution_def distinct_update all_fills_def dest!: set_update)
qed (use assms in simp)

text \<open>A receipt never raises, and is made of the operations above.\<close>

lemma has_put [simp]: "map_of (executions (put_execution k e tr)) j = (if j = k then Some e else map_of (executions tr) j)"
  by (simp add: put_execution_def map_of_update)

definition known :: "string \<Rightarrow> tracker \<Rightarrow> bool" where
  "known k tr \<longleftrightarrow> map_of (executions tr) k \<noteq> None"

lemma known_register: "register_execution opp buy sell exid md c u t tr = (k, tr') \<Longrightarrow> known k tr'"
  by (auto simp: register_execution_def known_def Let_def split: option.splits if_splits)

lemma confirm_known:
  assumes "known k tr" and "leg \<in> {''buy'', ''sell''}"
  shows "\<exists>tr'. mark_leg_confirmed k leg c t tr = Inr tr' \<and> known k tr'"
  using assms by (auto simp: mark_leg_confirmed_def known_def Let_def)

lemma fill_known:
  assumes "known k tr" and "nf_leg nf \<in> {''buy'', ''sell''}"
  shows "\<exists>b tr'. record_fill k nf auto u t tr = Inr (b, tr') \<and> known k tr'"
  using assms
  by (auto simp: record_fill_def mark_leg_confirmed_def known_def Let_def put_execution_def map_of_update
      split: option.split)

lemma settle_known: "known k tr \<Longrightarrow> \<exists>b tr'. mark_settled k sid c req u t tr = Inr (b, tr')"
  by (auto simp: mark_settled_def known_def Let_def)

lemma receipt_legs [simp]: "nf_leg (receipt_leg rc leg) = leg" "nf_size (receipt_leg rc ''buy'') = nf_size (rc_buy rc)"
  "nf_size (receipt_leg rc ''sell'') = nf_size (rc_sell rc)"
  by (simp_all add: receipt_leg_def)

lemma receipt_steps:
  obtains k tr1 tr2 tr3 tr4 tr5 b2 b3 md where
    "record_execution_receipt rc ids t tr = Inr (k, tr5)"
    "register_execution (rc_opportunity_id rc) (nf_platform (rc_buy rc)) (nf_platform (rc_sell rc))
       (rc_execution_id rc) md (rc_timestamp rc) (ids 0) t tr = (k, tr1)"
    "record_fill k (receipt_leg rc ''buy'') (rc_mark_confirmed rc) (ids 1) t tr1 = Inr (b2, tr2)"
    "record_fill k (receipt_leg rc ''sell'') (rc_mark_confirmed rc) (ids 2) t tr2 = Inr (b3, tr3)"
    "(if rc_mark_confirmed rc then confirm_both k (rc_timestamp rc) t tr3 else Inr tr3) = Inr tr4"
    "tr5 = tr4 \<and> \<not> rc_mark_settled rc \<or> (\<exists>b. rc_mark_settled rc \<and>
       mark_settled k (rc_settlement_id rc) (rc_timestamp rc) (rc_mark_confirmed rc) (ids 3) t tr4 = Inr (b, tr5))"
proof -
  let ?md = "case rc_strategy_type rc of
      Some s \<Rightarrow> if s = [] then rc_metadata rc else set_default ''strategy_type'' (JStr s) (rc_metadata rc)
    | None \<Rightarrow> rc_metadata rc"
  obtain k tr1 where 1: "register_execution (rc_opportunity_id rc) (nf_platform (rc_buy rc)) (nf_platform (rc_sell rc))
      (rc_execution_id rc) ?md (rc_timestamp rc) (ids 0) t tr = (k, tr1)" by (rule prod.exhaust)
  obtain b2 tr2 where 2: "record_fill k (receipt_leg rc ''buy'') (rc_mark_confirmed rc) (ids 1) t tr1 = Inr (b2, tr2)" "known k tr2"
    using fill_known [OF known_register [OF 1], of "receipt_leg rc ''buy''" "rc_mark_confirmed rc" "ids 1" t] by auto
  obtain b3 tr3 where 3: "record_fill k (receipt_leg rc ''sell'') (rc_mark_confirmed rc) (ids 2) t tr2 = Inr (b3, tr3)" "known k tr3"
    using fill_known [OF 2(2), of "receipt_leg rc ''sell''" "rc_mark_confirmed rc" "ids 2" t] by auto
  obtain tr4 where 4: "(if rc_mark_confirmed rc then confirm_both k (rc_timestamp rc) t tr3 else Inr tr3) = Inr tr4" "known k tr4"
  proof (cases "rc_mark_confirmed rc")
    case True
    obtain tr' where b: "mark_leg_confirmed k ''buy'' (rc_timestamp rc) t tr3 = Inr tr'" "known k tr'"
      using confirm_known [OF 3(2), of "''buy''" "rc_timestamp rc" t] by auto
    from confirm_known [OF this(2), of "''sell''" "rc_timestamp rc" t] show ?thesis using that True b(1) by (auto simp: confirm_both_def)
  qed (use 3(2) that in auto)
  obtain b5 tr5 where 5: "mark_settled k (rc_settlement_id rc) (rc_timestamp rc) (rc_mark_confirmed rc) (ids 3) t tr4 = Inr (b5, tr5)"
    using settle_known [OF 4(2)] by blast
  show ?thesis
  proof (cases "rc_mark_settled rc")
    case True
    then show ?thesis
      using that [OF _ 1 2(1) 3(1) 4(1), of tr5] 1 2 3 4 5 by (auto simp: record_execution_receipt_def Let_def)
  next
    case False
    then show ?thesis
      using that [OF _ 1 2(1) 3(1) 4(1), of tr4] 1 2 3 4 by (auto simp: record_execution_receipt_def Let_def)
  qed
qed

lemma receipt_total: "\<exists>k tr'. record_execution_receipt rc ids t tr = Inr (k, tr')"
  by (rule receipt_steps [of rc ids t tr]) blast

lemma inv_confirm_both: "ledger_inv tr \<Longrightarrow> confirm_both k c t tr = Inr tr' \<Longrightarrow> ledger_inv tr'"
  by (auto simp: confirm_both_def split: sum.splits dest: inv_confirm)

lemma inv_receipt: "ledger_inv tr \<Longrightarrow> record_execution_receipt rc ids t tr = Inr (k, tr') \<Longrightarrow> ledger_inv tr'"
proof (rule receipt_steps [of rc ids t tr])
  fix k' tr1 tr2 tr3 tr4 tr5 b2 b3 md
  assume inv: "ledger_inv tr" and rec: "record_execution_receipt rc ids t tr = Inr (k, tr')"
    and 0: "record_execution_receipt rc ids t tr = Inr (k', tr5)"
    and 1: "register_execution (rc_opportunity_id rc) (nf_platform (rc_buy rc)) (nf_platform (rc_sell rc))
       (rc_execution_id rc) md (rc_timestamp rc) (ids 0) t tr = (k', tr1)"
    and 2: "record_fill k' (receipt_leg rc ''buy'') (rc_mark_confirmed rc) (ids 1) t tr1 = Inr (b2, tr2)"
    and 3: "record_fill k' (receipt_leg rc ''sell'') (rc_mark_confirmed rc) (ids 2) t tr2 = Inr (b3, tr3)"
    and 4: "(if rc_mark_confirmed rc then confirm_both k' (rc_timestamp rc) t tr3 else Inr tr3) = Inr tr4"
    and 5: "tr5 = tr4 \<and> \<not> rc_mark_settled rc \<or> (\<exists>b. rc_mark_settled rc \<and>
       mark_settled k' (rc_settlement_id rc) (rc_timestamp rc) (rc_mark_confirmed rc) (ids 3) t tr4 = Inr (b, tr5))"
  have "ledger_inv tr1" using inv_register [OF inv] 1 by (metis snd_conv)
  then have "ledger_inv tr3" using 2 3 by (blast intro: inv_fill)
  then have "ledger_inv tr4" using 4 by (auto split: if_splits dest: inv_confirm_both)
  then have "ledger_inv tr5" using 5 by (auto dest: inv_settle)
  then show "ledger_inv tr'" using rec 0 by simp
qed

interpretation ledger: machine ledger_step "\<lambda>e. True" ledger_inv
proof unfold_locales
  fix tr :: tracker and e
  assume "ledger_inv tr"
  then show "ledger_inv (ledger_step tr e)"
    by (cases e) (auto split: sum.split intro: inv_register inv_fill inv_confirm inv_settle inv_receipt inv_tape inv_match)
qed

lemma new_tracker_inv: "ledger_inv (new_tracker allow n)"
  by (simp add: new_tracker_def ledger_inv_def all_fills_def)

text \<open>Identifiers once recorded stay recorded.\<close>

lemma register_ids: "fill_ids (snd (register_execution opp buy sell k md c u t tr)) = fill_ids tr"
  by (simp add: register_execution_def Let_def put_execution_def split: option.split)

lemma confirm_ids: "mark_leg_confirmed k leg c t tr = Inr tr' \<Longrightarrow> fill_ids tr' = fill_ids tr"
  by (auto simp: mark_leg_confirmed_def Let_def put_execution_def split: option.splits if_splits)

lemma settle_ids: "mark_settled k sid c req u t tr = Inr (b, tr') \<Longrightarrow> fill_ids tr' = fill_ids tr"
  by (auto simp: mark_settled_def Let_def put_execution_def split: option.splits if_splits)

lemma fill_ids_grow: "record_fill k nf auto u t tr = Inr (b, tr') \<Longrightarrow> set (fill_ids tr) \<subseteq> set (fill_ids tr')"
  by (drule record_fill_cases) auto

lemma receipt_ids: "record_execution_receipt rc ids t tr = Inr (k, tr') \<Longrightarrow> set (fill_ids tr) \<subseteq> set (fill_ids tr')"
proof (rule receipt_steps [of rc ids t tr])
  fix k' tr1 tr2 tr3 tr4 tr5 b2 b3 md
  assume rec: "record_execution_receipt rc ids t tr = Inr (k, tr')"
    and 0: "record_execution_receipt rc ids t tr = Inr (k', tr5)"
    and 1: "register_execution (rc_opportunity_id rc) (nf_platform (rc_buy rc)) (nf_platform (rc_sell rc))
       (rc_execution_id rc) md (rc_timestamp rc) (ids 0) t tr = (k', tr1)"
    and 2: "record_fill k' (receipt_leg rc ''buy'') (rc_mark_confirmed rc) (ids 1) t tr1 = Inr (b2, tr2)"
    and 3: "record_fill k' (receipt_leg rc ''sell'') (rc_mark_confirmed rc) (ids 2) t tr2 = Inr (b3, tr3)"
    and 4: "(if rc_mark_confirmed rc then confirm_both k' (rc_timestamp rc) t tr3 else Inr tr3) = Inr tr4"
    and 5: "tr5 = tr4 \<and> \<not> rc_mark_settled rc \<or> (\<exists>b. rc_mark_settled rc \<and>
       mark_settled k' (rc_settlement_id rc) (rc_timestamp rc) (rc_mark_confirmed rc) (ids 3) t tr4 = Inr (b, tr5))"
  have "fill_ids tr1 = fill_ids tr" using register_ids 1 by (metis snd_conv)
  moreover have "set (fill_ids tr1) \<subseteq> set (fill_ids tr3)" using fill_ids_grow [OF 2] fill_ids_grow [OF 3] by blast
  moreover have "fill_ids tr4 = fill_ids tr3"
    using 4 by (auto simp: confirm_both_def split: if_splits sum.splits dest!: confirm_ids)
  moreover have "fill_ids tr5 = fill_ids tr4" using 5 by (auto dest: settle_ids)
  ultimately show ?thesis using rec 0 by simp
qed

interpretation recorded: machine ledger_step "\<lambda>e. True" "\<lambda>tr. fid \<in> set (fill_ids tr)" for fid
proof unfold_locales
  fix tr :: tracker and e
  assume fid: "fid \<in> set (fill_ids tr)"
  show "fid \<in> set (fill_ids (ledger_step tr e))"
    using fid
    by (cases e) (auto simp: register_ids ingest_trade_tape_event_def Let_def reconcile_leg_from_trade_tape_def
        dest!: confirm_ids settle_ids fill_ids_grow receipt_ids split: sum.splits option.splits if_splits)
qed

text \<open>Counting executions when one is replaced.\<close>

lemma count_update:
  "map_of al k = Some e \<Longrightarrow>
   length (filter P (map snd (AList.update k e' al))) + (if P e then 1 else 0) =
   length (filter P (map snd al)) + (if P e' then 1 else 0)"
  by (induction al) (auto split: if_splits)

lemma count_put:
  assumes "map_of (executions tr) k = Some e"
  shows "length (filter P (map snd (executions (put_execution k e' tr)))) + (if P e then 1 else 0) =
    length (filter P (map snd (executions tr))) + (if P e' then 1 else 0)"
  using count_update [OF assms, of P e'] by (simp add: put_execution_def)

section \<open>Properties\<close>

text \<open>C37. The ledger never counts a fill twice and never books nonsense: after any sequence of calls on a
  fresh tracker (calls that raise included) no two fills of any executions share an id, every fill has a
  positive size and no negative price or fee, every settled execution has a settlement id, and the
  trade tape stays within its bound.\<close>
theorem ledger_books_each_fill_once:
  "let tr = run ledger_step (new_tracker allow n) es in
   distinct (map fr_fill_id (all_fills tr)) \<and>
   list_all (\<lambda>f. 0 < fr_size f \<and> 0 \<le> fr_price f \<and> 0 \<le> fr_fee f) (all_fills tr) \<and>
   list_all (\<lambda>(k, e). ex_id e = k \<and> (ex_settled_at e = None \<or> ex_settlement_id e \<noteq> None)) (executions tr) \<and>
   length (trade_tape tr) \<le> max_tape tr"
proof -
  let ?tr = "run ledger_step (new_tracker allow n) es"
  have inv: "ledger_inv ?tr" by (rule ledger.run_inv [OF new_tracker_inv]) (simp add: list_all_iff)
  then have "distinct (map fr_fill_id (all_fills ?tr))" "length (trade_tape ?tr) \<le> max_tape ?tr"
    unfolding ledger_inv_def by (metis mset_eq_imp_distinct_iff)+
  moreover have ok: "\<forall>(k, e) \<in> set (executions ?tr). execution_ok k e" using inv by (simp add: ledger_inv_def)
  moreover from ok have "list_all (\<lambda>f. 0 < fr_size f \<and> 0 \<le> fr_price f \<and> 0 \<le> fr_fee f) (all_fills ?tr)"
    unfolding all_fills_def execution_ok_def fill_ok_def list_all_iff by fastforce
  ultimately show ?thesis by (auto simp: Let_def list_all_iff execution_ok_def is_settled_def)
qed

definition demo_fill :: new_fill where
  "demo_fill = \<lparr>nf_leg = ''buy'', nf_fill_id = Some ''f1'', nf_platform = ''kalshi'', nf_price = 1 / 2, nf_size = 3,
     nf_fee = 0, nf_order_id = None, nf_trade_id = None, nf_market_id = None, nf_token_id = None,
     nf_timestamp = Some 1, nf_source = ''exchange''\<rparr>"

theorem ledger_books_each_fill_once_witness:
  "let tr = run ledger_step (new_tracker False 10)
       [Register ''o1'' ''kalshi'' ''polymarket'' (Some ''e1'') [] None [] 0,
        Record_fill ''e1'' demo_fill True [] 1, Record_fill ''e1'' demo_fill True [] 2]
   in length (all_fills tr) = 1 \<and> distinct (map fr_fill_id (all_fills tr))"
proof -
  let ?es = "[Register ''o1'' ''kalshi'' ''polymarket'' (Some ''e1'') [] None [] 0,
        Record_fill ''e1'' demo_fill True [] 1, Record_fill ''e1'' demo_fill True [] 2]"
  have "length (all_fills (run ledger_step (new_tracker False 10) ?es)) = 1" by code_simp
  then show ?thesis using ledger_books_each_fill_once [of False 10 ?es] unfolding Let_def by blast
qed

text \<open>Recording is idempotent: once a fill id was recorded, no later attempt to record it again, for
  any execution, leg, price or size and after any calls in between, changes the tracker.\<close>
theorem replayed_fill_changes_nothing:
  assumes "record_fill k nf auto u t tr = Inr (True, tr1)" and "nf_fill_id nf = Some fid" and "fid \<noteq> []"
    and "nf_fill_id nf' = Some fid"
  shows "ledger_step (run ledger_step tr1 es) (Record_fill k' nf' auto' u' t') = run ledger_step tr1 es"
proof -
  have "fid \<in> set (fill_ids tr1)"
    using assms(1-3) by (auto simp: record_fill_def Let_def or_else_def mark_leg_confirmed_def put_execution_def
        split: option.splits if_splits)
  then have "fid \<in> set (fill_ids (run ledger_step tr1 es))"
    by (rule recorded.run_inv) (simp add: list_all_iff)
  then show ?thesis
    using assms(3,4) by (auto simp: record_fill_def Let_def or_else_def split: option.splits)
qed

definition demo_tracker :: tracker where
  "demo_tracker = snd (register_execution ''o1'' ''kalshi'' ''polymarket'' (Some ''e1'') [] None [] 0 (new_tracker False 10))"

theorem replayed_fill_changes_nothing_witness:
  "let tr1 = ledger_step demo_tracker (Record_fill ''e1'' demo_fill True [] 0) in
   ledger_step (run ledger_step tr1 [Tape ''kalshi'' ''m'' [] None 2])
     (Record_fill ''e1'' (demo_fill\<lparr>nf_size := 5\<rparr>) False [] 7) =
   run ledger_step tr1 [Tape ''kalshi'' ''m'' [] None 2]"
  unfolding Let_def
proof (rule replayed_fill_changes_nothing)
  show "record_fill ''e1'' demo_fill True [] 0 demo_tracker =
      Inr (True, ledger_step demo_tracker (Record_fill ''e1'' demo_fill True [] 0))" by code_simp
qed (simp_all add: demo_fill_def)

text \<open>Settlement moves profit, it does not make any: settling an execution whose profit was locked in
  takes it out of the locked bucket and puts it into the settled one, with the same realised
  profit, and leaves every other execution's bucket alone.\<close>
theorem settling_moves_locked_profit:
  assumes "map_of (executions tr) k = Some e" and "is_locked tr e"
    and "mark_settled k sid c True u t tr = Inr (b, tr')"
  shows "b \<and> sm_locked (summarize i since tr') + 1 = sm_locked (summarize i since tr) \<and>
    sm_cumulative_settled (summarize i since tr') = sm_cumulative_settled (summarize i since tr) + 1 \<and>
    sm_pending (summarize i since tr') + 1 = sm_pending (summarize i since tr) \<and>
    map_option realized_pnl (map_of (executions tr') k) = Some (realized_pnl e)"
proof -
  let ?sid = "or_else sid (or_else (ex_settlement_id e) (''settle-'' @ u))"
  let ?e' = "e\<lparr>ex_settlement_id := Some ?sid, ex_settled_at := Some (case c of Some x \<Rightarrow> x | None \<Rightarrow> t)\<rparr>"
  have e: "has_confirmed_legs e" "\<not> is_settled e" "allow_simulated_confirmed tr \<or> \<not> has_simulation_source e"
    using assms(2) by (auto simp: is_locked_def split: if_splits)
  have tr': "b" "tr' = put_execution k ?e' tr"
    using assms(1,3) e(1) by (auto simp: mark_settled_def Let_def)
  have e': "is_settled ?e'" "has_confirmed_legs ?e'" "has_simulation_source ?e' = has_simulation_source e"
    "realized_pnl ?e' = realized_pnl e"
    using e(1) by (simp_all add: is_settled_def has_confirmed_legs_def has_simulation_source_def realized_pnl_def
        matched_size_def strategy_type_def Let_def)
  have allow: "is_locked tr' = is_locked tr" "is_counted tr' = is_counted tr"
    by (intro ext; simp add: tr' is_locked_def is_counted_def put_execution_def)+
  have "\<not> is_locked tr ?e'" "is_counted tr None ?e'" "\<not> is_counted tr None e"
    using e e' by (auto simp: is_locked_def is_counted_def)
  then show ?thesis
    using count_put [OF assms(1), of "is_locked tr" ?e'] count_put [OF assms(1), of "is_counted tr None" ?e']
      count_put [OF assms(1), of "\<lambda>e. \<not> is_settled e" ?e'] assms(2) e(2) e' tr'(1)
    by (simp add: summarize_def Let_def allow) (simp add: tr')
qed

definition other_fill :: new_fill where
  "other_fill = demo_fill\<lparr>nf_leg := ''sell'', nf_fill_id := Some ''f2'', nf_platform := ''polymarket'', nf_price := 1 / 4\<rparr>"

definition locked_pair :: execution where
  "locked_pair =
     \<lparr>ex_id = ''e1'', ex_opportunity_id = ''o1'', ex_buy_platform = ''kalshi'', ex_sell_platform = ''polymarket'',
      ex_created_at = 1, ex_metadata = [(''strategy_type'', JStr ''complementary'')],
      ex_buy_fills = [fill_record_of demo_fill ''f1'' 1], ex_sell_fills = [fill_record_of other_fill ''f2'' 1],
      ex_buy_confirmed_at = Some 1, ex_sell_confirmed_at = Some 1, ex_settlement_id = None, ex_settled_at = None\<rparr>"

definition locked_tracker :: tracker where
  "locked_tracker = (new_tracker False 10)\<lparr>executions := [(''e1'', locked_pair)], fill_ids := [''f1'', ''f2'']\<rparr>"

theorem settling_moves_locked_profit_witness:
  "sm_locked (summarize 30 None (ledger_step locked_tracker (Settle ''e1'' None None True [] 9))) = 0 \<and>
   sm_cumulative_settled (summarize 30 None (ledger_step locked_tracker (Settle ''e1'' None None True [] 9))) = 1"
proof -
  let ?tr' = "ledger_step locked_tracker (Settle ''e1'' None None True [] 9)"
  have 1: "map_of (executions locked_tracker) ''e1'' = Some locked_pair"
    by (simp add: locked_tracker_def new_tracker_def)
  have locked: "is_locked locked_tracker locked_pair" by code_simp
  have 2: "mark_settled ''e1'' None None True [] 9 locked_tracker = Inr (True, ?tr')"
    by (simp add: 1 mark_settled_def) (simp add: locked_pair_def has_confirmed_legs_def Let_def)
  have 3: "sm_locked (summarize 30 None locked_tracker) = 1" "sm_cumulative_settled (summarize 30 None locked_tracker) = 0"
    by (simp_all add: locked_tracker_def new_tracker_def summarize_def Let_def is_counted_def is_locked_def
        is_settled_def has_confirmed_legs_def has_simulation_source_def locked_pair_def fill_record_of_def demo_fill_def
        other_fill_def) (code_simp)
  from settling_moves_locked_profit [OF 1 locked 2, of 30 None] 3 show ?thesis by simp
qed

text \<open>What a pair earns depends on its strategy. For one fill per leg of the same size, a
  complementary pair (both legs bought, one of them pays 1) earns its size less both costs and
  both fees; a same-outcome pair earns the sale less the purchase and both fees; each operation
  rounded once.\<close>
theorem realized_pnl_of_matched_pair:
  assumes "ex_buy_fills e = [f]" and "ex_sell_fills e = [g]" and "fr_size f = fr_size g" and "0 < fr_size f"
    and "is_float (fr_size f)" and "fill_ok f" and "fill_ok g" and "is_float (fr_fee f)" and "is_float (fr_fee g)"
  shows "realized_pnl e =
    (let cost = fmul (fr_price f) (fr_size f); other = fmul (fr_price g) (fr_size f) in
     if strategy_type e = ''complementary''
     then fsub (fsub (fsub (fsub (fr_size f) cost) other) (fr_fee f)) (fr_fee g)
     else fsub (fsub (fsub other cost) (fr_fee f)) (fr_fee g))"
proof -
  have size: "total_size [f] = fr_size f" "total_size [g] = fr_size f"
    using assms by (simp_all add: total_size_def fsum_def fadd_def max_def)
  have fees: "total_fees [f] = fr_fee f" "total_fees [g] = fr_fee g"
    using assms by (simp_all add: total_fees_def fsum_def fadd_def max_def fill_ok_def)
  have cost: "total_notional [f] = fmul (fr_price f) (fr_size f)" "total_notional [g] = fmul (fr_price g) (fr_size f)"
    using assms by (simp_all add: total_notional_def fr_notional_def fsum_def fadd_def fmul_def max_absorb1 fill_ok_def)
  have one: "fdiv (fr_size f) (fr_size f) = 1" "fmul x 1 = fl x" for x
    using assms(4) by (simp_all add: fdiv_def fmul_def)
  show ?thesis
    using assms(1,2,4,5,8,9) by (simp add: realized_pnl_def matched_size_def size fees cost one Let_def)
qed

theorem realized_pnl_of_matched_pair_witness:
  "realized_pnl locked_pair = 3 - 3 / 2 - 3 / 4"
proof -
  let ?f = "fill_record_of demo_fill ''f1'' 1" and ?g = "fill_record_of other_fill ''f2'' 1"
  have 1: "ex_buy_fills locked_pair = [?f]" "ex_sell_fills locked_pair = [?g]" by (simp_all add: locked_pair_def)
  have 2: "fr_size ?f = fr_size ?g" "0 < fr_size ?f" "is_float (fr_size ?f)" "fill_ok ?f" "fill_ok ?g"
    "is_float (fr_fee ?f)" "is_float (fr_fee ?g)"
    by code_simp+
  have 3: "strategy_type locked_pair = ''complementary''" by code_simp
  have 4: "fsub (fsub (fsub (fsub (fr_size ?f) (fmul (fr_price ?f) (fr_size ?f))) (fmul (fr_price ?g) (fr_size ?f))) (fr_fee ?f)) (fr_fee ?g)
      = 3 - 3 / 2 - 3 / 4" by code_simp
  from realized_pnl_of_matched_pair [OF 1 2] 3 4 show ?thesis by simp
qed

end
