(* ===== verification/Executor.thy ===== *)
theory Executor
  imports VenueGateway ConfirmedPnL
begin

text \<open>
  The two-leg executor of \<open>arbitrage_executor.py\<close>: pre-flight checks, leg construction, the
  execution of both legs, the hedge of an imbalance and the result. An opportunity is an untyped
  dictionary. The state is the executor's own (\<open>desk\<close>) next to the world of the engine. How the two
  leg tasks interleave and which of them the timeout cancels is up to the event loop: running them
  is a parameter (\<open>runner\<close>) that yields what became of each leg, and \<open>sequential_legs\<close> is the
  schedule that runs one engine call after the other. The risk model, the allowlist file and the
  calendar are parameters (\<open>desk_env\<close>).
\<close>

record desk =
  daily_loss :: rat
  daily_reset_date :: "string option"
  live_in_flight :: int
  ledger :: "tracker option"

record 'x shop =
  dk :: desk
  wl :: "'x venues world"

type_synonym ('x, 'a) sop = "('x shop, 'a) op"

record desk_env =
  risk_assess :: "obj \<Rightarrow> json list \<Rightarrow> string + rat \<times> rat"
  allowlisted :: "json \<Rightarrow> json \<Rightarrow> bool"
  day_of :: "rat \<Rightarrow> string"

definition on_world :: "('x, 'a) vop \<Rightarrow> ('x, 'a) sop" where
  "on_world m = (\<lambda>s. let (r, w) = m (wl s) in (r, s\<lparr>wl := w\<rparr>))"

definition get_desk :: "('x, desk) sop" where "get_desk = (\<lambda>s. (Inr (dk s), s))"

definition put_desk :: "(desk \<Rightarrow> desk) \<Rightarrow> ('x, unit) sop" where
  "put_desk f = (\<lambda>s. (Inr (), s\<lparr>dk := f (dk s)\<rparr>))"

text \<open>\<open>try: m finally: f\<close>.\<close>

definition finally_do :: "('w, 'a) op \<Rightarrow> ('w, unit) op \<Rightarrow> ('w, 'a) op" where
  "finally_do m f = (\<lambda>s. let (r, s1) = m s in case f s1 of (Inl e, s2) \<Rightarrow> (Inl e, s2) | (Inr _, s2) \<Rightarrow> (r, s2))"

abbreviation then_sum :: "'e + 'a \<Rightarrow> ('a \<Rightarrow> 'e + 'b) \<Rightarrow> 'e + 'b" where
  "then_sum r f \<equiv> (case r of Inl e \<Rightarrow> Inl e | Inr x \<Rightarrow> f x)"

definition EPS :: rat where "EPS = fl (1 / 1000000)"

text \<open>\<open>v.get(k, d)\<close> of an untyped value.\<close>

definition jget :: "json \<Rightarrow> string \<Rightarrow> json \<Rightarrow> pyexn + json" where
  "jget v k d = (if is_obj v then Inr (get_or d (obj_of v) k) else Inl AttributeError)"

section \<open>Size and legs\<close>

definition buy_price :: "obj \<Rightarrow> pyexn + rat" where
  "buy_price opp =
     (if get opp ''buy_platform'' = JStr ''kalshi'' then py_float (get_or (JInt 0) opp ''kalshi_price'')
      else py_float (get_or (JInt 0) opp ''polymarket_price''))"

definition notional_cap :: "config \<Rightarrow> rat" where
  "notional_cap cfg =
     (if live_mode cfg then min (MAX_POSITION_SIZE_USD cfg) (LIVE_MAX_NOTIONAL_USD cfg)
      else MAX_POSITION_SIZE_USD cfg)"

definition cap_contracts :: "config \<Rightarrow> rat \<Rightarrow> rat \<Rightarrow> rat" where
  "cap_contracts cfg volume price =
     (let raw = min volume (fdiv (notional_cap cfg) (max price (fl (1 / 100))))
      in fl (of_int \<lfloor>fadd raw (fl (1 / 1000000000))\<rfloor>))"

definition capped_volume :: "config \<Rightarrow> obj \<Rightarrow> pyexn + rat" where
  "capped_volume cfg opp =
     then_sum (py_float (get_or (JInt 0) opp ''max_tradeable_volume'')) (\<lambda>volume.
     then_sum (buy_price opp) (\<lambda>price. Inr (cap_contracts cfg volume price)))"

definition kalshi_leg :: "string \<Rightarrow> rat \<Rightarrow> rat \<Rightarrow> json \<Rightarrow> string \<Rightarrow> json \<Rightarrow> string \<Rightarrow> order_request" where
  "kalshi_leg action volume price ticker side opp_id leg =
     (order_request_of KALSHI action volume price)
       \<lparr>rq_ticker := opt_text ticker, rq_outcome_side := side, rq_tif := ''IOC'',
        rq_meta := [(''opportunity_id'', opp_id), (''leg'', JStr leg)]\<rparr>"

definition pm_leg :: "config \<Rightarrow> string \<Rightarrow> rat \<Rightarrow> rat \<Rightarrow> json \<Rightarrow> json \<Rightarrow> string \<Rightarrow> order_request" where
  "pm_leg cfg action volume price token opp_id leg =
     (order_request_of POLYMARKET action volume price)
       \<lparr>rq_token_id := opt_text token, rq_tif := POLYMARKET_ORDER_TYPE cfg,
        rq_meta := [(''opportunity_id'', opp_id), (''leg'', JStr leg)]\<rparr>"

text \<open>The side of the Kalshi leg of a complementary pair, from the strategy's name.\<close>

definition kalshi_side :: "json \<Rightarrow> pyexn + string" where
  "kalshi_side strategy =
     then_sum (py_in ''S3'' strategy) (\<lambda>s3.
     if s3 then Inr ''yes''
     else then_sum (py_in ''Kalshi YES'' strategy) (\<lambda>y. Inr (if y then ''yes'' else ''no'')))"

definition build_legs :: "config \<Rightarrow> obj \<Rightarrow> pyexn + (order_request \<times> order_request) option" where
  "build_legs cfg opp =
     then_sum (jget (get_or (JObj []) opp ''match_data'') ''kalshi_market'' (JObj [])) (\<lambda>km.
     then_sum (jget km ''id'' (JStr [])) (\<lambda>ticker.
     let token = get_or (JStr []) opp ''polymarket_token'' in
     then_sum (capped_volume cfg opp) (\<lambda>volume.
     if volume \<le> 0 then Inr None
     else
       then_sum (py_float (get_or (JInt 0) opp ''kalshi_price'')) (\<lambda>kp.
       then_sum (py_float (get_or (JInt 0) opp ''polymarket_price'')) (\<lambda>pp.
       let oid = get opp ''opportunity_id'' in
       if get_or (JStr ''same_outcome'') opp ''strategy_type'' = JStr ''complementary'' then
         then_sum (kalshi_side (get_or (JStr []) opp ''strategy'')) (\<lambda>side.
         Inr (Some (kalshi_leg ''buy'' volume kp ticker side oid ''kalshi'',
                    pm_leg cfg ''buy'' volume pp token oid ''polymarket'')))
       else if get_or (JStr []) opp ''buy_platform'' = JStr ''kalshi'' then
         Inr (Some (kalshi_leg ''buy'' volume kp ticker ''yes'' oid ''kalshi_buy'',
                    pm_leg cfg ''sell'' volume pp token oid ''poly_sell''))
       else
         Inr (Some (pm_leg cfg ''buy'' volume pp token oid ''poly_buy'',
                    kalshi_leg ''sell'' volume kp ticker ''yes'' oid ''kalshi_sell'')))))))"

section \<open>Pre-flight checks\<close>

definition halt_reason :: "config \<Rightarrow> safety \<Rightarrow> string option" where
  "halt_reason cfg s =
     (let (active, why) = ks_is_active cfg s in
      if active \<and> (live_mode cfg \<or> why \<noteq> Some ''execution_disabled'')
      then Some (''halted:'' @ opt_str why) else None)"

definition maybe_reset_daily_loss :: "desk_env \<Rightarrow> rat \<Rightarrow> desk \<Rightarrow> desk" where
  "maybe_reset_daily_loss E t d =
     (let today = day_of E t in
      if daily_reset_date d \<noteq> Some today then d\<lparr>daily_loss := 0, daily_reset_date := Some today\<rparr> else d)"

text \<open>A pair of absent books (a tuple in the source) is a list of two \<open>None\<close>.\<close>

definition risk_gate :: "desk_env \<Rightarrow> config \<Rightarrow> obj \<Rightarrow> string option" where
  "risk_gate E cfg opp =
     (let books = get opp ''risk_orderbooks'' in
      if \<not> truthy books \<or> books = JList [JNull, JNull] then None
      else case py_iter books of
          Inl e \<Rightarrow> Some ''risk_gate_error''
        | Inr bs \<Rightarrow>
            if length bs \<noteq> 2 then Some ''risk_gate_error''
            else case risk_assess E opp bs of
                Inl e \<Rightarrow> Some ''risk_gate_error''
              | Inr (score, confidence) \<Rightarrow>
                  if score > MAX_RISK_SCORE cfg then Some ''risk_too_high''
                  else if confidence < MIN_RISK_CONFIDENCE cfg then Some ''low_risk_confidence''
                  else None)"

definition allowlist_gate :: "desk_env \<Rightarrow> obj \<Rightarrow> pyexn + string option" where
  "allowlist_gate E opp =
     (let match = py_or (get_or (JObj []) opp ''match_data'') (JObj []) in
      then_sum (jget match ''kalshi_market'' (JObj [])) (\<lambda>km.
      then_sum (jget km ''id'' JNull) (\<lambda>k_id.
      then_sum (if truthy (get opp ''polymarket_token'') then Inr (get opp ''polymarket_token'')
                else then_sum (jget match ''polymarket_market'' (JObj [])) (\<lambda>pm. jget pm ''id'' JNull)) (\<lambda>p_id.
      Inr (if allowlisted E k_id p_id then None else Some ''not_allowlisted'')))))"

definition balance_gate :: "'x services \<Rightarrow> config \<Rightarrow> obj \<Rightarrow> ('x, string option) sop" where
  "balance_gate S cfg opp =
     catch
       (bind (lift (capped_volume cfg opp)) (\<lambda>volume.
        bind (lift (buy_price opp)) (\<lambda>price.
        bind (on_world (if get_or (JStr []) opp ''buy_platform'' = JStr ''kalshi''
                        then kalshi_balance S cfg else pm_get_balance_usdc S)) (\<lambda>balance.
        ret (case balance of None \<Rightarrow> None
             | Some b \<Rightarrow> if b < fmul volume price then Some ''insufficient_balance'' else None)))))
       (\<lambda>_. ret None)"

definition pre_flight_checks ::
    "'x services \<Rightarrow> desk_env \<Rightarrow> config \<Rightarrow> obj \<Rightarrow> ('x, string option) sop" where
  "pre_flight_checks S E cfg opp =
     bind (on_world get_safe) (\<lambda>s.
     case halt_reason cfg s of Some r \<Rightarrow> ret (Some r)
     | None \<Rightarrow>
       bind (on_world now) (\<lambda>t.
       bind (put_desk (maybe_reset_daily_loss E t)) (\<lambda>_.
       bind get_desk (\<lambda>d.
       if MAX_DAILY_LOSS_USD cfg \<le> daily_loss d then ret (Some ''daily_loss_limit'')
       else bind (lift (py_float (get_or (JInt 0) opp ''total_profit''))) (\<lambda>total_profit.
       if total_profit < MIN_PROFIT_AFTER_FEES_USD cfg then ret (Some ''below_min_profit'')
       else case (if RISK_GATE_ENABLED cfg then risk_gate E cfg opp else None) of
         Some r \<Rightarrow> ret (Some r)
       | None \<Rightarrow>
         if \<not> live_mode cfg then ret None
         else
           bind (lift (if MATCH_REQUIRE_ALLOWLIST_FOR_LIVE cfg then allowlist_gate E opp else Inr None)) (\<lambda>al.
           case al of Some r \<Rightarrow> ret (Some r)
           | None \<Rightarrow>
             bind get_desk (\<lambda>d.
             if LIVE_MAX_CONCURRENT_POSITIONS cfg \<le> live_in_flight d
             then ret (Some ''max_concurrent_positions'')
             else if REQUIRE_BALANCE_CHECK cfg then balance_gate S cfg opp else ret None)))))))"

section \<open>Legs and hedge\<close>

datatype leg_result = Leg_done order_outcome | Leg_cancelled | Leg_raised

definition coerce_outcome :: "leg_result \<Rightarrow> order_request \<Rightarrow> order_outcome" where
  "coerce_outcome res rq = (case res of
     Leg_done out \<Rightarrow> out
   | Leg_cancelled \<Rightarrow> outcome_failed (rq_venue rq) (rq_size rq) ''execution_timeout'' None None
   | Leg_raised \<Rightarrow> outcome_failed (rq_venue rq) (rq_size rq) ''leg_exception'' None None)"

text \<open>What running the two legs gives: the result of each task, the request as the engine left it, and
  whether the timeout struck.\<close>

record legs_result =
  lr_buy :: leg_result
  lr_buy_req :: order_request
  lr_sell :: leg_result
  lr_sell_req :: order_request
  lr_timed_out :: bool

type_synonym 'x runner = "order_request \<Rightarrow> order_request \<Rightarrow> string \<Rightarrow> ('x, legs_result) vop"

definition active_gateways :: "'x services \<Rightarrow> config \<Rightarrow> nat \<Rightarrow> 'x venues gateways" where
  "active_gateways S cfg rounds = (if live_mode cfg then real_gateways S cfg rounds else sim_gateways S cfg)"

definition engine_execute ::
    "'x services \<Rightarrow> config \<Rightarrow> nat \<Rightarrow> string \<Rightarrow> order_request \<Rightarrow> ('x, order_outcome \<times> order_request) vop" where
  "engine_execute S cfg rounds k rq = (\<lambda>w.
     case execute (sha S) cfg (active_gateways S cfg rounds) k rq w of
       (out, rq', cs, w') \<Rightarrow> (Inr (out, rq'), w'))"

definition sequential_legs :: "'x services \<Rightarrow> config \<Rightarrow> nat \<Rightarrow> 'x runner" where
  "sequential_legs S cfg rounds buy_req sell_req opp_id =
     bind (engine_execute S cfg rounds (opp_id @ '':buy'') buy_req) (\<lambda>(b, br).
     bind (engine_execute S cfg rounds (opp_id @ '':sell'') sell_req) (\<lambda>(s, sr).
     ret \<lparr>lr_buy = Leg_done b, lr_buy_req = br, lr_sell = Leg_done s, lr_sell_req = sr, lr_timed_out = False\<rparr>))"

definition build_unwind_request :: "config \<Rightarrow> order_request \<Rightarrow> order_outcome \<Rightarrow> rat \<Rightarrow> order_request" where
  "build_unwind_request cfg rq out qty =
     (let opposite = (if rq_action rq = ''buy'' then ''sell'' else ''buy'');
          ref = (if oc_avg_price out = 0 then rq_limit_price rq else oc_avg_price out);
          price = (if opposite = ''sell'' then fsub ref (HEDGE_PRICE_CONCESSION cfg)
                   else fadd ref (HEDGE_PRICE_CONCESSION cfg))
      in \<lparr>rq_venue = rq_venue rq, rq_action = opposite, rq_size = qty,
          rq_limit_price = min (fl (99 / 100)) (max (fl (1 / 100)) price),
          rq_ticker = rq_ticker rq, rq_outcome_side = rq_outcome_side rq, rq_token_id = rq_token_id rq,
          rq_tif = (if rq_venue rq = POLYMARKET then ''FOK'' else ''IOC''),
          rq_ttl_seconds = HEDGE_TIMEOUT_SECONDS cfg, rq_client_order_id = None, rq_risk_reducing = True,
          rq_meta = AList.update ''hedge'' (JBool True) (rq_meta rq)\<rparr>)"

definition fresh_ids :: "'x services \<Rightarrow> ('x, nat \<Rightarrow> string) vop" where
  "fresh_ids S =
     bind (ask (uuid S)) (\<lambda>a. bind (ask (uuid S)) (\<lambda>b. bind (ask (uuid S)) (\<lambda>c. bind (ask (uuid S)) (\<lambda>d.
     ret (\<lambda>i. if i = 0 then a else if i = 1 then b else if i = 2 then c else d)))))"

definition residual_leg :: "order_request \<Rightarrow> rat \<Rightarrow> rat \<Rightarrow> new_fill" where
  "residual_leg rq price qty =
     \<lparr>nf_leg = ''buy'', nf_fill_id = None, nf_platform = rq_venue rq, nf_price = price, nf_size = qty, nf_fee = 0,
      nf_order_id = None, nf_trade_id = None, nf_market_id = None, nf_token_id = None, nf_timestamp = None,
      nf_source = ''exchange''\<rparr>"

definition residual_receipt :: "order_request \<Rightarrow> rat \<Rightarrow> rat \<Rightarrow> receipt" where
  "residual_receipt rq qty price =
     \<lparr>rc_opportunity_id = py_str (get_or (JStr ''unknown'') (rq_meta rq) ''opportunity_id''),
      rc_execution_id = None, rc_buy = residual_leg rq price qty, rc_sell = residual_leg rq 0 0,
      rc_settlement_id = None,
      rc_metadata = [(''residual_exposure'', JBool True), (''reason'', JStr ''unwind_failed'')],
      rc_strategy_type = None, rc_mark_confirmed = False, rc_mark_settled = False, rc_timestamp = None\<rparr>"

definition record_residual_exposure ::
    "'x services \<Rightarrow> order_request \<Rightarrow> rat \<Rightarrow> rat \<Rightarrow> ('x, unit) sop" where
  "record_residual_exposure S rq qty price =
     bind get_desk (\<lambda>d.
     case ledger d of None \<Rightarrow> ret ()
     | Some tr \<Rightarrow>
         bind (on_world (fresh_ids S)) (\<lambda>ids.
         bind (on_world now) (\<lambda>t.
         case record_execution_receipt (residual_receipt rq qty price) ids t tr of
           Inl e \<Rightarrow> ret ()
         | Inr (k, tr') \<Rightarrow> put_desk (\<lambda>d. d\<lparr>ledger := Some tr'\<rparr>))))"

definition trip_switch :: "string \<Rightarrow> ('x, unit) vop" where
  "trip_switch reason = (\<lambda>w. (Inr (), trip_world reason w))"

definition hedge ::
    "'x services \<Rightarrow> config \<Rightarrow> nat \<Rightarrow> order_request \<Rightarrow> order_outcome \<Rightarrow> order_request \<Rightarrow> order_outcome \<Rightarrow>
     ('x, obj) sop" where
  "hedge S cfg rounds buy_req buy_out sell_req sell_out =
     (let imbalance = fsub (oc_filled_size buy_out) (oc_filled_size sell_out);
          qty = \<bar>imbalance\<bar>;
          (over_req, over_out) = (if 0 < imbalance then (buy_req, buy_out) else (sell_req, sell_out))
      in if qty \<le> EPS then ret [(''hedged'', JBool True), (''residual'', JNum 0)]
      else if qty < 1 then
        bind (record_residual_exposure S over_req qty (oc_avg_price over_out)) (\<lambda>_.
        ret [(''hedged'', JBool True), (''residual'', JNum qty), (''dust'', JBool True)])
      else
        let oid = py_str (get (rq_meta over_req) ''opportunity_id'') in
        bind (on_world (engine_execute S cfg rounds (oid @ '':hedge'')
                (build_unwind_request cfg over_req over_out qty))) (\<lambda>(outcome, _).
        let residual = fsub qty (oc_filled_size outcome);
            bound = max EPS (fmul qty (fl (1 / 100)))
        in bind (if bound < residual
                 then bind (on_world (trip_switch (''unwind_failed:'' @ oid)))
                        (\<lambda>_. record_residual_exposure S over_req residual (oc_avg_price over_out))
                 else ret ()) (\<lambda>_.
           ret [(''hedged'', JBool (residual \<le> bound)), (''residual'', JNum residual),
                (''unwind_order_id'', opt_json (oc_order_id outcome)),
                (''unwind_filled'', JNum (oc_filled_size outcome))])))"

section \<open>Results\<close>

definition latency_ms :: "rat \<Rightarrow> rat \<Rightarrow> int" where
  "latency_ms t t0 = trunc (fmul (fsub t t0) 1000)"

definition skipped_result ::
    "json \<Rightarrow> obj \<Rightarrow> string \<Rightarrow> rat \<Rightarrow> ('x, execution_result) sop" where
  "skipped_result opp_id opp reason t0 =
     bind (on_world now) (\<lambda>t1.
     bind (lift (py_float (get_or (JInt 0) opp ''max_tradeable_volume''))) (\<lambda>volume.
     bind (on_world now) (\<lambda>t.
     ret \<lparr>er_opportunity_id = py_str opp_id,
          er_buy_platform = py_str (get_or (JStr []) opp ''buy_platform''),
          er_sell_platform = py_str (get_or (JStr []) opp ''sell_platform''),
          er_requested_volume = volume, er_filled_volume = 0, er_avg_buy_price = 0, er_avg_sell_price = 0,
          er_buy_fees = 0, er_sell_fees = 0, er_gross_profit = 0, er_net_profit = 0, er_profit_margin = 0,
          er_latency_ms = latency_ms t1 t0, er_timestamp = t, er_skipped_reason = Some reason,
          er_execution_id = None, er_buy_order_id = None, er_sell_order_id = None, er_buy_fill_id = None,
          er_sell_fill_id = None, er_buy_trade_id = None, er_sell_trade_id = None, er_settlement_id = None,
          er_confirmation_source = ''simulation''\<rparr>)))"

text \<open>Gross profit and the cost the margin is relative to.\<close>

definition pair_profit :: "obj \<Rightarrow> order_outcome \<Rightarrow> order_outcome \<Rightarrow> rat \<Rightarrow> rat \<times> rat" where
  "pair_profit opp buy sell filled =
     (if get opp ''strategy_type'' = JStr ''complementary'' then
        let cost_per_pair = fadd (oc_avg_price buy) (oc_avg_price sell) in
        (fsub (fmul filled 1) (fmul cost_per_pair filled), fmul cost_per_pair filled)
      else (fsub (fmul (oc_avg_price sell) filled) (fmul (oc_avg_price buy) filled),
            fmul (oc_avg_price buy) filled))"

definition first_of :: "string list \<Rightarrow> string option" where
  "first_of ss = (case ss of [] \<Rightarrow> None | s # _ \<Rightarrow> Some s)"

definition build_result ::
    "'x services \<Rightarrow> config \<Rightarrow> json \<Rightarrow> obj \<Rightarrow> order_outcome \<Rightarrow> order_outcome \<Rightarrow> rat \<Rightarrow> rat \<Rightarrow>
     ('x, execution_result) sop" where
  "build_result S cfg opp_id opp buy sell filled t0 =
     (let (gross, basis) = pair_profit opp buy sell filled;
          net_profit = fsub (fsub gross (oc_fees buy)) (oc_fees sell)
      in bind (put_desk (\<lambda>d. d\<lparr>daily_loss := fsub (daily_loss d) net_profit\<rparr>)) (\<lambda>_.
         bind (on_world now) (\<lambda>t1.
         bind (on_world (ask (uuid S))) (\<lambda>hex.
         bind (lift (py_float (get_or (JInt 0) opp ''max_tradeable_volume''))) (\<lambda>volume.
         bind (on_world now) (\<lambda>t.
         ret \<lparr>er_opportunity_id = py_str opp_id, er_buy_platform = oc_venue buy, er_sell_platform = oc_venue sell,
              er_requested_volume = volume, er_filled_volume = filled,
              er_avg_buy_price = oc_avg_price buy, er_avg_sell_price = oc_avg_price sell,
              er_buy_fees = oc_fees buy, er_sell_fees = oc_fees sell,
              er_gross_profit = gross, er_net_profit = net_profit,
              er_profit_margin = (if basis > 0 then fdiv net_profit basis else 0),
              er_latency_ms = latency_ms t1 t0, er_timestamp = t, er_skipped_reason = None,
              er_execution_id = Some ((if live_mode cfg then ''exec'' else ''paper'') @ ''-'' @ take 16 hex),
              er_buy_order_id = oc_order_id buy, er_sell_order_id = oc_order_id sell,
              er_buy_fill_id = first_of (oc_fill_ids buy), er_sell_fill_id = first_of (oc_fill_ids sell),
              er_buy_trade_id = first_of (oc_trade_ids buy), er_sell_trade_id = first_of (oc_trade_ids sell),
              er_settlement_id = None,
              er_confirmation_source = (if live_mode cfg then ''exchange'' else ''paper'')\<rparr>))))))"

section \<open>The trade\<close>

definition add_in_flight :: "int \<Rightarrow> ('x, unit) sop" where
  "add_in_flight n = put_desk (\<lambda>d. d\<lparr>live_in_flight := live_in_flight d + n\<rparr>)"

text \<open>After the legs: hedge, then report the matched part.\<close>

definition settle_legs ::
    "'x services \<Rightarrow> config \<Rightarrow> nat \<Rightarrow> json \<Rightarrow> obj \<Rightarrow> rat \<Rightarrow> legs_result \<Rightarrow> ('x, execution_result \<times> obj option) sop" where
  "settle_legs S cfg rounds opp_id opp t0 lr =
     (let buy_out = coerce_outcome (lr_buy lr) (lr_buy_req lr);
          sell_out = coerce_outcome (lr_sell lr) (lr_sell_req lr);
          matched = min (oc_filled_size buy_out) (oc_filled_size sell_out);
          imbalance = \<bar>fsub (oc_filled_size buy_out) (oc_filled_size sell_out)\<bar>
      in bind (if EPS < imbalance \<and> HEDGE_ENABLED cfg
               then bind (hedge S cfg rounds (lr_buy_req lr) buy_out (lr_sell_req lr) sell_out) (\<lambda>h. ret (Some h))
               else ret None) (\<lambda>hedge_info.
         if EPS < matched
         then bind (build_result S cfg opp_id opp buy_out sell_out matched t0) (\<lambda>r. ret (r, hedge_info))
         else bind (skipped_result opp_id opp
                (if EPS < imbalance then ''partial_fill_hedged''
                 else if lr_timed_out lr then ''execution_timeout'' else ''no_fill'') t0) (\<lambda>r.
              ret (r, hedge_info))))"

definition run_arbitrage ::
    "'x services \<Rightarrow> desk_env \<Rightarrow> config \<Rightarrow> nat \<Rightarrow> 'x runner \<Rightarrow> obj \<Rightarrow> ('x, execution_result \<times> obj option) sop" where
  "run_arbitrage S E cfg rounds legs opp =
     bind (on_world (ask (uuid S))) (\<lambda>hex.
     let opp_id = get_or (JStr (''opp-'' @ take 8 hex)) opp ''opportunity_id'' in
     bind (on_world now) (\<lambda>t0.
     bind (pre_flight_checks S E cfg opp) (\<lambda>rejection.
     if is_set rejection
     then bind (skipped_result opp_id opp (the rejection) t0) (\<lambda>r. ret (r, None))
     else
       bind (lift (build_legs cfg opp)) (\<lambda>built.
       case built of
         None \<Rightarrow> bind (skipped_result opp_id opp ''unbuildable_legs'' t0) (\<lambda>r. ret (r, None))
       | Some (buy_req, sell_req) \<Rightarrow>
           bind (add_in_flight 1) (\<lambda>_.
           bind (finally_do (on_world (legs buy_req sell_req (py_str opp_id))) (add_in_flight (- 1))) (\<lambda>lr.
           settle_legs S cfg rounds opp_id opp t0 lr))))))"

text \<open>The shop after a trade whose legs run under \<open>legs\<close>; a session is a run of it over opportunities.\<close>

definition trade_step :: "'x services \<Rightarrow> desk_env \<Rightarrow> config \<Rightarrow> nat \<Rightarrow> 'x runner \<Rightarrow> 'x shop \<Rightarrow> obj \<Rightarrow> 'x shop" where
  "trade_step S E cfg rounds legs s opp = snd (run_arbitrage S E cfg rounds legs opp s)"

section \<open>What a trade keeps\<close>

text \<open>The shop as a world: relations on the desk and on the world below it.\<close>

definition on_wl :: "('x venues world \<Rightarrow> 'x venues world \<Rightarrow> bool) \<Rightarrow> 'x shop \<Rightarrow> 'x shop \<Rightarrow> bool" where
  "on_wl R s s' \<longleftrightarrow> R (wl s) (wl s')"

lemma keeps_on_world: "keeps R m \<Longrightarrow> keeps (on_wl R) (on_world m)"
  by (auto simp: keeps_def on_wl_def on_world_def split: prod.split) (metis snd_conv)

text \<open>
  A relation on worlds that the engine's steps, the identifiers, the balance probes and the active
  gateways keep is kept by the whole trade, for every runner of the legs that keeps it.
\<close>

locale trade_relation = engine_relation R for R :: "'x venues world \<Rightarrow> 'x venues world \<Rightarrow> bool" +
  fixes S :: "'x services" and cfg :: config and rounds :: nat
  assumes R_uuid: "keeps R (ask (uuid S))"
    and R_balance: "keeps R (kalshi_balance S cfg)" "keeps R (pm_get_balance_usdc S)"
    and R_table: "list_all (\<lambda>(v, place). obeys R place) (active_gateways S cfg rounds)"
begin

sublocale shop: world_relation "on_wl R"
  by unfold_locales (auto simp: on_wl_def R_refl intro: R_trans)

lemma keeps_desk: "keeps (on_wl R) get_desk" "keeps (on_wl R) (put_desk f)"
  by (simp_all add: keeps_def on_wl_def get_desk_def put_desk_def R_refl)

lemma keeps_finally: "keeps (on_wl R) m \<Longrightarrow> keeps (on_wl R) f \<Longrightarrow> keeps (on_wl R) (finally_do m f)"
  unfolding keeps_def finally_do_def
  by (auto simp: Let_def split: prod.split sum.split) (metis shop.R_trans snd_conv)+

lemma keeps_safe: "keeps R get_safe"
  by (simp add: keeps_def get_safe_def R_refl)

lemma keeps_execute: "keeps R (engine_execute S cfg rounds k rq)"
proof (rule keepsI)
  fix w
  show "R w (snd (engine_execute S cfg rounds k rq w))"
    using execute_R [OF R_table, of "sha S" cfg k rq w]
    by (auto simp: engine_execute_def split: prod.split)
qed

lemma keeps_sequential: "keeps R (sequential_legs S cfg rounds b s k)"
  unfolding sequential_legs_def by (intro keeps_intros keeps_prod keeps_execute)

lemma keeps_ids: "keeps R (fresh_ids S)"
  unfolding fresh_ids_def by (intro keeps_intros R_uuid)

lemma keeps_trip: "keeps R (trip_switch r)"
  by (simp add: keeps_def trip_switch_def R_trip)

lemmas shop_intros = shop.keeps_intros keeps_desk keeps_on_world keeps_now keeps_safe keeps_ids keeps_trip
  keeps_execute R_uuid R_balance keep

lemma keeps_residual: "keeps (on_wl R) (record_residual_exposure S rq q p)"
  unfolding record_residual_exposure_def by (intro shop_intros)

lemma keeps_hedge: "keeps (on_wl R) (hedge S cfg rounds br bo sr so)"
  unfolding hedge_def Let_def by (intro shop_intros keeps_residual)

lemma keeps_settle_legs: "keeps (on_wl R) (settle_legs S cfg rounds oid opp t0 lr)"
  unfolding settle_legs_def build_result_def skipped_result_def Let_def
  by (intro shop_intros keeps_hedge)

lemma keeps_pre_flight: "keeps (on_wl R) (pre_flight_checks S E cfg opp)"
  unfolding pre_flight_checks_def balance_gate_def Let_def by (intro shop_intros)

lemma keeps_run_arbitrage:
  assumes "\<And>b s k. keeps R (legs b s k)" shows "keeps (on_wl R) (run_arbitrage S E cfg rounds legs opp)"
  unfolding run_arbitrage_def skipped_result_def add_in_flight_def Let_def
  by (intro shop_intros keeps_pre_flight keeps_finally keeps_settle_legs assms)

sublocale session: machine "trade_step S E cfg rounds legs" "\<lambda>_. \<forall>b s k. keeps R (legs b s k)" "on_wl R s0"
  for E legs s0
proof unfold_locales
  fix s opp
  assume "on_wl R s0 s" and "\<forall>b s k. keeps R (legs b s k)"
  moreover from this(2) have "keeps (on_wl R) (run_arbitrage S E cfg rounds legs opp)"
    by (intro keeps_run_arbitrage) blast
  ultimately show "on_wl R s0 (trade_step S E cfg rounds legs s opp)"
    unfolding trade_step_def keeps_def by (blast intro: shop.R_trans)
qed

lemma session_R:
  "(\<And>b s k. keeps R (legs b s k)) \<Longrightarrow> R (wl s0) (wl (run (trade_step S E cfg rounds legs) s0 opps))"
  using session.run_inv [of s0 s0 legs opps E] by (simp add: on_wl_def R_refl list_all_iff)

end

end
