(* ===== verification/Trade.thy ===== *)
theory Trade
  imports Placement Executor
begin

text \<open>
  What a whole trade of the executor promises. Promises about the venues are relations on worlds:
  the locale \<open>trade_relation\<close> is interpreted on the relations of \<open>Placement\<close>, and a session is a
  run of the machine whose events are opportunities.
\<close>

section \<open>Nothing is sent while idle\<close>

text \<open>In paper mode, or with the live-trading lock off, no order leaves.\<close>

definition idle :: "config \<Rightarrow> 'x venues world \<Rightarrow> bool" where
  "idle cfg w \<longleftrightarrow> \<not> live_mode cfg \<or> \<not> is_armed cfg (safe w)"

definition stays_idle :: "config \<Rightarrow> 'x venues world \<Rightarrow> 'x venues world \<Rightarrow> bool" where
  "stays_idle cfg w w' \<longleftrightarrow> (idle cfg w \<longrightarrow> idle cfg w' \<and> unsent w w')"

lemma no_orders_balance [keep]:
  "keeps (no_orders cfg) (kalshi_balance S cfg)" "keeps (no_orders cfg) (pm_get_balance_usdc S)"
  unfolding kalshi_balance_def kalshi_get_balance_def pm_get_balance_usdc_def Let_def
  by (intro keep no_orders_request; simp)+

lemma no_orders_idle: "keeps (no_orders cfg) m \<Longrightarrow> keeps (stays_idle cfg) m"
  by (auto simp: keeps_def no_orders_def same_gates_def stays_idle_def idle_def unsent_def)

interpretation stays_idle: engine_relation "stays_idle cfg" for cfg
  by unfold_locales (auto simp: stays_idle_def idle_def unsent_def)

lemma stays_idle_real: "keeps (locked cfg) m \<Longrightarrow> live_mode cfg \<Longrightarrow> keeps (stays_idle cfg) m"
  by (auto simp: keeps_def locked_def stays_idle_def idle_def unsent_def)

interpretation idle_trade: trade_relation "stays_idle cfg" S cfg rounds for cfg S rounds
proof unfold_locales
  show "keeps (stays_idle cfg) (ask (uuid S))" "keeps (stays_idle cfg) (kalshi_balance S cfg)"
    "keeps (stays_idle cfg) (pm_get_balance_usdc S)"
    by (intro no_orders_idle keep)+
  show "list_all (\<lambda>(v, place). obeys (stays_idle cfg) place) (active_gateways S cfg rounds)"
    using no_orders_idle [OF no_orders_sim] stays_idle_real [OF locked_places(1)] stays_idle_real [OF locked_places(2)]
    by (auto simp: active_gateways_def real_gateways_def sim_gateways_def intro!: stays_idle.obeys_op)
qed

lemma grows_balance [keep]: "keeps grows (kalshi_balance S cfg)" "keeps grows (pm_get_balance_usdc S)"
  unfolding kalshi_balance_def kalshi_get_balance_def pm_get_balance_usdc_def Let_def by (intro keep)+

lemma grows_sim: "keeps grows (sim_place S cfg v rq)"
  unfolding sim_place_def Let_def get_fee_rate_bps_def
  by (intro keep) (auto split: fee_reply.split intro!: keep)

interpretation lasting_trade: trade_relation "lasting cfg" S cfg rounds for cfg S rounds
proof unfold_locales
  show "keeps (lasting cfg) (ask (uuid S))" "keeps (lasting cfg) (kalshi_balance S cfg)"
    "keeps (lasting cfg) (pm_get_balance_usdc S)"
    by (intro lasting_grows keep)+
  show "list_all (\<lambda>(v, place). obeys (lasting cfg) place) (active_gateways S cfg rounds)"
    using lasting_grows [OF grows_sim] lasting_places
    by (auto simp: active_gateways_def real_gateways_def sim_gateways_def intro!: lasting.obeys_op)
qed

section \<open>Schedules of the legs\<close>

text \<open>
  What a scheduler of the legs does to the world: it may submit any order to the engine, make a
  single call of a gateway through its breaker (the parts two concurrent executions are made of),
  trip the kill switch and let time pass, in any order and any number of times.
\<close>

datatype leg_act = Submit string order_request | Attempt order_request | Trip string | Wait nat

fun leg_step :: "'x services \<Rightarrow> config \<Rightarrow> nat \<Rightarrow> 'x venues world \<Rightarrow> leg_act \<Rightarrow> 'x venues world" where
  "leg_step S cfg rounds w (Submit k rq) = snd (engine_execute S cfg rounds k rq w)"
| "leg_step S cfg rounds w (Attempt rq) =
     (case map_of (active_gateways S cfg rounds) (rq_venue rq) of
        None \<Rightarrow> w
      | Some place \<Rightarrow> snd (attempt_once cfg place rq w))"
| "leg_step S cfg rounds w (Trip reason) = trip_world reason w"
| "leg_step S cfg rounds w (Wait n) = tick n w"

definition scheduled :: "'x services \<Rightarrow> config \<Rightarrow> nat \<Rightarrow> 'x runner \<Rightarrow> bool" where
  "scheduled S cfg rounds legs \<longleftrightarrow> (\<forall>b c k w. \<exists>acts. snd (legs b c k w) = run (leg_step S cfg rounds) w acts)"

context trade_relation begin

lemma leg_step_R: "R w (leg_step S cfg rounds w a)"
proof (cases a)
  case (Submit k rq)
  then show ?thesis
    using execute_R [OF R_table, of "sha S" cfg k rq w]
    by (auto simp: engine_execute_def split: prod.split)
next
  case (Attempt rq)
  have "obeys R place" if "map_of (active_gateways S cfg rounds) v = Some place" for v place
    using R_table map_of_SomeD [OF that] by (auto simp: list_all_iff)
  then show ?thesis
    using Attempt by (auto split: option.split intro: R_refl attempt_R [OF _ prod.collapse [symmetric]])
next
  case (Trip reason)
  then show ?thesis by (simp add: R_trip)
next
  case (Wait n)
  then show ?thesis by (simp add: tick_def R_same)
qed

lemma scheduled_keeps: "scheduled S cfg rounds legs \<Longrightarrow> keeps R (legs b c k)"
proof -
  have run: "R w (run (leg_step S cfg rounds) w acts)" for w acts
    by (induction acts arbitrary: w) (auto intro: R_refl R_trans leg_step_R)
  assume "scheduled S cfg rounds legs"
  then show ?thesis using run unfolding keeps_def scheduled_def by metis
qed

end

lemma sequential_scheduled: "scheduled S cfg rounds (sequential_legs S cfg rounds)"
proof -
  have "snd (sequential_legs S cfg rounds b c k w) =
      run (leg_step S cfg rounds) w [Submit (k @ '':buy'') b, Submit (k @ '':sell'') c]" for b c k w
    by (simp add: sequential_legs_def engine_execute_def bind_def ret_def split: prod.split)
  then show ?thesis unfolding scheduled_def by blast
qed

section \<open>Properties of sessions\<close>

text \<open>A calendar, a permissive risk model and a desk; an opportunity worth five contracts.\<close>

definition open_desk :: "nat shop" where
  "open_desk = \<lparr>dk = \<lparr>daily_loss = 0, daily_reset_date = None, live_in_flight = 0, ledger = None\<rparr>, wl = armed_world\<rparr>"

definition calm_env :: desk_env where
  "calm_env = \<lparr>risk_assess = (\<lambda>_ _. Inr (0, 1)), allowlisted = (\<lambda>_ _. True), day_of = (\<lambda>_. ''2026-01-01'')\<rparr>"

definition spread :: obj where
  "spread = [(''opportunity_id'', JStr ''o1''), (''buy_platform'', JStr ''kalshi''), (''sell_platform'', JStr ''polymarket''),
     (''kalshi_price'', JNum (fl (40 / 100))), (''polymarket_price'', JNum (fl (1 / 2))),
     (''max_tradeable_volume'', JInt 5), (''total_profit'', JInt 1), (''polymarket_token'', JStr ''t1''),
     (''match_data'', JObj [(''kalshi_market'', JObj [(''id'', JStr ''KX'')])])]"

text \<open>C13. Paper trading and the lock: while the desk is in paper mode or the live-trading lock is off, no
  session of trades sends an order to either venue, whatever the opportunities are and whatever
  orders, gateway calls, trips and waits the scheduling of the legs puts in whatever order; and the
  desk stays that way.\<close>
theorem idle_session_sends_nothing:
  assumes "idle cfg (wl s)" and "scheduled S cfg rounds legs"
    and "s' = run (trade_step S E cfg rounds legs) s opps"
  shows "posts (net (wl s')) = posts (net (wl s)) \<and> p_sent (net (wl s')) = p_sent (net (wl s)) \<and> idle cfg (wl s')"
proof -
  have "stays_idle cfg (wl s) (wl s')"
    unfolding assms(3) by (rule idle_trade.session_R) (rule idle_trade.scheduled_keeps [OF assms(2)])
  then show ?thesis using assms(1) by (simp add: stays_idle_def unsent_def)
qed

theorem idle_session_sends_nothing_witness:
  "p_sent (net (wl (run (trade_step filling_services calm_env default_config 5
     (sequential_legs filling_services default_config 5)) open_desk [spread, spread]))) = []"
proof -
  have "idle default_config (wl open_desk)" and "p_sent (net (wl open_desk)) = []" by code_simp+
  then show ?thesis
    using idle_session_sends_nothing [OF _ sequential_scheduled refl, of default_config open_desk
      filling_services calm_env 5 "[spread, spread]"]
    by (metis (no_types))
qed

text \<open>Trading does not resume by itself: through any session of trades a halt stays in force, the
  lock stays as it was, and what was sent is only ever added to.\<close>
theorem session_never_resumes:
  assumes "\<And>b c k. keeps (lasting cfg) (legs b c k)"
    and "w' = wl (run (trade_step S E cfg rounds legs) s opps)" and "w = wl s"
  shows "(halted cfg (safe w) \<longrightarrow> halted cfg (safe w')) \<and> is_armed cfg (safe w') = is_armed cfg (safe w) \<and>
    prefix (k_sent (net w)) (k_sent (net w')) \<and> prefix (p_sent (net w)) (p_sent (net w'))"
proof -
  have "lasting cfg w w'" unfolding assms(2,3) by (rule lasting_trade.session_R) (rule assms(1))
  then show ?thesis by (simp add: lasting_def)
qed

theorem session_never_resumes_witness:
  "halted live_config (safe (wl (run (trade_step filling_services calm_env live_config 5
     (sequential_legs filling_services live_config 5)) (open_desk\<lparr>wl := trip_world ''test'' armed_world\<rparr>) [spread])))"
proof -
  have "halted live_config (safe (trip_world ''test'' armed_world))" by code_simp
  then show ?thesis
    using session_never_resumes [OF _ refl refl, of live_config "sequential_legs filling_services live_config 5"
      "open_desk\<lparr>wl := trip_world ''test'' armed_world\<rparr>" filling_services calm_env 5 "[spread]"]
    by (simp add: lasting_trade.keeps_sequential open_desk_def del: run.simps)
qed

end
