(* ===== verification/Sizing.thy ===== *)
theory Sizing
  imports Trade
begin

text \<open>
  How large a trade is: the number of contracts of both legs, computed in floats and floored, and
  what it costs. Half a millionth is the slack of the float operations for caps up to ten million.
\<close>

section \<open>The size of the legs\<close>

lemma half_step_float: "\<bar>m\<bar> \<le> 9007199254740992 \<Longrightarrow> is_float (of_int m / 2097152)"
  by (rule f64.R_exact [of _ m "-21"]) (auto simp: power_int_minus divide_simps)

text \<open>A float operation cannot lift a number that is a millionth below a whole number up to it.\<close>

lemma floor_slack:
  assumes "of_int k \<le> fadd x (fl (1 / 1000000000))" and "\<bar>k\<bar> \<le> 2147483647"
  shows "of_int k < x + 1 / 2097152"
proof (rule ccontr)
  assume "\<not> of_int k < x + 1 / 2097152"
  moreover have "fl (1 / 1000000000) \<le> 1 / 4194304" by code_simp
  ultimately have "x + fl (1 / 1000000000) \<le> of_int k - 1 / 4194304" by linarith
  also have "\<dots> = of_int (4194304 * k - 1) / 4194304" by (simp add: field_simps)
  finally have "fadd x (fl (1 / 1000000000)) \<le> of_int (4194304 * k - 1) / 4194304"
    unfolding fadd_def
    by (rule fl_le [rotated], intro f64.R_exact [of _ "4194304 * k - 1" "-22"]) (use assms(2) in \<open>auto simp: power_int_minus divide_simps\<close>)
  also have "\<dots> < of_int k" by (simp add: field_simps)
  finally show False using assms(1) by simp
qed

lemma div_slack:
  assumes "of_int k < fdiv c p + 1 / 2097152" and "\<bar>k\<bar> \<le> 2147483647" and "0 < p"
  shows "of_int k < c / p + 1 / 1048576"
proof (rule ccontr)
  assume "\<not> of_int k < c / p + 1 / 1048576"
  then have "c / p \<le> of_int (1048576 * k - 1) / 1048576" by (simp add: field_simps)
  then have "fdiv c p \<le> of_int (1048576 * k - 1) / 1048576"
    unfolding fdiv_def
    by (rule fl_le [rotated], intro f64.R_exact [of _ "1048576 * k - 1" "-20"]) (use assms(2) in \<open>auto simp: power_int_minus divide_simps\<close>)
  with assms(1) show False by (simp add: field_simps)
qed

lemma cap_contracts_bounds:
  assumes "0 < cap_contracts cfg v p" and "notional_cap cfg \<le> 10000000"
  shows "\<exists>n::int. cap_contracts cfg v p = of_int n \<and> 1 \<le> n \<and> of_int n < v + 1 / 2097152 \<and>
    of_int n * max p (fl (1 / 100)) < notional_cap cfg + max p (fl (1 / 100)) / 1048576"
proof -
  let ?q = "max p (fl (1 / 100))" and ?c = "notional_cap cfg"
  define n where "n = \<lfloor>fadd (min v (fdiv ?c ?q)) (fl (1 / 1000000000))\<rfloor>"
  have e: "1 / 128 \<le> fl (1 / 100)" by code_simp
  then have q: "0 < ?q" by (smt (verit) divide_pos_pos max.cobounded2 order_less_le_trans zero_less_numeral zero_less_one)
  have pos: "0 < n" using assms(1) fl_nonneg [of "- of_int n"] unfolding cap_contracts_def Let_def n_def [symmetric]
    by (metis f64.R_nonpos linorder_not_le of_int_le_0_iff)
  have "fdiv ?c ?q \<le> fl 1280000000"
    unfolding fdiv_def
  proof (rule fl_mono)
    have "?c / ?q \<le> 10000000 / (1 / 128)"
      using assms(2) q e by (intro frac_le) auto
    then show "?c / ?q \<le> 1280000000" by simp
  qed
  then have "fadd (min v (fdiv ?c ?q)) (fl (1 / 1000000000)) \<le> fadd (fl 1280000000) (fl (1 / 1000000000))"
    by (intro fadd_mono) auto
  also have "\<dots> \<le> 1280000001" by code_simp
  finally have n: "n \<le> 1280000001" unfolding n_def by linarith
  have low: "of_int n \<le> fadd (min v (fdiv ?c ?q)) (fl (1 / 1000000000))" unfolding n_def by simp
  have "of_int n < min v (fdiv ?c ?q) + 1 / 2097152" using n pos by (intro floor_slack [OF low]) auto
  then have "of_int n < v + 1 / 2097152" and d: "of_int n < fdiv ?c ?q + 1 / 2097152" by auto
  moreover have "of_int n * ?q < ?c + ?q / 1048576"
    using div_slack [OF d _ q] n pos q by (simp add: field_simps)
  moreover have "cap_contracts cfg v p = of_int n"
    unfolding cap_contracts_def Let_def n_def [symmetric] using n pos by (intro fl_int) auto
  ultimately show ?thesis using pos by auto
qed

lemma leg_simps [simp]:
  "rq_venue (kalshi_leg a v p t sd oid l) = KALSHI" "rq_venue (pm_leg cfg a v p tk oid l) = POLYMARKET"
  "rq_action (kalshi_leg a v p t sd oid l) = a" "rq_action (pm_leg cfg a v p tk oid l) = a"
  "rq_size (kalshi_leg a v p t sd oid l) = v" "rq_size (pm_leg cfg a v p tk oid l) = v"
  "rq_limit_price (kalshi_leg a v p t sd oid l) = p" "rq_limit_price (pm_leg cfg a v p tk oid l) = p"
  "\<not> rq_risk_reducing (kalshi_leg a v p t sd oid l)" "\<not> rq_risk_reducing (pm_leg cfg a v p tk oid l)"
  by (simp_all add: kalshi_leg_def pm_leg_def order_request_of_def)

lemma build_legs_parts:
  assumes "build_legs cfg opp = Inr (Some (b, c))"
  shows "\<exists>v. capped_volume cfg opp = Inr v \<and> 0 < v \<and> rq_size b = v \<and> rq_size c = v \<and>
    \<not> rq_risk_reducing b \<and> \<not> rq_risk_reducing c \<and> {rq_venue b, rq_venue c} = {KALSHI, POLYMARKET} \<and>
    rq_action b = ''buy'' \<and>
    rq_action c = (if get_or (JStr ''same_outcome'') opp ''strategy_type'' = JStr ''complementary'' then ''buy'' else ''sell'')"
proof -
  obtain km ticker v where km: "jget (get_or (JObj []) opp ''match_data'') ''kalshi_market'' (JObj []) = Inr km"
    and t: "jget km ''id'' (JStr []) = Inr ticker" and v: "capped_volume cfg opp = Inr v"
    using assms unfolding build_legs_def Let_def by (auto split: sum.splits)
  from assms km t v obtain kp pp where "0 < v" "py_float (get_or (JInt 0) opp ''kalshi_price'') = Inr kp"
    "py_float (get_or (JInt 0) opp ''polymarket_price'') = Inr pp"
    unfolding build_legs_def by (auto simp: Let_def split: sum.splits if_splits)
  with assms km t v show ?thesis
    unfolding build_legs_def by (auto simp: Let_def insert_commute split: sum.splits if_splits)
qed

lemma spread_values:
  "py_float (get_or (JInt 0) spread ''max_tradeable_volume'') = Inr 5"
  "buy_price spread = Inr (fl (40 / 100))"
  by code_simp+

lemma spread_legs: "\<exists>b c. build_legs live_config spread = Inr (Some (b, c)) \<and> rq_size b = 5"
proof -
  have "cap_contracts live_config 5 (fl (40 / 100)) = 5" by code_simp
  then have v: "capped_volume live_config spread = Inr 5" by (simp add: capped_volume_def spread_values)
  show ?thesis unfolding build_legs_def v
    by (simp add: spread_def get_or_def jget_def Let_def)
qed

text \<open>C32. What is sized is what is allowed: the two legs of an opportunity are for the same whole number of
  contracts, at least one, no more than the tradeable volume (up to a float's rounding of half a
  millionth), and their number times the price of the buying leg (at least a cent) stays within the
  notional cap, in live mode the smaller of the two caps, up to a millionth of the price.\<close>
theorem legs_within_caps:
  assumes "build_legs cfg opp = Inr (Some (b, c))" and "notional_cap cfg \<le> 10000000"
    and "py_float (get_or (JInt 0) opp ''max_tradeable_volume'') = Inr v" and "buy_price opp = Inr p"
  shows "\<exists>n::int. rq_size b = of_int n \<and> rq_size c = of_int n \<and> 1 \<le> n \<and> of_int n < v + 1 / 2097152 \<and>
    of_int n * max p (fl (1 / 100)) < notional_cap cfg + max p (fl (1 / 100)) / 1048576"
proof -
  have "capped_volume cfg opp = Inr (cap_contracts cfg v p)" using assms(3,4) by (simp add: capped_volume_def)
  then have "0 < cap_contracts cfg v p" "rq_size b = cap_contracts cfg v p" "rq_size c = cap_contracts cfg v p"
    using build_legs_parts [OF assms(1)] by auto
  then show ?thesis using cap_contracts_bounds [OF _ assms(2)] by simp
qed

theorem legs_within_caps_witness:
  "\<exists>b c. build_legs live_config spread = Inr (Some (b, c)) \<and> rq_size b = 5 \<and>
     (\<exists>n::int. rq_size c = of_int n \<and> 1 \<le> n \<and> of_int n < 5 + 1 / (2097152 :: rat))"
proof -
  obtain b c where l: "build_legs live_config spread = Inr (Some (b, c))" and five: "rq_size b = 5"
    using spread_legs by blast
  moreover have "notional_cap live_config \<le> 10000000" by code_simp
  ultimately show ?thesis using legs_within_caps [OF l _ spread_values(1,2)] by auto
qed

text \<open>An opportunity whose two legs buy complementary outcomes.\<close>

definition complementary_pair :: obj where
  "complementary_pair = [(''opportunity_id'', JStr ''o2''), (''strategy_type'', JStr ''complementary''),
     (''strategy'', JStr ''S3''), (''buy_platform'', JStr ''kalshi''),
     (''kalshi_price'', JNum (fl (10 / 100))), (''polymarket_price'', JNum (fl (80 / 100))),
     (''max_tradeable_volume'', JInt 100), (''total_profit'', JInt 5)]"

text \<open>The live cap is not per leg: the size is capped by the price on the buying platform only. With
  Kalshi at 10 cents and Polymarket at 80 the pair is 50 contracts, so the Kalshi leg costs the five
  dollars of the cap and the Polymarket leg forty, although the setting is documented as a hard
  clamp of every leg.\<close>
theorem live_cap_not_per_leg:
  "LIVE_MAX_NOTIONAL_USD live_config = 5 \<and>
   (case build_legs live_config complementary_pair of
      Inr (Some (b, c)) \<Rightarrow>
        fmul (rq_size b) (rq_limit_price b) = 5 \<and> rq_action c = ''buy'' \<and> fmul (rq_size c) (rq_limit_price c) = 40
    | _ \<Rightarrow> False)"
proof -
  have "cap_contracts live_config 100 (fl (10 / 100)) = 50" by code_simp
  moreover have "py_float (get_or (JInt 0) complementary_pair ''max_tradeable_volume'') = Inr 100"
    "buy_price complementary_pair = Inr (fl (10 / 100))" by code_simp+
  ultimately have v: "capped_volume live_config complementary_pair = Inr 50" by (simp add: capped_volume_def)
  have "fmul 50 (fl (10 / 100)) = 5" "fmul 50 (fl (80 / 100)) = 40" by code_simp+
  moreover have "LIVE_MAX_NOTIONAL_USD live_config = 5" "kalshi_side (JStr ''S3'') = Inr ''yes''" by code_simp+
  ultimately show ?thesis unfolding build_legs_def v
    by (simp add: complementary_pair_def get_or_def jget_def Let_def)
qed

end
