(* ===== verification/Hedging.thy ===== *)
theory Hedging
  imports Trade
begin

text \<open>
  What happens to an imbalance between the legs, and what a trade leaves on the desk: the number of
  trades in flight, the loss account, the residual exposure.
\<close>

section \<open>Residual exposure\<close>

interpretation quiet_shop: world_relation "on_wl (no_orders cfg)" for cfg
  by unfold_locales (auto simp: on_wl_def no_orders_def same_gates_def)

lemma quiet_desk: "keeps (on_wl (no_orders cfg)) get_desk" "keeps (on_wl (no_orders cfg)) (put_desk f)"
  by (simp_all add: keeps_def on_wl_def get_desk_def put_desk_def no_orders_def same_gates_def)

lemmas quiet_intros = quiet_shop.keeps_intros quiet_desk keeps_on_world keep

lemma keeps_quiet_residual: "keeps (on_wl (no_orders cfg)) (record_residual_exposure S rq q p)"
  unfolding record_residual_exposure_def fresh_ids_def by (intro quiet_intros)

text \<open>Recording never raises and touches neither the gates nor the logs of orders.\<close>

lemma residual_quiet:
  "\<exists>s'. record_residual_exposure S rq q p s = (Inr (), s') \<and> no_orders cfg (wl s) (wl s')"
proof -
  obtain r s' where run: "record_residual_exposure S rq q p s = (r, s')" by (rule prod.exhaust)
  have "\<exists>s'. record_residual_exposure S rq q p s = (Inr (), s')"
    by (auto simp: record_residual_exposure_def fresh_ids_def get_desk_def put_desk_def on_world_def venue_op_defs
        prod.case_eq_if split: option.split sum.split)
  then show ?thesis using run keepsD [OF keeps_quiet_residual run] by (auto simp: on_wl_def)
qed

section \<open>The unwind\<close>

text \<open>The leg that filled more, with its outcome.\<close>

definition overfilled :: "order_request \<Rightarrow> order_outcome \<Rightarrow> order_request \<Rightarrow> order_outcome \<Rightarrow> order_request \<times> order_outcome" where
  "overfilled br bo sr so =
     (if 0 < fsub (oc_filled_size bo) (oc_filled_size so) then (br, bo) else (sr, so))"

lemma unwind_fields [simp]:
  "rq_venue (build_unwind_request cfg rq out q) = rq_venue rq" "rq_size (build_unwind_request cfg rq out q) = q"
  "rq_ticker (build_unwind_request cfg rq out q) = rq_ticker rq"
  "rq_token_id (build_unwind_request cfg rq out q) = rq_token_id rq"
  "rq_outcome_side (build_unwind_request cfg rq out q) = rq_outcome_side rq"
  "rq_risk_reducing (build_unwind_request cfg rq out q)"
  "rq_action (build_unwind_request cfg rq out q) = (if rq_action rq = ''buy'' then ''sell'' else ''buy'')"
  by (simp_all add: build_unwind_request_def Let_def)

lemma unwind_price:
  "fl (1 / 100) \<le> rq_limit_price (build_unwind_request cfg rq out q) \<and>
   rq_limit_price (build_unwind_request cfg rq out q) \<le> fl (99 / 100)"
proof -
  have "fl (1 / 100) \<le> fl (99 / 100)" by code_simp
  then show ?thesis by (auto simp: build_unwind_request_def Let_def)
qed

lemma active_gateway: "v \<in> {KALSHI, POLYMARKET} \<Longrightarrow> \<exists>place. map_of (active_gateways S cfg rounds) v = Some place"
  by (auto simp: active_gateways_def real_gateways_def sim_gateways_def)

lemma hedge_small:
  assumes "\<bar>fsub (oc_filled_size bo) (oc_filled_size so)\<bar> < 1"
  shows "\<exists>h s'. hedge S cfg rounds br bo sr so s = (Inr h, s') \<and> get h ''hedged'' = JBool True \<and>
    no_orders cfg (wl s) (wl s')"
proof (cases "\<bar>fsub (oc_filled_size bo) (oc_filled_size so)\<bar> \<le> EPS")
  case True
  then show ?thesis by (auto simp: hedge_def Let_def ret_def prod.case_eq_if no_orders_def same_gates_def)
next
  case False
  let ?o = "overfilled br bo sr so" and ?q = "\<bar>fsub (oc_filled_size bo) (oc_filled_size so)\<bar>"
  obtain s' where s': "record_residual_exposure S (fst ?o) ?q (oc_avg_price (snd ?o)) s = (Inr (), s')"
    "no_orders cfg (wl s) (wl s')" using residual_quiet by blast
  show ?thesis
    using False assms s' by (auto simp: hedge_def Let_def bind_def ret_def overfilled_def split: if_splits)
qed

lemma hedge_large:
  fixes bo so :: order_outcome and br sr :: order_request
  defines "q \<equiv> \<bar>fsub (oc_filled_size bo) (oc_filled_size so)\<bar>" and "over \<equiv> overfilled br bo sr so"
  assumes "1 \<le> q"
    and "execute (sha S) cfg (active_gateways S cfg rounds)
      (py_str (get (rq_meta (fst over)) ''opportunity_id'') @ '':hedge'')
      (build_unwind_request cfg (fst over) (snd over) q) (wl s) = (out, rq', cs, w1)"
  shows "\<exists>h s'. hedge S cfg rounds br bo sr so s = (Inr h, s') \<and>
    get h ''hedged'' = JBool (fsub q (oc_filled_size out) \<le> max EPS (fmul q (fl (1 / 100)))) \<and>
    (if fsub q (oc_filled_size out) \<le> max EPS (fmul q (fl (1 / 100))) then s' = s\<lparr>wl := w1\<rparr>
     else halted cfg (safe (wl s')) \<and> posts (net (wl s')) = posts (net w1) \<and> p_sent (net (wl s')) = p_sent (net w1))"
proof -
  let ?res = "fsub q (oc_filled_size out)" and ?bound = "max EPS (fmul q (fl (1 / 100)))"
  let ?trip = "s\<lparr>wl := trip_world (''unwind_failed:'' @ py_str (get (rq_meta (fst over)) ''opportunity_id'')) w1\<rparr>"
  obtain s2 where s2: "record_residual_exposure S (fst over) ?res (oc_avg_price (snd over)) ?trip = (Inr (), s2)"
    "no_orders cfg (wl ?trip) (wl s2)" using residual_quiet by blast
  have eps: "\<not> q \<le> EPS"
  proof -
    have "EPS < 1" by code_simp
    with assms(3) show ?thesis by simp
  qed
  have "hedge S cfg rounds br bo sr so s =
     (Inr [(''hedged'', JBool (?res \<le> ?bound)), (''residual'', JNum ?res),
           (''unwind_order_id'', opt_json (oc_order_id out)), (''unwind_filled'', JNum (oc_filled_size out))],
      if ?bound < ?res then s2 else s\<lparr>wl := w1\<rparr>)"
    using assms(3,4) eps s2(1) unfolding hedge_def Let_def q_def [symmetric] overfilled_def [symmetric] over_def [symmetric]
    by (simp add: prod.case_eq_if bind_def ret_def on_world_def engine_execute_def trip_switch_def)
  then show ?thesis using s2(2) by (auto simp: no_orders_def same_gates_def not_le)
qed

section \<open>An order Kalshi executes at once\<close>

lemma post_executed:
  assumes "is_armed cfg (safe w)" and "\<not> halted cfg (safe w) \<or> rr"
    and "is_set (api_key S)" "is_set (key_path S)" "key_exists S (the (key_path S))"
      "\<And>msg. pss_sign S (the (key_path S)) msg = Some sig"
    and "\<And>q x. kalshi_http S q x = (Reply 200 data, g x)"
  shows "\<exists>q w'. kalshi_request S cfg ''POST'' ep body rr w = (Inr data, w') \<and>
    posts (net w') = posts (net w) @ [(q, rr)] \<and> hq_body q = body"
proof -
  have gate: "mutation_blocked cfg ''POST'' rr (safe w) = None"
    using assms(1,2) by (auto simp: mutation_blocked_def prod.case_eq_if)
  show ?thesis
    using assms(3-7)
    by (simp add: kalshi_request_def kalshi_auth_headers_def send_request_def gate venue_op_defs is_set_def Let_def posts_def)
qed

lemma kalshi_place_executed:
  assumes armed: "is_armed cfg (safe w)" "\<not> halted cfg (safe w) \<or> rq_risk_reducing rq"
    and creds: "is_set (api_key S)" "is_set (key_path S)" "key_exists S (the (key_path S))"
      "\<And>msg. pss_sign S (the (key_path S)) msg = Some sig"
    and reply: "\<And>q x. kalshi_http S q x = (Reply 200 data, g x)"
    and data: "\<not> has_key ''error'' data" "get_or (JObj []) data ''order'' = JObj order"
      "get_or (JStr []) order ''status'' = JStr ''executed''"
    and out: "kalshi_outcome rq order (opt_text (get_or (JStr []) order ''order_id'')) (rq_client_order_id rq) data = Inr oc"
    and "has_client_order_id rq" and "1 \<le> trunc (rq_size rq)"
  shows "\<exists>q w' body. kalshi_place S cfg n rq w = (Inr oc, w') \<and> posts (net w') = posts (net w) @ [(q, rq_risk_reducing rq)] \<and>
    hq_body q = Some body \<and> get body ''count'' = JInt (trunc (rq_size rq))"
proof -
  let ?w = "w\<lparr>safe := snd (assert_or_warn cfg (safe w))\<rparr>"
  let ?body = "order_body cfg (rq_ticker rq) (rq_outcome_side rq) (rq_action rq) (trunc (rq_size rq))
    (price_to_cents (rq_limit_price rq)) (if rq_ttl_seconds rq = 0 then KALSHI_ORDER_TTL_SECONDS cfg else rq_ttl_seconds rq)
    (rq_client_order_id rq) (clock w (ticks w))"
  have id: "ensure_client_order_id (sha S) [] rq = rq" using assms(12) by (simp add: ensure_client_order_id_def)
  have lock: "lock_check cfg w = (Inr (True, snd (fst (assert_or_warn cfg (safe w)))), ?w)"
    using armed(1) by (simp add: lock_check_def prod.case_eq_if) (metis assert_or_warn_simps(1) prod.collapse)
  obtain q w' where post: "kalshi_request S cfg ''POST'' ''/portfolio/orders'' (Some ?body) (rq_risk_reducing rq) (tick 1 ?w) = (Inr data, w')"
    and q: "posts (net w') = posts (net (tick 1 ?w)) @ [(q, rq_risk_reducing rq)]" "hq_body q = Some ?body"
    using post_executed [of cfg "tick 1 ?w" "rq_risk_reducing rq" S sig data g "''/portfolio/orders''" "Some ?body"] armed creds reply
    by auto
  have "kalshi_place S cfg n rq w = (Inr oc, w')"
    using post data out assms(13)
    by (simp add: kalshi_place_def kalshi_place_order_def id lock bind_def now_def readings_def ret_def lift_def terminal_def Let_def)
  moreover have "get ?body ''count'' = JInt (trunc (rq_size rq))" by (simp add: order_body_def Let_def get_or_def)
  ultimately show ?thesis using q by auto
qed

text \<open>A risk-reducing order that is filled by the first call.\<close>

lemma execute_first_done:
  assumes "rq_risk_reducing rq" and "map_of gws (rq_venue rq) = Some (as_gateway place)"
    and "r = (ensure_client_order_id h [k] rq)\<lparr>rq_meta := AList.update ''attempt'' (JInt 0) (rq_meta rq)\<rparr>"
    and "place r w = (Inr oc, w')" and "is_done oc"
  shows "execute h cfg gws k rq w = (oc\<lparr>oc_attempts := 1\<rparr>, r, [(r, Returned oc)], w')"
proof -
  obtain n where n: "EXECUTION_MAX_RETRIES cfg + 1 = Suc n" by simp
  with assms show ?thesis by (simp add: execute_def attempt_once_def as_gateway_def Let_def)
qed

section \<open>Properties\<close>

text \<open>
  The order that undoes \<open>q\<close> contracts of a filled leg: the opposite side of the same contract on the
  same venue, for exactly \<open>q\<close>, to be filled at once, marked risk-reducing, at the price of the fill
  less the concession and inside the venues' limits.
\<close>

definition undoes :: "config \<Rightarrow> order_request \<Rightarrow> order_outcome \<Rightarrow> rat \<Rightarrow> order_request \<Rightarrow> bool" where
  "undoes cfg leg filled q u \<longleftrightarrow>
     rq_venue u = rq_venue leg \<and> rq_ticker u = rq_ticker leg \<and> rq_token_id u = rq_token_id leg \<and>
     rq_outcome_side u = rq_outcome_side leg \<and> rq_size u = q \<and> rq_risk_reducing u \<and>
     rq_tif u = (if rq_venue leg = POLYMARKET then ''FOK'' else ''IOC'') \<and>
     (let paid = (if oc_avg_price filled = 0 then rq_limit_price leg else oc_avg_price filled);
          inside = (\<lambda>p. min (fl (99 / 100)) (max (fl (1 / 100)) p))
      in if rq_action leg = ''buy''
         then rq_action u = ''sell'' \<and> rq_limit_price u = inside (fsub paid (HEDGE_PRICE_CONCESSION cfg))
         else rq_action u = ''buy'' \<and> rq_limit_price u = inside (fadd paid (HEDGE_PRICE_CONCESSION cfg)))"

lemma unwind_undoes: "undoes cfg rq out q (build_unwind_request cfg rq out q)"
  by (simp add: undoes_def build_unwind_request_def Let_def)

lemma over_is_larger:
  fixes bo so :: order_outcome
  assumes "1 \<le> \<bar>fsub (oc_filled_size bo) (oc_filled_size so)\<bar>"
  shows "overfilled br bo sr so = (if oc_filled_size so < oc_filled_size bo then (br, bo) else (sr, so))"
proof -
  let ?a = "oc_filled_size bo" and ?b = "oc_filled_size so"
  have "fsub ?a ?b \<le> 0" if "?a \<le> ?b" unfolding fsub_def using that by (intro fl_le) auto
  moreover have "0 \<le> fsub ?a ?b" if "?b \<le> ?a" unfolding fsub_def using that by (intro fl_ge) auto
  ultimately show ?thesis using assms by (fastforce simp: overfilled_def)
qed

text \<open>C12. An imbalance is neutralised or trading stops. Less than one contract is left alone: nothing is
  sent and the gates do not change. From one contract on the leg that filled more is undone: one order
  on the opposite side of its contract, for exactly the imbalance, goes through the engine and
  reaches the venue's gateway; if what it leaves is within the tolerance the desk is as the engine
  left it and reports the hedge, and if not the kill switch is tripped and the hedge is reported as
  failed. The hedge never raises.\<close>
theorem hedge_neutralises_or_halts:
  fixes bo so :: order_outcome
  assumes "q = \<bar>fsub (oc_filled_size bo) (oc_filled_size so)\<bar>"
    and "(leg, filled) = (if oc_filled_size so < oc_filled_size bo then (br, bo) else (sr, so))"
    and "rq_venue leg \<in> {KALSHI, POLYMARKET}"
  shows "\<exists>h s'. hedge S cfg rounds br bo sr so s = (Inr h, s') \<and>
    (if q < 1 then get h ''hedged'' = JBool True \<and> no_orders cfg (wl s) (wl s')
     else \<exists>u k out rq' c cs w1. undoes cfg leg filled q u \<and>
       execute (sha S) cfg (active_gateways S cfg rounds) k u (wl s) = (out, rq', c # cs, w1) \<and>
       (let neutral = fsub q (oc_filled_size out) \<le> max EPS (fmul q (fl (1 / 100))) in
        get h ''hedged'' = JBool neutral \<and>
        (if neutral then s' = s\<lparr>wl := w1\<rparr>
         else halted cfg (safe (wl s')) \<and> posts (net (wl s')) = posts (net w1) \<and> p_sent (net (wl s')) = p_sent (net w1))))"
proof (cases "q < 1")
  case True
  then show ?thesis using hedge_small [of bo so S cfg rounds br sr s] assms(1) by auto
next
  case False
  then have q: "1 \<le> \<bar>fsub (oc_filled_size bo) (oc_filled_size so)\<bar>" using assms(1) by simp
  then have over: "overfilled br bo sr so = (leg, filled)" using over_is_larger assms(2) by metis
  let ?u = "build_unwind_request cfg leg filled q"
  let ?k = "py_str (get (rq_meta leg) ''opportunity_id'') @ '':hedge''"
  obtain out rq' cs w1 where e: "execute (sha S) cfg (active_gateways S cfg rounds) ?k ?u (wl s) = (out, rq', cs, w1)"
    by (rule prod_cases4)
  obtain place where "map_of (active_gateways S cfg rounds) (rq_venue leg) = Some place"
    using active_gateway [OF assms(3)] by blast
  then have "cs \<noteq> []" using risk_reducing_called [of ?u "active_gateways S cfg rounds" place "sha S" cfg ?k "wl s"] e by simp
  then obtain c cs' where cs: "cs = c # cs'" by (cases cs) auto
  have "execute (sha S) cfg (active_gateways S cfg rounds)
      (py_str (get (rq_meta (fst (overfilled br bo sr so))) ''opportunity_id'') @ '':hedge'')
      (build_unwind_request cfg (fst (overfilled br bo sr so)) (snd (overfilled br bo sr so))
        \<bar>fsub (oc_filled_size bo) (oc_filled_size so)\<bar>) (wl s) = (out, rq', cs, w1)"
    using e unfolding over assms(1) by simp
  from hedge_large [OF q this] obtain h s' where h: "hedge S cfg rounds br bo sr so s = (Inr h, s')"
    "get h ''hedged'' = JBool (fsub q (oc_filled_size out) \<le> max EPS (fmul q (fl (1 / 100))))"
    "if fsub q (oc_filled_size out) \<le> max EPS (fmul q (fl (1 / 100))) then s' = s\<lparr>wl := w1\<rparr>
     else halted cfg (safe (wl s')) \<and> posts (net (wl s')) = posts (net w1) \<and> p_sent (net (wl s')) = p_sent (net w1)"
    unfolding assms(1) by blast
  have "if q < 1 then get h ''hedged'' = JBool True \<and> no_orders cfg (wl s) (wl s')
     else \<exists>u k out rq' c cs w1. undoes cfg leg filled q u \<and>
       execute (sha S) cfg (active_gateways S cfg rounds) k u (wl s) = (out, rq', c # cs, w1) \<and>
       (let neutral = fsub q (oc_filled_size out) \<le> max EPS (fmul q (fl (1 / 100))) in
        get h ''hedged'' = JBool neutral \<and>
        (if neutral then s' = s\<lparr>wl := w1\<rparr>
         else halted cfg (safe (wl s')) \<and> posts (net (wl s')) = posts (net w1) \<and> p_sent (net (wl s')) = p_sent (net w1)))"
    unfolding if_not_P [OF False] Let_def
    by (intro exI conjI, rule unwind_undoes, rule e [unfolded cs], rule h(2), rule h(3))
  with h(1) show ?thesis by blast
qed

text \<open>The outcomes of a leg that filled \<open>x\<close> contracts at 40 cents.\<close>

definition filled_leg :: "string \<Rightarrow> rat \<Rightarrow> order_outcome" where
  "filled_leg v x = (order_outcome_of v FILLED 5)\<lparr>oc_filled_size := x, oc_avg_price := fl (40 / 100)\<rparr>"

theorem hedge_neutralises_or_halts_witness:
  "\<exists>u k out rq' c cs w1. undoes live_config kalshi_buy (filled_leg KALSHI 5) 5 u \<and>
     execute (sha filling_services) live_config (active_gateways filling_services live_config 5) k u
       (calm_world empty_venues) = (out, rq', c # cs, w1)"
proof -
  let ?s = "open_desk\<lparr>wl := calm_world empty_venues\<rparr>"
  have q: "5 = \<bar>fsub (oc_filled_size (filled_leg KALSHI 5)) (oc_filled_size (filled_leg POLYMARKET 0))\<bar>"
    and v: "rq_venue kalshi_buy \<in> {KALSHI, POLYMARKET}" by code_simp+
  have l: "(kalshi_buy, filled_leg KALSHI 5) =
      (if oc_filled_size (filled_leg POLYMARKET 0) < oc_filled_size (filled_leg KALSHI 5)
       then (kalshi_buy, filled_leg KALSHI 5) else (pm_buy, filled_leg POLYMARKET 0))"
    by (simp add: filled_leg_def)
  have "\<not> (5 :: rat) < 1" by simp
  with hedge_neutralises_or_halts [OF q l v, of filling_services live_config 5 ?s]
  obtain u k out rq' c cs w1 where "undoes live_config kalshi_buy (filled_leg KALSHI 5) 5 u"
    "execute (sha filling_services) live_config (active_gateways filling_services live_config 5) k u (wl ?s) = (out, rq', c # cs, w1)"
    by (simp only: if_not_P simp_thms ex_simps) blast
  then show ?thesis by (intro exI conjI) simp_all
qed

text \<open>The unwind is never blocked: it takes the opposite side of the leg on the same market and venue,
  for the whole imbalance, at a price inside the venues' limits, and it reaches the venue's gateway
  in every world, also when trading is halted or the breaker of the venue is open.\<close>
theorem unwind_never_blocked:
  assumes "rq_venue rq \<in> {KALSHI, POLYMARKET}" and "u = build_unwind_request cfg rq out q"
  shows "rq_venue u = rq_venue rq \<and> rq_ticker u = rq_ticker rq \<and> rq_token_id u = rq_token_id rq \<and>
    rq_outcome_side u = rq_outcome_side rq \<and> rq_size u = q \<and>
    rq_action u = (if rq_action rq = ''buy'' then ''sell'' else ''buy'') \<and>
    fl (1 / 100) \<le> rq_limit_price u \<and> rq_limit_price u \<le> fl (99 / 100) \<and>
    fst (snd (snd (execute h cfg (active_gateways S cfg rounds) k u w))) \<noteq> []"
proof -
  obtain place where "map_of (active_gateways S cfg rounds) (rq_venue rq) = Some place"
    using active_gateway [OF assms(1)] by blast
  then have "fst (snd (snd (execute h cfg (active_gateways S cfg rounds) k u w))) \<noteq> []"
    by (intro risk_reducing_called) (simp_all add: assms(2))
  then show ?thesis using unwind_price [of cfg rq out q] by (simp add: assms(2))
qed

theorem unwind_never_blocked_witness:
  "fst (snd (snd (execute (\<lambda>s. s) live_config (active_gateways filling_services live_config 5) ''k''
     (build_unwind_request live_config kalshi_buy (filled_leg KALSHI 5) 5) (trip_world ''test'' armed_world)))) \<noteq> []"
proof -
  have "rq_venue kalshi_buy \<in> {KALSHI, POLYMARKET}" by code_simp
  then show ?thesis using unwind_never_blocked [OF _ refl] by blast
qed

section \<open>The desk after a trade\<close>

text \<open>The number of trades in flight is written in one place.\<close>

definition same_flight :: "'x shop \<Rightarrow> 'x shop \<Rightarrow> bool" where
  "same_flight s s' \<longleftrightarrow> live_in_flight (dk s') = live_in_flight (dk s)"

interpretation same_flight: world_relation same_flight
  by unfold_locales (auto simp: same_flight_def)

lemma same_flight_ops:
  "keeps same_flight (on_world m)" "keeps same_flight get_desk"
  "(\<And>d. live_in_flight (f d) = live_in_flight d) \<Longrightarrow> keeps same_flight (put_desk f)"
  by (auto simp: keeps_def same_flight_def on_world_def get_desk_def put_desk_def prod.case_eq_if)

lemmas flight_intros = same_flight.keeps_intros same_flight_ops keeps_if keeps_option keeps_sum keeps_prod

lemma reset_flight [simp]: "live_in_flight (maybe_reset_daily_loss E t d) = live_in_flight d"
  by (simp add: maybe_reset_daily_loss_def Let_def)

lemma flight_parts:
  "keeps same_flight (pre_flight_checks S E cfg opp)" "keeps same_flight (settle_legs S cfg rounds oid opp t0 lr)"
  "keeps same_flight (skipped_result oid opp r t0)"
  unfolding pre_flight_checks_def balance_gate_def settle_legs_def build_result_def skipped_result_def hedge_def
    record_residual_exposure_def Let_def
  by (intro flight_intros; simp)+

lemma flight_bracket:
  "keeps same_flight (bind (add_in_flight 1) (\<lambda>_. bind (finally_do (on_world m) (add_in_flight (- 1))) f))"
  if "\<And>x. keeps same_flight (f x)"
  using that
  by (auto simp: keeps_def same_flight_def bind_def finally_do_def add_in_flight_def put_desk_def on_world_def
      prod.case_eq_if split: sum.split)

text \<open>C33. No leak of trades in flight: whatever the legs do, also when running them raises, a trade leaves
  the number of live trades in flight as it found it, so the concurrency cap never blocks an idle
  desk.\<close>
theorem in_flight_restored:
  "live_in_flight (dk (snd (run_arbitrage S E cfg rounds legs opp s))) = live_in_flight (dk s)"
proof -
  have "keeps same_flight (run_arbitrage S E cfg rounds legs opp)"
    unfolding run_arbitrage_def Let_def by (intro flight_bracket flight_intros flight_parts)
  then show ?thesis by (simp add: keeps_def same_flight_def)
qed

text \<open>The shop when the pre-flight checks begin: an identifier was drawn and the clock was read.\<close>

definition at_checks :: "'x services \<Rightarrow> 'x shop \<Rightarrow> 'x shop" where
  "at_checks S s = s\<lparr>wl := tick 1 ((wl s)\<lparr>net := (net (wl s))\<lparr>outside := snd (uuid S (outside (net (wl s))))\<rparr>\<rparr>)\<rparr>"

lemma at_checks_simps [simp]:
  "safe (wl (at_checks S s)) = safe (wl s)" "clock (wl (at_checks S s)) = clock (wl s)"
  "ticks (wl (at_checks S s)) = Suc (ticks (wl s))" "dk (at_checks S s) = dk s"
  "k_sent (net (wl (at_checks S s))) = k_sent (net (wl s))" "p_sent (net (wl (at_checks S s))) = p_sent (net (wl s))"
  by (simp_all add: at_checks_def tick_def)

lemma rejected_trade:
  assumes "pre_flight_checks S E cfg opp (at_checks S s) = (Inr (Some reason), s2)" and "reason \<noteq> []"
    and "py_float (get_or (JInt 0) opp ''max_tradeable_volume'') = Inr v"
  shows "\<exists>r. run_arbitrage S E cfg rounds legs opp s = (Inr (r, None), s2\<lparr>wl := tick 2 (wl s2)\<rparr>) \<and>
    er_filled_volume r = 0 \<and> er_skipped_reason r = Some reason"
proof -
  obtain hex x where u: "uuid S (outside (net (wl s))) = (hex, x)" by (rule prod.exhaust)
  note pf = assms(1) [unfolded at_checks_def u tick_def, simplified]
  show ?thesis
    using assms(2)
    by (simp add: run_arbitrage_def skipped_result_def on_world_def bind_def ask_def now_def ret_def lift_def u pf
        assms(3) is_set_def Let_def tick_def)
qed

text \<open>A halted desk does not trade: in live mode, while placement is halted, a trade ends with the
  reason of the halt before the legs are built, whatever the opportunity and the legs would do;
  nothing is sent and nothing on the desk changes.\<close>
theorem halted_desk_skips:
  assumes "live_mode cfg" and "halted cfg (safe (wl s))"
    and "py_float (get_or (JInt 0) opp ''max_tradeable_volume'') = Inr v"
  shows "\<exists>r s'. run_arbitrage S E cfg rounds legs opp s = (Inr (r, None), s') \<and>
    er_skipped_reason r = halt_reason cfg (safe (wl s)) \<and> er_skipped_reason r \<noteq> None \<and> er_filled_volume r = 0 \<and>
    dk s' = dk s \<and> k_sent (net (wl s')) = k_sent (net (wl s)) \<and> p_sent (net (wl s')) = p_sent (net (wl s))"
proof -
  obtain why where why: "halt_reason cfg (safe (wl s)) = Some (''halted:'' @ why)"
    using assms(1,2) by (auto simp: halt_reason_def prod.case_eq_if)
  have "pre_flight_checks S E cfg opp (at_checks S s) = (Inr (Some (''halted:'' @ why)), at_checks S s)"
    by (simp add: pre_flight_checks_def bind_def on_world_def get_safe_def ret_def why)
  from rejected_trade [OF this _ assms(3), of rounds legs] why show ?thesis by auto
qed

theorem halted_desk_skips_witness:
  "er_filled_volume (fst (projr (fst (run_arbitrage filling_services calm_env live_config 5
     (sequential_legs filling_services live_config 5) spread (open_desk\<lparr>wl := trip_world ''test'' armed_world\<rparr>))))) = 0"
proof -
  have "live_mode live_config" "py_float (get_or (JInt 0) spread ''max_tradeable_volume'') = Inr 5" by code_simp+
  from halted_desk_skips [OF this(1) _ this(2), of "open_desk\<lparr>wl := trip_world ''test'' armed_world\<rparr>" filling_services calm_env 5
      "sequential_legs filling_services live_config 5"]
  show ?thesis by auto
qed

text \<open>C34. The daily loss limit: once the day's net loss reaches the limit, a trade on the same day is
  skipped for that reason, nothing is sent and the loss stands, in paper mode too.\<close>
theorem loss_limit_stops_the_day:
  assumes "halt_reason cfg (safe (wl s)) = None" and "MAX_DAILY_LOSS_USD cfg \<le> daily_loss (dk s)"
    and "daily_reset_date (dk s) = Some (day_of E (clock (wl s) (Suc (ticks (wl s)))))"
    and "py_float (get_or (JInt 0) opp ''max_tradeable_volume'') = Inr v"
  shows "\<exists>r s'. run_arbitrage S E cfg rounds legs opp s = (Inr (r, None), s') \<and>
    er_skipped_reason r = Some ''daily_loss_limit'' \<and> er_filled_volume r = 0 \<and>
    dk s' = dk s \<and> k_sent (net (wl s')) = k_sent (net (wl s)) \<and> p_sent (net (wl s')) = p_sent (net (wl s))"
proof -
  let ?s2 = "(at_checks S s)\<lparr>wl := tick 1 (wl (at_checks S s))\<rparr>"
  have same: "maybe_reset_daily_loss E (clock (wl s) (Suc (ticks (wl s)))) (dk s) = dk s"
    using assms(3) by (simp add: maybe_reset_daily_loss_def)
  have "pre_flight_checks S E cfg opp (at_checks S s) = (Inr (Some ''daily_loss_limit''), ?s2)"
    using assms(2)
    by (simp add: pre_flight_checks_def bind_def on_world_def get_safe_def now_def readings_def get_desk_def put_desk_def
        ret_def assms(1) same)
  from rejected_trade [OF this _ assms(4), of rounds legs] show ?thesis by auto
qed

theorem loss_limit_stops_the_day_witness:
  "er_filled_volume (fst (projr (fst (run_arbitrage filling_services calm_env default_config 5
     (sequential_legs filling_services default_config 5) spread
     (open_desk\<lparr>dk := \<lparr>daily_loss = 50, daily_reset_date = Some ''2026-01-01'', live_in_flight = 0, ledger = None\<rparr>\<rparr>))))) = 0"
proof -
  let ?s = "open_desk\<lparr>dk := \<lparr>daily_loss = 50, daily_reset_date = Some ''2026-01-01'', live_in_flight = 0, ledger = None\<rparr>\<rparr>"
  have "halt_reason default_config (safe (wl ?s)) = None" "MAX_DAILY_LOSS_USD default_config \<le> daily_loss (dk ?s)"
    "daily_reset_date (dk ?s) = Some (day_of calm_env (clock (wl ?s) (Suc (ticks (wl ?s)))))"
    "py_float (get_or (JInt 0) spread ''max_tradeable_volume'') = Inr 5" by code_simp+
  from loss_limit_stops_the_day [OF this, of filling_services 5 "sequential_legs filling_services default_config 5"]
  show ?thesis by auto
qed

section \<open>The loss account\<close>

definition same_loss :: "'x shop \<Rightarrow> 'x shop \<Rightarrow> bool" where
  "same_loss s s' \<longleftrightarrow> daily_loss (dk s') = daily_loss (dk s)"

interpretation same_loss: world_relation same_loss
  by unfold_locales (auto simp: same_loss_def)

lemma same_loss_ops:
  "keeps same_loss (on_world m)" "keeps same_loss get_desk"
  "(\<And>d. daily_loss (f d) = daily_loss d) \<Longrightarrow> keeps same_loss (put_desk f)"
  by (auto simp: keeps_def same_loss_def on_world_def get_desk_def put_desk_def prod.case_eq_if)

lemmas loss_intros = same_loss.keeps_intros same_loss_ops keeps_if keeps_option keeps_sum keeps_prod

lemma loss_parts: "keeps same_loss (hedge S cfg rounds br bo sr so)" "keeps same_loss (skipped_result oid opp r t0)"
  unfolding hedge_def skipped_result_def record_residual_exposure_def Let_def
  by (intro loss_intros; simp)+

lemma skipped_result_value:
  "skipped_result oid opp reason t0 s = (Inr r, s') \<Longrightarrow> er_skipped_reason r = Some reason \<and> er_net_profit r = 0"
  by (auto simp: skipped_result_def bind_def lift_def ret_def raise_def split: prod.splits sum.splits)

lemma build_result_loss:
  assumes "build_result S cfg oid opp bo so m t0 s = (Inr r, s')"
  shows "er_skipped_reason r = None \<and> daily_loss (dk s') = fsub (daily_loss (dk s)) (er_net_profit r)"
  using assms
  by (auto simp: build_result_def bind_def lift_def ret_def raise_def put_desk_def on_world_def Let_def
      split: prod.splits sum.splits)

text \<open>What counts as a loss: a trade whose legs match enters the day's account with its net profit,
  which is reported, and nothing else does. In particular a trade of which only one leg filled
  leaves the account as it was, whatever the unwind of that leg cost: such losses never reach the
  daily limit.\<close>
theorem only_matched_part_is_booked:
  assumes "settle_legs S cfg rounds oid opp t0 lr s = (Inr (r, h), s')"
    and "matched = min (oc_filled_size (coerce_outcome (lr_buy lr) (lr_buy_req lr)))
      (oc_filled_size (coerce_outcome (lr_sell lr) (lr_sell_req lr)))"
  shows "(er_skipped_reason r = None \<longleftrightarrow> EPS < matched) \<and>
    (if EPS < matched then daily_loss (dk s') = fsub (daily_loss (dk s)) (er_net_profit r)
     else daily_loss (dk s') = daily_loss (dk s) \<and> er_net_profit r = 0)"
proof -
  let ?b = "coerce_outcome (lr_buy lr) (lr_buy_req lr)" and ?s = "coerce_outcome (lr_sell lr) (lr_sell_req lr)"
  define m where "m = (if EPS < \<bar>fsub (oc_filled_size ?b) (oc_filled_size ?s)\<bar> \<and> HEDGE_ENABLED cfg
    then bind (hedge S cfg rounds (lr_buy_req lr) ?b (lr_sell_req lr) ?s) (\<lambda>h. ret (Some h)) else ret None :: ('a, obj option) sop)"
  obtain x s1 where m: "m s = (x, s1)" by (rule prod.exhaust)
  have "keeps same_loss m" unfolding m_def by (intro loss_intros loss_parts)
  then have s1: "daily_loss (dk s1) = daily_loss (dk s)" using m unfolding keeps_def same_loss_def by (metis snd_conv)
  show ?thesis
  proof (cases "EPS < matched")
    case True
    with assms m obtain y where "build_result S cfg oid opp ?b ?s matched t0 s1 = (Inr r, s')"
      by (auto simp: settle_legs_def Let_def m_def [symmetric] bind_def ret_def split: prod.splits sum.splits)
    from build_result_loss [OF this] True s1 show ?thesis by simp
  next
    case False
    with assms m obtain reason where sk: "skipped_result oid opp reason t0 s1 = (Inr r, s')"
      by (auto simp: settle_legs_def Let_def m_def [symmetric] bind_def ret_def split: prod.splits sum.splits)
    have "daily_loss (dk s') = daily_loss (dk s1)"
      using keepsD [OF loss_parts(2) sk] by (simp add: same_loss_def)
    with skipped_result_value [OF sk] False s1 show ?thesis by simp
  qed
qed

text \<open>The legs of the example: Kalshi bought five, Polymarket sold \<open>x\<close>.\<close>

definition legs_filled :: "rat \<Rightarrow> legs_result" where
  "legs_filled x = \<lparr>lr_buy = Leg_done (filled_leg KALSHI 5), lr_buy_req = kalshi_buy,
     lr_sell = Leg_done (filled_leg POLYMARKET x), lr_sell_req = pm_buy, lr_timed_out = False\<rparr>"

theorem only_matched_part_is_booked_witness:
  "\<exists>r h s'. settle_legs filling_services default_config 5 (JStr ''o1'') spread 0 (legs_filled 5) open_desk = (Inr (r, h), s') \<and>
     er_skipped_reason r = None \<and> daily_loss (dk s') = fsub 0 (er_net_profit r)"
proof -
  let ?e = "settle_legs filling_services default_config 5 (JStr ''o1'') spread 0 (legs_filled 5) open_desk"
  have "case fst ?e of Inr (r, h) \<Rightarrow> er_skipped_reason r = None | _ \<Rightarrow> False" by code_simp
  then obtain r h where r: "?e = (Inr (r, h), snd ?e)" "er_skipped_reason r = None"
    by (cases ?e) (auto split: sum.splits)
  have "daily_loss (dk open_desk) = 0" by code_simp
  with only_matched_part_is_booked [OF r(1) refl] r show ?thesis by (auto split: if_splits)
qed

section \<open>What the checks miss\<close>

text \<open>Services whose Kalshi fills one contract of an order, and the unwind of 1.4 contracts.\<close>

definition one_filled :: obj where
  "one_filled = [(''order_id'', JStr ''k1''), (''status'', JStr ''executed''), (''count_filled'', JInt 1)]"

definition one_contract_services :: "nat services" where
  "one_contract_services = filling_services\<lparr>kalshi_http := (\<lambda>rq x. (Reply 200 [(''order'', JObj one_filled)], x + 1))\<rparr>"

definition unwind_rest :: order_request where
  "unwind_rest = build_unwind_request live_config kalshi_buy (filled_leg KALSHI 5) (fsub 5 (fl (18 / 5)))"

lemma unwind_rest_places:
  assumes "r = (ensure_client_order_id h [k] unwind_rest)\<lparr>rq_meta := m\<rparr>"
  shows "\<exists>oc q w' body. kalshi_place one_contract_services live_config 5 r armed_world = (Inr oc, w') \<and> is_done oc \<and>
    oc_filled_size oc = 1 \<and> posts (net w') = [(q, True)] \<and> hq_body q = Some body \<and> get body ''count'' = JInt 1"
proof -
  have size: "rq_size r = fsub 5 (fl (18 / 5))" and rr: "rq_risk_reducing r" and id: "has_client_order_id r"
    by (simp_all add: assms unwind_rest_def has_id_ensure [simplified has_client_order_id_def] has_client_order_id_def)
  have one: "trunc (fsub 5 (fl (18 / 5))) = 1" by code_simp
  have ids: "fill_ids_of one_filled = Inr []" and n: "get_or (JInt 0) one_filled ''count_filled'' = JInt 1"
    and avg: "get one_filled ''average_fill_price'' = JNull" by code_simp+
  obtain oc where out: "kalshi_outcome r one_filled (opt_text (get_or (JStr []) one_filled ''order_id'')) (rq_client_order_id r)
      [(''order'', JObj one_filled)] = Inr oc" and oc: "oc_filled_size oc = 1" "oc_status oc = FILLED"
    by (simp add: kalshi_outcome_def ids n avg size one order_outcome_of_def)
  have "is_armed live_config (safe armed_world)" "posts (net armed_world) = []" "is_set (api_key one_contract_services)"
    "is_set (key_path one_contract_services)" "\<not> has_key ''error'' [(''order'', JObj one_filled)]"
    "get_or (JObj []) [(''order'', JObj one_filled)] ''order'' = JObj one_filled"
    "get_or (JStr []) one_filled ''status'' = JStr ''executed''" by code_simp+
  then show ?thesis
    using kalshi_place_executed [of live_config armed_world r one_contract_services "''c2ln''" "[(''order'', JObj one_filled)]"
        "\<lambda>x. x + 1" one_filled oc 5] rr id out oc size one
    by (auto simp: one_contract_services_def filling_services_def is_done_def)
qed

text \<open>A fractional remainder does stop trading: an imbalance of 1.4 contracts on Kalshi is unwound as one
  whole contract (the gateway truncates), the 0.4 left is over the tolerance of one percent, and
  the kill switch is tripped, although a remainder below one contract is documented as dust that
  must not trip it.\<close>
theorem fractional_unwind_trips_kill_switch:
  "\<not> halted live_config (safe (wl open_desk)) \<and>
   (\<exists>h s' q body. hedge one_contract_services live_config 5 kalshi_buy (filled_leg KALSHI 5) pm_buy
        (filled_leg POLYMARKET (fl (18 / 5))) open_desk = (Inr h, s') \<and>
      get h ''hedged'' = JBool False \<and> halted live_config (safe (wl s')) \<and>
      posts (net (wl s')) = [(q, True)] \<and> hq_body q = Some body \<and> get body ''count'' = JInt 1)"
proof -
  let ?q = "\<bar>fsub 5 (fl (18 / 5))\<bar>"
  have f: "oc_filled_size (filled_leg KALSHI 5) = 5" "oc_filled_size (filled_leg POLYMARKET (fl (18 / 5))) = fl (18 / 5)"
    by (simp_all add: filled_leg_def)
  have pos: "0 < fsub 5 (fl (18 / 5))" and c: "1 \<le> ?q" "\<not> fsub ?q 1 \<le> max EPS (fmul ?q (fl (1 / 100)))"
    "\<not> halted live_config (safe (wl open_desk))" by code_simp+
  have over: "overfilled kalshi_buy (filled_leg KALSHI 5) pm_buy (filled_leg POLYMARKET (fl (18 / 5))) =
      (kalshi_buy, filled_leg KALSHI 5)" using pos by (simp add: overfilled_def f)
  let ?k = "py_str (get (rq_meta kalshi_buy) ''opportunity_id'') @ '':hedge''"
  let ?r = "(ensure_client_order_id (sha one_contract_services) [?k] unwind_rest)
    \<lparr>rq_meta := AList.update ''attempt'' (JInt 0) (rq_meta unwind_rest)\<rparr>"
  obtain oc q w' body where p: "kalshi_place one_contract_services live_config 5 ?r armed_world = (Inr oc, w')" "is_done oc"
    "oc_filled_size oc = 1" "posts (net w') = [(q, True)]" "hq_body q = Some body" "get body ''count'' = JInt 1"
    using unwind_rest_places [OF refl] by blast
  have u: "rq_risk_reducing unwind_rest" "rq_venue unwind_rest = KALSHI"
    by (simp_all add: unwind_rest_def kalshi_buy_def order_request_of_def)
  have g: "map_of (active_gateways one_contract_services live_config 5) (rq_venue unwind_rest) =
      Some (as_gateway (kalshi_place one_contract_services live_config 5))"
    by (simp add: u active_gateways_def real_gateways_def live_config_def)
  have e: "execute (sha one_contract_services) live_config (active_gateways one_contract_services live_config 5) ?k
      (build_unwind_request live_config kalshi_buy (filled_leg KALSHI 5) ?q) (wl open_desk) =
      (oc\<lparr>oc_attempts := 1\<rparr>, ?r, [(?r, Returned oc)], w')"
    using execute_first_done [OF u(1) g refl p(1,2)] pos by (simp add: unwind_rest_def open_desk_def)
  show ?thesis
    using hedge_large [of "filled_leg KALSHI 5" "filled_leg POLYMARKET (fl (18 / 5))" one_contract_services live_config 5 kalshi_buy pm_buy open_desk] c e p(3-6)
    by (auto simp: f over)
qed

text \<open>The concurrency cap is checked, not claimed: two trades may both pass the pre-flight checks before
  either is counted as in flight (the checks await the balance after looking at the counter), and
  then two are in flight although the cap is one.\<close>
theorem concurrency_cap_not_reserved:
  "LIVE_MAX_CONCURRENT_POSITIONS live_config = 1 \<and>
   (case bind (pre_flight_checks filling_services calm_env live_config spread) (\<lambda>first.
         bind (pre_flight_checks filling_services calm_env live_config spread) (\<lambda>second.
         bind (add_in_flight 1) (\<lambda>_. bind (add_in_flight 1) (\<lambda>_. ret (first, second))))) open_desk
    of (r, s) \<Rightarrow> r = Inr (None, None) \<and> live_in_flight (dk s) = 2)"
  by code_simp

end
