(* ===== verification/Reconcile.thy ===== *)
theory Reconcile
  imports Placement ConfirmedPnL
begin

text \<open>
  \<open>reconcile.py\<close>: the ledger rebuilt from the capture file, the venues' records written into its
  fills, and settlement once both venues report resolution. The file is given as its lines, each
  blank, unparsable or a JSON value; identifiers in a row are text or absent, as the capture writes
  them. Of several records of one order the code reads the first. The public Gamma catalog is the
  parameter \<open>gamma\<close>: a status and a payload, or an exception. Fills are updated in place, so an
  exception leaves the updates made before it.
\<close>

section \<open>The ledger from the capture file\<close>

datatype capture_line = Blank_line | Bad_line | Row json

text \<open>\<open>float(r.get(k) or d)\<close>.\<close>

definition float_or :: "obj \<Rightarrow> string \<Rightarrow> rat \<Rightarrow> pyexn + rat" where
  "float_or r k d = (if truthy (get r k) then py_float (get r k) else Inr d)"

definition row_leg :: "obj \<Rightarrow> string \<Rightarrow> rat \<Rightarrow> rat \<Rightarrow> rat \<Rightarrow> new_fill" where
  "row_leg r leg price vol fee =
     \<lparr>nf_leg = leg, nf_fill_id = opt_text (get r (leg @ ''_fill_id'')),
      nf_platform = py_str (get_or (JStr []) r (leg @ ''_platform'')),
      nf_price = price, nf_size = vol, nf_fee = fee,
      nf_order_id = opt_text (get r (leg @ ''_order_id'')), nf_trade_id = opt_text (get r (leg @ ''_trade_id'')),
      nf_market_id = None, nf_token_id = None, nf_timestamp = None, nf_source = ''exchange''\<rparr>"

definition row_receipt :: "obj \<Rightarrow> rat \<Rightarrow> new_fill \<Rightarrow> new_fill \<Rightarrow> rat \<Rightarrow> receipt" where
  "row_receipt r vol buy sell ts =
     \<lparr>rc_opportunity_id = py_str (get_or (JStr ''unknown'') r ''opportunity_id''),
      rc_execution_id = opt_text (get r ''execution_id''), rc_buy = buy, rc_sell = sell,
      rc_settlement_id = opt_text (get r ''settlement_id''),
      rc_metadata = [(''kalshi_ticker'', get r ''kalshi_ticker''), (''polymarket_token'', get r ''polymarket_token'')],
      rc_strategy_type = opt_text (get r ''strategy_type''), rc_mark_confirmed = True, rc_mark_settled = False,
      rc_timestamp = Some ts\<rparr>"

text \<open>One line; \<open>ids\<close> and \<open>t\<close> are the identifiers drawn and the time read for it.\<close>

definition capture_row :: "obj \<Rightarrow> (nat \<Rightarrow> string) \<Rightarrow> rat \<Rightarrow> tracker \<Rightarrow> pyexn + tracker" where
  "capture_row r ids t tr =
     (if truthy (get r ''skipped_reason'') \<or> get r ''confirmation_source'' \<noteq> JStr ''exchange'' then Inr tr
      else case float_or r ''filled_volume'' 0 of Inl e \<Rightarrow> Inl e | Inr vol \<Rightarrow>
        if vol \<le> 0 then Inr tr
        else case float_or r ''avg_buy_price'' 0 of Inl e \<Rightarrow> Inl e | Inr bp \<Rightarrow>
          case float_or r ''buy_fees'' 0 of Inl e \<Rightarrow> Inl e | Inr bf \<Rightarrow>
          case float_or r ''avg_sell_price'' 0 of Inl e \<Rightarrow> Inl e | Inr sp \<Rightarrow>
          case float_or r ''sell_fees'' 0 of Inl e \<Rightarrow> Inl e | Inr sf \<Rightarrow>
          case float_or r ''ts'' t of Inl e \<Rightarrow> Inl e | Inr ts \<Rightarrow>
          case record_execution_receipt
                 (row_receipt r vol (row_leg r ''buy'' bp vol bf) (row_leg r ''sell'' sp vol sf) ts) ids t tr of
            Inl e \<Rightarrow> Inl e | Inr (_, tr') \<Rightarrow> Inr tr')"

fun capture_rows ::
    "capture_line list \<Rightarrow> (nat \<Rightarrow> nat \<Rightarrow> string) \<Rightarrow> (nat \<Rightarrow> rat) \<Rightarrow> nat \<Rightarrow> tracker \<Rightarrow> pyexn + tracker" where
  "capture_rows [] ids ts n tr = Inr tr"
| "capture_rows (Blank_line # ls) ids ts n tr = capture_rows ls ids ts (Suc n) tr"
| "capture_rows (Bad_line # ls) ids ts n tr = capture_rows ls ids ts (Suc n) tr"
| "capture_rows (Row v # ls) ids ts n tr =
     (if \<not> is_obj v then Inl AttributeError
      else case capture_row (obj_of v) (ids n) (ts n) tr of
        Inl e \<Rightarrow> Inl e | Inr tr' \<Rightarrow> capture_rows ls ids ts (Suc n) tr')"

text \<open>\<open>None\<close> is a file that does not exist.\<close>

definition tracker_from_capture ::
    "capture_line list option \<Rightarrow> bool \<Rightarrow> (nat \<Rightarrow> nat \<Rightarrow> string) \<Rightarrow> (nat \<Rightarrow> rat) \<Rightarrow> pyexn + tracker" where
  "tracker_from_capture file allow_simulated ids ts =
     (let tr = new_tracker allow_simulated 5000 in
      case file of None \<Rightarrow> Inr tr | Some ls \<Rightarrow> capture_rows ls ids ts 0 tr)"

section \<open>Records of the venues\<close>

definition first_record :: "json \<Rightarrow> json" where
  "first_record v = (case v of JList (x # _) \<Rightarrow> x | _ \<Rightarrow> v)"

text \<open>The record after the update, and whether it was updated or an exception.\<close>

definition apply_kalshi_fill :: "fill_record \<Rightarrow> json \<Rightarrow> fill_record \<times> (pyexn + bool)" where
  "apply_kalshi_fill fr venue =
     (if \<not> truthy venue \<or> \<not> is_obj (first_record venue) then (fr, Inr False)
      else
        let f = obj_of (first_record venue);
            tid = get_first f [''trade_id'', ''fill_id''];
            fr1 = (if truthy tid
                   then fr\<lparr>fr_trade_id := Some (py_str tid),
                           fr_fill_id := (if fr_fill_id fr = [] then py_str tid else fr_fill_id fr)\<rparr>
                   else fr);
            fee = (if get f ''fee_cents'' \<noteq> JNull then get f ''fee_cents'' else get f ''fee'')
        in if fee = JNull then (fr1\<lparr>fr_source := ''exchange''\<rparr>, Inr True)
           else case py_float fee of
             Inl e \<Rightarrow> (fr1, Inl e)
           | Inr c \<Rightarrow> (fr1\<lparr>fr_fee := fdiv c 100, fr_source := ''exchange''\<rparr>, Inr True))"

definition apply_poly_trade :: "fill_record \<Rightarrow> json \<Rightarrow> fill_record \<times> (pyexn + bool)" where
  "apply_poly_trade fr venue =
     (if \<not> truthy venue \<or> \<not> is_obj (first_record venue) then (fr, Inr False)
      else
        let t = obj_of (first_record venue);
            tid = get_first t [''id'', ''transaction_hash'', ''trade_id''];
            fr1 = (if truthy tid then fr\<lparr>fr_trade_id := Some (py_str tid)\<rparr> else fr)
        in if get t ''fee'' = JNull then (fr1\<lparr>fr_source := ''exchange''\<rparr>, Inr True)
           else case py_float (get t ''fee'') of
             Inl e \<Rightarrow> (fr1, Inl e)
           | Inr c \<Rightarrow> (fr1\<lparr>fr_fee := c, fr_source := ''exchange''\<rparr>, Inr True))"

section \<open>The reconciler\<close>

record 'x recon =
  rt :: tracker
  rw :: "'x venues world"

type_synonym ('x, 'a) rop = "('x recon, 'a) op"

text \<open>Which clients there are, and what they and Gamma answer.\<close>

record 'x recon_env =
  re_services :: "'x services"
  re_config :: config
  re_kalshi :: bool
  re_poly :: bool
  re_gamma :: "string \<Rightarrow> 'x \<Rightarrow> (string + int \<times> json) \<times> 'x"

definition on_venues :: "('x, 'a) vop \<Rightarrow> ('x, 'a) rop" where
  "on_venues m = (\<lambda>s. let (r, w) = m (rw s) in (r, s\<lparr>rw := w\<rparr>))"

definition get_tracker :: "('x, tracker) rop" where "get_tracker = (\<lambda>s. (Inr (rt s), s))"

text \<open>A call of the tracker that raises leaves it as it was.\<close>

definition track :: "(tracker \<Rightarrow> pyexn + 'a \<times> tracker) \<Rightarrow> ('x, 'a) rop" where
  "track f = (\<lambda>s. case f (rt s) of Inl e \<Rightarrow> (Inl (exn_text e), s) | Inr (x, tr) \<Rightarrow> (Inr x, s\<lparr>rt := tr\<rparr>))"

text \<open>\<open>_safe\<close>: \<open>None\<close> (here \<open>JNull\<close>) when the call raises.\<close>

definition safely :: "('x, json) vop \<Rightarrow> ('x, json) rop" where
  "safely m = on_venues (catch m (\<lambda>_. ret JNull))"

definition leg_fills :: "string \<Rightarrow> execution \<Rightarrow> fill_record list" where
  "leg_fills leg e = (if leg = ''buy'' then ex_buy_fills e else ex_sell_fills e)"

definition set_fill :: "string \<Rightarrow> nat \<Rightarrow> fill_record \<Rightarrow> execution \<Rightarrow> execution" where
  "set_fill leg i fr e =
     (if leg = ''buy'' then e\<lparr>ex_buy_fills := (ex_buy_fills e)[i := fr]\<rparr>
      else e\<lparr>ex_sell_fills := (ex_sell_fills e)[i := fr]\<rparr>)"

text \<open>\<open>updated |= apply(fr, venue)\<close> for fill \<open>i\<close> of a leg.\<close>

definition update_fill ::
    "(fill_record \<Rightarrow> json \<Rightarrow> fill_record \<times> (pyexn + bool)) \<Rightarrow> string \<Rightarrow> string \<Rightarrow> nat \<Rightarrow> json \<Rightarrow> ('x, bool) rop" where
  "update_fill app k leg i venue =
     (\<lambda>s. case map_of (executions (rt s)) k of
        None \<Rightarrow> (Inr False, s)
      | Some e \<Rightarrow>
          if i < length (leg_fills leg e) then
            let (fr, r) = app (leg_fills leg e ! i) venue;
                s' = s\<lparr>rt := put_execution k (set_fill leg i fr e) (rt s)\<rparr>
            in (case r of Inl x \<Rightarrow> Inl (exn_text x) | Inr b \<Rightarrow> Inr b, s')
          else (Inr False, s))"

definition reconcile_fill :: "'x recon_env \<Rightarrow> string \<Rightarrow> string \<times> nat \<Rightarrow> fill_record \<Rightarrow> ('x, bool) rop" where
  "reconcile_fill E k pos fr =
     (case pos of (leg, i) \<Rightarrow>
      if fr_platform fr = ''kalshi'' \<and> re_kalshi E \<and> is_set (fr_order_id fr) then
        bind (safely (kalshi_get_fills (re_services E) (re_config E) (fr_order_id fr) None 100))
          (update_fill apply_kalshi_fill k leg i)
      else if fr_platform fr = ''polymarket'' \<and> re_poly E \<and> is_set (fr_order_id fr) then
        bind (safely (pm_get_trades (re_services E) (fr_order_id fr)))
          (update_fill apply_poly_trade k leg i)
      else ret False)"

fun reconcile_leg :: "'x recon_env \<Rightarrow> string \<Rightarrow> string \<Rightarrow> nat \<Rightarrow> fill_record list \<Rightarrow> ('x, bool) rop" where
  "reconcile_leg E k leg i [] = ret False"
| "reconcile_leg E k leg i (fr # fs) =
     bind (reconcile_fill E k (leg, i) fr) (\<lambda>b.
     bind (reconcile_leg E k leg (Suc i) fs) (\<lambda>b'. ret (b \<or> b')))"

definition reconcile_fills :: "'x recon_env \<Rightarrow> string \<Rightarrow> ('x, bool) rop" where
  "reconcile_fills E k =
     bind get_tracker (\<lambda>tr.
     case map_of (executions tr) k of None \<Rightarrow> ret False
     | Some e \<Rightarrow>
         bind (reconcile_leg E k ''buy'' 0 (ex_buy_fills e)) (\<lambda>b.
         bind (reconcile_leg E k ''sell'' 0 (ex_sell_fills e)) (\<lambda>b'. ret (b \<or> b'))))"

section \<open>Settlement\<close>

text \<open>The list of markets a Gamma payload holds, if any.\<close>

definition gamma_markets :: "json \<Rightarrow> json" where
  "gamma_markets payload =
     (if is_obj payload
      then py_or (py_or (get (obj_of payload) ''markets'') (get (obj_of payload) ''data'')) (JList [payload])
      else payload)"

definition uma_resolved :: "json \<Rightarrow> bool" where
  "uma_resolved m \<longleftrightarrow> is_obj m \<and>
     lower (py_str (py_or (py_or (get (obj_of m) ''umaResolutionStatus'') (get (obj_of m) ''uma_resolution_status'')) (JStr [])))
       = ''resolved''"

definition gamma_market_resolved :: "json \<Rightarrow> bool" where
  "gamma_market_resolved payload = (case gamma_markets payload of JList ms \<Rightarrow> list_ex uma_resolved ms | _ \<Rightarrow> False)"

definition poly_resolved_via_gamma :: "'x recon_env \<Rightarrow> string \<Rightarrow> ('x, json) vop" where
  "poly_resolved_via_gamma E token =
     bind (ask_or_raise (re_gamma E (''/markets?clob_token_ids='' @ token @ ''&closed=true''))) (\<lambda>(status, data).
     ret (JBool (status = 200 \<and> gamma_market_resolved data)))"

text \<open>The venue's identifier of the market: from the metadata, else from the first fill there.\<close>

definition market_of :: "string \<Rightarrow> execution \<Rightarrow> json" where
  "market_of platform e =
     (let m = get (ex_metadata e) (if platform = ''kalshi'' then ''kalshi_ticker'' else ''polymarket_token'') in
      if truthy m then m
      else case filter (\<lambda>f. fr_platform f = platform) (ex_buy_fills e @ ex_sell_fills e) of
        [] \<Rightarrow> JNull
      | f # _ \<Rightarrow> if is_set (fr_market_id f) then opt_json (fr_market_id f) else opt_json (fr_token_id f))"

definition venue_resolved :: "'x recon_env \<Rightarrow> string \<Rightarrow> execution \<Rightarrow> ('x, bool) rop" where
  "venue_resolved E platform e =
     (if \<not> (if platform = ''kalshi'' then re_kalshi E else re_poly E) then ret False
      else
        let m = market_of platform e in
        if \<not> truthy m then ret False
        else if platform = ''kalshi''
        then bind (safely (bind (kalshi_is_resolved (re_services E) (re_config E) (Some (py_str m))) (\<lambda>b. ret (JBool b))))
               (\<lambda>v. ret (truthy v))
        else bind (safely (poly_resolved_via_gamma E (py_str m))) (\<lambda>v. ret (truthy v)))"

definition reconcile_settlement :: "'x recon_env \<Rightarrow> string \<Rightarrow> ('x, bool) rop" where
  "reconcile_settlement E k =
     bind get_tracker (\<lambda>tr.
     case map_of (executions tr) k of None \<Rightarrow> ret False
     | Some e \<Rightarrow>
         if is_settled e \<or> \<not> has_confirmed_legs e then ret False
         else
           bind (venue_resolved E ''kalshi'' e) (\<lambda>k_done.
           bind (venue_resolved E ''polymarket'' e) (\<lambda>p_done.
           if k_done \<and> p_done then
             bind (on_venues now) (\<lambda>t.
             bind (on_venues (ask (uuid (re_services E)))) (\<lambda>hex.
             track (mark_settled (ex_id e) None (Some t) True hex t)))
           else ret False)))"

fun reconcile_each :: "'x recon_env \<Rightarrow> string \<Rightarrow> string list \<Rightarrow> nat \<times> nat \<Rightarrow> ('x, nat \<times> nat) rop" where
  "reconcile_each E mode [] acc = ret acc"
| "reconcile_each E mode (k # ks) acc =
     bind (if mode = ''fills'' \<or> mode = ''all'' then reconcile_fills E k else ret False) (\<lambda>b.
     bind (if mode = ''settlement'' \<or> mode = ''all'' then reconcile_settlement E k else ret False) (\<lambda>c.
     reconcile_each E mode ks (fst acc + (if b then 1 else 0), snd acc + (if c then 1 else 0))))"

definition reconcile_all :: "'x recon_env \<Rightarrow> string \<Rightarrow> ('x, nat \<times> nat) rop" where
  "reconcile_all E mode =
     bind get_tracker (\<lambda>tr. reconcile_each E mode (map fst (executions tr)) (0, 0))"

section \<open>The rebuilt ledger\<close>

text \<open>An execution that waits for its markets: live fills only, confirmed, not settled. While a receipt is
  booked the execution it belongs to is not confirmed yet.\<close>

definition live_open :: "execution \<Rightarrow> bool" where
  "live_open e \<longleftrightarrow> \<not> is_settled e \<and> list_all (\<lambda>f. fr_source f = ''exchange'') (fills_of e)"

definition waiting :: "execution \<Rightarrow> bool" where
  "waiting e \<longleftrightarrow> live_open e \<and> has_confirmed_legs e"

definition waiting_but :: "string \<Rightarrow> tracker \<Rightarrow> bool" where
  "waiting_but k tr \<longleftrightarrow> (\<forall>j e. map_of (executions tr) j = Some e \<longrightarrow> live_open e \<and> (j \<noteq> k \<longrightarrow> has_confirmed_legs e))"

definition all_waiting :: "tracker \<Rightarrow> bool" where
  "all_waiting tr \<longleftrightarrow> (\<forall>j e. map_of (executions tr) j = Some e \<longrightarrow> waiting e)"

lemma live_open_simps [simp]:
  "live_open (e\<lparr>ex_metadata := m\<rparr>) = live_open e" "live_open (e\<lparr>ex_buy_confirmed_at := c\<rparr>) = live_open e"
  "live_open (e\<lparr>ex_sell_confirmed_at := c\<rparr>) = live_open e"
  by (simp_all add: live_open_def is_settled_def fills_of_def)

lemma confirmed_simps [simp]:
  "has_confirmed_legs (e\<lparr>ex_metadata := m\<rparr>) = has_confirmed_legs e"
  "has_confirmed_legs (e\<lparr>ex_buy_fills := fs\<rparr>) = has_confirmed_legs e"
  "has_confirmed_legs (e\<lparr>ex_sell_fills := fs\<rparr>) = has_confirmed_legs e"
  by (simp_all add: has_confirmed_legs_def)

lemma fill_ids_executions [simp]: "executions (tr\<lparr>fill_ids := x\<rparr>) = executions tr"
  by simp

lemma waiting_register:
  "all_waiting tr \<Longrightarrow> register_execution opp buy sell exid md c u t tr = (k, tr') \<Longrightarrow> waiting_but k tr'"
  by (auto simp: register_execution_def Let_def all_waiting_def waiting_but_def waiting_def live_open_def is_settled_def
      fills_of_def has_confirmed_legs_def split: option.splits if_splits)

lemma waiting_confirm: "waiting_but k tr \<Longrightarrow> mark_leg_confirmed k leg c t tr = Inr tr' \<Longrightarrow> waiting_but k tr'"
  by (auto simp: mark_leg_confirmed_def Let_def waiting_but_def split: option.splits if_splits)

lemma waiting_fill:
  assumes "waiting_but k tr" and "record_fill k nf auto u t tr = Inr (b, tr')" and "nf_source nf = ''exchange''"
  shows "waiting_but k tr'"
proof -
  have src: "fr_source (fill_record_of nf fid t) = ''exchange''" for fid by (simp add: fill_record_of_def assms(3))
  have add: "live_open (e\<lparr>ex_buy_fills := ex_buy_fills e @ [fill_record_of nf fid t]\<rparr>)"
    "live_open (e\<lparr>ex_sell_fills := ex_sell_fills e @ [fill_record_of nf fid t]\<rparr>)" if "live_open e" for e fid
    using that by (auto simp: live_open_def fills_of_def is_settled_def src)
  obtain e where e: "map_of (executions tr) k = Some e"
    using assms(2) by (auto simp: record_fill_def split: option.splits)
  let ?fid = "or_else (nf_fill_id nf) (''fill-'' @ u)"
  let ?e = "if nf_leg nf = ''buy'' then e\<lparr>ex_buy_fills := ex_buy_fills e @ [fill_record_of nf ?fid t]\<rparr>
    else e\<lparr>ex_sell_fills := ex_sell_fills e @ [fill_record_of nf ?fid t]\<rparr>"
  let ?tr = "(put_execution k ?e tr)\<lparr>fill_ids := ?fid # fill_ids tr\<rparr>"
  have "waiting_but k ?tr" using assms(1) e add by (auto simp: waiting_but_def)
  moreover have "tr' = tr \<or> tr' = ?tr \<or> (\<exists>c. mark_leg_confirmed k (nf_leg nf) c t ?tr = Inr tr')"
    using assms(2) e by (auto simp: record_fill_def Let_def split: if_splits sum.splits)
  ultimately show ?thesis using assms(1) by (auto dest: waiting_confirm)
qed

lemma waiting_confirm_both:
  "waiting_but k tr \<Longrightarrow> confirm_both k c t tr = Inr tr' \<Longrightarrow> all_waiting tr'"
  by (auto simp: confirm_both_def mark_leg_confirmed_def Let_def waiting_but_def all_waiting_def waiting_def
      has_confirmed_legs_def split: option.splits sum.splits if_splits)

lemma waiting_receipt:
  assumes "all_waiting tr" and "record_execution_receipt rc ids t tr = Inr (k, tr')"
    and "rc_mark_confirmed rc" and "\<not> rc_mark_settled rc"
    and "nf_source (rc_buy rc) = ''exchange''" and "nf_source (rc_sell rc) = ''exchange''"
  shows "all_waiting tr'"
proof (rule receipt_steps [of rc ids t tr])
  fix k' tr1 tr2 tr3 tr4 tr5 b2 b3 md
  assume 0: "record_execution_receipt rc ids t tr = Inr (k', tr5)"
    and 1: "register_execution (rc_opportunity_id rc) (nf_platform (rc_buy rc)) (nf_platform (rc_sell rc))
       (rc_execution_id rc) md (rc_timestamp rc) (ids 0) t tr = (k', tr1)"
    and 2: "record_fill k' (receipt_leg rc ''buy'') (rc_mark_confirmed rc) (ids 1) t tr1 = Inr (b2, tr2)"
    and 3: "record_fill k' (receipt_leg rc ''sell'') (rc_mark_confirmed rc) (ids 2) t tr2 = Inr (b3, tr3)"
    and 4: "(if rc_mark_confirmed rc then confirm_both k' (rc_timestamp rc) t tr3 else Inr tr3) = Inr tr4"
    and 5: "tr5 = tr4 \<and> \<not> rc_mark_settled rc \<or> (\<exists>b. rc_mark_settled rc \<and>
       mark_settled k' (rc_settlement_id rc) (rc_timestamp rc) (rc_mark_confirmed rc) (ids 3) t tr4 = Inr (b, tr5))"
  have src: "nf_source (receipt_leg rc leg) = ''exchange''" for leg using assms(5,6) by (simp add: receipt_leg_def)
  have "waiting_but k' tr3" by (rule waiting_fill [OF waiting_fill [OF waiting_register [OF assms(1) 1] 2 src] 3 src])
  then have "all_waiting tr4" using 4 assms(3) by (auto dest: waiting_confirm_both)
  then show ?thesis using 0 5 assms(2,4) by simp
qed

lemma waiting_rows:
  "capture_rows ls ids ts n tr = Inr tr' \<Longrightarrow> all_waiting tr \<Longrightarrow> ledger_inv tr \<Longrightarrow> all_waiting tr' \<and> ledger_inv tr'"
proof (induction ls ids ts n tr rule: capture_rows.induct)
  case (4 v ls ids ts n tr)
  then obtain tr1 where 1: "capture_row (obj_of v) (ids n) (ts n) tr = Inr tr1" and
    rest: "capture_rows ls ids ts (Suc n) tr1 = Inr tr'" by (auto split: if_splits sum.splits)
  have "all_waiting tr1 \<and> ledger_inv tr1"
    using 1 "4.prems"(2,3)
    by (auto simp: capture_row_def row_receipt_def row_leg_def split: if_splits sum.splits
        elim!: waiting_receipt [rotated 1] inv_receipt [rotated 1])
  then show ?case using "4.IH" [OF _ 1 rest] "4.prems"(1) by (auto split: if_splits)
qed auto

lemma capture_inv: "tracker_from_capture file allow ids ts = Inr tr \<Longrightarrow> all_waiting tr \<and> ledger_inv tr"
proof -
  have "all_waiting (new_tracker allow 5000)" by (simp add: all_waiting_def new_tracker_def)
  then show "tracker_from_capture file allow ids ts = Inr tr \<Longrightarrow> all_waiting tr \<and> ledger_inv tr"
    using new_tracker_inv [of allow 5000] waiting_rows by (auto simp: tracker_from_capture_def Let_def split: option.splits)
qed

section \<open>What reconciliation keeps\<close>

text \<open>The trade behind an execution: who traded what, where, at which price and size. Identifiers, fees and
  the settlement may be filled in.\<close>

definition traded :: "fill_record \<Rightarrow> string \<times> string option \<times> rat \<times> rat" where
  "traded f = (fr_platform f, fr_order_id f, fr_price f, fr_size f)"

definition same_trade :: "execution \<Rightarrow> execution \<Rightarrow> bool" where
  "same_trade e e' \<longleftrightarrow>
     map traded (ex_buy_fills e') = map traded (ex_buy_fills e) \<and>
     map traded (ex_sell_fills e') = map traded (ex_sell_fills e) \<and>
     ex_id e' = ex_id e \<and> ex_metadata e' = ex_metadata e \<and>
     ex_buy_confirmed_at e' = ex_buy_confirmed_at e \<and> ex_sell_confirmed_at e' = ex_sell_confirmed_at e \<and>
     (is_settled e \<longrightarrow> ex_settled_at e' = ex_settled_at e)"

definition same_trades :: "tracker \<Rightarrow> tracker \<Rightarrow> bool" where
  "same_trades tr tr' \<longleftrightarrow> map fst (executions tr') = map fst (executions tr) \<and>
     (\<forall>k e. map_of (executions tr) k = Some e \<longrightarrow> (\<exists>e'. map_of (executions tr') k = Some e' \<and> same_trade e e'))"

lemma same_trade_refl: "same_trade e e"
  by (simp add: same_trade_def)

lemma same_trade_trans: "same_trade e e1 \<Longrightarrow> same_trade e1 e2 \<Longrightarrow> same_trade e e2"
  by (auto simp: same_trade_def is_settled_def)

lemma same_trades_trans:
  assumes "same_trades a b" and "same_trades b c" shows "same_trades a c"
  unfolding same_trades_def
proof (intro conjI allI impI)
  fix k e assume "map_of (executions a) k = Some e"
  then obtain e1 where "map_of (executions b) k = Some e1" "same_trade e e1" using assms(1) unfolding same_trades_def by blast
  moreover from this(1) obtain e2 where "map_of (executions c) k = Some e2" "same_trade e1 e2"
    using assms(2) unfolding same_trades_def by blast
  ultimately show "\<exists>e'. map_of (executions c) k = Some e' \<and> same_trade e e'" by (blast intro: same_trade_trans)
qed (use assms in \<open>simp add: same_trades_def\<close>)

text \<open>Executions are filed under their own ids (\<open>ledger_inv\<close>).\<close>

definition own_ids :: "tracker \<Rightarrow> bool" where
  "own_ids tr \<longleftrightarrow> (\<forall>k e. map_of (executions tr) k = Some e \<longrightarrow> ex_id e = k)"

lemma inv_own_ids: "ledger_inv tr \<Longrightarrow> own_ids tr"
  unfolding own_ids_def by (blast dest: ledger_inv_ok [unfolded execution_ok_def])

lemma same_trades_ids: "own_ids tr \<Longrightarrow> same_trades tr tr' \<Longrightarrow> own_ids tr'"
  unfolding own_ids_def same_trades_def same_trade_def by (metis map_of_eq_None_iff not_None_eq option.inject list.set_map)

definition keeps_trades :: "'x recon \<Rightarrow> 'x recon \<Rightarrow> bool" where
  "keeps_trades s s' \<longleftrightarrow> (own_ids (rt s) \<longrightarrow> same_trades (rt s) (rt s'))"

interpretation keeps_trades: world_relation keeps_trades
proof
  show "keeps_trades s s" for s by (auto simp: keeps_trades_def same_trades_def same_trade_refl)
  show "keeps_trades s s''" if "keeps_trades s s'" "keeps_trades s' s''" for s s' s''
    using that same_trades_trans same_trades_ids unfolding keeps_trades_def by blast
qed

lemma update_keys: "map_of al k = Some e \<Longrightarrow> map fst (AList.update k e' al) = map fst al"
  by (induction al) auto

lemma put_same_trades:
  assumes "map_of (executions tr) k = Some e" and "same_trade e e'"
  shows "same_trades tr (put_execution k e' tr)"
  using assms by (auto simp: same_trades_def put_execution_def update_keys map_of_update same_trade_refl)

lemma apply_traded: "traded (fst (apply_kalshi_fill fr v)) = traded fr" "traded (fst (apply_poly_trade fr v)) = traded fr"
  by (auto simp: apply_kalshi_fill_def apply_poly_trade_def Let_def traded_def split: sum.split)

lemma set_fill_same:
  assumes "i < length (leg_fills leg e)" and "traded fr = traded (leg_fills leg e ! i)"
  shows "same_trade e (set_fill leg i fr e)"
proof -
  have "map traded (fs[i := fr]) = map traded fs" if "i < length fs" "traded fr = traded (fs ! i)" for fs
    using that by (simp add: map_update) (metis list_update_id nth_map)
  with assms show ?thesis by (auto simp: set_fill_def leg_fills_def same_trade_def is_settled_def)
qed

lemma keeps_update:
  assumes "\<And>fr v. traded (fst (app fr v)) = traded fr"
  shows "keeps keeps_trades (update_fill app k leg i v)"
proof (rule keepsI)
  fix s
  show "keeps_trades s (snd (update_fill app k leg i v s))"
    using assms keeps_trades.R_refl [of s]
    by (auto simp: update_fill_def keeps_trades_def Let_def prod.case_eq_if split: option.split
        intro!: put_same_trades set_fill_same)
qed

lemma keeps_recon_basic:
  "keeps keeps_trades (on_venues m)" "keeps keeps_trades get_tracker" "keeps keeps_trades (safely m')"
  using keeps_trades.R_refl [unfolded keeps_trades_def]
  by (auto simp: keeps_def on_venues_def get_tracker_def safely_def keeps_trades_def prod.case_eq_if)

lemma settle_same:
  assumes "map_of (executions tr) k = Some e" and "\<not> is_settled e"
    and "mark_settled k sid c req u t tr = Inr (b, tr')"
  shows "same_trades tr tr'"
proof -
  have "same_trades tr tr" by (auto simp: same_trades_def same_trade_refl)
  then show ?thesis
    using assms by (auto simp: mark_settled_def Let_def same_trade_def split: if_splits intro!: put_same_trades)
qed

lemma keeps_fill [keep]: "keeps keeps_trades (reconcile_fill E k pos fr)"
  unfolding reconcile_fill_def
  by (intro keeps_prod keeps_if keeps_trades.keeps_intros keeps_recon_basic keeps_update apply_traded)

lemma keeps_leg [keep]: "keeps keeps_trades (reconcile_leg E k leg i fs)"
  by (induction fs arbitrary: i) (auto intro!: keeps_trades.keeps_intros keep)

lemma keeps_fills: "keeps keeps_trades (reconcile_fills E k)"
  unfolding reconcile_fills_def
  by (intro keeps_trades.keeps_intros keeps_recon_basic keeps_option keeps_leg)

text \<open>Probing a venue leaves the tracker alone.\<close>

lemma probe_tracker: "venue_resolved E v e s = (r, s') \<Longrightarrow> rt s' = rt s"
  by (auto simp: venue_resolved_def safely_def on_venues_def bind_def ret_def Let_def split: prod.splits sum.splits if_splits)

lemma settlement_both:
  assumes "map_of (executions (rt s)) k = Some e" and "\<not> is_settled e" and "has_confirmed_legs e"
    and "venue_resolved E ''kalshi'' e s = (Inr True, s1)" and "venue_resolved E ''polymarket'' e s1 = (Inr True, s2)"
  shows "\<exists>t hex s4. reconcile_settlement E k s = track (mark_settled (ex_id e) None (Some t) True hex t) s4 \<and> rt s4 = rt s"
proof -
  have tr: "rt s2 = rt s" using probe_tracker [OF assms(4)] probe_tracker [OF assms(5)] by simp
  obtain t s3 where n: "on_venues now s2 = (Inr t, s3)" "rt s3 = rt s"
    using tr by (auto simp: on_venues_def now_def)
  obtain hex s4 where u: "on_venues (ask (uuid (re_services E))) s3 = (Inr hex, s4)" "rt s4 = rt s"
    using n(2) by (auto simp: on_venues_def ask_def prod.case_eq_if)
  then have "reconcile_settlement E k s = track (mark_settled (ex_id e) None (Some t) True hex t) s4"
    using assms n(1) by (simp add: reconcile_settlement_def bind_def get_tracker_def)
  with u(2) show ?thesis by blast
qed

text \<open>The two ways \<open>reconcile_settlement\<close> can go.\<close>

lemma settlement_cases:
  assumes "reconcile_settlement E k s = (r, s')"
  shows "rt s' = rt s \<and> r \<noteq> Inr True \<or>
    (\<exists>e s1 s2 t hex b. map_of (executions (rt s)) k = Some e \<and> \<not> is_settled e \<and> has_confirmed_legs e \<and>
       venue_resolved E ''kalshi'' e s = (Inr True, s1) \<and> venue_resolved E ''polymarket'' e s1 = (Inr True, s2) \<and>
       r = Inr b \<and> mark_settled (ex_id e) None (Some t) True hex t (rt s) = Inr (b, rt s'))"
proof (cases "map_of (executions (rt s)) k")
  case None
  then show ?thesis using assms by (auto simp: reconcile_settlement_def bind_def get_tracker_def ret_def)
next
  case (Some e)
  show ?thesis
  proof (cases "is_settled e \<or> \<not> has_confirmed_legs e")
    case True
    then show ?thesis using assms Some by (auto simp: reconcile_settlement_def bind_def get_tracker_def ret_def)
  next
    case False
    obtain rk s1 where vk: "venue_resolved E ''kalshi'' e s = (rk, s1)" by (rule prod.exhaust)
    obtain rp s2 where vp: "venue_resolved E ''polymarket'' e s1 = (rp, s2)" by (rule prod.exhaust)
    have tr: "rt s1 = rt s" "rt s2 = rt s" using probe_tracker [OF vk] probe_tracker [OF vp] by simp_all
    show ?thesis
    proof (cases "rk = Inr True \<and> rp = Inr True")
      case both: True
      then obtain t hex s4 where "reconcile_settlement E k s = track (mark_settled (ex_id e) None (Some t) True hex t) s4"
        "rt s4 = rt s" using settlement_both [of s k e E s1 s2] Some False vk vp by blast
      then show ?thesis
        using assms Some False vk vp both by (auto simp: track_def split: sum.splits)
    next
      case False': False
      then show ?thesis
        using assms Some False vk vp tr
        by (auto simp: reconcile_settlement_def bind_def get_tracker_def ret_def split: sum.splits if_splits)
    qed
  qed
qed

lemma keeps_settlement: "keeps keeps_trades (reconcile_settlement E k)"
proof (rule keepsI)
  fix s :: "'a recon"
  obtain r s' where run: "reconcile_settlement E k s = (r, s')" by (rule prod.exhaust)
  have "same_trades (rt s) (rt s')" if "own_ids (rt s)"
    using settlement_cases [OF run]
  proof (elim disjE conjE exE)
    fix e t hex b
    assume e: "map_of (executions (rt s)) k = Some e" "\<not> is_settled e"
      and m: "mark_settled (ex_id e) None (Some t) True hex t (rt s) = Inr (b, rt s')"
    have "ex_id e = k" using that e(1) by (simp add: own_ids_def)
    then show ?thesis using settle_same [OF e] m by simp
  qed (auto simp: same_trades_def same_trade_refl)
  then show "keeps_trades s (snd (reconcile_settlement E k s))" by (simp add: run keeps_trades_def)
qed

lemma keeps_each: "keeps keeps_trades (reconcile_each E mode ks acc)"
  by (induction ks arbitrary: acc) (auto intro!: keeps_trades.keeps_intros keeps_fills keeps_settlement)

lemma keeps_all: "keeps keeps_trades (reconcile_all E mode)"
  unfolding reconcile_all_def by (intro keeps_trades.keeps_intros keeps_recon_basic keeps_each)

section \<open>Properties\<close>

text \<open>A ledger rebuilt from the capture file claims nothing it does not have: every execution in it is
  confirmed and awaits its markets, none is settled, no realised profit is reported, and no two
  fills share an id, whatever the file holds.\<close>
theorem rebuilt_ledger_awaits_settlement:
  assumes "tracker_from_capture file allow ids ts = Inr tr"
  shows "(\<forall>k e. map_of (executions tr) k = Some e \<longrightarrow> is_locked tr e) \<and>
    sm_settled (summarize i since tr) = 0 \<and> sm_cumulative (summarize i since tr) = 0 \<and>
    sm_locked (summarize i since tr) = length (executions tr) \<and> distinct (map fr_fill_id (all_fills tr))"
proof -
  have w: "all_waiting tr" and inv: "ledger_inv tr" using capture_inv [OF assms] by simp_all
  have locked: "is_locked tr e \<and> \<not> is_settled e" if "map_of (executions tr) k = Some e" for k e
  proof -
    have "lower ''exchange'' \<noteq> ''simulation''" by code_simp
    then show ?thesis
      using w that unfolding all_waiting_def waiting_def live_open_def is_locked_def has_simulation_source_def fills_of_def
      by (fastforce simp: list_all_iff list_ex_iff)
  qed
  have elem: "is_locked tr e \<and> \<not> is_settled e" if "(k, e) \<in> set (executions tr)" for k e
    using locked [of k e] that inv by (simp add: ledger_inv_def)
  have none: "filter (is_counted tr x) (map snd (executions tr)) = []" for x
    using elem by (auto simp: filter_empty_conv is_counted_def)
  have all: "filter (is_locked tr) (map snd (executions tr)) = map snd (executions tr)"
    using elem by (auto simp: filter_id_conv)
  have "distinct (map fr_fill_id (all_fills tr))" using inv unfolding ledger_inv_def by (metis mset_eq_imp_distinct_iff)
  then show ?thesis using locked by (simp add: summarize_def Let_def none all del: filter_map)
qed

text \<open>A capture file with a blank line, a broken one, a skipped trade and a live one; the two venues.\<close>

definition live_row :: json where
  "live_row = JObj [(''opportunity_id'', JStr ''o1''), (''execution_id'', JStr ''e1''),
     (''confirmation_source'', JStr ''exchange''), (''filled_volume'', JInt 3), (''buy_platform'', JStr ''kalshi''),
     (''sell_platform'', JStr ''polymarket''), (''avg_buy_price'', JNum (1 / 4)), (''avg_sell_price'', JNum (1 / 2)),
     (''buy_order_id'', JStr ''k1''), (''sell_order_id'', JStr ''p1''), (''kalshi_ticker'', JStr ''KX''),
     (''polymarket_token'', JStr ''t1''), (''ts'', JInt 100)]"

definition demo_ledger :: "pyexn + tracker" where
  "demo_ledger = tracker_from_capture (Some [Blank_line, Bad_line, Row (JObj [(''skipped_reason'', JStr ''no_fill'')]), Row live_row])
     False (\<lambda>n i. CHR ''u'' # replicate i (CHR ''x'')) (\<lambda>n. 0)"

lemma demo_ledger_ok: "\<exists>tr. demo_ledger = Inr tr \<and> length (executions tr) = 1"
proof -
  have "case demo_ledger of Inr tr \<Rightarrow> length (executions tr) = 1 | _ \<Rightarrow> False" by code_simp
  then show ?thesis by (auto split: sum.splits)
qed

theorem rebuilt_ledger_awaits_settlement_witness:
  "\<exists>tr. demo_ledger = Inr tr \<and> sm_locked (summarize 30 None tr) = 1 \<and> sm_cumulative (summarize 30 None tr) = 0"
proof -
  obtain tr where "demo_ledger = Inr tr" "length (executions tr) = 1" using demo_ledger_ok by blast
  then show ?thesis
    using rebuilt_ledger_awaits_settlement [of _ False "\<lambda>n i. CHR ''u'' # replicate i (CHR ''x'')" "\<lambda>n. 0" tr]
    unfolding demo_ledger_def by auto
qed

text \<open>C38. A trade is settled only when both venues say so: if reconciliation settles an execution, it was
  confirmed and open, the Kalshi client reported its market resolved, and for Polymarket the Gamma
  catalog answered with status 200 and a market whose UMA resolution is final. An exception, another
  status or an ambiguous payload leaves the execution open.\<close>
theorem settlement_needs_both_venues:
  assumes "reconcile_settlement E k s = (r, s')" and "rt s' \<noteq> rt s"
  shows "\<exists>e x data x'. map_of (executions (rt s)) k = Some e \<and> \<not> is_settled e \<and> has_confirmed_legs e \<and>
    re_kalshi E \<and> re_poly E \<and>
    fst (kalshi_is_resolved (re_services E) (re_config E) (Some (py_str (market_of ''kalshi'' e))) (rw s)) = Inr True \<and>
    re_gamma E (''/markets?clob_token_ids='' @ py_str (market_of ''polymarket'' e) @ ''&closed=true'') x = (Inr (200, data), x') \<and>
    gamma_market_resolved data"
proof -
  obtain e s1 s2 where e: "map_of (executions (rt s)) k = Some e" "\<not> is_settled e" "has_confirmed_legs e"
    and k: "venue_resolved E ''kalshi'' e s = (Inr True, s1)" and p: "venue_resolved E ''polymarket'' e s1 = (Inr True, s2)"
    using settlement_cases [OF assms(1)] assms(2) by blast
  have kalshi: "re_kalshi E \<and> fst (kalshi_is_resolved (re_services E) (re_config E)
      (Some (py_str (market_of ''kalshi'' e))) (rw s)) = Inr True"
    using k
    by (auto simp: venue_resolved_def safely_def on_venues_def bind_def catch_def ret_def Let_def
        split: if_splits prod.splits sum.splits)
  have "re_poly E \<and> (\<exists>x data x'. re_gamma E (''/markets?clob_token_ids='' @ py_str (market_of ''polymarket'' e) @ ''&closed=true'') x =
      (Inr (200, data), x') \<and> gamma_market_resolved data)"
    using p
    by (auto simp: venue_resolved_def safely_def on_venues_def poly_resolved_via_gamma_def ask_or_raise_def ask_def bind_def
        catch_def ret_def raise_def Let_def split: if_splits prod.splits sum.splits) blast
  with e kalshi show ?thesis by blast
qed

text \<open>Both venues report resolution.\<close>

definition resolving_env :: "nat recon_env" where
  "resolving_env = \<lparr>re_services = filling_services\<lparr>kalshi_http := (\<lambda>_ x. (Reply 200 [(''market'', JObj [(''status'', JStr ''settled'')])], x + 1))\<rparr>,
     re_config = live_config, re_kalshi = True, re_poly = True,
     re_gamma = (\<lambda>_ x. (Inr (200, JList [JObj [(''umaResolutionStatus'', JStr ''resolved'')]]), x))\<rparr>"

definition demo_books :: "nat recon" where
  "demo_books = \<lparr>rt = projr demo_ledger, rw = armed_world\<rparr>"

lemma resolving_polymarket:
  assumes "market_of ''polymarket'' e = JStr ''t1''"
  shows "venue_resolved resolving_env ''polymarket'' e s = (Inr True, s)"
proof -
  have "gamma_market_resolved (JList [JObj [(''umaResolutionStatus'', JStr ''resolved'')]])" by code_simp
  then show ?thesis
    by (simp add: venue_resolved_def assms safely_def on_venues_def poly_resolved_via_gamma_def ask_or_raise_def ask_def
        resolving_env_def run_ops cong: run_congs)
qed

lemma resolving_kalshi:
  assumes "market_of ''kalshi'' e = JStr ''KX''"
  shows "\<exists>w'. venue_resolved resolving_env ''kalshi'' e demo_books = (Inr True, demo_books\<lparr>rw := w'\<rparr>)"
proof -
  have "market_resolved [(''market'', JObj [(''status'', JStr ''settled'')])]" by code_simp
  then show ?thesis
    by (simp add: venue_resolved_def assms safely_def on_venues_def resolving_env_def filling_services_def
        kalshi_is_resolved_def kalshi_request_def kalshi_auth_headers_def send_request_def is_set_def MUTATING_METHODS_def
        demo_books_def venue_op_defs run_ops cong: run_congs)
qed

lemma demo_execution:
  "\<exists>e. map_of (executions (rt demo_books)) ''e1'' = Some e \<and> \<not> is_settled e \<and> has_confirmed_legs e \<and> ex_id e = ''e1'' \<and>
     market_of ''kalshi'' e = JStr ''KX'' \<and> market_of ''polymarket'' e = JStr ''t1''"
proof -
  have "case map_of (executions (rt demo_books)) ''e1'' of None \<Rightarrow> False | Some e \<Rightarrow> \<not> is_settled e \<and> has_confirmed_legs e \<and>
      ex_id e = ''e1'' \<and> market_of ''kalshi'' e = JStr ''KX'' \<and> market_of ''polymarket'' e = JStr ''t1''" by code_simp
  then show ?thesis by (auto split: option.splits)
qed

theorem settlement_needs_both_venues_witness:
  "\<exists>e. map_of (executions (rt demo_books)) ''e1'' = Some e \<and> \<not> is_settled e \<and> has_confirmed_legs e"
proof -
  let ?r = "reconcile_settlement resolving_env ''e1'' demo_books"
  obtain e where e: "map_of (executions (rt demo_books)) ''e1'' = Some e" "\<not> is_settled e" "has_confirmed_legs e" "ex_id e = ''e1''"
    "market_of ''kalshi'' e = JStr ''KX''" "market_of ''polymarket'' e = JStr ''t1''" using demo_execution by blast
  obtain w' where "venue_resolved resolving_env ''kalshi'' e demo_books = (Inr True, demo_books\<lparr>rw := w'\<rparr>)"
    using resolving_kalshi [OF e(5)] by blast
  then obtain t hex s4 where "?r = track (mark_settled (ex_id e) None (Some t) True hex t) s4" "rt s4 = rt demo_books"
    using settlement_both [OF e(1-3) _ resolving_polymarket [OF e(6)]] by blast
  then have "\<exists>e'. map_of (executions (rt (snd ?r))) ''e1'' = Some e' \<and> is_settled e'"
    using e(1,3,4) by (simp add: track_def mark_settled_def is_settled_def Let_def)
  then have "rt (snd ?r) \<noteq> rt demo_books" using e(1,2) by (metis option.inject)
  from settlement_needs_both_venues [OF prod.collapse [symmetric] this] show ?thesis
    by (elim exE conjE) (rule exI, intro conjI, assumption+)
qed

text \<open>Reconciliation does not rewrite trades: through a whole run in any mode, whatever the venues
  answer and also when it raises, the executions stay the same ones with the same fills, orders,
  prices and sizes, confirmations and metadata, and a settlement once made stays as it was.\<close>
theorem reconciliation_keeps_trades:
  assumes "ledger_inv (rt s)" shows "same_trades (rt s) (rt (snd (reconcile_all E mode s)))"
  using keeps_all [of E mode] inv_own_ids [OF assms] by (auto simp: keeps_def keeps_trades_def)

theorem reconciliation_keeps_trades_witness:
  "map fst (executions (rt (snd (reconcile_all resolving_env ''all'' demo_books)))) = map fst (executions (rt demo_books))"
proof -
  obtain tr where tr: "demo_ledger = Inr tr" using demo_ledger_ok by blast
  then have "ledger_inv tr" using capture_inv unfolding demo_ledger_def by blast
  then have "ledger_inv (rt demo_books)" by (simp add: demo_books_def tr)
  from reconciliation_keeps_trades [OF this, of resolving_env "''all''"] show ?thesis by (simp add: same_trades_def)
qed

text \<open>Only the first venue record counts: a Kalshi order filled in several parts has its fee replaced by
  the fee of the first part, so a fill that cost seven cents in two parts is booked at three.\<close>
theorem fee_of_first_part_only:
  "apply_kalshi_fill fr (JList (f # fs)) = apply_kalshi_fill fr (JList [f]) \<and>
   fr_fee (fst (apply_kalshi_fill fr (JList [JObj [(''trade_id'', JStr ''a''), (''fee'', JInt 3)],
     JObj [(''trade_id'', JStr ''b''), (''fee'', JInt 4)]]))) = fdiv 3 100"
  by (simp add: apply_kalshi_fill_def first_record_def get_first.simps Let_def get_or_def fl_simps)

end
