(* ===== verification/WsBooks.thy ===== *)
theory WsBooks
  imports Effects "HOL-Library.Product_Lexorder" "HOL-Library.Multiset"
begin

text \<open>
  \<open>ws_books.py\<close>: the mirrors of the venues' ask books, fed by two web socket clients. The state is
  the feed: the mirror with its time stamps and dirty set, and the books the clients keep. A message
  is an untyped value; a handler that raises ends the connection, as in the source, and a lost
  connection drops what that client mirrored. Readings of the clock are an arbitrary stream.
  Dictionaries from price to size keep insertion order. The lock and the thread are not modelled:
  every method of the mirror is one step.
\<close>

record feed =
  m_asks :: "(string \<times> (rat \<times> rat) list) list"
  m_ts :: "(string \<times> rat) list"
  m_dirty :: "string list"
  pm_asks :: "(string \<times> (rat \<times> rat) list) list"
  pm_connected :: bool
  pm_backoff :: rat
  k_books :: "(string \<times> ((rat \<times> rat) list \<times> (rat \<times> rat) list)) list"
  k_tickers :: "string list"
  k_connected :: bool
  k_backoff :: rat
  token_to_pair :: "(string \<times> string) list"
  pm_tokens :: "string list"
  f_clock :: "nat \<Rightarrow> rat"
  f_ticks :: nat

type_synonym 'a fop = "(feed, 'a) op"

definition f_now :: "rat fop" where
  "f_now = (\<lambda>s. (Inr (f_clock s (f_ticks s)), s\<lparr>f_ticks := f_ticks s + 1\<rparr>))"

definition edit :: "(feed \<Rightarrow> feed) \<Rightarrow> unit fop" where "edit f = (\<lambda>s. (Inr (), f s))"

definition look :: "feed fop" where "look = (\<lambda>s. (Inr s, s))"

section \<open>The mirror\<close>

text \<open>The ladder: positive sizes only, sorted by price and size.\<close>

definition ladder :: "(rat \<times> rat) list \<Rightarrow> (rat \<times> rat) list" where
  "ladder asks = sort (filter (\<lambda>(p, s). 0 < s) asks)"

definition set_asks :: "string \<Rightarrow> (rat \<times> rat) list \<Rightarrow> unit fop" where
  "set_asks k asks = bind f_now (\<lambda>t. edit (\<lambda>s. s\<lparr>
     m_asks := AList.update k (ladder asks) (m_asks s), m_ts := AList.update k t (m_ts s),
     m_dirty := List.insert k (m_dirty s)\<rparr>))"

definition drop_book :: "string \<Rightarrow> feed \<Rightarrow> feed" where
  "drop_book k s = s\<lparr>m_asks := AList.delete k (m_asks s), m_ts := AList.delete k (m_ts s)\<rparr>"

definition clear_mirror :: "feed \<Rightarrow> feed" where
  "clear_mirror s = s\<lparr>m_asks := [], m_ts := []\<rparr>"

definition get_asks :: "string \<Rightarrow> rat \<Rightarrow> (rat \<times> rat) list option fop" where
  "get_asks k max_age = bind look (\<lambda>s.
     case map_of (m_ts s) k of None \<Rightarrow> ret None
     | Some ts \<Rightarrow> bind f_now (\<lambda>t.
         if max_age < fsub t ts then ret None
         else ret (Some (case map_of (m_asks s) k of Some l \<Rightarrow> l | None \<Rightarrow> []))))"

definition pop_dirty :: "string list fop" where
  "pop_dirty = bind look (\<lambda>s. bind (edit (\<lambda>s. s\<lparr>m_dirty := []\<rparr>)) (\<lambda>_. ret (m_dirty s)))"

definition stats :: "(nat \<times> rat) fop" where
  "stats = bind look (\<lambda>s. bind f_now (\<lambda>t.
     let ages = map (\<lambda>(k, ts). fsub t ts) (m_ts s)
     in ret (length (m_asks s), if ages = [] then 0 else fold max (tl ages) (hd ages))))"

section \<open>The Polymarket client\<close>

definition pm_publish :: "string \<Rightarrow> unit fop" where
  "pm_publish tok = bind look (\<lambda>s. set_asks tok (case map_of (pm_asks s) tok of Some b \<Rightarrow> b | None \<Rightarrow> []))"

definition set_level :: "rat \<Rightarrow> rat \<Rightarrow> (rat \<times> rat) list \<Rightarrow> (rat \<times> rat) list" where
  "set_level price sz book = (if sz \<le> 0 then AList.delete price book else AList.update price sz book)"

text \<open>\<open>{float(a["price"]): float(a["size"]) for a in asks}\<close>.\<close>

fun read_levels :: "json list \<Rightarrow> (rat \<times> rat) list \<Rightarrow> pyexn + (rat \<times> rat) list" where
  "read_levels [] book = Inr book"
| "read_levels (a # as) book =
     (if \<not> is_obj a then Inl AttributeError
      else case py_float (get_or (JInt 0) (obj_of a) ''price'') of Inl e \<Rightarrow> Inl e
      | Inr p \<Rightarrow> case py_float (get_or (JInt 0) (obj_of a) ''size'') of Inl e \<Rightarrow> Inl e
      | Inr z \<Rightarrow> read_levels as (AList.update p z book))"

definition pm_snapshot :: "obj \<Rightarrow> unit fop" where
  "pm_snapshot msg =
     (let tok = py_str (py_or (get msg ''asset_id'') (JStr [])) in
      if tok = [] then ret ()
      else bind (lift (case py_iter (py_or (get msg ''asks'') (JList [])) of Inl e \<Rightarrow> Inl e
                       | Inr as \<Rightarrow> read_levels as [])) (\<lambda>book.
           bind (edit (\<lambda>s. s\<lparr>pm_asks := AList.update tok book (pm_asks s)\<rparr>)) (\<lambda>_. pm_publish tok)))"

text \<open>One change: a new absolute size at a level of a token whose snapshot is known.\<close>

definition pm_change :: "json \<Rightarrow> unit fop" where
  "pm_change ch =
     (if \<not> is_obj ch then raise (exn_text AttributeError)
      else
        let c = obj_of ch; tok = py_str (py_or (get c ''asset_id'') (JStr []));
            side = upper (py_str (py_or (get c ''side'') (JStr [])))
        in bind look (\<lambda>s.
           case map_of (pm_asks s) tok of
             None \<Rightarrow> ret ()
           | Some book \<Rightarrow>
               if tok = [] \<or> (side \<noteq> ''SELL'' \<and> side \<noteq> ''ASK'') then ret ()
               else case py_float (get c ''price'') of
                 Inl e \<Rightarrow> edit (\<lambda>s. (drop_book tok s)\<lparr>pm_asks := AList.delete tok (pm_asks s)\<rparr>)
               | Inr price \<Rightarrow>
                   case py_float (get_or (JInt 0) c ''size'') of
                     Inl e \<Rightarrow> edit (\<lambda>s. (drop_book tok s)\<lparr>pm_asks := AList.delete tok (pm_asks s)\<rparr>)
                   | Inr sz \<Rightarrow>
                       bind (edit (\<lambda>s. s\<lparr>pm_asks := AList.update tok (set_level price sz book) (pm_asks s)\<rparr>))
                         (\<lambda>_. pm_publish tok)))"

fun pm_changes :: "json list \<Rightarrow> unit fop" where
  "pm_changes [] = ret ()"
| "pm_changes (ch # chs) = bind (pm_change ch) (\<lambda>_. pm_changes chs)"

definition pm_handle_message :: "obj \<Rightarrow> unit fop" where
  "pm_handle_message msg =
     (let et = get_first msg [''event_type'', ''type''] in
      if et = JStr ''book'' then pm_snapshot msg
      else if et = JStr ''price_change'' then
        let changes0 = get_first msg [''changes'', ''price_changes''];
            changes = (if changes0 = JNull \<and> truthy (get msg ''asset_id'') then JList [JObj msg] else changes0)
        in bind (lift (py_iter (py_or changes (JList [])))) pm_changes
      else ret ())"

section \<open>The Kalshi client\<close>

text \<open>The ask ladder of one side, from the bids of the other.\<close>

definition flip_bids :: "(rat \<times> rat) list \<Rightarrow> (rat \<times> rat) list" where
  "flip_bids bids = map (\<lambda>(p, s). (py_round (fsub 1 p) 6, s)) (filter (\<lambda>(p, s). 0 < s) bids)"

definition kyes :: "string \<Rightarrow> string" where "kyes t = ''kyes:'' @ t"

definition kno :: "string \<Rightarrow> string" where "kno t = ''kno:'' @ t"

definition k_publish :: "string \<Rightarrow> unit fop" where
  "k_publish ticker = bind look (\<lambda>s.
     let (yes, no) = (case map_of (k_books s) ticker of Some b \<Rightarrow> b | None \<Rightarrow> ([], []))
     in bind (set_asks (kyes ticker) (flip_bids no)) (\<lambda>_. set_asks (kno ticker) (flip_bids yes)))"

text \<open>\<open>for p, s in levels: book[float(p) / 100] = float(s)\<close>.\<close>

fun read_pairs :: "json list \<Rightarrow> (rat \<times> rat) list \<Rightarrow> pyexn + (rat \<times> rat) list" where
  "read_pairs [] book = Inr book"
| "read_pairs (v # vs) book =
     (case py_iter v of Inl e \<Rightarrow> Inl e
      | Inr [p, z] \<Rightarrow>
          (case py_float p of Inl e \<Rightarrow> Inl e | Inr price \<Rightarrow>
           case py_float z of Inl e \<Rightarrow> Inl e | Inr sz \<Rightarrow> read_pairs vs (AList.update (fdiv price 100) sz book))
      | Inr _ \<Rightarrow> Inl ValueError)"

definition read_side :: "obj \<Rightarrow> string \<Rightarrow> pyexn + (rat \<times> rat) list" where
  "read_side data side =
     (case py_iter (py_or (get data side) (JList [])) of Inl e \<Rightarrow> Inl e | Inr vs \<Rightarrow> read_pairs vs [])"

definition k_snapshot :: "obj \<Rightarrow> string \<Rightarrow> unit fop" where
  "k_snapshot data ticker =
     bind (lift (read_side data ''yes'')) (\<lambda>yes. bind (lift (read_side data ''no'')) (\<lambda>no.
     bind (edit (\<lambda>s. s\<lparr>k_books := AList.update ticker (yes, no) (k_books s)\<rparr>)) (\<lambda>_. k_publish ticker)))"

text \<open>A change of size at a level; a ticker without a book gets an empty one.\<close>

definition add_level :: "rat \<Rightarrow> rat \<Rightarrow> (rat \<times> rat) list \<Rightarrow> (rat \<times> rat) list" where
  "add_level price delta book =
     (let lvl = fadd (case map_of book price of Some z \<Rightarrow> z | None \<Rightarrow> 0) delta in set_level price lvl book)"

definition book_of :: "string \<Rightarrow> feed \<Rightarrow> (rat \<times> rat) list \<times> (rat \<times> rat) list" where
  "book_of ticker s = (case map_of (k_books s) ticker of Some b \<Rightarrow> b | None \<Rightarrow> ([], []))"

definition k_delta :: "obj \<Rightarrow> string \<Rightarrow> unit fop" where
  "k_delta data ticker =
     bind (edit (\<lambda>s. s\<lparr>k_books := AList.update ticker (book_of ticker s) (k_books s)\<rparr>)) (\<lambda>_.
     let side = get data ''side'' in
     if side \<noteq> JStr ''yes'' \<and> side \<noteq> JStr ''no'' then ret ()
     else
       bind (lift (py_float (get_or (JInt 0) data ''price''))) (\<lambda>cents.
       bind (lift (py_float (get_or (JInt 0) data ''delta''))) (\<lambda>delta.
       bind (edit (\<lambda>s. let (yes, no) = book_of ticker s; price = fdiv cents 100 in
              s\<lparr>k_books := AList.update ticker
                 (if side = JStr ''yes'' then (add_level price delta yes, no) else (yes, add_level price delta no))
                 (k_books s)\<rparr>)) (\<lambda>_.
       k_publish ticker))))"

definition k_handle_message :: "obj \<Rightarrow> unit fop" where
  "k_handle_message msg =
     (let data0 = py_or (get msg ''msg'') (JObj []) in
      if \<not> is_obj data0 then raise (exn_text AttributeError)
      else
        let data = obj_of data0; ticker0 = py_or (get data ''market_ticker'') (JStr []); ticker = py_str ticker0 in
        if get msg ''type'' = JStr ''orderbook_snapshot'' \<and> truthy ticker0 then k_snapshot data ticker
        else if get msg ''type'' = JStr ''orderbook_delta'' \<and> truthy ticker0 then k_delta data ticker
        else ret ())"

section \<open>Connections\<close>

definition pm_connect :: "feed \<Rightarrow> feed" where
  "pm_connect s = s\<lparr>pm_connected := True, pm_backoff := 1\<rparr>"

text \<open>After the connection ended, for whatever reason; the loop then waits \<open>pm_backoff\<close> seconds.\<close>

definition pm_disconnect :: "feed \<Rightarrow> feed" where
  "pm_disconnect s = (clear_mirror s)\<lparr>pm_connected := False, pm_asks := [],
     pm_backoff := min (fmul (pm_backoff s) 2) 60\<rparr>"

definition k_connect :: "feed \<Rightarrow> feed" where
  "k_connect s = s\<lparr>k_connected := True, k_backoff := 1\<rparr>"

definition k_disconnect :: "feed \<Rightarrow> feed" where
  "k_disconnect s = (fold (\<lambda>tk s. drop_book (kno tk) (drop_book (kyes tk) s)) (k_tickers s) s)
     \<lparr>k_connected := False, k_books := [], k_backoff := min (fmul (k_backoff s) 2) 60\<rparr>"

text \<open>A payload is one message or a list; what is not a dictionary is skipped.\<close>

fun pm_messages :: "json list \<Rightarrow> unit fop" where
  "pm_messages [] = ret ()"
| "pm_messages (m # ms) = bind (if is_obj m then pm_handle_message (obj_of m) else ret ()) (\<lambda>_. pm_messages ms)"

datatype feed_event = PM_connect | PM_payload json | PM_lost | K_connect | K_payload json | K_lost | Pop

fun feed_step :: "feed \<Rightarrow> feed_event \<Rightarrow> feed" where
  "feed_step s PM_connect = pm_connect s"
| "feed_step s (PM_payload v) =
     (case pm_messages (case v of JList vs \<Rightarrow> vs | _ \<Rightarrow> [v]) s of (Inl e, s') \<Rightarrow> pm_disconnect s' | (Inr _, s') \<Rightarrow> s')"
| "feed_step s PM_lost = pm_disconnect s"
| "feed_step s K_connect = k_connect s"
| "feed_step s (K_payload v) =
     (if is_obj v then (case k_handle_message (obj_of v) s of (Inl e, s') \<Rightarrow> k_disconnect s' | (Inr _, s') \<Rightarrow> s') else s)"
| "feed_step s K_lost = k_disconnect s"
| "feed_step s Pop = snd (pop_dirty s)"

section \<open>The feed\<close>

text \<open>The pairs are given as tickers with their token ids; synthetic \<open>us:\<close> tokens are left out.\<close>

definition clob_token :: "string \<Rightarrow> bool" where "clob_token t \<longleftrightarrow> t \<noteq> [] \<and> \<not> prefix ''us:'' t"

definition new_feed :: "(string \<times> string list) list \<Rightarrow> (nat \<Rightarrow> rat) \<Rightarrow> feed" where
  "new_feed pairs clk =
     (let tokens = concat (map (\<lambda>(tk, ts). map (\<lambda>t. (t, tk)) (filter clob_token ts)) pairs)
      in \<lparr>m_asks = [], m_ts = [], m_dirty = [], pm_asks = [], pm_connected = False, pm_backoff = 1,
          k_books = [], k_tickers = filter (\<lambda>t. t \<noteq> []) (map fst pairs), k_connected = False, k_backoff = 1,
          token_to_pair = fold (\<lambda>(t, tk) m. AList.update t tk m) tokens [], pm_tokens = map fst tokens,
          f_clock = clk, f_ticks = 0\<rparr>)"

definition after_colon :: "string \<Rightarrow> string" where
  "after_colon k = tl (dropWhile (\<lambda>c. c \<noteq> CHR '':'') k)"

text \<open>The pairs whose books changed, in the order the dirty set is read.\<close>

definition dirty_pairs :: "string list fop" where
  "dirty_pairs = bind look (\<lambda>s. bind pop_dirty (\<lambda>ks.
     ret (remdups (concat (map (\<lambda>k. case map_of (token_to_pair s) k of
            Some p \<Rightarrow> [p]
          | None \<Rightarrow> if prefix ''kyes:'' k \<or> prefix ''kno:'' k then [after_colon k] else []) ks)))))"

section \<open>Ladders\<close>

lemma ladder_sorted: "sorted (ladder b)"
  by (simp add: ladder_def)

lemma ladder_set: "set (ladder b) = {(p, z) \<in> set b. 0 < z}"
  by (auto simp: ladder_def)

lemma fst_sorted: "sorted xs \<Longrightarrow> distinct (map fst xs) \<Longrightarrow> sorted_wrt (<) (map fst (xs :: (rat \<times> rat) list))"
  by (induction xs) (auto simp: less_eq_prod_def less_prod_def order.strict_iff_order)

text \<open>A book without repeated prices shows each price once, from the best ask up.\<close>

lemma ladder_prices: "distinct (map fst b) \<Longrightarrow> sorted_wrt (<) (map fst (ladder b))"
proof -
  assume d: "distinct (map fst b)"
  have "distinct (map fst (filter (\<lambda>(p, s). 0 < s) b))" using d by (induction b) auto
  then have "distinct (map fst (ladder b))"
    unfolding ladder_def by (metis distinct_map distinct_sort set_sort)
  then show ?thesis by (rule fst_sorted [OF ladder_sorted])
qed

lemma distinct_set_level: "distinct (map fst b) \<Longrightarrow> distinct (map fst (set_level p z b))"
  by (simp add: set_level_def distinct_update distinct_delete)

lemma distinct_read_levels: "read_levels as b = Inr b' \<Longrightarrow> distinct (map fst b) \<Longrightarrow> distinct (map fst b')"
  by (induction as b rule: read_levels.induct) (auto split: if_splits sum.splits simp: distinct_update)

section \<open>The mirror shows the book\<close>

definition kalshi_key :: "string \<Rightarrow> bool" where
  "kalshi_key k \<longleftrightarrow> prefix ''kyes:'' k \<or> prefix ''kno:'' k"

lemma kalshi_keys [simp]: "kalshi_key (kyes t)" "kalshi_key (kno t)"
  by (simp_all add: kalshi_key_def kyes_def kno_def)

definition shows_books :: "feed \<Rightarrow> bool" where
  "shows_books s \<longleftrightarrow>
     (\<forall>tok l. \<not> kalshi_key tok \<longrightarrow> map_of (m_asks s) tok = Some l \<longrightarrow>
        (\<exists>b. map_of (pm_asks s) tok = Some b \<and> l = ladder b)) \<and>
     (\<forall>tok b. map_of (pm_asks s) tok = Some b \<longrightarrow> distinct (map fst b)) \<and>
     (\<forall>tok. map_of (m_ts s) tok = None \<longleftrightarrow> map_of (m_asks s) tok = None)"

definition keeps_books :: "feed \<Rightarrow> feed \<Rightarrow> bool" where
  "keeps_books s s' \<longleftrightarrow> (shows_books s \<longrightarrow> shows_books s')"

interpretation keeps_books: world_relation keeps_books
  by unfold_locales (auto simp: keeps_books_def)

lemmas books_intros = keeps_books.keeps_intros keeps_if keeps_option keeps_sum keeps_prod

lemma set_asks_run:
  "set_asks k asks s = (Inr (), s\<lparr>m_asks := AList.update k (ladder asks) (m_asks s),
     m_ts := AList.update k (f_clock s (f_ticks s)) (m_ts s), m_dirty := List.insert k (m_dirty s), f_ticks := f_ticks s + 1\<rparr>)"
  by (simp add: set_asks_def f_now_def edit_def bind_def)

lemma books_look: "keeps keeps_books look"
  by (simp add: look_def keeps_def keeps_books_def)

lemma books_edit:
  "(\<And>s. m_asks (f s) = m_asks s \<and> m_ts (f s) = m_ts s \<and> pm_asks (f s) = pm_asks s) \<Longrightarrow> keeps keeps_books (edit f)"
  by (auto simp: keeps_def keeps_books_def edit_def shows_books_def)

lemma books_set_kalshi: "kalshi_key k \<Longrightarrow> keeps keeps_books (set_asks k asks)"
  by (auto simp: keeps_def keeps_books_def set_asks_run shows_books_def map_of_update)

lemma books_k_publish: "keeps keeps_books (k_publish ticker)"
  unfolding k_publish_def Let_def by (intro books_intros books_look books_set_kalshi kalshi_keys)

lemma books_k_handle: "keeps keeps_books (k_handle_message msg)"
  unfolding k_handle_message_def k_snapshot_def k_delta_def Let_def
  by (intro books_intros books_k_publish books_edit) (simp_all split: prod.split)

lemma books_publish:
  assumes "shows_books s" and "distinct (map fst b)"
  shows "shows_books (snd (pm_publish tok (s\<lparr>pm_asks := AList.update tok b (pm_asks s)\<rparr>)))"
  using assms
  by (auto simp: pm_publish_def look_def bind_def set_asks_run shows_books_def map_of_update)

lemma books_snapshot: "keeps keeps_books (pm_snapshot msg)"
proof (rule keepsI)
  fix s
  show "keeps_books s (snd (pm_snapshot msg s))"
  proof (unfold keeps_books_def, intro impI)
    assume s: "shows_books s"
    show "shows_books (snd (pm_snapshot msg s))"
    proof (cases "case py_iter (py_or (get msg ''asks'') (JList [])) of Inl e \<Rightarrow> Inl e | Inr as \<Rightarrow> read_levels as []")
      case (Inl e)
      then show ?thesis using s by (simp add: pm_snapshot_def bind_def lift_def ret_def raise_def Let_def)
    next
      case (Inr b)
      then have "distinct (map fst b)" by (auto split: sum.splits dest: distinct_read_levels)
      then show ?thesis
        using s Inr books_publish [OF s] by (simp add: pm_snapshot_def bind_def lift_def ret_def edit_def Let_def)
    qed
  qed
qed

lemma books_drop:
  assumes "shows_books s" shows "shows_books ((drop_book tok s)\<lparr>pm_asks := AList.delete tok (pm_asks s)\<rparr>)"
  using assms unfolding shows_books_def drop_book_def by (auto simp: delete_conv' split: if_splits)

lemma books_change: "keeps keeps_books (pm_change ch)"
proof (rule keepsI)
  fix s
  show "keeps_books s (snd (pm_change ch s))"
  proof (unfold keeps_books_def, intro impI)
    assume s: "shows_books s"
    let ?tok = "py_str (py_or (get (obj_of ch) ''asset_id'') (JStr []))"
    show "shows_books (snd (pm_change ch s))"
    proof (cases "map_of (pm_asks s) ?tok")
      case None
      then show ?thesis using s by (simp add: pm_change_def look_def bind_def ret_def raise_def Let_def)
    next
      case (Some b)
      then have "distinct (map fst (set_level p z b))" for p z using s distinct_set_level unfolding shows_books_def by blast
      then show ?thesis
        using s Some books_publish [OF s] books_drop [OF s]
        by (simp add: pm_change_def look_def bind_def ret_def raise_def edit_def Let_def split: sum.split)
    qed
  qed
qed

lemma books_pm_messages: "keeps keeps_books (pm_messages ms)"
proof -
  have "keeps keeps_books (pm_changes chs)" for chs
    by (induction chs) (auto intro!: books_intros books_change)
  then have "keeps keeps_books (pm_handle_message msg)" for msg
    unfolding pm_handle_message_def Let_def by (intro books_intros books_snapshot)
  then show ?thesis by (induction ms) (auto intro!: books_intros)
qed

lemma fold_drop: "m_asks (fold (\<lambda>tk s. drop_book (kno tk) (drop_book (kyes tk) s)) ts s) =
    filter (\<lambda>(k, v). k \<notin> set (map kyes ts) \<union> set (map kno ts)) (m_asks s) \<and>
  m_ts (fold (\<lambda>tk s. drop_book (kno tk) (drop_book (kyes tk) s)) ts s) =
    filter (\<lambda>(k, v). k \<notin> set (map kyes ts) \<union> set (map kno ts)) (m_ts s) \<and>
  pm_asks (fold (\<lambda>tk s. drop_book (kno tk) (drop_book (kyes tk) s)) ts s) = pm_asks s"
  by (induction ts arbitrary: s)
    (auto simp: drop_book_def AList.delete_eq filter_filter intro!: filter_cong)

lemma map_of_filter_keys: "map_of (filter (\<lambda>(k, v). P k) al) k = (if P k then map_of al k else None)"
  by (induction al) auto

lemma books_disconnects: "shows_books s \<Longrightarrow> shows_books (k_disconnect s)" "shows_books (pm_disconnect s)"
  unfolding shows_books_def k_disconnect_def pm_disconnect_def clear_mirror_def
  by (auto simp: fold_drop map_of_filter_keys simp del: set_map split: if_splits)

interpretation books: machine feed_step "\<lambda>e. True" shows_books
proof unfold_locales
  fix s :: feed and e
  assume s: "shows_books s"
  have pm: "shows_books (snd (pm_messages ms s))" for ms
    using books_pm_messages s unfolding keeps_def keeps_books_def by blast
  have k: "shows_books (snd (k_handle_message msg s))" for msg
    using books_k_handle s unfolding keeps_def keeps_books_def by blast
  show "shows_books (feed_step s e)"
  proof (cases e)
    case (PM_payload v)
    then show ?thesis
      using pm [of "case v of JList vs \<Rightarrow> vs | _ \<Rightarrow> [v]"] books_disconnects(2)
      by (auto split: prod.split sum.split)
  next
    case (K_payload v)
    then show ?thesis using s k [of "obj_of v"] books_disconnects(1) by (auto split: prod.split sum.split)
  qed (use s books_disconnects in \<open>auto simp: pm_connect_def k_connect_def shows_books_def pop_dirty_def bind_def look_def edit_def ret_def\<close>)
qed

lemma new_feed_shows: "shows_books (new_feed pairs clk)"
  by (simp add: shows_books_def new_feed_def Let_def)

section \<open>The mirror shows the Kalshi book\<close>

text \<open>The same for the tickers \<open>ts\<close> of the feed, under whose keys Polymarket has put no book of its own:
  the YES ladder is that of the NO bids, the NO ladder that of the YES bids.\<close>

definition shows_side :: "feed \<Rightarrow> string \<Rightarrow> string \<Rightarrow> ((rat \<times> rat) list \<times> (rat \<times> rat) list \<Rightarrow> (rat \<times> rat) list) \<Rightarrow> bool" where
  "shows_side s t k bids \<longleftrightarrow>
     (\<forall>l. map_of (pm_asks s) k = None \<longrightarrow> map_of (m_asks s) k = Some l \<longrightarrow>
        (\<exists>b. map_of (k_books s) t = Some b \<and> l = ladder (flip_bids (bids b))))"

definition shows_kalshi :: "string list \<Rightarrow> feed \<Rightarrow> bool" where
  "shows_kalshi ts s \<longleftrightarrow> k_tickers s = ts \<and>
     (\<forall>t\<in>set ts. shows_side s t (kyes t) snd \<and> shows_side s t (kno t) fst) \<and>
     (\<forall>t b. map_of (k_books s) t = Some b \<longrightarrow> distinct (map fst (fst b)) \<and> distinct (map fst (snd b)))"

definition keeps_kalshi :: "string list \<Rightarrow> feed \<Rightarrow> feed \<Rightarrow> bool" where
  "keeps_kalshi ts s s' \<longleftrightarrow> (shows_kalshi ts s \<longrightarrow> shows_kalshi ts s')"

interpretation keeps_kalshi: world_relation "keeps_kalshi ts" for ts
  by unfold_locales (auto simp: keeps_kalshi_def)

lemmas kalshi_intros = keeps_kalshi.keeps_intros keeps_if keeps_option keeps_sum keeps_prod

lemma keys_distinct [simp]: "kyes t = kyes u \<longleftrightarrow> t = u" "kno t = kno u \<longleftrightarrow> t = u" "kyes t \<noteq> kno u" "kno t \<noteq> kyes u"
  by (simp_all add: kyes_def kno_def)

lemma kalshi_keepsI: "(\<And>s. shows_kalshi ts s \<Longrightarrow> shows_kalshi ts (snd (m s))) \<Longrightarrow> keeps (keeps_kalshi ts) m"
  by (simp add: keeps_def keeps_kalshi_def)

lemma kalshi_publish:
  assumes "shows_kalshi ts s" and "distinct (map fst y)" "distinct (map fst n)"
  shows "shows_kalshi ts (snd (k_publish t (s\<lparr>k_books := AList.update t (y, n) (k_books s)\<rparr>)))"
  using assms
  by (auto simp: k_publish_def look_def bind_def set_asks_run shows_kalshi_def shows_side_def map_of_update)

lemma kalshi_edit_publish:
  assumes "\<And>s. shows_kalshi ts s \<Longrightarrow>
    \<exists>y n. distinct (map fst y) \<and> distinct (map fst n) \<and> f s = s\<lparr>k_books := AList.update t (y, n) (k_books s)\<rparr>"
  shows "keeps (keeps_kalshi ts) (bind (edit f) (\<lambda>_. k_publish t))"
proof (rule kalshi_keepsI)
  fix s assume s: "shows_kalshi ts s"
  then obtain y n where "distinct (map fst y)" "distinct (map fst n)" "f s = s\<lparr>k_books := AList.update t (y, n) (k_books s)\<rparr>"
    using assms by blast
  then show "shows_kalshi ts (snd (bind (edit f) (\<lambda>_. k_publish t) s))"
    using kalshi_publish [OF s] by (simp add: bind_def edit_def)
qed

lemma distinct_read_pairs: "read_pairs vs b = Inr b' \<Longrightarrow> distinct (map fst b) \<Longrightarrow> distinct (map fst b')"
  by (induction vs b rule: read_pairs.induct) (auto split: sum.splits list.splits simp: distinct_update)

lemma kalshi_snapshot: "keeps (keeps_kalshi ts) (k_snapshot data t)"
proof -
  have d: "distinct (map fst b)" if "read_side data side = Inr b" for side b
    using that by (auto simp: read_side_def split: sum.splits dest: distinct_read_pairs)
  have lifted: "keeps R (bind (lift x) f)" if "\<And>v. x = Inr v \<Longrightarrow> keeps R (f v)" "\<And>s. R s s"
    for R :: "feed \<Rightarrow> feed \<Rightarrow> bool" and x :: "pyexn + (rat \<times> rat) list" and f :: "(rat \<times> rat) list \<Rightarrow> unit fop"
    using that by (cases x) (simp_all add: keeps_def bind_def lift_def ret_def raise_def)
  have "keeps (keeps_kalshi ts) (bind (edit (\<lambda>s. s\<lparr>k_books := AList.update t (yes, no) (k_books s)\<rparr>)) (\<lambda>_. k_publish t))"
    if "read_side data ''yes'' = Inr yes" "read_side data ''no'' = Inr no" for yes no
    using d [OF that(1)] d [OF that(2)] by (intro kalshi_edit_publish) blast
  then show ?thesis unfolding k_snapshot_def by (intro lifted) (auto simp: keeps_kalshi_def)
qed

lemma kalshi_delta: "keeps (keeps_kalshi ts) (k_delta data t)"
proof -
  have books: "distinct (map fst (fst (book_of t s))) \<and> distinct (map fst (snd (book_of t s)))" if "shows_kalshi ts s" for s
    using that by (auto simp: shows_kalshi_def book_of_def split: option.split)
  have start: "keeps (keeps_kalshi ts) (edit (\<lambda>s. s\<lparr>k_books := AList.update t (book_of t s) (k_books s)\<rparr>))"
  proof (rule kalshi_keepsI)
    fix s assume s: "shows_kalshi ts s"
    then show "shows_kalshi ts (snd (edit (\<lambda>s. s\<lparr>k_books := AList.update t (book_of t s) (k_books s)\<rparr>) s))"
      using books [OF s]
      by (auto simp: edit_def shows_kalshi_def shows_side_def map_of_update book_of_def split: option.splits)
  qed
  have "keeps (keeps_kalshi ts) (bind (edit (\<lambda>s. let (yes, no) = book_of t s; price = fdiv cents 100 in
      s\<lparr>k_books := AList.update t
         (if side = JStr ''yes'' then (add_level price delta yes, no) else (yes, add_level price delta no)) (k_books s)\<rparr>))
      (\<lambda>_. k_publish t))" for cents delta side
  proof (rule kalshi_edit_publish)
    fix s assume s: "shows_kalshi ts s"
    obtain yes no where b: "book_of t s = (yes, no)" by (rule prod.exhaust)
    have "distinct (map fst (add_level p d b))" if "distinct (map fst b)" for p d b
      using that by (simp add: add_level_def distinct_set_level)
    then have d: "distinct (map fst yes)" "distinct (map fst no)" "distinct (map fst (add_level (fdiv cents 100) delta yes))"
      "distinct (map fst (add_level (fdiv cents 100) delta no))"
      using books [OF s] b by simp_all
    show "\<exists>y n. distinct (map fst y) \<and> distinct (map fst n) \<and> (let (yes, no) = book_of t s; price = fdiv cents 100 in
      s\<lparr>k_books := AList.update t
         (if side = JStr ''yes'' then (add_level price delta yes, no) else (yes, add_level price delta no)) (k_books s)\<rparr>) =
      s\<lparr>k_books := AList.update t (y, n) (k_books s)\<rparr>"
    proof (cases "side = JStr ''yes''")
      case True
      then show ?thesis using d by (intro exI [of _ "add_level (fdiv cents 100) delta yes"] exI [of _ no]) (simp add: b)
    next
      case False
      then show ?thesis using d by (intro exI [of _ yes] exI [of _ "add_level (fdiv cents 100) delta no"]) (simp add: b)
    qed
  qed
  note pub = this [unfolded Let_def]
  show ?thesis unfolding k_delta_def Let_def
    by (rule keeps_kalshi.keeps_bind [OF start keeps_if [OF keeps_kalshi.keeps_ret keeps_kalshi.keeps_bind
          [OF keeps_kalshi.keeps_lift keeps_kalshi.keeps_bind [OF keeps_kalshi.keeps_lift pub]]]])
qed

lemma kalshi_handle: "keeps (keeps_kalshi ts) (k_handle_message msg)"
  unfolding k_handle_message_def Let_def by (intro kalshi_intros kalshi_snapshot kalshi_delta)

lemma kalshi_pm_publish:
  assumes "shows_kalshi ts s"
  shows "shows_kalshi ts (snd (pm_publish tok (s\<lparr>pm_asks := AList.update tok b (pm_asks s)\<rparr>)))"
  using assms by (auto simp: pm_publish_def look_def bind_def set_asks_run shows_kalshi_def shows_side_def map_of_update)

lemma kalshi_pm_drop:
  assumes "shows_kalshi ts s" shows "shows_kalshi ts ((drop_book tok s)\<lparr>pm_asks := AList.delete tok (pm_asks s)\<rparr>)"
  using assms unfolding shows_kalshi_def shows_side_def drop_book_def by (auto simp: delete_conv' split: if_splits)

lemma kalshi_pm_messages: "keeps (keeps_kalshi ts) (pm_messages ms)"
proof -
  have change: "keeps (keeps_kalshi ts) (pm_change ch)" for ch
  proof (rule kalshi_keepsI)
    fix s assume s: "shows_kalshi ts s"
    then show "shows_kalshi ts (snd (pm_change ch s))"
      using kalshi_pm_publish [OF s] kalshi_pm_drop [OF s]
      by (simp add: pm_change_def look_def bind_def ret_def raise_def edit_def Let_def split: sum.split option.split)
  qed
  have "keeps (keeps_kalshi ts) (pm_snapshot msg)" for msg
  proof -
    have "keeps (keeps_kalshi ts) (bind (edit (\<lambda>s. s\<lparr>pm_asks := AList.update tok book (pm_asks s)\<rparr>)) (\<lambda>_. pm_publish tok))" for tok book
      using kalshi_pm_publish by (intro kalshi_keepsI) (simp add: bind_def edit_def)
    then show ?thesis unfolding pm_snapshot_def Let_def
      by (rule keeps_if [OF keeps_kalshi.keeps_ret keeps_kalshi.keeps_bind [OF keeps_kalshi.keeps_lift]])
  qed
  moreover have "keeps (keeps_kalshi ts) (pm_changes chs)" for chs
    by (induction chs) (auto intro!: kalshi_intros change)
  ultimately have "keeps (keeps_kalshi ts) (pm_handle_message msg)" for msg
    unfolding pm_handle_message_def Let_def by (intro kalshi_intros)
  then show ?thesis by (induction ms) (auto intro!: kalshi_intros)
qed

lemma fold_drop_tickers: "k_tickers (fold (\<lambda>tk s. drop_book (kno tk) (drop_book (kyes tk) s)) ts s) = k_tickers s"
  by (induction ts arbitrary: s) (auto simp: drop_book_def)

lemma kalshi_disconnects: "shows_kalshi ts s \<Longrightarrow> shows_kalshi ts (k_disconnect s)" "shows_kalshi ts s \<Longrightarrow> shows_kalshi ts (pm_disconnect s)"
proof -
  assume s: "shows_kalshi ts s"
  have "k_tickers s = ts" using s by (simp add: shows_kalshi_def)
  then have "map_of (m_asks (k_disconnect s)) (kyes t) = None" "map_of (m_asks (k_disconnect s)) (kno t) = None" if "t \<in> set ts" for t
    using that by (simp_all add: k_disconnect_def fold_drop map_of_filter_keys)
  moreover have "k_tickers (k_disconnect s) = ts" "k_books (k_disconnect s) = []"
    using \<open>k_tickers s = ts\<close> by (simp_all add: k_disconnect_def fold_drop_tickers)
  ultimately show "shows_kalshi ts (k_disconnect s)" by (simp add: shows_kalshi_def shows_side_def)
  show "shows_kalshi ts (pm_disconnect s)"
    using s by (simp add: shows_kalshi_def shows_side_def pm_disconnect_def clear_mirror_def)
qed

lemma shows_kalshi_cong:
  "k_tickers s' = k_tickers s \<Longrightarrow> pm_asks s' = pm_asks s \<Longrightarrow> m_asks s' = m_asks s \<Longrightarrow> k_books s' = k_books s \<Longrightarrow>
     shows_kalshi ts s' = shows_kalshi ts s"
  by (simp add: shows_kalshi_def shows_side_def)

interpretation kalshi_books: machine feed_step "\<lambda>e. True" "shows_kalshi ts" for ts
proof unfold_locales
  fix s :: feed and e
  assume s: "shows_kalshi ts s"
  have pm: "shows_kalshi ts (snd (pm_messages ms s))" for ms
    using kalshi_pm_messages s unfolding keeps_def keeps_kalshi_def by blast
  have k: "shows_kalshi ts (snd (k_handle_message msg s))" for msg
    using kalshi_handle s unfolding keeps_def keeps_kalshi_def by blast
  show "shows_kalshi ts (feed_step s e)"
  proof (cases e)
    case (PM_payload v)
    then show ?thesis
      using pm [of "case v of JList vs \<Rightarrow> vs | _ \<Rightarrow> [v]"] kalshi_disconnects(2)
      by (auto split: prod.split sum.split)
  next
    case (K_payload v)
    then show ?thesis using s k [of "obj_of v"] kalshi_disconnects(1) by (auto split: prod.split sum.split)
  next
    case PM_connect
    then show ?thesis using s shows_kalshi_cong [of "pm_connect s" s] by (simp add: pm_connect_def)
  next
    case K_connect
    then show ?thesis using s shows_kalshi_cong [of "k_connect s" s] by (simp add: k_connect_def)
  next
    case Pop
    then show ?thesis using s shows_kalshi_cong [of "s\<lparr>m_dirty := []\<rparr>" s]
      by (simp add: pop_dirty_def bind_def look_def edit_def ret_def)
  qed (use kalshi_disconnects [OF s] in simp_all)
qed

lemma new_feed_shows_kalshi: "shows_kalshi (filter (\<lambda>t. t \<noteq> []) (map fst pairs)) (new_feed pairs clk)"
  by (simp add: shows_kalshi_def shows_side_def new_feed_def Let_def)

section \<open>What a message does to a book\<close>

text \<open>The specification of a book: a size for every price, zero where there is none.\<close>

definition size_at :: "(rat \<times> rat) list \<Rightarrow> rat \<Rightarrow> rat" where
  "size_at b p = (case map_of b p of Some z \<Rightarrow> max z 0 | None \<Rightarrow> 0)"

lemma size_at_set: "distinct (map fst b) \<Longrightarrow> size_at (set_level p z b) = (size_at b)(p := max z 0)"
  by (auto simp: size_at_def set_level_def map_of_update delete_conv' fun_eq_iff)

lemma ladder_size_at:
  assumes "distinct (map fst b)" shows "set (ladder b) = {(p, z). z = size_at b p \<and> 0 < z}"
proof -
  have "(p, z) \<in> set b \<longleftrightarrow> map_of b p = Some z" for p z using assms by simp
  then show ?thesis unfolding ladder_set size_at_def by (auto split: option.splits)
qed

section \<open>Properties\<close>

text \<open>A ladder that offers the bids of the other side of a Kalshi book: every bid of positive size, at one
  minus its price, best first, and nothing else.\<close>

definition offers_against :: "(rat \<times> rat) list \<Rightarrow> (rat \<times> rat) list \<Rightarrow> bool" where
  "offers_against bids l \<longleftrightarrow> distinct (map fst bids) \<and> sorted l \<and>
     mset l = image_mset (\<lambda>(p, z). (py_round (fsub 1 p) 6, z)) (filter_mset (\<lambda>(p, z). 0 < z) (mset bids))"

lemma ladder_offers_against: "distinct (map fst bids) \<Longrightarrow> offers_against bids (ladder (flip_bids bids))"
proof -
  have "filter (\<lambda>(p, z). 0 < z) (flip_bids bids) = flip_bids bids"
    by (induction bids) (auto simp: flip_bids_def)
  then show "distinct (map fst bids) \<Longrightarrow> offers_against bids (ladder (flip_bids bids))"
    by (simp add: offers_against_def ladder_def) (simp add: flip_bids_def)
qed

text \<open>C39. The mirror shows the books its clients hold: after any sequence of connections, losses and payloads
  of both venues, malformed ones included, a Polymarket ladder in the mirror is exactly the positive
  sizes of the book held for that token, each price once, best ask first; and a Kalshi ladder of a
  ticker of the feed offers exactly the bids of positive size held for the other side, at one minus
  their price (unless Polymarket has sent a book under the very key of the ladder).\<close>
theorem mirror_shows_book:
  assumes "s = run feed_step (new_feed pairs clk) es"
  shows "(\<forall>tok l. \<not> kalshi_key tok \<and> map_of (m_asks s) tok = Some l \<longrightarrow>
       (\<exists>b. map_of (pm_asks s) tok = Some b \<and> set l = {(p, z). z = size_at b p \<and> 0 < z} \<and> sorted_wrt (<) (map fst l))) \<and>
     (\<forall>t l. t \<noteq> [] \<and> t \<in> fst ` set pairs \<and> map_of (pm_asks s) (kyes t) = None \<and> map_of (m_asks s) (kyes t) = Some l \<longrightarrow>
       (\<exists>yes no. map_of (k_books s) t = Some (yes, no) \<and> offers_against no l)) \<and>
     (\<forall>t l. t \<noteq> [] \<and> t \<in> fst ` set pairs \<and> map_of (pm_asks s) (kno t) = None \<and> map_of (m_asks s) (kno t) = Some l \<longrightarrow>
       (\<exists>yes no. map_of (k_books s) t = Some (yes, no) \<and> offers_against yes l))"
proof (intro conjI allI impI)
  fix tok l
  assume a: "\<not> kalshi_key tok \<and> map_of (m_asks s) tok = Some l"
  have "shows_books s" unfolding assms(1) by (rule books.run_inv [OF new_feed_shows]) (simp add: list_all_iff)
  then obtain b where "map_of (pm_asks s) tok = Some b" and l: "l = ladder b" and d: "distinct (map fst b)"
    using a unfolding shows_books_def by blast
  then show "\<exists>b. map_of (pm_asks s) tok = Some b \<and> set l = {(p, z). z = size_at b p \<and> 0 < z} \<and> sorted_wrt (<) (map fst l)"
    unfolding l ladder_size_at [OF d] using ladder_prices [OF d] by simp
next
  have k: "shows_kalshi (filter (\<lambda>t. t \<noteq> []) (map fst pairs)) s"
    unfolding assms(1) by (rule kalshi_books.run_inv [OF new_feed_shows_kalshi]) (simp add: list_all_iff)
  have side: "\<exists>b. map_of (k_books s) t = Some b \<and> offers_against (bids b) l"
    if "t \<noteq> [] \<and> t \<in> fst ` set pairs \<and> map_of (pm_asks s) k = None \<and> map_of (m_asks s) k = Some l"
      "(k, bids) \<in> {(kyes t, snd), (kno t, fst)}" for t k bids l
  proof -
    have "t \<in> set (filter (\<lambda>t. t \<noteq> []) (map fst pairs))" using that(1) by auto
    then have "shows_side s t k bids" using k that(2) unfolding shows_kalshi_def by blast
    then have "\<exists>b. map_of (k_books s) t = Some b \<and> l = ladder (flip_bids (bids b))"
      using that(1) unfolding shows_side_def by metis
    then obtain b where b: "map_of (k_books s) t = Some b" "l = ladder (flip_bids (bids b))" by (elim exE conjE)
    moreover have "distinct (map fst (fst b)) \<and> distinct (map fst (snd b))" using k b(1) unfolding shows_kalshi_def by blast
    then have "distinct (map fst (bids b))" using that(2) by auto
    ultimately show ?thesis using ladder_offers_against by blast
  qed
  show "\<exists>yes no. map_of (k_books s) t = Some (yes, no) \<and> offers_against no l"
    if "t \<noteq> [] \<and> t \<in> fst ` set pairs \<and> map_of (pm_asks s) (kyes t) = None \<and> map_of (m_asks s) (kyes t) = Some l" for t l
    using side [OF that] by fastforce
  show "\<exists>yes no. map_of (k_books s) t = Some (yes, no) \<and> offers_against yes l"
    if "t \<noteq> [] \<and> t \<in> fst ` set pairs \<and> map_of (pm_asks s) (kno t) = None \<and> map_of (m_asks s) (kno t) = Some l" for t l
    using side [OF that] by fastforce
qed

text \<open>A snapshot of two levels and a change that removes one of them.\<close>

definition snapshot_payload :: json where
  "snapshot_payload = JList [JObj [(''event_type'', JStr ''book''), (''asset_id'', JStr ''t1''), (''asks'', JList
     [JObj [(''price'', JStr ''0.5''), (''size'', JInt 10)], JObj [(''price'', JStr ''0.25''), (''size'', JInt 4)]])]]"

definition change_payload :: json where
  "change_payload = JObj [(''event_type'', JStr ''price_change''), (''changes'', JList
     [JObj [(''asset_id'', JStr ''t1''), (''side'', JStr ''sell''), (''price'', JStr ''0.5''), (''size'', JInt 0)]])]"

theorem mirror_shows_book_witness:
  "map_of (m_asks (run feed_step (new_feed [(''KX'', [''t1''])] (\<lambda>i. of_nat i)) [PM_connect, PM_payload snapshot_payload])) ''t1''
     = Some [(1 / 4, 4), (1 / 2, 10)] \<and>
   (\<exists>b. map_of (pm_asks (run feed_step (new_feed [(''KX'', [''t1''])] (\<lambda>i. of_nat i)) [PM_connect, PM_payload snapshot_payload])) ''t1'' = Some b \<and>
     size_at b (1 / 4) = 4)"
proof -
  let ?s = "run feed_step (new_feed [(''KX'', [''t1''])] (\<lambda>i. of_nat i)) [PM_connect, PM_payload snapshot_payload]"
  have l: "map_of (m_asks ?s) ''t1'' = Some [(1 / 4, 4), (1 / 2, 10)]" by code_simp
  have t: "\<not> kalshi_key ''t1''" by code_simp
  have "\<forall>tok l. \<not> kalshi_key tok \<and> map_of (m_asks ?s) tok = Some l \<longrightarrow>
      (\<exists>b. map_of (pm_asks ?s) tok = Some b \<and> set l = {(p, z). z = size_at b p \<and> 0 < z} \<and> sorted_wrt (<) (map fst l))"
    by (rule conjunct1 [OF mirror_shows_book [OF refl]])
  then obtain b where b: "map_of (pm_asks ?s) ''t1'' = Some b" "set [(1 / 4, 4), (1 / 2, 10)] = {(p, z). z = size_at b p \<and> 0 < z}"
    using t l by (elim allE [where x = "''t1''"] allE [where x = "[(1 / 4, 4), (1 / 2, 10)]"] impE exE conjE) blast+
  have "(1 / 4, 4) \<in> {(p, z). z = size_at b p \<and> 0 < z}" unfolding b(2) [symmetric] by simp
  then show ?thesis using l b(1) by auto
qed

text \<open>A change is an absolute size: a price change on the ask side of a token whose book is known sets
  the size of that price and no other, leaves every other token alone, and the ladder served
  afterwards is that of the new book; a size of zero or less removes the level.\<close>
theorem change_sets_one_level:
  assumes "shows_books s" and "map_of (pm_asks s) tok = Some b" and "tok \<noteq> []"
    and "pm_change (JObj [(''asset_id'', JStr tok), (''side'', JStr ''SELL''), (''price'', pv), (''size'', zv)]) s = (r, s')"
    and "py_float pv = Inr p" and "py_float zv = Inr z"
  shows "\<exists>b'. map_of (pm_asks s') tok = Some b' \<and> size_at b' = (size_at b)(p := max z 0) \<and>
    map_of (m_asks s') tok = Some (ladder b') \<and>
    (\<forall>tok'. tok' \<noteq> tok \<longrightarrow> map_of (pm_asks s') tok' = map_of (pm_asks s) tok' \<and> map_of (m_asks s') tok' = map_of (m_asks s) tok')"
proof -
  have d: "distinct (map fst b)" using assms(1,2) unfolding shows_books_def by blast
  have up: "upper ''SELL'' = ''SELL''" by code_simp
  show ?thesis
    using assms(2-6) up size_at_set [OF d, of p z]
    by (auto simp: pm_change_def look_def edit_def bind_def get_or_def py_or_def pm_publish_def set_asks_run Let_def map_of_update)
qed

theorem change_sets_one_level_witness:
  "map_of (m_asks (snd (pm_change (JObj [(''asset_id'', JStr ''t1''), (''side'', JStr ''SELL''), (''price'', JStr ''0.5''),
       (''size'', JInt 0)]) (run feed_step (new_feed [(''KX'', [''t1''])] (\<lambda>i. of_nat i)) [PM_connect, PM_payload snapshot_payload])))) ''t1''
     \<noteq> None"
proof -
  let ?s = "run feed_step (new_feed [(''KX'', [''t1''])] (\<lambda>i. of_nat i)) [PM_connect, PM_payload snapshot_payload]"
  have "shows_books ?s" by (rule books.run_inv [OF new_feed_shows]) (simp add: list_all_iff)
  moreover have "map_of (pm_asks ?s) ''t1'' = Some [(1 / 2, 10), (1 / 4, 4)]" by code_simp
  moreover have "py_float (JStr ''0.5'') = Inr (1 / 2)" "py_float (JInt 0) = Inr 0" by code_simp+
  ultimately show ?thesis using change_sets_one_level [OF _ _ _ prod.collapse [symmetric]] by (metis list.distinct(1) option.distinct(1))
qed

text \<open>No Polymarket token is in the mirror; the Kalshi handlers keep it so.\<close>

definition pm_silent :: "feed \<Rightarrow> feed \<Rightarrow> bool" where
  "pm_silent s s' \<longleftrightarrow> ((\<forall>tok. \<not> kalshi_key tok \<longrightarrow> map_of (m_ts s) tok = None) \<longrightarrow>
     (\<forall>tok. \<not> kalshi_key tok \<longrightarrow> map_of (m_ts s') tok = None))"

interpretation pm_silent: world_relation pm_silent
  by unfold_locales (auto simp: pm_silent_def)

lemmas silent_intros = pm_silent.keeps_intros keeps_if keeps_option keeps_sum keeps_prod

lemma silent_k_handle: "keeps pm_silent (k_handle_message msg)"
proof -
  have edit: "keeps pm_silent (edit f)" if "\<And>s. m_ts (f s) = m_ts s" for f
    using that by (simp add: keeps_def pm_silent_def edit_def)
  have "keeps pm_silent look" by (simp add: keeps_def pm_silent_def look_def)
  moreover have "keeps pm_silent (set_asks k l)" if "kalshi_key k" for k l
    using that by (auto simp: keeps_def pm_silent_def set_asks_run map_of_update)
  ultimately have "keeps pm_silent (k_publish t)" for t
    unfolding k_publish_def Let_def by (intro silent_intros) simp_all
  then show ?thesis
    unfolding k_handle_message_def k_snapshot_def k_delta_def Let_def
    by (intro silent_intros edit) (simp_all split: prod.split)
qed

interpretation silent: machine feed_step "\<lambda>e. \<forall>v. e \<noteq> PM_payload v" "\<lambda>s. \<forall>tok. \<not> kalshi_key tok \<longrightarrow> map_of (m_ts s) tok = None"
proof unfold_locales
  fix s :: feed and e
  assume s: "\<forall>tok. \<not> kalshi_key tok \<longrightarrow> map_of (m_ts s) tok = None" and e: "\<forall>v. e \<noteq> PM_payload v"
  have k: "\<forall>tok. \<not> kalshi_key tok \<longrightarrow> map_of (m_ts (snd (k_handle_message msg s))) tok = None" for msg
    using silent_k_handle [of msg] s unfolding keeps_def pm_silent_def by blast
  have off: "\<forall>tok. \<not> kalshi_key tok \<longrightarrow> map_of (m_ts (k_disconnect s')) tok = None"
    if "\<forall>tok. \<not> kalshi_key tok \<longrightarrow> map_of (m_ts s') tok = None" for s'
    using that by (auto simp: k_disconnect_def fold_drop map_of_filter_keys simp del: set_map)
  show "\<forall>tok. \<not> kalshi_key tok \<longrightarrow> map_of (m_ts (feed_step s e)) tok = None"
  proof (cases e)
    case (K_payload v)
    then show ?thesis using s k [of "obj_of v"] off by (auto split: prod.split sum.split)
  qed (use s e off in \<open>auto simp: pm_connect_def k_connect_def pm_disconnect_def clear_mirror_def pop_dirty_def bind_def look_def edit_def ret_def\<close>)
qed

text \<open>C40. Nothing stale after a lost connection: once the Polymarket connection was lost, no ladder of a
  Polymarket token is served, however long, until a payload of a new connection has come in.\<close>
theorem nothing_served_after_loss:
  assumes "s = run feed_step (feed_step s0 PM_lost) es" and "list_all (\<lambda>e. \<forall>v. e \<noteq> PM_payload v) es"
    and "\<not> kalshi_key tok"
  shows "fst (get_asks tok max_age s) = Inr None"
proof -
  have "\<forall>tok. \<not> kalshi_key tok \<longrightarrow> map_of (m_ts s) tok = None"
    unfolding assms(1) by (rule silent.run_inv [OF _ assms(2)]) (simp add: pm_disconnect_def clear_mirror_def)
  with assms(3) show ?thesis by (simp add: get_asks_def bind_def look_def ret_def)
qed

theorem nothing_served_after_loss_witness:
  "fst (get_asks ''t1'' 30 (run feed_step (feed_step (run feed_step (new_feed [(''KX'', [''t1''])] (\<lambda>i. of_nat i))
     [PM_connect, PM_payload snapshot_payload]) PM_lost) [K_connect, PM_connect, Pop])) = Inr None"
proof -
  have "\<not> kalshi_key ''t1''" by code_simp
  then show ?thesis by (intro nothing_served_after_loss [OF refl]) simp_all
qed

text \<open>What is marked dirty stays so until it is read; the pairs of the feed do not change.\<close>

definition dirtier :: "feed \<Rightarrow> feed \<Rightarrow> bool" where
  "dirtier s s' \<longleftrightarrow> set (m_dirty s) \<subseteq> set (m_dirty s') \<and> token_to_pair s' = token_to_pair s"

interpretation dirtier: world_relation dirtier
  by unfold_locales (auto simp: dirtier_def)

lemmas dirtier_intros = dirtier.keeps_intros keeps_if keeps_option keeps_sum keeps_prod

lemma dirtier_handlers: "keeps dirtier (k_handle_message msg)" "keeps dirtier (pm_messages ms)"
proof -
  have edit: "keeps dirtier (edit f)" if "\<And>s. m_dirty (f s) = m_dirty s \<and> token_to_pair (f s) = token_to_pair s" for f
    using that by (simp add: keeps_def dirtier_def edit_def)
  have look: "keeps dirtier look" by (simp add: keeps_def dirtier_def look_def)
  have set: "keeps dirtier (set_asks k l)" for k l by (auto simp: keeps_def dirtier_def set_asks_run)
  have "keeps dirtier (k_publish t)" for t unfolding k_publish_def Let_def by (intro dirtier_intros look set)
  then show "keeps dirtier (k_handle_message msg)"
    unfolding k_handle_message_def k_snapshot_def k_delta_def Let_def
    by (intro dirtier_intros edit) (simp_all split: prod.split)
  have pub: "keeps dirtier (pm_publish t)" for t unfolding pm_publish_def by (intro dirtier_intros look set)
  have "keeps dirtier (pm_change ch)" for ch
    unfolding pm_change_def Let_def by (intro dirtier_intros look pub edit) (simp_all add: drop_book_def)
  then have "keeps dirtier (pm_changes chs)" for chs by (induction chs) (auto intro!: dirtier_intros)
  moreover have "keeps dirtier (pm_snapshot msg)" for msg
    unfolding pm_snapshot_def Let_def by (intro dirtier_intros pub edit) simp_all
  ultimately have "keeps dirtier (pm_handle_message msg)" for msg
    unfolding pm_handle_message_def Let_def by (intro dirtier_intros)
  then show "keeps dirtier (pm_messages ms)" by (induction ms) (auto intro!: dirtier_intros)
qed

lemma fold_drop_dirty: "m_dirty (fold (\<lambda>tk s. drop_book (kno tk) (drop_book (kyes tk) s)) ts s) = m_dirty s"
  "token_to_pair (fold (\<lambda>tk s. drop_book (kno tk) (drop_book (kyes tk) s)) ts s) = token_to_pair s"
  by (induction ts arbitrary: s) (auto simp: drop_book_def)

interpretation reported: machine feed_step "\<lambda>e. e \<noteq> Pop" "\<lambda>s. tok \<in> set (m_dirty s) \<and> map_of (token_to_pair s) tok = p" for tok p
proof unfold_locales
  fix s :: feed and e
  assume s: "tok \<in> set (m_dirty s) \<and> map_of (token_to_pair s) tok = p" and e: "e \<noteq> Pop"
  have off: "dirtier s' (pm_disconnect s')" "dirtier s' (k_disconnect s')" for s'
    by (simp_all add: dirtier_def pm_disconnect_def k_disconnect_def clear_mirror_def fold_drop_dirty)
  have "dirtier s (feed_step s e)"
  proof (cases e)
    case (K_payload v)
    obtain r s' where m: "k_handle_message (obj_of v) s = (r, s')" by (rule prod.exhaust)
    show ?thesis using keepsD [OF dirtier_handlers(1) m] off(2) [of s'] K_payload m
      by (auto split: sum.split intro: dirtier.R_trans dirtier.R_refl)
  next
    case (PM_payload v)
    obtain r s' where m: "pm_messages (case v of JList vs \<Rightarrow> vs | _ \<Rightarrow> [v]) s = (r, s')" by (rule prod.exhaust)
    show ?thesis using keepsD [OF dirtier_handlers(2) m] off(1) [of s'] PM_payload m
      by (auto split: sum.split intro: dirtier.R_trans)
  qed (use e off in \<open>auto simp: pm_connect_def k_connect_def dirtier_def\<close>)
  with s show "tok \<in> set (m_dirty (feed_step s e)) \<and> map_of (token_to_pair (feed_step s e)) tok = p"
    by (auto simp: dirtier_def)
qed

text \<open>No change is missed: once the book of a token was published, the pair of that token is among the
  changed pairs the next time they are read, whatever payloads, losses and connections of both
  venues come in between.\<close>
theorem published_change_reported:
  assumes "pm_publish tok s0 = (r, s1)" and "map_of (token_to_pair s0) tok = Some p"
    and "list_all (\<lambda>e. e \<noteq> Pop) es"
  shows "\<exists>ps. fst (dirty_pairs (run feed_step s1 es)) = Inr ps \<and> p \<in> set ps"
proof -
  have "tok \<in> set (m_dirty s1) \<and> map_of (token_to_pair s1) tok = Some p"
    using assms(1,2) by (auto simp: pm_publish_def look_def bind_def set_asks_run)
  from reported.run_inv [OF this assms(3)]
  have d: "tok \<in> set (m_dirty (run feed_step s1 es))" "map_of (token_to_pair (run feed_step s1 es)) tok = Some p" by simp_all
  show ?thesis
    by (simp add: dirty_pairs_def look_def pop_dirty_def edit_def bind_def ret_def) (rule bexI [OF _ d(1)], simp add: d(2))
qed

theorem published_change_reported_witness:
  "\<exists>ps. fst (dirty_pairs (run feed_step (snd (pm_publish ''t1'' (new_feed [(''KX'', [''t1''])] (\<lambda>i. of_nat i)))) [K_connect, PM_lost]))
     = Inr ps \<and> ''KX'' \<in> set ps"
proof (rule published_change_reported [OF prod.collapse [symmetric]])
  show "map_of (token_to_pair (new_feed [(''KX'', [''t1''])] (\<lambda>i. of_nat i))) ''t1'' = Some ''KX''" by code_simp
qed simp

text \<open>A partial Kalshi book is published: a delta for a ticker whose snapshot has not come in starts an
  empty book and serves the one level it names as the whole ladder, although the feed is documented
  to serve nothing rather than a partial book.\<close>
theorem delta_without_snapshot_served:
  "let s = run feed_step (new_feed [(''KX'', [])] (\<lambda>i. of_nat i))
       [K_connect, K_payload (JObj [(''type'', JStr ''orderbook_delta''), (''msg'', JObj [(''market_ticker'', JStr ''KX''),
          (''side'', JStr ''yes''), (''price'', JInt 25), (''delta'', JInt 7)])])]
   in fst (get_asks ''kno:KX'' 30 s) = Inr (Some [(3 / 4, 7)])"
  by code_simp

end
