(* ===== verification/Operator.thy ===== *)
theory Operator
  imports Executor Placement
begin

text \<open>
  \<open>execution/operator.py\<close>: halt, resume, flatten and the position report, over the real gateways
  the class builds by default. Positions are untyped values. Only the Polymarket client has a
  \<open>cancel_all\<close>, which calls the SDK: the parameter \<open>cancel\<close>. The engine returns an outcome in
  every world of the model, so the handler around \<open>execute\<close> has nothing to catch. The alert
  manager, whose exceptions are swallowed, is not modelled beyond the messages it is given.
\<close>

section \<open>Halt and resume\<close>

definition op_halt :: "string \<Rightarrow> ('x, unit) vop" where
  "op_halt reason = trip_switch reason"

definition op_resume :: "('x, unit) vop" where
  "op_resume = (\<lambda>w. (Inr (), w\<lparr>safe := ks_reset (safe w)\<rparr>))"

section \<open>Unwinding a position\<close>

text \<open>\<open>v > 0\<close> on an untyped value.\<close>

fun above_zero :: "json \<Rightarrow> pyexn + bool" where
  "above_zero (JInt i) = Inr (0 < i)"
| "above_zero (JNum x) = Inr (0 < x)"
| "above_zero (JBool b) = Inr b"
| "above_zero _ = Inl TypeError"

definition exit_order :: "string \<Rightarrow> bool \<Rightarrow> rat \<Rightarrow> order_request" where
  "exit_order venue sell q =
     (order_request_of venue (if sell then ''sell'' else ''buy'') \<bar>q\<bar>
        (if sell then fl (1 / 100) else fl (99 / 100)))
       \<lparr>rq_risk_reducing := True, rq_meta := [(''flatten'', JBool True)]\<rparr>"

definition kalshi_unwind :: "obj \<Rightarrow> pyexn + order_request option" where
  "kalshi_unwind pos =
     (let ticker = get_first pos [''ticker'', ''market_ticker''];
          qty = py_or (get_first pos [''position'', ''net_position'']) (JInt 0) in
      if \<not> truthy ticker \<or> \<not> truthy qty then Inr None
      else case above_zero qty of Inl e \<Rightarrow> Inl e
        | Inr sell \<Rightarrow> case py_float qty of Inl e \<Rightarrow> Inl e
        | Inr q \<Rightarrow> Inr (Some ((exit_order KALSHI sell q)\<lparr>rq_ticker := Some (py_str ticker)\<rparr>)))"

definition pm_unwind :: "obj \<Rightarrow> pyexn + order_request option" where
  "pm_unwind pos =
     (let token = get_first pos [''asset'', ''token_id'', ''tokenID''];
          qty = py_or (get_first pos [''size'', ''net_size'']) (JInt 0) in
      if \<not> truthy token \<or> \<not> truthy qty then Inr None
      else case py_float qty of Inl e \<Rightarrow> Inl e
        | Inr q \<Rightarrow> Inr (Some ((exit_order POLYMARKET (0 < q) q)
             \<lparr>rq_token_id := Some (py_str token), rq_tif := ''FOK''\<rparr>)))"

definition unwind_request :: "string \<Rightarrow> json \<Rightarrow> pyexn + order_request option" where
  "unwind_request venue pos =
     (if \<not> is_obj pos then Inl AttributeError
      else if venue = KALSHI then kalshi_unwind (obj_of pos) else pm_unwind (obj_of pos))"

section \<open>Flatten\<close>

record flatten_entry =
  fe_position :: json
  fe_filled :: rat
  fe_status :: order_status

text \<open>\<open>f"flatten:{venue}:{req.ticker or req.token_id}"\<close>.\<close>

definition flatten_key :: "string \<Rightarrow> order_request \<Rightarrow> string" where
  "flatten_key venue rq = ''flatten:'' @ venue @ '':'' @
     opt_str (if is_set (rq_ticker rq) then rq_ticker rq else rq_token_id rq)"

definition operator_execute ::
    "'x services \<Rightarrow> config \<Rightarrow> nat \<Rightarrow> string \<Rightarrow> order_request \<Rightarrow> ('x, order_outcome) vop" where
  "operator_execute S cfg rounds k rq = (\<lambda>w.
     case execute (sha S) cfg (real_gateways S cfg rounds) k rq w of (out, rq', cs, w') \<Rightarrow> (Inr out, w'))"

definition flatten_position ::
    "'x services \<Rightarrow> config \<Rightarrow> nat \<Rightarrow> string \<Rightarrow> json \<Rightarrow> ('x, flatten_entry list) vop" where
  "flatten_position S cfg rounds venue pos =
     bind (lift (unwind_request venue pos)) (\<lambda>r.
     case r of None \<Rightarrow> ret []
     | Some rq \<Rightarrow> bind (operator_execute S cfg rounds (flatten_key venue rq) rq) (\<lambda>out.
         ret [\<lparr>fe_position = pos, fe_filled = oc_filled_size out, fe_status = oc_status out\<rparr>]))"

fun flatten_positions ::
    "'x services \<Rightarrow> config \<Rightarrow> nat \<Rightarrow> string \<Rightarrow> json list \<Rightarrow> ('x, flatten_entry list) vop" where
  "flatten_positions S cfg rounds venue [] = ret []"
| "flatten_positions S cfg rounds venue (p # ps) =
     bind (flatten_position S cfg rounds venue p) (\<lambda>es.
     bind (flatten_positions S cfg rounds venue ps) (\<lambda>es'. ret (es @ es')))"

text \<open>\<open>PolymarketOrderClient.cancel_all\<close>; Kalshi's client has none.\<close>

definition pm_cancel_all :: "'x services \<Rightarrow> ('x \<Rightarrow> (string + json) \<times> 'x) \<Rightarrow> ('x, obj) vop" where
  "pm_cancel_all S cancel =
     catch
       (bind (pm_client S) (\<lambda>_. bind (ask_or_raise cancel) (\<lambda>resp.
        ret (if is_obj resp then obj_of resp else [(''raw'', JStr (py_str resp))]))))
       (\<lambda>e. ret [(''error'', JStr e)])"

definition cancel_resting ::
    "'x services \<Rightarrow> ('x \<Rightarrow> (string + json) \<times> 'x) \<Rightarrow> string \<Rightarrow> ('x, unit) vop" where
  "cancel_resting S cancel venue =
     (if venue = POLYMARKET then bind (pm_cancel_all S cancel) (\<lambda>_. ret ()) else ret ())"

definition venue_positions :: "'x services \<Rightarrow> config \<Rightarrow> string \<Rightarrow> ('x, json) vop" where
  "venue_positions S cfg venue =
     (if venue = KALSHI then kalshi_get_positions S cfg else pm_get_positions S)"

definition flatten_venue ::
    "'x services \<Rightarrow> ('x \<Rightarrow> (string + json) \<times> 'x) \<Rightarrow> config \<Rightarrow> nat \<Rightarrow> string \<Rightarrow> ('x, flatten_entry list) vop" where
  "flatten_venue S cancel cfg rounds venue =
     bind (cancel_resting S cancel venue) (\<lambda>_.
     bind (catch (venue_positions S cfg venue) (\<lambda>_. ret (JList []))) (\<lambda>positions.
     bind (lift (py_iter positions)) (flatten_positions S cfg rounds venue)))"

definition flatten_all ::
    "'x services \<Rightarrow> ('x \<Rightarrow> (string + json) \<times> 'x) \<Rightarrow> config \<Rightarrow> nat \<Rightarrow>
     ('x, (string \<times> flatten_entry list) list) vop" where
  "flatten_all S cancel cfg rounds =
     bind (op_halt ''flatten_all'') (\<lambda>_.
     bind (flatten_venue S cancel cfg rounds KALSHI) (\<lambda>ks.
     bind (flatten_venue S cancel cfg rounds POLYMARKET) (\<lambda>ps.
     ret [(KALSHI, ks), (POLYMARKET, ps)])))"

section \<open>Position report\<close>

definition is_open :: "json \<Rightarrow> bool" where
  "is_open p \<longleftrightarrow> truthy (get_first (obj_of p) [''position'', ''size''])"

datatype venue_health = Unreachable string | Open_positions nat

definition venue_report :: "'x services \<Rightarrow> config \<Rightarrow> string \<Rightarrow> ('x, venue_health \<times> string list) vop" where
  "venue_report S cfg venue =
     bind (catch (bind (venue_positions S cfg venue) (\<lambda>v. ret (Inr v))) (\<lambda>e. ret (Inl e))) (\<lambda>r.
     case r of Inl e \<Rightarrow> ret (Unreachable e, [])
     | Inr v \<Rightarrow> bind (lift (py_iter v)) (\<lambda>ps.
         if list_ex (\<lambda>p. \<not> is_obj p) ps then raise (exn_text AttributeError)
         else let n = length (filter is_open ps) in
           ret (Open_positions n,
                if n = 0 then [] else [venue @ '' has '' @ int_str (int n) @ '' open position(s)''])))"

definition position_health ::
    "'x services \<Rightarrow> config \<Rightarrow> ('x, (string \<times> venue_health) list \<times> string list) vop" where
  "position_health S cfg =
     bind (venue_report S cfg KALSHI) (\<lambda>(k, ka).
     bind (venue_report S cfg POLYMARKET) (\<lambda>(p, pa).
     ret ([(KALSHI, k), (POLYMARKET, p)], ka @ pa)))"

section \<open>What a flatten sends\<close>

text \<open>Every order sent satisfies \<open>K\<close> (Kalshi) or \<open>P\<close> (Polymarket).\<close>

definition sends ::
    "(http_request \<times> bool \<Rightarrow> bool) \<Rightarrow> (pm_order \<Rightarrow> bool) \<Rightarrow> 'x venues world \<Rightarrow> 'x venues world \<Rightarrow> bool" where
  "sends K P w w' \<longleftrightarrow> (\<exists>ks ps. posts (net w') = posts (net w) @ ks \<and> p_sent (net w') = p_sent (net w) @ ps \<and>
     list_all K ks \<and> list_all P ps)"

lemma sends_refl: "posts (net w') = posts (net w) \<Longrightarrow> p_sent (net w') = p_sent (net w) \<Longrightarrow> sends K P w w'"
  unfolding sends_def by (intro exI [of _ "[]"]) simp

lemma sends_trans: "sends K P w w' \<Longrightarrow> sends K P w' w'' \<Longrightarrow> sends K P w w''"
  unfolding sends_def by (elim exE conjE) (rule exI, rule exI, intro conjI, simp, simp, simp_all)

interpretation sends: engine_relation "sends K P" for K P
  by unfold_locales (auto intro: sends_refl sends_trans)

lemma sends_one:
  assumes "one_order cfg K P w w'" and "\<And>h a q. K h a q \<Longrightarrow> K' q" and "\<And>h a po. P h a po \<Longrightarrow> P' po"
  shows "sends K' P' w w'"
  using assms(1) unfolding one_order_def no_orders_def
proof (elim disjE exE conjE)
  fix q assume "K (halted cfg (safe w)) (is_armed cfg (safe w)) q" "posts (net w') = posts (net w) @ [q]"
    "p_sent (net w') = p_sent (net w)"
  then show ?thesis unfolding sends_def by (intro exI [of _ "[q]"] exI [of _ "[]"]) (simp add: assms(2))
next
  fix po assume "P (halted cfg (safe w)) (is_armed cfg (safe w)) po" "posts (net w') = posts (net w)"
    "p_sent (net w') = p_sent (net w) @ [po]"
  then show ?thesis unfolding sends_def by (intro exI [of _ "[]"] exI [of _ "[po]"]) (simp add: assms(3))
qed (simp add: sends_refl)

lemma sends_quiet: "keeps (no_orders cfg) m \<Longrightarrow> keeps (sends K P) m"
  by (simp add: keeps_def no_orders_def sends_refl)

text \<open>The retry loop calls its gateway with forms of the one order only.\<close>

lemma retry_loop_guard:
  assumes "\<And>r w. same_order r0 r \<Longrightarrow> place r w = place' r w"
  shows "same_order r0 rq \<Longrightarrow> retry_loop cfg place n a prev rq w = retry_loop cfg place' n a prev rq w"
proof (induction n arbitrary: a prev rq w)
  case (Suc n)
  let ?rq = "rq\<lparr>rq_meta := AList.update ''attempt'' (JInt (int a)) (rq_meta rq)\<rparr>"
  have rq: "same_order r0 ?rq" using Suc.prems by (simp add: same_order_def)
  have eq: "attempt_once cfg place ?rq w = attempt_once cfg place' ?rq w"
    using assms [OF rq] by (simp add: attempt_once_def breaker_call_def Let_def prod.case_eq_if)
  obtain res w1 where at: "attempt_once cfg place ?rq w = (res, w1)" by (rule prod.exhaust)
  with eq have "attempt_once cfg place' ?rq w = (res, w1)" by simp
  with at show ?case by (cases res) (simp_all add: Let_def Suc.IH [OF rq])
qed simp

context engine_relation begin

lemma execute_one_R:
  assumes "map_of gws (rq_venue rq) = Some place"
    and "\<And>r w. same_order (ensure_client_order_id h [k] rq) r \<Longrightarrow> R w (snd (place r w))"
  shows "R w (snd (snd (snd (execute h cfg gws k rq w))))"
proof -
  let ?r0 = "ensure_client_order_id h [k] rq"
  let ?place = "\<lambda>r w. if same_order ?r0 r then place r w else (Raised [], w)"
  let ?n = "EXECUTION_MAX_RETRIES cfg + 1"
  have eq: "retry_loop cfg place ?n 0 None ?r0 w = retry_loop cfg ?place ?n 0 None ?r0 w"
    by (rule retry_loop_guard [where ?r0.0 = ?r0]) simp_all
  have "obeys R ?place" using assms(2) by (auto simp: obeys_def R_refl)
  moreover obtain out rq' cs w' where run: "retry_loop cfg ?place ?n 0 None ?r0 w = (out, rq', cs, w')"
    by (rule prod_cases4)
  ultimately have "R w w'" by (rule retry_loop_R)
  moreover have "snd (snd (snd (retry_loop cfg place ?n 0 None ?r0 w))) = w'" unfolding eq run by simp
  ultimately show ?thesis unfolding execute_def assms(1) option.case by (simp add: R_refl del: retry_loop.simps)
qed

end

text \<open>
  What a flatten should do with a position: the quantity and the market as the venue reports them,
  whether there is anything to close, and the order that closes it: all of it, a long position sold
  and a short one bought back, across the whole book.
\<close>

definition quantity :: "string \<Rightarrow> json \<Rightarrow> json" where
  "quantity venue pos = get_first (obj_of pos)
     (if venue = KALSHI then [''position'', ''net_position''] else [''size'', ''net_size''])"

definition market :: "string \<Rightarrow> json \<Rightarrow> json" where
  "market venue pos = get_first (obj_of pos)
     (if venue = KALSHI then [''ticker'', ''market_ticker''] else [''asset'', ''token_id'', ''tokenID''])"

definition holds :: "string \<Rightarrow> json \<Rightarrow> bool" where
  "holds venue pos \<longleftrightarrow> truthy (market venue pos) \<and> truthy (quantity venue pos)"

definition exit_of :: "string \<Rightarrow> json \<Rightarrow> order_request \<Rightarrow> bool" where
  "exit_of venue pos rq \<longleftrightarrow> rq_risk_reducing rq \<and>
     (\<exists>q. py_float (quantity venue pos) = Inr q \<and> rq_size rq = \<bar>q\<bar> \<and>
        (if 0 < q then rq_action rq = ''sell'' \<and> rq_limit_price rq = fl (1 / 100)
         else rq_action rq = ''buy'' \<and> rq_limit_price rq = fl (99 / 100))) \<and>
     (if venue = KALSHI
      then rq_venue rq = KALSHI \<and> rq_ticker rq = Some (py_str (market venue pos)) \<and> rq_outcome_side rq = ''yes''
      else rq_venue rq = POLYMARKET \<and> rq_token_id rq = Some (py_str (market venue pos)) \<and> rq_tif rq = ''FOK'')"

text \<open>The orders that exit one of the positions \<open>ps\<close>.\<close>

definition kalshi_exit :: "config \<Rightarrow> json list \<Rightarrow> http_request \<times> bool \<Rightarrow> bool" where
  "kalshi_exit cfg ps q \<longleftrightarrow> (\<exists>pos \<in> set ps. \<exists>rq. exit_of KALSHI pos rq \<and> kalshi_order_ok cfg rq True True q)"

definition pm_exit :: "config \<Rightarrow> json list \<Rightarrow> pm_order \<Rightarrow> bool" where
  "pm_exit cfg ps po \<longleftrightarrow> (\<exists>pos \<in> set ps. \<exists>rq. exit_of POLYMARKET pos rq \<and> pm_order_ok cfg rq True True po)"

definition exits :: "config \<Rightarrow> string \<Rightarrow> json list \<Rightarrow> 'x venues world \<Rightarrow> 'x venues world \<Rightarrow> bool" where
  "exits cfg venue ps = sends (\<lambda>q. venue = KALSHI \<and> kalshi_exit cfg ps q) (\<lambda>po. venue \<noteq> KALSHI \<and> pm_exit cfg ps po)"

lemma above_zero_float: "above_zero v = Inr b \<Longrightarrow> py_float v = Inr x \<Longrightarrow> b \<longleftrightarrow> 0 < x"
proof -
  have pos: "0 < fl (rat_of_int i) \<longleftrightarrow> 0 < i" for i
  proof (cases "0 < i")
    case True
    then have "1 \<le> rat_of_int i" by simp
    from fl_ge [OF fl_1 this] True show ?thesis by linarith
  next
    case False
    then have "rat_of_int i \<le> 0" by simp
    from fl_le [OF fl_0 this] False show ?thesis by linarith
  qed
  show "above_zero v = Inr b \<Longrightarrow> py_float v = Inr x \<Longrightarrow> b \<longleftrightarrow> 0 < x"
    by (cases v) (auto simp: pos split: if_splits)
qed

lemma or_zero: "truthy (py_or v (JInt 0)) \<longleftrightarrow> truthy v" "truthy v \<Longrightarrow> py_or v (JInt 0) = v"
  by (auto simp: py_or_def split: if_splits)

lemma unwind_exit:
  assumes "unwind_request venue pos = Inr (Some rq)"
  shows "exit_of venue pos rq" "holds venue pos"
proof -
  have "exit_of venue pos rq \<and> holds venue pos"
  proof (cases "venue = KALSHI")
    case True
    let ?v = "quantity venue pos"
    have "kalshi_unwind (obj_of pos) = Inr (Some rq)" using assms True by (simp add: unwind_request_def split: if_splits)
    then obtain sell q where v: "truthy ?v" "truthy (market venue pos)" "above_zero ?v = Inr sell" "py_float ?v = Inr q"
        "rq = (exit_order KALSHI sell q)\<lparr>rq_ticker := Some (py_str (market venue pos))\<rparr>"
      using True by (auto simp: kalshi_unwind_def quantity_def market_def or_zero Let_def split: if_splits sum.splits)
    have "sell = (0 < q)" using above_zero_float [OF v(3,4)] .
    then show ?thesis using v True by (simp add: exit_of_def holds_def exit_order_def order_request_of_def)
  next
    case False
    let ?v = "quantity venue pos"
    have "pm_unwind (obj_of pos) = Inr (Some rq)" using assms False by (simp add: unwind_request_def split: if_splits)
    then obtain q where v: "truthy ?v" "truthy (market venue pos)" "py_float ?v = Inr q"
        "rq = (exit_order POLYMARKET (0 < q) q)\<lparr>rq_token_id := Some (py_str (market venue pos)), rq_tif := ''FOK''\<rparr>"
      using False by (auto simp: pm_unwind_def quantity_def market_def or_zero Let_def split: if_splits sum.splits)
    then show ?thesis using False by (simp add: exit_of_def holds_def exit_order_def order_request_of_def)
  qed
  then show "exit_of venue pos rq" "holds venue pos" by simp_all
qed

lemma exit_fields:
  assumes "unwind_request venue pos = Inr (Some rq)"
  shows "rq_venue rq = (if venue = KALSHI then KALSHI else POLYMARKET)" "rq_risk_reducing rq"
    "rq_client_order_id rq = None" "venue \<noteq> KALSHI \<Longrightarrow> rq_tif rq = ''FOK''" "rq_outcome_side rq = ''yes''"
    "(rq_action rq, rq_limit_price rq) \<in> {(''sell'', fl (1 / 100)), (''buy'', fl (99 / 100))}"
  using assms
  by (auto simp: unwind_request_def kalshi_unwind_def pm_unwind_def Let_def exit_order_def order_request_of_def
      split: if_splits sum.splits)

lemma kalshi_exit_sends:
  assumes "unwind_request KALSHI pos = Inr (Some rq)" and "same_order (ensure_client_order_id h ks rq) r" and "pos \<in> set ps"
  shows "exits cfg KALSHI ps w (snd (as_gateway (kalshi_place S cfg n) r w))"
proof -
  let ?r0 = "ensure_client_order_id h ks rq"
  have one: "one_order cfg (kalshi_order_ok cfg r) (\<lambda>h a po. False) w (snd (kalshi_place S cfg n r w))"
    by (rule kalshi_place_within_request_lemma)
  have ok: "KALSHI = KALSHI \<and> kalshi_exit cfg ps q" if "kalshi_order_ok cfg r h' a q" for h' a q
  proof -
    have "kalshi_order_ok cfg ?r0 h' a q" using that kalshi_order_ok_same [OF assms(2)] by simp
    moreover have "\<not> has_client_order_id rq" using exit_fields(3) [OF assms(1)] by (simp add: has_client_order_id_def)
    ultimately have "kalshi_order_ok cfg rq True True q"
      using exit_fields(2) [OF assms(1)] unfolding kalshi_order_ok_def ensure_fields by blast
    with unwind_exit(1) [OF assms(1)] assms(3) show ?thesis unfolding kalshi_exit_def by blast
  qed
  have "exits cfg KALSHI ps w (snd (kalshi_place S cfg n r w))"
    unfolding exits_def by (rule sends_one [OF one ok]) simp_all
  then show ?thesis by (simp add: as_gateway_def prod.case_eq_if sum.case_eq_if)
qed

lemma pm_exit_sends:
  assumes "unwind_request POLYMARKET pos = Inr (Some rq)" and "same_order (ensure_client_order_id h ks rq) r" and "pos \<in> set ps"
    and "venue \<noteq> KALSHI"
  shows "exits cfg venue ps w (snd (as_gateway (pm_place S cfg n) r w))"
proof -
  have f: "rq_token_id r = rq_token_id rq" "rq_action r = rq_action rq" "rq_tif r = rq_tif rq" "rq_size r = rq_size rq"
    "rq_limit_price r = rq_limit_price rq" "rq_outcome_side r = rq_outcome_side rq"
    using assms(2) by (cases r; cases rq; auto simp: same_order_def ensure_client_order_id_def has_client_order_id_def split: if_splits)+
  have "pm_order_type cfg r \<noteq> []" using exit_fields(4) [OF assms(1)] f(3) by (simp add: pm_order_type_def)
  then have one: "one_order cfg (\<lambda>h a q. False) (\<lambda>h a. pm_order_ok cfg r h True) w (snd (pm_place S cfg n r w))"
    using pm_place_one [of cfg r "\<lambda>h a q. False" S n] by (simp add: keeps_def)
  have same: "pm_order_type cfg r = pm_order_type cfg rq" "pm_side r = pm_side rq"
    using f by (simp_all add: pm_order_type_def pm_side_def)
  have ok: "venue \<noteq> KALSHI \<and> pm_exit cfg ps po" if "pm_order_ok cfg r h' True po" for h' po
  proof -
    have "pm_order_ok cfg rq True True po"
      using that unfolding pm_order_ok_def f same by blast
    with unwind_exit(1) [OF assms(1)] assms(3,4) show ?thesis unfolding pm_exit_def by blast
  qed
  have "exits cfg venue ps w (snd (pm_place S cfg n r w))"
    unfolding exits_def by (rule sends_one [OF one _ ok]) simp_all
  then show ?thesis by (simp add: as_gateway_def prod.case_eq_if sum.case_eq_if)
qed

lemma exit_execute:
  assumes "unwind_request venue pos = Inr (Some rq)" and "pos \<in> set ps"
  shows "keeps (exits cfg venue ps) (operator_execute S cfg n k rq)"
proof (cases "venue = KALSHI")
  case True
  note rq = assms(1) [unfolded True]
  have "map_of (real_gateways S cfg n) (rq_venue rq) = Some (as_gateway (kalshi_place S cfg n))"
    using exit_fields(1) [OF assms(1)] True by (simp add: real_gateways_def)
  from sends.execute_one_R [OF this kalshi_exit_sends [OF rq _ assms(2), unfolded exits_def]] show ?thesis
    by (simp add: keeps_def exits_def True operator_execute_def prod.case_eq_if)
next
  case False
  have rq: "unwind_request POLYMARKET pos = Inr (Some rq)" using assms(1) False by (auto simp: unwind_request_def split: if_splits)
  have "map_of (real_gateways S cfg n) (rq_venue rq) = Some (as_gateway (pm_place S cfg n))"
    using exit_fields(1) [OF assms(1)] False by (simp add: real_gateways_def)
  from sends.execute_one_R [OF this pm_exit_sends [OF rq _ assms(2) False, unfolded exits_def]] show ?thesis
    by (simp add: keeps_def exits_def operator_execute_def prod.case_eq_if)
qed

lemma lasting_execute: "keeps (lasting cfg) (operator_execute S cfg n k rq)"
  using lasting.execute_final_R [OF lasting_table]
  by (auto simp: keeps_def operator_execute_def prod.case_eq_if)

text \<open>A relation kept by the engine on unwinds and by the clients' reads is kept by the flatten.\<close>

locale flatten_relation = engine_relation R for R :: "'x venues world \<Rightarrow> 'x venues world \<Rightarrow> bool" +
  fixes S :: "'x services" and cancel :: "'x \<Rightarrow> (string + json) \<times> 'x" and cfg :: config and rounds :: nat
  assumes R_exit: "unwind_request venue pos = Inr (Some rq) \<Longrightarrow> keeps R (operator_execute S cfg rounds k rq)"
    and R_cancel: "keeps R (pm_cancel_all S cancel)"
    and R_positions: "keeps R (kalshi_get_positions S cfg)" "keeps R (pm_get_positions S)"
begin

lemma keeps_flatten_position: "keeps R (flatten_position S cfg rounds venue pos)"
proof (cases "unwind_request venue pos")
  case (Inr r)
  show ?thesis
  proof (cases r)
    case None
    then show ?thesis by (simp add: flatten_position_def Inr keeps_def bind_def lift_def ret_def R_refl)
  next
    case (Some rq)
    let ?m = "bind (operator_execute S cfg rounds (flatten_key venue rq) rq) (\<lambda>out.
         ret [\<lparr>fe_position = pos, fe_filled = oc_filled_size out, fe_status = oc_status out\<rparr>])"
    have "keeps R ?m" by (rule keeps_bind [OF R_exit [OF Inr [unfolded Some]] keeps_ret])
    moreover have "flatten_position S cfg rounds venue pos = ?m"
      by (simp add: flatten_position_def Inr Some lift_def bind_def ret_def)
    ultimately show ?thesis by simp
  qed
qed (simp add: flatten_position_def lift_def bind_def raise_def keeps_def R_refl)

lemma keeps_flatten_positions: "keeps R (flatten_positions S cfg rounds venue ps)"
  by (induction ps) (auto intro!: keeps_intros keeps_flatten_position)

lemma keeps_flatten_venue: "keeps R (flatten_venue S cancel cfg rounds venue)"
proof -
  have "keeps R (venue_positions S cfg venue)" unfolding venue_positions_def using R_positions by simp
  moreover have "keeps R (cancel_resting S cancel venue)"
    unfolding cancel_resting_def by (intro keeps_if keeps_intros R_cancel)
  ultimately show ?thesis
    unfolding flatten_venue_def by (intro keeps_intros keeps_flatten_positions)
qed

lemma keeps_flatten_all: "keeps R (flatten_all S cancel cfg rounds)"
proof -
  have "keeps R (op_halt r)" for r by (simp add: keeps_def op_halt_def trip_switch_def R_trip)
  then show ?thesis unfolding flatten_all_def by (intro keeps_intros keeps_flatten_venue)
qed

end

lemma no_orders_cancel: "keeps (no_orders cfg) (pm_cancel_all S cancel)"
  unfolding pm_cancel_all_def by (intro keep)

lemma grows_cancel: "keeps grows (pm_cancel_all S cancel)"
  unfolding pm_cancel_all_def by (intro keep)

lemma no_orders_positions: "keeps (no_orders cfg) (kalshi_get_positions S cfg)" "keeps (no_orders cfg) (pm_get_positions S)"
  unfolding kalshi_get_positions_def pm_get_positions_def by (intro keep no_orders_request; simp)+

lemma exits_positions: "set ps \<subseteq> set all \<Longrightarrow> keeps (exits cfg venue all) (flatten_positions S cfg n venue ps)"
proof (induction ps)
  case Nil
  then show ?case unfolding exits_def by (auto intro!: sends.keeps_intros)
next
  case (Cons p ps)
  have "keeps (exits cfg venue all) (flatten_position S cfg n venue p)"
  proof (cases "unwind_request venue p")
    case (Inl e)
    then show ?thesis unfolding exits_def
      by (simp add: flatten_position_def lift_def bind_def raise_def keeps_def sends.R_refl)
  next
    case (Inr r)
    have "keeps (exits cfg venue all) (case r of None \<Rightarrow> ret []
       | Some rq \<Rightarrow> bind (operator_execute S cfg n (flatten_key venue rq) rq) (\<lambda>out.
           ret [\<lparr>fe_position = p, fe_filled = oc_filled_size out, fe_status = oc_status out\<rparr>]))"
      using exit_execute [of venue p _ all cfg S n] Inr Cons.prems unfolding exits_def
      by (auto split: option.split intro!: sends.keeps_intros)
    then show ?thesis by (simp add: flatten_position_def Inr lift_def bind_def ret_def keeps_def)
  qed
  then show ?case using Cons unfolding exits_def by (auto intro!: sends.keeps_intros)
qed

text \<open>The positions a venue reports when it is asked in the world \<open>w\<close>.\<close>

definition reported :: "'x services \<Rightarrow> config \<Rightarrow> string \<Rightarrow> 'x venues world \<Rightarrow> json list" where
  "reported S cfg venue w =
     (case fst ((if venue = KALSHI then kalshi_get_positions S cfg else pm_get_positions S) w) of
        Inl e \<Rightarrow> []
      | Inr v \<Rightarrow> (case py_iter v of Inl e \<Rightarrow> [] | Inr ps \<Rightarrow> ps))"

lemma exits_venue:
  "exits cfg venue (reported S cfg venue (snd (cancel_resting S cancel venue w))) w
     (snd (flatten_venue S cancel cfg n venue w))"
proof -
  have quiet: "keeps (exits cfg venue all) m" if "keeps (no_orders cfg) m" for all and m :: "('a, 'b) vop"
    unfolding exits_def by (rule sends_quiet [OF that])
  obtain rc w1 where c: "cancel_resting S cancel venue w = (rc, w1)" by (rule prod.exhaust)
  obtain rp w2 where p: "venue_positions S cfg venue w1 = (rp, w2)" by (rule prod.exhaust)
  define all where "all = reported S cfg venue w1"
  have "keeps (no_orders cfg) (cancel_resting S cancel venue)"
    unfolding cancel_resting_def by (intro keeps_if keep no_orders_cancel)
  from keepsD [OF quiet [OF this] c] have 1: "exits cfg venue all w w1" .
  have "keeps (no_orders cfg) (venue_positions S cfg venue)"
    unfolding venue_positions_def by (intro keeps_if no_orders_positions)
  from keepsD [OF quiet [OF this] p] have 2: "exits cfg venue all w1 w2" .
  have 3: "exits cfg venue all w w2" using 1 2 unfolding exits_def by (rule sends_trans)
  have rep: "all = (case rp of Inl e \<Rightarrow> [] | Inr v \<Rightarrow> (case py_iter v of Inl e \<Rightarrow> [] | Inr ps \<Rightarrow> ps))"
    using p by (simp add: all_def reported_def venue_positions_def)
  have "exits cfg venue all w2 (snd (flatten_positions S cfg n venue all w2))"
    using exits_positions [of all all] unfolding keeps_def by blast
  then have 4: "exits cfg venue all w (snd (flatten_positions S cfg n venue all w2))"
    using 3 unfolding exits_def by (blast intro: sends_trans)
  have "exits cfg venue all w (snd (flatten_venue S cancel cfg n venue w))"
    using 1 3 4 rep
    by (cases rc; cases rp) (auto simp: flatten_venue_def bind_def catch_def lift_def ret_def raise_def c p split: sum.splits)
  then show ?thesis by (simp add: all_def c)
qed

interpretation lasting_flatten: flatten_relation "lasting cfg" S cancel cfg rounds for S cancel cfg rounds
proof unfold_locales
  show "keeps (lasting cfg) (pm_cancel_all S cancel)" by (rule lasting_grows [OF grows_cancel])
  show "keeps (lasting cfg) (kalshi_get_positions S cfg)" by (rule lasting_grows, intro keep)
  show "keeps (lasting cfg) (pm_get_positions S)" by (rule lasting_grows, intro keep)
qed (rule lasting_execute)

section \<open>Properties\<close>

text \<open>C14. An operator's flatten leaves the desk halted and can only reduce risk: whatever the venues and the
  SDK answer, and also when it raises, placement is halted afterwards, the lock is as before, and
  every order it sent to a venue is the exit of a position that venue reported when the flatten asked
  it: marked risk-reducing, on the opposite side, for whole contracts at most the position (Kalshi)
  or its shares (Polymarket).\<close>
theorem flatten_halts_and_only_unwinds:
  "let w' = snd (flatten_all S cancel cfg rounds w);
       w0 = trip_world ''flatten_all'' w;
       w1 = snd (flatten_venue S cancel cfg rounds KALSHI w0);
       kalshi_reported = reported S cfg KALSHI w0;
       pm_reported = reported S cfg POLYMARKET (snd (pm_cancel_all S cancel w1)) in
   halted cfg (safe w') \<and> is_armed cfg (safe w') = is_armed cfg (safe w) \<and>
   (\<exists>ks ps. posts (net w') = posts (net w) @ ks \<and> p_sent (net w') = p_sent (net w) @ ps \<and>
      list_all (kalshi_exit cfg kalshi_reported) ks \<and> list_all (pm_exit cfg pm_reported) ps)"
proof -
  let ?w0 = "trip_world ''flatten_all'' w"
  let ?rest = "bind (flatten_venue S cancel cfg rounds KALSHI) (\<lambda>ks.
     bind (flatten_venue S cancel cfg rounds POLYMARKET) (\<lambda>ps. ret [(KALSHI, ks), (POLYMARKET, ps)]))"
  define w1 where "w1 = snd (flatten_venue S cancel cfg rounds KALSHI ?w0)"
  define w2 where "w2 = snd (flatten_venue S cancel cfg rounds POLYMARKET w1)"
  define kr where "kr = reported S cfg KALSHI ?w0"
  define pr where "pr = reported S cfg POLYMARKET (snd (pm_cancel_all S cancel w1))"
  have w': "snd (flatten_all S cancel cfg rounds w) = snd (?rest ?w0)"
    by (simp add: flatten_all_def op_halt_def trip_switch_def
        bind_run [of "\<lambda>w. (Inr (), trip_world ''flatten_all'' w)"])
  have "keeps (lasting cfg) ?rest" by (intro lasting.keeps_intros lasting_flatten.keeps_flatten_venue)
  then have l: "lasting cfg ?w0 (snd (?rest ?w0))" by (simp add: keeps_def)
  have ends: "snd (?rest ?w0) \<in> {w1, w2}"
    by (auto simp: w1_def w2_def bind_def ret_def split: prod.split sum.split)
  have k: "exits cfg KALSHI kr ?w0 w1"
    using exits_venue [of cfg KALSHI S cancel ?w0 rounds] by (simp add: w1_def kr_def cancel_resting_def KALSHI_def POLYMARKET_def ret_def)
  have "snd (cancel_resting S cancel POLYMARKET w1) = snd (pm_cancel_all S cancel w1)"
    by (simp add: cancel_resting_def bind_def ret_def split: prod.split sum.split)
  then have p: "exits cfg POLYMARKET pr w1 w2"
    using exits_venue [of cfg POLYMARKET S cancel w1 rounds] by (simp add: w2_def pr_def)
  let ?both = "sends (kalshi_exit cfg kr) (pm_exit cfg pr)"
  have "?both ?w0 w1" using k unfolding exits_def sends_def by (fastforce simp: list_all_iff)
  moreover have "?both w1 w2" using p unfolding exits_def sends_def by (fastforce simp: list_all_iff KALSHI_def POLYMARKET_def)
  ultimately have "?both ?w0 (snd (?rest ?w0))" using ends sends_trans by auto
  then have "?both w (snd (?rest ?w0))" by (simp add: sends_def)
  then show ?thesis using l unfolding w' w1_def [symmetric] kr_def [symmetric] pr_def [symmetric] Let_def
    by (simp add: lasting_def sends_def)
qed

text \<open>A position whose numbers can be read: on Kalshi the quantity is a number, on Polymarket a text of
  one will do.\<close>

definition readable :: "string \<Rightarrow> json \<Rightarrow> bool" where
  "readable venue pos \<longleftrightarrow> is_obj pos \<and>
     (holds venue pos \<longrightarrow>
       (case py_float (quantity venue pos) of Inl e \<Rightarrow> False | Inr q \<Rightarrow> True) \<and>
       (venue = KALSHI \<longrightarrow> (case quantity venue pos of JInt i \<Rightarrow> True | JNum x \<Rightarrow> True | JBool b \<Rightarrow> True | _ \<Rightarrow> False)))"

lemma readable_unwind:
  assumes "readable venue pos"
  shows "\<exists>r. unwind_request venue pos = Inr r \<and> (r = None \<longleftrightarrow> \<not> holds venue pos)"
proof (cases "venue = KALSHI")
  case True
  then show ?thesis using assms
    by (auto simp: readable_def unwind_request_def kalshi_unwind_def holds_def market_def quantity_def or_zero Let_def
        split: sum.splits json.splits)
next
  case False
  then show ?thesis using assms
    by (auto simp: readable_def unwind_request_def pm_unwind_def holds_def market_def quantity_def or_zero Let_def
        split: sum.splits)
qed

text \<open>
  The positions \<open>ps\<close> unwound one after the other from the world \<open>w\<close>: each that holds something by an
  order that exits it, which the engine executes in the world the one before it left and hands to
  the gateway.
\<close>

inductive unwound ::
  "'x services \<Rightarrow> config \<Rightarrow> nat \<Rightarrow> string \<Rightarrow> json list \<Rightarrow> 'x venues world \<Rightarrow> flatten_entry list \<Rightarrow> 'x venues world \<Rightarrow> bool"
  for S cfg n venue where
  unwound_nil: "unwound S cfg n venue [] w [] w"
| unwound_flat: "\<not> holds venue p \<Longrightarrow> unwound S cfg n venue ps w es w' \<Longrightarrow> unwound S cfg n venue (p # ps) w es w'"
| unwound_exit: "holds venue p \<Longrightarrow> exit_of venue p rq \<Longrightarrow>
     execute (sha S) cfg (real_gateways S cfg n) k rq w = (out, rq', c # cs, w1) \<Longrightarrow>
     unwound S cfg n venue ps w1 es w' \<Longrightarrow>
     unwound S cfg n venue (p # ps) w (\<lparr>fe_position = p, fe_filled = oc_filled_size out, fe_status = oc_status out\<rparr> # es) w'"

lemma unwound_positions: "unwound S cfg n venue ps w es w' \<Longrightarrow> map fe_position es = filter (holds venue) ps"
  by (induction rule: unwound.induct) auto

text \<open>C15. A flatten leaves no position out: when every reported position of a venue can be read, the
  flatten of the venue is a chain of executions, one for each position with a quantity, in the order
  reported, each in the world the one before it left: its order closes the position exactly when
  filled, is handed to the venue's gateway although placement is halted and the breaker may be open,
  and has its outcome in the report.\<close>
theorem flatten_reaches_every_position:
  assumes "list_all (readable venue) ps" and "flatten_positions S cfg n venue ps w = (res, w')"
  shows "\<exists>es. res = Inr es \<and> map fe_position es = filter (holds venue) ps \<and> unwound S cfg n venue ps w es w'"
proof -
  have "\<exists>es. res = Inr es \<and> unwound S cfg n venue ps w es w'"
    using assms
  proof (induction ps arbitrary: w res w')
    case Nil
    then have "res = Inr []" "w' = w" by (simp_all add: ret_def)
    then show ?case using unwound_nil [of S cfg n venue w] by blast
  next
    case (Cons p ps)
    obtain r where r: "unwind_request venue p = Inr r" "r = None \<longleftrightarrow> \<not> holds venue p"
      using readable_unwind [of venue p] Cons.prems(1) by auto
    show ?case
    proof (cases r)
      case None
      obtain res2 w2 where two: "flatten_positions S cfg n venue ps w = (res2, w2)" by (rule prod.exhaust)
      obtain es where es: "res2 = Inr es" "unwound S cfg n venue ps w es w2" using Cons.IH [OF _ two] Cons.prems(1) by auto
      have "(res, w') = (res2, w2)"
        using Cons.prems(2) two r None es(1) by (simp add: flatten_position_def lift_def bind_def ret_def)
      then show ?thesis using es unwound_flat [OF _ es(2)] r None by auto
    next
      case (Some rq)
      note u = r(1) [unfolded Some]
      obtain out rq' cs w1 where ex: "execute (sha S) cfg (real_gateways S cfg n) (flatten_key venue rq) rq w = (out, rq', cs, w1)"
        by (rule prod_cases4)
      obtain place where place: "map_of (real_gateways S cfg n) (rq_venue rq) = Some place"
        using exit_fields(1) [OF u] by (auto simp: real_gateways_def split: if_splits)
      have "cs \<noteq> []" using risk_reducing_called [OF exit_fields(2) [OF u] place, of "sha S" cfg "flatten_key venue rq" w] ex by simp
      then obtain c cs' where cs: "cs = c # cs'" by (cases cs) auto
      obtain res2 w2 where two: "flatten_positions S cfg n venue ps w1 = (res2, w2)" by (rule prod.exhaust)
      obtain es where es: "res2 = Inr es" "unwound S cfg n venue ps w1 es w2" using Cons.IH [OF _ two] Cons.prems(1) by auto
      have "(res, w') = (Inr (\<lparr>fe_position = p, fe_filled = oc_filled_size out, fe_status = oc_status out\<rparr> # es), w2)"
        using Cons.prems(2) two es(1) ex by (simp add: flatten_position_def u lift_def bind_def ret_def operator_execute_def)
      then show ?thesis using unwound_exit [OF unwind_exit(2,1) [OF u] ex [unfolded cs] es(2)] by auto
    qed
  qed
  then show ?thesis using unwound_positions by blast
qed

definition pm_position :: json where
  "pm_position = JObj [(''asset'', JStr ''t1''), (''size'', JInt 3)]"

theorem flatten_reaches_every_position_witness:
  "\<exists>es w'. flatten_positions filling_services live_config 5 POLYMARKET [pm_position, JObj []]
      (trip_world ''flatten_all'' armed_world) = (Inr es, w') \<and> map fe_position es = [pm_position] \<and>
    unwound filling_services live_config 5 POLYMARKET [pm_position, JObj []] (trip_world ''flatten_all'' armed_world) es w'"
proof -
  have r: "list_all (readable POLYMARKET) [pm_position, JObj []]"
    and h: "filter (holds POLYMARKET) [pm_position, JObj []] = [pm_position]" by code_simp+
  obtain res w' where e: "flatten_positions filling_services live_config 5 POLYMARKET [pm_position, JObj []]
      (trip_world ''flatten_all'' armed_world) = (res, w')" by (rule prod.exhaust)
  show ?thesis using flatten_reaches_every_position [OF r e] e h by auto
qed

definition text_quantity_services :: "nat services" where
  "text_quantity_services = filling_services
     \<lparr>kalshi_http := (\<lambda>rq x. (Reply 200 [(''market_positions'', JList [JObj [(''ticker'', JStr ''KX''), (''position'', JStr ''5'')]])], x)),
      sdk_positions := (\<lambda>x. (Inr (JList [pm_position]), x))\<rparr>"

text \<open>Flatten is not best-effort: a position whose quantity is a text makes the comparison raise outside
  every handler, the flatten ends with the exception, and the positions of the venues after it stay
  open although they could be unwound. (The doc of the class promises a log of every attempt.)\<close>
theorem malformed_position_leaves_rest_open:
  "(\<exists>rq. unwind_request POLYMARKET pm_position = Inr (Some rq)) \<and>
   (\<exists>w'. flatten_all text_quantity_services (\<lambda>x. (Inr (JObj []), x)) live_config 5 armed_world = (Inl ''TypeError'', w') \<and>
      p_sent (net w') = [])"
proof
  show "\<exists>rq. unwind_request POLYMARKET pm_position = Inr (Some rq)"
    by (simp add: unwind_request_def pm_unwind_def pm_position_def py_or_def)
  have "case flatten_all text_quantity_services (\<lambda>x. (Inr (JObj []), x)) live_config 5 armed_world of
      (r, w') \<Rightarrow> r = Inl ''TypeError'' \<and> p_sent (net w') = []"
    by (simp add: flatten_all_def op_halt_def trip_switch_def trip_world_def flatten_venue_def cancel_resting_def
        venue_positions_def kalshi_get_positions_def kalshi_request_def kalshi_auth_headers_def send_request_def
        get_safe_def put_net_def ask_def text_quantity_services_def filling_services_def is_set_def Let_def
        MUTATING_METHODS_def flatten_position_def unwind_request_def kalshi_unwind_def py_or_def exn_text_def
        armed_world_def calm_world_def empty_venues_def tick_def readings_def run_ops cong: run_congs)
  then show "\<exists>w'. flatten_all text_quantity_services (\<lambda>x. (Inr (JObj []), x)) live_config 5 armed_world = (Inl ''TypeError'', w') \<and>
      p_sent (net w') = []" by (auto split: prod.splits)
qed

end
