(* ===== verification/Capture.thy ===== *)
theory Capture
  imports Hedging Reconcile
begin

text \<open>
  \<open>execution/capture.py\<close>: the record written for every execution attempt, and the public entry
  point of the executor that writes it. A row is a dictionary in the order of the source; the file
  is the list of its lines, and writing and reading JSON is the identity on rows (\<open>json\<close> keeps
  finite floats, integers and texts). Opening the file is not modelled to fail. The path of the
  file, which differs under tests, is not modelled.
\<close>

section \<open>The row\<close>

text \<open>\<open>v * x\<close> and \<open>x - v\<close> for an untyped \<open>v\<close> and a float \<open>x\<close>.\<close>

fun as_number :: "json \<Rightarrow> pyexn + rat" where
  "as_number (JInt i) = Inr (fl (of_int i))"
| "as_number (JNum x) = Inr x"
| "as_number (JBool b) = Inr (if b then 1 else 0)"
| "as_number _ = Inl TypeError"

definition estimate_from_opportunity :: "obj \<Rightarrow> obj" where
  "estimate_from_opportunity opp =
     [(''expected_net'', get opp ''total_profit''),
      (''buy_price'', if get opp ''buy_platform'' = JStr ''kalshi'' then get opp ''kalshi_price'' else get opp ''polymarket_price''),
      (''sell_price'', if get opp ''sell_platform'' = JStr ''polymarket'' then get opp ''polymarket_price'' else get opp ''kalshi_price'')]"

text \<open>The estimate scaled to the filled size.\<close>

definition expected_scaled :: "json \<Rightarrow> rat \<Rightarrow> rat \<Rightarrow> pyexn + json" where
  "expected_scaled expected full filled =
     (if expected \<noteq> JNull \<and> 0 < full \<and> 0 < filled
      then (case as_number expected of Inl e \<Rightarrow> Inl e | Inr x \<Rightarrow> Inr (JNum (fmul x (fdiv filled full))))
      else Inr expected)"

text \<open>\<open>(match.get(k, {}) or {}).get("id")\<close>.\<close>

definition market_id :: "json \<Rightarrow> string \<Rightarrow> pyexn + json" where
  "market_id mtch k =
     (if \<not> is_obj mtch then Inl AttributeError
      else let m = py_or (get_or (JObj []) (obj_of mtch) k) (JObj []) in
        if is_obj m then Inr (get (obj_of m) ''id'') else Inl AttributeError)"

text \<open>The fields up to the lineage, and the ones after it.\<close>

definition row_head :: "obj \<Rightarrow> json \<Rightarrow> execution_result \<Rightarrow> rat \<Rightarrow> obj" where
  "row_head opp mtch res t =
     [(''ts'', JNum t), (''opportunity_id'', JStr (er_opportunity_id res)),
      (''execution_id'', opt_json (er_execution_id res)),
      (''strategy'', get opp ''strategy''), (''strategy_type'', get opp ''strategy_type''),
      (''polarity'', get opp ''polarity''),
      (''verification'', if is_obj mtch then get (obj_of mtch) ''verification'' else JNull),
      (''confirmation_source'', JStr (er_confirmation_source res)),
      (''skipped_reason'', opt_json (er_skipped_reason res)),
      (''buy_platform'', JStr (er_buy_platform res)), (''sell_platform'', JStr (er_sell_platform res)),
      (''requested_volume'', JNum (er_requested_volume res)), (''filled_volume'', JNum (er_filled_volume res)),
      (''buy_order_id'', opt_json (er_buy_order_id res)), (''sell_order_id'', opt_json (er_sell_order_id res)),
      (''buy_fill_id'', opt_json (er_buy_fill_id res)), (''sell_fill_id'', opt_json (er_sell_fill_id res)),
      (''buy_trade_id'', opt_json (er_buy_trade_id res)), (''sell_trade_id'', opt_json (er_sell_trade_id res)),
      (''settlement_id'', opt_json (er_settlement_id res))]"

definition row_tail :: "obj \<Rightarrow> execution_result \<Rightarrow> json \<Rightarrow> json \<Rightarrow> obj \<Rightarrow> obj" where
  "row_tail estimate res scaled full h =
     [(''expected_net'', scaled), (''expected_net_full'', full),
      (''expected_buy_price'', get estimate ''buy_price''), (''expected_sell_price'', get estimate ''sell_price''),
      (''realized_net'', JNum (er_net_profit res)), (''realized_gross'', JNum (er_gross_profit res)),
      (''avg_buy_price'', JNum (er_avg_buy_price res)), (''avg_sell_price'', JNum (er_avg_sell_price res)),
      (''buy_fees'', JNum (er_buy_fees res)), (''sell_fees'', JNum (er_sell_fees res)),
      (''latency_ms'', JInt (er_latency_ms res)),
      (''hedge_residual'', get_or (JNum 0) h ''residual''), (''hedge_filled'', get h ''unwind_filled'')]"

definition record_row ::
    "obj \<Rightarrow> execution_result \<Rightarrow> obj option \<Rightarrow> obj option \<Rightarrow> rat \<Rightarrow> pyexn + obj" where
  "record_row opp res estimate0 hedge_info t =
     (let mtch = py_or (get_or (JObj []) opp ''match_data'') (JObj []);
          estimate = (case estimate0 of Some e \<Rightarrow> if e = [] then estimate_from_opportunity opp else e
                      | None \<Rightarrow> estimate_from_opportunity opp);
          full = get estimate ''expected_net'' in
      case float_or opp ''max_tradeable_volume'' 0 of Inl e \<Rightarrow> Inl e | Inr volume \<Rightarrow>
      case expected_scaled full volume (er_filled_volume res) of Inl e \<Rightarrow> Inl e | Inr scaled \<Rightarrow>
      case market_id mtch ''kalshi_market'' of Inl e \<Rightarrow> Inl e | Inr kid \<Rightarrow>
      case (if truthy (get opp ''polymarket_token'') then Inr (get opp ''polymarket_token'')
            else market_id mtch ''polymarket_market'') of Inl e \<Rightarrow> Inl e | Inr ptok \<Rightarrow>
      let row = row_head opp mtch res t @ [(''kalshi_ticker'', kid), (''polymarket_token'', ptok)] @
                row_tail estimate res scaled full (case hedge_info of Some h \<Rightarrow> h | None \<Rightarrow> []) in
      if scaled = JNull then Inr row
      else case as_number scaled of Inl e \<Rightarrow> Inl e
        | Inr x \<Rightarrow> Inr (row @ [(''est_vs_real_delta'', JNum (fsub (er_net_profit res) x))]))"

section \<open>The entry point of the executor\<close>

text \<open>The result, and the file after the row was appended; a failure of the capture is swallowed.\<close>

definition execute_arbitrage ::
    "'x services \<Rightarrow> desk_env \<Rightarrow> config \<Rightarrow> nat \<Rightarrow> 'x runner \<Rightarrow> bool \<Rightarrow> obj \<Rightarrow> capture_line list \<Rightarrow>
     ('x, execution_result \<times> capture_line list) sop" where
  "execute_arbitrage S E cfg rounds legs capture opp file =
     bind (run_arbitrage S E cfg rounds legs opp) (\<lambda>(res, hedge_info).
     if capture then
       bind (on_world now) (\<lambda>t.
       case record_row opp res None hedge_info t of
         Inl e \<Rightarrow> ret (res, file)
       | Inr row \<Rightarrow> ret (res, file @ [Row (JObj row)]))
     else ret (res, file))"

section \<open>Reading a row back\<close>

text \<open>What the ledger is to book for a result: nothing unless it is a live trade with a fill.\<close>

definition leg_booking :: "execution_result \<Rightarrow> string \<Rightarrow> new_fill" where
  "leg_booking res leg =
     (let buy = (leg = ''buy'') in
      \<lparr>nf_leg = leg, nf_fill_id = (if buy then er_buy_fill_id res else er_sell_fill_id res),
       nf_platform = (if buy then er_buy_platform res else er_sell_platform res),
       nf_price = (if buy then er_avg_buy_price res else er_avg_sell_price res),
       nf_size = er_filled_volume res, nf_fee = (if buy then er_buy_fees res else er_sell_fees res),
       nf_order_id = (if buy then er_buy_order_id res else er_sell_order_id res),
       nf_trade_id = (if buy then er_buy_trade_id res else er_sell_trade_id res),
       nf_market_id = None, nf_token_id = None, nf_timestamp = None, nf_source = ''exchange''\<rparr>)"

definition live_fill :: "execution_result \<Rightarrow> bool" where
  "live_fill res \<longleftrightarrow> \<not> is_set (er_skipped_reason res) \<and> er_confirmation_source res = ''exchange'' \<and> 0 < er_filled_volume res"

text \<open>The market identifiers the row carries for the settlement check.\<close>

definition market_ref :: "obj \<Rightarrow> string \<Rightarrow> json" where
  "market_ref opp k = get (obj_of (get (obj_of (get opp ''match_data'')) k)) ''id''"

definition booking :: "obj \<Rightarrow> execution_result \<Rightarrow> rat \<Rightarrow> receipt" where
  "booking opp res t =
     \<lparr>rc_opportunity_id = er_opportunity_id res, rc_execution_id = er_execution_id res,
      rc_buy = leg_booking res ''buy'', rc_sell = leg_booking res ''sell'', rc_settlement_id = er_settlement_id res,
      rc_metadata = [(''kalshi_ticker'', market_ref opp ''kalshi_market''),
        (''polymarket_token'', if truthy (get opp ''polymarket_token'') then get opp ''polymarket_token''
                               else market_ref opp ''polymarket_market'')],
      rc_strategy_type = opt_text (get opp ''strategy_type''), rc_mark_confirmed = True, rc_mark_settled = False,
      rc_timestamp = Some t\<rparr>"

lemma opt_text_json [simp]: "opt_text (opt_json v) = v"
  by (cases v) (simp_all add: opt_text_def opt_json_def)

lemma truthy_opt_json [simp]: "truthy (opt_json v) = is_set v"
  by (cases v) (simp_all add: opt_json_def is_set_def)

lemma obj_of_falsy: "\<not> truthy v \<Longrightarrow> obj_of v = []"
  by (cases v) auto

lemma market_id_ref:
  assumes "market_id (py_or (get_or (JObj []) opp ''match_data'') (JObj [])) k = Inr v"
  shows "v = market_ref opp k"
proof -
  have d: "obj_of (py_or (get_or (JObj []) ob j) (JObj [])) = obj_of (get ob j)" for ob j
    by (auto simp: py_or_def get_or_def obj_of_falsy split: option.split)
  show ?thesis using assms by (auto simp: market_id_def market_ref_def Let_def d split: if_splits)
qed

text \<open>The parts of a row that the reader looks at.\<close>

lemma row_shape:
  assumes "record_row opp res est hg t = Inr row"
  obtains mtch ptok estimate scaled full h extra where
    "row = row_head opp mtch res t @
       [(''kalshi_ticker'', market_ref opp ''kalshi_market''), (''polymarket_token'', ptok)] @
       row_tail estimate res scaled full h @ extra"
    "ptok = (if truthy (get opp ''polymarket_token'') then get opp ''polymarket_token''
             else market_ref opp ''polymarket_market'')"
  using assms
  by (auto simp: record_row_def Let_def split: sum.splits if_splits dest!: market_id_ref
      intro: that [where extra = "[]", simplified] that)

lemma row_fields:
  assumes "record_row opp res est hg t = Inr row"
  shows "get row ''ts'' = JNum t" "get row ''skipped_reason'' = opt_json (er_skipped_reason res)"
    "get row ''confirmation_source'' = JStr (er_confirmation_source res)"
    "get row ''filled_volume'' = JNum (er_filled_volume res)"
    "get row ''avg_buy_price'' = JNum (er_avg_buy_price res)" "get row ''avg_sell_price'' = JNum (er_avg_sell_price res)"
    "get row ''buy_fees'' = JNum (er_buy_fees res)" "get row ''sell_fees'' = JNum (er_sell_fees res)"
    "row_receipt row (er_filled_volume res) (row_leg row ''buy'' (er_avg_buy_price res) (er_filled_volume res) (er_buy_fees res))
      (row_leg row ''sell'' (er_avg_sell_price res) (er_filled_volume res) (er_sell_fees res)) t = booking opp res t"
  by (rule row_shape [OF assms],
    simp add: row_head_def row_tail_def row_receipt_def row_leg_def booking_def leg_booking_def)+

lemma float_or_num: "get r k = JNum x \<Longrightarrow> float_or r k 0 = Inr x"
  by (simp add: float_or_def)

text \<open>What the reader makes of a row: the booking of its result.\<close>

definition book_result ::
    "obj \<Rightarrow> execution_result \<Rightarrow> rat \<Rightarrow> (nat \<Rightarrow> string) \<Rightarrow> rat \<Rightarrow> tracker \<Rightarrow> pyexn + tracker" where
  "book_result opp res t ids t' tr =
     (if live_fill res
      then (case record_execution_receipt (booking opp res t) ids t' tr of Inl e \<Rightarrow> Inl e | Inr (_, tr') \<Rightarrow> Inr tr')
      else Inr tr)"

lemma row_read_back:
  assumes "record_row opp res est hg t = Inr row" and "t \<noteq> 0"
  shows "capture_row row ids t' tr = book_result opp res t ids t' tr"
proof -
  note f = row_fields [OF assms(1)]
  have "float_or row ''ts'' t' = Inr t" using assms(2) by (simp add: float_or_def f)
  then show ?thesis
    by (simp add: capture_row_def book_result_def live_fill_def f float_or_num [OF f(4)] float_or_num [OF f(5)]
        float_or_num [OF f(6)] float_or_num [OF f(7)] float_or_num [OF f(8)] not_le)
qed

section \<open>What a trade reports\<close>

text \<open>Every value an operation returns satisfies \<open>P\<close>.\<close>

definition returns :: "('w, 'a) op \<Rightarrow> ('a \<Rightarrow> bool) \<Rightarrow> bool" where
  "returns m P \<longleftrightarrow> (\<forall>w x w'. m w = (Inr x, w') \<longrightarrow> P x)"

named_theorems returned

lemma returns_ret [returned]: "P x \<Longrightarrow> returns (ret x) P"
  and returns_raise [returned]: "returns (raise e) P"
  by (simp_all add: returns_def ret_def raise_def)

lemma returns_bind: "returns m Q \<Longrightarrow> (\<And>x. Q x \<Longrightarrow> returns (f x) P) \<Longrightarrow> returns (bind m f) P"
  unfolding returns_def bind_def by (auto split: prod.splits sum.splits) blast

lemma returns_after [returned]: "(\<And>x. returns (f x) P) \<Longrightarrow> returns (bind m f) P"
  by (rule returns_bind [of _ "\<lambda>_. True"]) (simp_all add: returns_def)

lemma returns_cases [returned]:
  "returns m P \<Longrightarrow> returns m' P \<Longrightarrow> returns (if c then m else m') P"
  "returns m P \<Longrightarrow> (\<And>x. returns (f x) P) \<Longrightarrow> returns (case v of None \<Rightarrow> m | Some x \<Rightarrow> f x) P"
  "(\<And>x y. returns (g x y) P) \<Longrightarrow> returns (case p of (x, y) \<Rightarrow> g x y) P"
  by (simp, (cases v, simp_all)[1], (cases p, simp_all)[1])

text \<open>A result says \<open>exchange\<close> exactly for a trade of the live mode that was not skipped.\<close>

definition labelled :: "config \<Rightarrow> execution_result \<Rightarrow> bool" where
  "labelled cfg res \<longleftrightarrow> (er_confirmation_source res = ''exchange'' \<longleftrightarrow> live_mode cfg \<and> er_skipped_reason res = None)"

lemma labelled_skipped: "returns (skipped_result oid opp reason t0) (labelled cfg)"
  unfolding skipped_result_def by (intro returned) (simp add: labelled_def)

lemma labelled_built: "returns (build_result S cfg oid opp b s q t0) (labelled cfg)"
  unfolding build_result_def Let_def by (intro returned) (simp add: labelled_def)

lemma labelled_trade: "returns (run_arbitrage S E cfg rounds legs opp) (\<lambda>(res, h). labelled cfg res)"
proof -
  have pair: "returns (bind m (\<lambda>r. ret (r, h))) (\<lambda>(res, h). labelled cfg res)" if "returns m (labelled cfg)"
    for m :: "('x, execution_result) sop" and h :: "obj option"
    using that by (rule returns_bind) (simp add: returns_ret)
  note skipped = pair [OF labelled_skipped]
  have "returns (settle_legs S cfg rounds oid opp t0 lr) (\<lambda>(res, h). labelled cfg res)" for oid t0 lr
    unfolding settle_legs_def Let_def by (intro returns_after returns_cases pair labelled_skipped labelled_built)
  then show ?thesis
    unfolding run_arbitrage_def Let_def by (intro returns_after returns_cases skipped)
qed

section \<open>Properties\<close>

text \<open>The ledger of a list of recorded trades, each an opportunity, its result and the time of its record.\<close>

fun book_results ::
    "(obj \<times> execution_result \<times> rat) list \<Rightarrow> (nat \<Rightarrow> nat \<Rightarrow> string) \<Rightarrow> (nat \<Rightarrow> rat) \<Rightarrow> nat \<Rightarrow> tracker \<Rightarrow> pyexn + tracker" where
  "book_results [] ids ts n tr = Inr tr"
| "book_results ((opp, res, t) # rs) ids ts n tr =
     (case book_result opp res t (ids n) (ts n) tr of Inl e \<Rightarrow> Inl e
      | Inr tr' \<Rightarrow> book_results rs ids ts (Suc n) tr')"

text \<open>C16. The capture file carries everything the ledger needs: the ledger rebuilt from the rows of any
  list of trades is the ledger that books the results themselves, leg by leg with the prices, sizes,
  fees, identifiers and markets they have, and skips exactly what was not a live fill.\<close>
theorem capture_file_round_trip:
  assumes "list_all2 (\<lambda>(opp, res, t) row. t \<noteq> 0 \<and> (\<exists>est hg. record_row opp res est hg t = Inr row)) trades rows"
  shows "tracker_from_capture (Some (map (\<lambda>r. Row (JObj r)) rows)) allow ids ts =
    book_results trades ids ts 0 (new_tracker allow 5000)"
proof -
  have "capture_rows (map (\<lambda>r. Row (JObj r)) rows) ids ts n tr = book_results trades ids ts n tr" for n tr
    using assms
  proof (induction trades rows arbitrary: n tr rule: list_all2_induct)
    case (Cons x xs row rows)
    obtain opp res t where x: "x = (opp, res, t)" by (rule prod_cases3)
    then obtain est hg where "t \<noteq> 0" "record_row opp res est hg t = Inr row" using Cons.hyps(1) by auto
    from row_read_back [OF this(2,1)] show ?case by (simp add: x Cons.IH split: sum.split)
  qed simp
  then show ?thesis by (simp add: tracker_from_capture_def Let_def)
qed

definition live_result :: execution_result where
  "live_result =
     \<lparr>er_opportunity_id = ''o1'', er_buy_platform = ''kalshi'', er_sell_platform = ''polymarket'',
      er_requested_volume = 3, er_filled_volume = 3, er_avg_buy_price = 1 / 4, er_avg_sell_price = 1 / 2,
      er_buy_fees = 1 / 8, er_sell_fees = 0, er_gross_profit = 3 / 4, er_net_profit = 5 / 8, er_profit_margin = 5 / 6,
      er_latency_ms = 12, er_timestamp = 7, er_skipped_reason = None, er_execution_id = Some ''exec-1'',
      er_buy_order_id = Some ''k1'', er_sell_order_id = Some ''p1'', er_buy_fill_id = Some ''f1'', er_sell_fill_id = None,
      er_buy_trade_id = None, er_sell_trade_id = Some ''0xabc'', er_settlement_id = None,
      er_confirmation_source = ''exchange''\<rparr>"

theorem capture_file_round_trip_witness:
  "\<exists>row. record_row spread live_result None None 9 = Inr row \<and>
     tracker_from_capture (Some [Row (JObj row)]) False (\<lambda>n i. CHR ''u'' # replicate i (CHR ''x'')) (\<lambda>n. 0) =
     book_results [(spread, live_result, 9)] (\<lambda>n i. CHR ''u'' # replicate i (CHR ''x'')) (\<lambda>n. 0) 0 (new_tracker False 5000)"
proof -
  have "case record_row spread live_result None None 9 of Inl e \<Rightarrow> False | Inr row \<Rightarrow> True" by code_simp
  then obtain row where row: "record_row spread live_result None None 9 = Inr row" by (auto split: sum.splits)
  then have "list_all2 (\<lambda>(opp, res, t) row. t \<noteq> 0 \<and> (\<exists>est hg. record_row opp res est hg t = Inr row))
      [(spread, live_result, 9)] [row]" by auto
  from capture_file_round_trip [OF this] row show ?thesis by (intro exI [of _ row]) simp
qed

text \<open>Only money that moved is booked: whatever the legs of a trade do, the row of the trade is booked
  in a rebuilt ledger exactly when the executor ran in live mode and both legs filled, and then with
  the figures of its result; a paper trade or a skipped one never is.\<close>
theorem only_live_trades_are_booked:
  assumes "run_arbitrage S E cfg rounds legs opp s = (Inr (res, h), s')"
    and "record_row opp res None h t = Inr row" and "t \<noteq> 0"
  shows "capture_row row ids t' tr =
    (if live_mode cfg \<and> er_skipped_reason res = None \<and> 0 < er_filled_volume res
     then (case record_execution_receipt (booking opp res t) ids t' tr of Inl e \<Rightarrow> Inl e | Inr (_, tr') \<Rightarrow> Inr tr')
     else Inr tr)"
proof -
  have "labelled cfg res" using labelled_trade assms(1) unfolding returns_def by blast
  then have "live_fill res \<longleftrightarrow> live_mode cfg \<and> er_skipped_reason res = None \<and> 0 < er_filled_volume res"
    by (auto simp: labelled_def live_fill_def is_set_def)
  with row_read_back [OF assms(2,3)] show ?thesis by (simp add: book_result_def)
qed

text \<open>A trade of a halted live desk, with the row it is captured as.\<close>

definition halted_trade :: "pyexn + obj \<times> execution_result" where
  "halted_trade =
     (case run_arbitrage filling_services calm_env live_config 5 (\<lambda>b c k. ret (legs_filled 5)) spread
             (open_desk\<lparr>wl := trip_world ''stop'' armed_world\<rparr>) of
        (Inr (res, h), s') \<Rightarrow> (case record_row spread res None h 9 of Inl e \<Rightarrow> Inl e | Inr row \<Rightarrow> Inr (row, res))
      | (Inl e, s') \<Rightarrow> Inl ValueError)"

theorem only_live_trades_are_booked_witness:
  "\<exists>row res. halted_trade = Inr (row, res) \<and>
     capture_row row (\<lambda>i. replicate i (CHR ''x'')) 0 (new_tracker False 5000) = Inr (new_tracker False 5000)"
proof -
  have "case halted_trade of Inl e \<Rightarrow> False | Inr (row, res) \<Rightarrow> er_filled_volume res = 0" by code_simp
  then obtain row res where p: "halted_trade = Inr (row, res)" "er_filled_volume res = 0" by (auto split: sum.splits)
  then obtain h s' where "run_arbitrage filling_services calm_env live_config 5 (\<lambda>b c k. ret (legs_filled 5)) spread
        (open_desk\<lparr>wl := trip_world ''stop'' armed_world\<rparr>) = (Inr (res, h), s')"
      "record_row spread res None h 9 = Inr row"
    unfolding halted_trade_def by (auto split: prod.splits sum.splits)
  then show ?thesis using only_live_trades_are_booked p by fastforce
qed

end
