(* ===== verification/BookWalk.thy ===== *)
theory BookWalk
  imports MockExecution "HOL-Library.While_Combinator" "HOL-Library.Product_Lexorder"
begin

text \<open>
  The book walks of \<open>live_probe.py\<close>: buy the same number of contracts of several outcomes at once,
  level by level, while the next contracts still pay after fees. A ladder is a list of ask levels
  (price, size, is it Kalshi's). The Python loops move an index through copies of the ladders and
  reduce the size of the current level; here the ladder is what is left from the index on. The
  loops are \<open>while_option\<close>, so that a walk that did not end would be \<open>None\<close>; a locale gives the
  bound on their rounds. Sums of floats accumulate from the left (Python 3.11, which the
  deployment uses).
\<close>

type_synonym level = "rat \<times> rat \<times> bool"

type_synonym ladder = "level list"

definition DUST :: rat where "DUST = fl (1 / 1000000000)"

text \<open>The fee of \<open>step\<close> contracts at a level; the Polymarket fee with an explicit rate never raises.\<close>

definition pm_fee :: "int \<Rightarrow> rat \<Rightarrow> rat \<Rightarrow> rat" where
  "pm_fee bps p z = (case FeeModel_polymarket_taker_fee p z bps of Inr x \<Rightarrow> x | Inl e \<Rightarrow> 0)"

definition level_fee :: "int \<Rightarrow> rat \<Rightarrow> level \<Rightarrow> rat" where
  "level_fee bps step l = (case l of (p, z, k) \<Rightarrow> if k then FeeModel_kalshi_taker_fee p step else pm_fee bps p step)"

section \<open>Loops that drain\<close>

text \<open>A loop each of whose rounds lowers a number ends within that many rounds.\<close>

locale draining =
  fixes cond :: "'s \<Rightarrow> bool" and body :: "'s \<Rightarrow> 's" and depth :: "'s \<Rightarrow> nat"
  assumes drains: "cond s \<Longrightarrow> depth (body s) < depth s"
begin

lemma ends: "\<exists>s'. while_option cond body s = Some s'"
  by (rule measure_while_option_Some [where P = "\<lambda>_. True" and f = depth]) (simp_all add: drains)

lemma rounds: "\<exists>k \<le> depth s. while_option cond body s = Some ((body ^^ k) s)"
proof (induction "depth s" arbitrary: s rule: less_induct)
  case less
  show ?case
  proof (cases "cond s")
    case True
    from less [OF drains [OF True]] obtain k where
      k: "k \<le> depth (body s)" "while_option cond body (body s) = Some ((body ^^ k) (body s))" by blast
    with True drains [OF True] show ?thesis
      by (intro exI [of _ "Suc k"]) (simp add: while_option_unfold [of _ _ s] funpow_swap1)
  next
    case False
    then show ?thesis by (intro exI [of _ 0]) (simp add: while_option_unfold [of _ _ s])
  qed
qed

end

section \<open>\<open>walk_basket\<close>\<close>

record basket_state =
  b_legs :: "ladder list"
  b_size :: rat
  b_costs :: "rat list"
  b_fees :: rat
  b_stop :: bool

definition levels_of :: "ladder list \<Rightarrow> level list" where "levels_of legs = map hd legs"

definition step_of :: "level list \<Rightarrow> rat" where "step_of ls = min_list (map (\<lambda>(p, z, k). z) ls)"

text \<open>Levels without size are passed over; \<open>step\<close> contracts are taken off a level, and what is left
  of it counts only above a billionth.\<close>

definition skip_empty :: "ladder \<Rightarrow> ladder" where
  "skip_empty leg = (case leg of [] \<Rightarrow> [] | (p, z, k) # r \<Rightarrow> if z \<le> 0 then r else leg)"

definition take_off :: "rat \<Rightarrow> ladder \<Rightarrow> ladder" where
  "take_off step leg = (case leg of [] \<Rightarrow> [] | (p, z, k) # r \<Rightarrow>
     let z' = fsub z step in if z' \<le> DUST then r else (p, z', k) # r)"

definition basket_fees :: "int \<Rightarrow> rat \<Rightarrow> level list \<Rightarrow> rat" where
  "basket_fees bps step ls = fsum (map (level_fee bps step) ls)"

definition basket_margin :: "int \<Rightarrow> rat \<Rightarrow> rat \<Rightarrow> level list \<Rightarrow> rat" where
  "basket_margin bps payout step ls =
     fsub (fmul (fsub payout (fsum (map fst ls))) step) (basket_fees bps step ls)"

definition basket_open :: "basket_state \<Rightarrow> bool" where
  "basket_open s \<longleftrightarrow> \<not> b_stop s \<and> b_legs s \<noteq> [] \<and> [] \<notin> set (b_legs s)"

definition basket_round :: "int \<Rightarrow> rat \<Rightarrow> basket_state \<Rightarrow> basket_state" where
  "basket_round bps payout s =
     (let ls = levels_of (b_legs s); step = step_of ls in
      if step \<le> 0 then s\<lparr>b_legs := map skip_empty (b_legs s)\<rparr>
      else if basket_margin bps payout step ls \<le> 0 then s\<lparr>b_stop := True\<rparr>
      else s\<lparr>b_size := fadd (b_size s) step, b_fees := fadd (b_fees s) (basket_fees bps step ls),
             b_costs := map2 (\<lambda>c l. fadd c (fmul (fst l) step)) (b_costs s) ls,
             b_legs := map (take_off step) (b_legs s)\<rparr>)"

definition basket_start :: "ladder list \<Rightarrow> basket_state" where
  "basket_start legs = \<lparr>b_legs = legs, b_size = 0, b_costs = replicate (length legs) 0, b_fees = 0, b_stop = False\<rparr>"

record basket =
  bk_size :: rat
  bk_cost :: rat
  bk_net :: rat
  bk_net_edge :: rat
  bk_avg_prices :: "rat list"

definition basket_result :: "rat \<Rightarrow> basket_state \<Rightarrow> basket option" where
  "basket_result payout s =
     (let n = b_size s; cost = fsum (b_costs s); net = fsub (fsub (fmul payout n) cost) (b_fees s) in
      if n \<le> 0 \<or> net \<le> 0 then None
      else Some \<lparr>bk_size = n, bk_cost = cost, bk_net = net,
                 bk_net_edge = (if cost = 0 then 0 else fdiv net cost), bk_avg_prices = map (\<lambda>c. fdiv c n) (b_costs s)\<rparr>)"

text \<open>The outer \<open>None\<close> would be a walk that does not end.\<close>

definition walk_basket :: "ladder list \<Rightarrow> int \<Rightarrow> rat \<Rightarrow> basket option option" where
  "walk_basket legs bps payout =
     (if legs = [] \<or> [] \<in> set legs then Some None
      else map_option (basket_result payout) (while_option basket_open (basket_round bps payout) (basket_start legs)))"

section \<open>\<open>walk_complementary\<close>\<close>

text \<open>Two ladders of pairs of price and size, and which of them is Kalshi's.\<close>

record comp_state =
  c_a :: "(rat \<times> rat) list"
  c_b :: "(rat \<times> rat) list"
  c_size :: rat
  c_cost_a :: rat
  c_cost_b :: rat
  c_stop :: bool

definition comp_fees :: "bool \<Rightarrow> bool \<Rightarrow> int \<Rightarrow> rat \<Rightarrow> rat \<Rightarrow> rat \<Rightarrow> rat \<times> rat" where
  "comp_fees a_is_kalshi b_is_kalshi bps pa pb z =
     (fadd (if a_is_kalshi then FeeModel_kalshi_taker_fee pa z else 0)
           (if b_is_kalshi then FeeModel_kalshi_taker_fee pb z else 0),
      fadd (if \<not> a_is_kalshi then pm_fee bps pa z else 0) (if \<not> b_is_kalshi then pm_fee bps pb z else 0))"

definition skip_pair :: "(rat \<times> rat) list \<Rightarrow> (rat \<times> rat) list" where
  "skip_pair leg = (case leg of [] \<Rightarrow> [] | (p, z) # r \<Rightarrow> if z \<le> 0 then r else leg)"

definition take_pair :: "rat \<Rightarrow> (rat \<times> rat) list \<Rightarrow> (rat \<times> rat) list" where
  "take_pair step leg = (case leg of [] \<Rightarrow> [] | (p, z) # r \<Rightarrow>
     let z' = fsub z step in if z' \<le> DUST then r else (p, z') # r)"

definition comp_open :: "comp_state \<Rightarrow> bool" where
  "comp_open s \<longleftrightarrow> \<not> c_stop s \<and> c_a s \<noteq> [] \<and> c_b s \<noteq> []"

definition comp_round :: "bool \<Rightarrow> bool \<Rightarrow> int \<Rightarrow> comp_state \<Rightarrow> comp_state" where
  "comp_round ak bk bps s =
     (let (pa, sa) = hd (c_a s); (pb, sb) = hd (c_b s); step = min sa sb in
      if step \<le> 0 then s\<lparr>c_a := skip_pair (c_a s), c_b := skip_pair (c_b s)\<rparr>
      else let (kf, pf) = comp_fees ak bk bps pa pb step in
        if fsub (fsub (fmul (fsub (fsub 1 pa) pb) step) kf) pf \<le> 0 then s\<lparr>c_stop := True\<rparr>
        else s\<lparr>c_size := fadd (c_size s) step, c_cost_a := fadd (c_cost_a s) (fmul pa step),
               c_cost_b := fadd (c_cost_b s) (fmul pb step),
               c_a := take_pair step (c_a s), c_b := take_pair step (c_b s)\<rparr>)"

record comp_walk =
  cw_size :: rat
  cw_cost :: rat
  cw_net :: rat
  cw_avg_a :: rat
  cw_avg_b :: rat
  cw_net_edge :: rat

definition comp_result :: "bool \<Rightarrow> bool \<Rightarrow> int \<Rightarrow> comp_state \<Rightarrow> comp_walk option" where
  "comp_result ak bk bps s =
     (let n = c_size s; ca = c_cost_a s; cb = c_cost_b s in
      if n \<le> 0 then None
      else let (kf, pf) = comp_fees ak bk bps (fdiv ca n) (fdiv cb n) n;
               net = fsub (fsub (fsub (fsub n ca) cb) kf) pf; cost = fadd ca cb
        in Some \<lparr>cw_size = n, cw_cost = cost, cw_net = net, cw_avg_a = fdiv ca n, cw_avg_b = fdiv cb n,
                 cw_net_edge = (if cost = 0 then 0 else fdiv net cost)\<rparr>)"

definition comp_start :: "(rat \<times> rat) list \<Rightarrow> (rat \<times> rat) list \<Rightarrow> comp_state" where
  "comp_start a b = \<lparr>c_a = a, c_b = b, c_size = 0, c_cost_a = 0, c_cost_b = 0, c_stop = False\<rparr>"

definition walk_complementary ::
    "(rat \<times> rat) list \<Rightarrow> (rat \<times> rat) list \<Rightarrow> bool \<Rightarrow> bool \<Rightarrow> int \<Rightarrow> comp_walk option option" where
  "walk_complementary a b ak bk bps =
     map_option (comp_result ak bk bps) (while_option comp_open (comp_round ak bk bps) (comp_start a b))"

section \<open>Every round drains the books\<close>

lemma shrink:
  assumes "\<And>l. l \<in> set ls \<Longrightarrow> length (f l) \<le> length l" and "l0 \<in> set ls" and "length (f l0) < length l0"
  shows "sum_list (map length (map f ls)) < sum_list (map length ls)"
  using assms
proof (induction ls)
  case (Cons l ls)
  have le: "sum_list (map length (map f ls)) \<le> sum_list (map length ls)"
    using Cons.prems(1) by (simp add: o_def) (rule sum_list_mono, simp)
  show ?case
  proof (cases "l0 = l")
    case True
    with le Cons.prems(3) show ?thesis by simp
  next
    case False
    with Cons show ?thesis by (simp add: add_le_less_mono)
  qed
qed simp

lemma step_of_in:
  assumes "legs \<noteq> []" "[] \<notin> set legs"
  obtains p k r where "(p, step_of (levels_of legs), k) # r \<in> set legs"
proof -
  let ?zs = "map (\<lambda>(p, z, k). z) (levels_of legs)"
  have ne: "?zs \<noteq> []" using assms by (simp add: levels_of_def)
  have "step_of (levels_of legs) \<in> set ?zs"
    unfolding step_of_def min_list_Min [OF ne] by (rule Min_in) (use ne in simp_all)
  then obtain leg where leg: "leg \<in> set legs" "step_of (levels_of legs) = (\<lambda>(p, z, k). z) (hd leg)"
    by (auto simp: levels_of_def)
  with assms(2) have "leg \<noteq> []" by auto
  then obtain p z k r where "leg = (p, z, k) # r" by (cases leg) auto
  with leg show ?thesis by (intro that [of p k r]) simp
qed

lemma DUST_nonneg: "0 \<le> DUST"
  by (simp add: DUST_def fl_nonneg)

lemma skip_empty_le: "length (skip_empty l) \<le> length l" and take_off_le: "length (take_off step l) \<le> length l"
  by (auto simp: skip_empty_def take_off_def Let_def split: list.split)

lemma skip_shrinks:
  assumes "legs \<noteq> []" "[] \<notin> set legs" "step_of (levels_of legs) \<le> 0"
  shows "sum_list (map length (map skip_empty legs)) < sum_list (map length legs)"
proof -
  obtain p k r where "(p, step_of (levels_of legs), k) # r \<in> set legs" using step_of_in [OF assms(1,2)] .
  then show ?thesis using assms(3) by (rule_tac shrink [where f = skip_empty]) (simp_all add: skip_empty_le, simp add: skip_empty_def)
qed

lemma take_shrinks:
  assumes "legs \<noteq> []" "[] \<notin> set legs"
  shows "sum_list (map length (map (take_off (step_of (levels_of legs))) legs)) < sum_list (map length legs)"
proof -
  obtain p k r where "(p, step_of (levels_of legs), k) # r \<in> set legs" using step_of_in [OF assms(1,2)] .
  then show ?thesis
    by (rule_tac shrink [where f = "take_off _"]) (simp_all add: take_off_le, simp add: take_off_def DUST_nonneg)
qed

definition basket_depth :: "basket_state \<Rightarrow> nat" where
  "basket_depth s = (if b_stop s then 0 else 1 + sum_list (map length (b_legs s)))"

interpretation basket_walk: draining basket_open "basket_round bps payout" basket_depth for bps payout
proof unfold_locales
  fix s assume "basket_open s"
  then have s: "\<not> b_stop s" "b_legs s \<noteq> []" "[] \<notin> set (b_legs s)" by (simp_all add: basket_open_def)
  show "basket_depth (basket_round bps payout s) < basket_depth s"
    using s skip_shrinks [OF s(2,3)] take_shrinks [OF s(2,3)] by (simp add: basket_round_def Let_def basket_depth_def)
qed

definition comp_depth :: "comp_state \<Rightarrow> nat" where
  "comp_depth s = (if c_stop s then 0 else 1 + length (c_a s) + length (c_b s))"

interpretation comp_walk: draining comp_open "comp_round ak bk bps" comp_depth for ak bk bps
proof unfold_locales
  fix s assume "comp_open s"
  then obtain pa sa ra pb sb rb where s: "\<not> c_stop s" "c_a s = (pa, sa) # ra" "c_b s = (pb, sb) # rb"
    by (cases "c_a s"; cases "c_b s") (auto simp: comp_open_def)
  show "comp_depth (comp_round ak bk bps s) < comp_depth s"
    using s DUST_nonneg
    by (auto simp: comp_round_def comp_depth_def skip_pair_def take_pair_def min_def Let_def split: prod.split)
qed

section \<open>The books merged\<close>

text \<open>
  The reference: all books matched against each other, level by level, without looking at prices.
  Each entry is a number of contracts and the levels that sell them.
\<close>

function schedule :: "ladder list \<Rightarrow> (rat \<times> level list) list" where
  "schedule legs =
     (if legs = [] \<or> [] \<in> set legs then []
      else let ls = levels_of legs; step = step_of ls in
        if step \<le> 0 then schedule (map skip_empty legs) else (step, ls) # schedule (map (take_off step) legs))"
  by auto
termination
proof (relation "measure (\<lambda>legs. sum_list (map length legs))", goal_cases)
  case (2 legs)
  then show ?case using skip_shrinks [of legs] unfolding in_measure by blast
next
  case (3 legs)
  then show ?case using take_shrinks [of legs] unfolding in_measure by blast
qed simp

declare schedule.simps [simp del]

definition book_fill :: "int \<Rightarrow> rat \<times> level list \<Rightarrow> basket_state \<Rightarrow> basket_state" where
  "book_fill bps f s = (case f of (step, ls) \<Rightarrow>
     s\<lparr>b_size := fadd (b_size s) step, b_fees := fadd (b_fees s) (basket_fees bps step ls),
       b_costs := map2 (\<lambda>c l. fadd c (fmul (fst l) step)) (b_costs s) ls\<rparr>)"

definition reference_walk :: "ladder list \<Rightarrow> int \<Rightarrow> rat \<Rightarrow> basket option" where
  "reference_walk legs bps payout =
     basket_result payout
       (fold (book_fill bps) (takeWhile (\<lambda>(step, ls). 0 < basket_margin bps payout step ls) (schedule legs))
          (basket_start legs))"

text \<open>Two states with the same books kept; what is left of the ladders does not enter the result.\<close>

definition same_books :: "basket_state \<Rightarrow> basket_state \<Rightarrow> bool" where
  "same_books s t \<longleftrightarrow> b_size s = b_size t \<and> b_costs s = b_costs t \<and> b_fees s = b_fees t"

lemma same_result: "same_books s t \<Longrightarrow> basket_result payout s = basket_result payout t"
  by (simp add: same_books_def basket_result_def Let_def)

lemma same_fold: "same_books s t \<Longrightarrow> same_books (fold (book_fill bps) fs s) (fold (book_fill bps) fs t)"
proof (induction fs arbitrary: s t)
  case (Cons f fs)
  have "same_books (book_fill bps f s) (book_fill bps f t)"
    using Cons.prems by (simp add: book_fill_def same_books_def split: prod.split)
  from Cons.IH [OF this] show ?case by simp
qed simp

lemma walk_follows_schedule:
  "b_legs s = legs \<Longrightarrow> \<not> b_stop s \<Longrightarrow> while_option basket_open (basket_round bps payout) s = Some s' \<Longrightarrow>
   same_books s' (fold (book_fill bps) (takeWhile (\<lambda>(step, ls). 0 < basket_margin bps payout step ls) (schedule legs)) s)"
proof (induction legs arbitrary: s rule: schedule.induct)
  case (1 legs)
  let ?ls = "levels_of legs" and ?step = "step_of (levels_of legs)"
  note w = 1(5) [unfolded while_option_unfold [of _ _ s]]
  show ?case
  proof (cases "legs = [] \<or> [] \<in> set legs")
    case True
    then show ?thesis using 1(3-5) w
      by (auto simp: schedule.simps [of legs] basket_open_def same_books_def)
  next
    case False
    then have op: "basket_open s" using 1(3,4) by (simp add: basket_open_def)
    consider "?step \<le> 0" | "0 < ?step" "basket_margin bps payout ?step ?ls \<le> 0"
      | "0 < ?step" "0 < basket_margin bps payout ?step ?ls" by linarith
    then show ?thesis
    proof cases
      case 1
      have "basket_round bps payout s = s\<lparr>b_legs := map skip_empty legs\<rparr>"
        using 1 \<open>b_legs s = legs\<close> by (simp add: basket_round_def Let_def)
      with w op have "while_option basket_open (basket_round bps payout) (s\<lparr>b_legs := map skip_empty legs\<rparr>) = Some s'" by simp
      from "1.IH"(1) [OF False refl refl 1 _ _ this] \<open>\<not> b_stop s\<close>
      have "same_books s' (fold (book_fill bps) (takeWhile (\<lambda>(step, ls). 0 < basket_margin bps payout step ls)
          (schedule (map skip_empty legs))) (s\<lparr>b_legs := map skip_empty legs\<rparr>))" by simp
      moreover have "schedule legs = schedule (map skip_empty legs)" using False 1 by (simp add: schedule.simps [of legs] Let_def)
      ultimately show ?thesis
        using same_fold [of "s\<lparr>b_legs := map skip_empty legs\<rparr>" s] by (auto simp: same_books_def)
    next
      case 2
      have "basket_round bps payout s = s\<lparr>b_stop := True\<rparr>"
        using 2 \<open>b_legs s = legs\<close> by (simp add: basket_round_def Let_def)
      with w op have "s' = s\<lparr>b_stop := True\<rparr>"
        by (simp add: while_option_unfold [of _ _ "s\<lparr>b_stop := True\<rparr>"] basket_open_def)
      moreover have "takeWhile (\<lambda>(step, ls). 0 < basket_margin bps payout step ls) (schedule legs) = []"
        using False 2 by (simp add: schedule.simps [of legs] Let_def)
      ultimately show ?thesis by (simp add: same_books_def)
    next
      case 3
      let ?t = "(book_fill bps (?step, ?ls) s)\<lparr>b_legs := map (take_off ?step) legs\<rparr>"
      have "basket_round bps payout s = ?t"
        using 3 \<open>b_legs s = legs\<close> by (simp add: basket_round_def Let_def book_fill_def)
      with w op have "while_option basket_open (basket_round bps payout) ?t = Some s'" by simp
      moreover have "\<not> ?step \<le> 0" "\<not> b_stop ?t" "b_legs ?t = map (take_off ?step) legs"
        using 3 \<open>\<not> b_stop s\<close> by (simp_all add: book_fill_def)
      ultimately have "same_books s' (fold (book_fill bps) (takeWhile (\<lambda>(step, ls). 0 < basket_margin bps payout step ls)
          (schedule (map (take_off ?step) legs))) ?t)" using "1.IH"(2) [OF False refl refl] by blast
      moreover have "schedule legs = (?step, ?ls) # schedule (map (take_off ?step) legs)"
        using False 3 by (simp add: schedule.simps [of legs] Let_def)
      ultimately show ?thesis
        using 3 same_fold [of ?t "book_fill bps (?step, ?ls) s"] by (auto simp: same_books_def)
    qed
  qed
qed

lemma walk_reference: "walk_basket legs bps payout = Some (reference_walk legs bps payout)"
proof (cases "legs = [] \<or> [] \<in> set legs")
  case True
  then have "schedule legs = []" by (auto simp: schedule.simps [of legs])
  with True show ?thesis
    by (auto simp: walk_basket_def reference_walk_def basket_result_def basket_start_def)
next
  case False
  obtain s' where s': "while_option basket_open (basket_round bps payout) (basket_start legs) = Some s'"
    using basket_walk.ends by blast
  have "same_books s' (fold (book_fill bps) (takeWhile (\<lambda>(step, ls). 0 < basket_margin bps payout step ls) (schedule legs))
      (basket_start legs))"
    by (rule walk_follows_schedule [OF _ _ s']) (simp_all add: basket_start_def)
  from same_result [OF this] False show ?thesis by (auto simp: walk_basket_def reference_walk_def s')
qed

section \<open>Whole contracts\<close>

text \<open>Books of whole contracts, of a depth that floats count exactly.\<close>

definition depth :: "ladder \<Rightarrow> rat" where "depth leg = sum_list (map (\<lambda>(p, z, k). z) leg)"

definition whole_ladder :: "ladder \<Rightarrow> bool" where
  "whole_ladder leg \<longleftrightarrow> list_all (\<lambda>(p, z, k). z \<in> \<int> \<and> 0 \<le> z) leg \<and> depth leg \<le> 9007199254740992"

lemma depth_nonneg: "whole_ladder leg \<Longrightarrow> 0 \<le> depth leg"
  unfolding depth_def whole_ladder_def by (rule sum_list_nonneg) (auto simp: list_all_iff)

lemma whole_tail: "whole_ladder (l # r) \<Longrightarrow> whole_ladder r"
proof -
  assume w: "whole_ladder (l # r)"
  have "depth r \<le> depth (l # r)" using w by (cases l) (simp add: whole_ladder_def depth_def)
  with w show ?thesis by (simp add: whole_ladder_def)
qed

lemma skip_depth: "whole_ladder leg \<Longrightarrow> whole_ladder (skip_empty leg) \<and> depth (skip_empty leg) = depth leg"
  using whole_tail by (cases leg) (auto simp: skip_empty_def depth_def whole_ladder_def split: prod.split)

lemma whole_float: "z \<in> \<int> \<Longrightarrow> 0 \<le> z \<Longrightarrow> z \<le> 9007199254740992 \<Longrightarrow> is_float z"
proof -
  assume z: "z \<in> \<int>" "0 \<le> z" "z \<le> 9007199254740992"
  from z(1) obtain m where m: "z = of_int m" by (rule Ints_cases)
  have "\<bar>m\<bar> \<le> 9007199254740992" using z(2,3) unfolding m
    by (metis abs_of_nonneg of_int_0_le_iff of_int_le_iff of_int_numeral)
  from fl_int [OF this] show ?thesis by (simp add: m)
qed

lemma DUST_less_1: "DUST < 1"
  by code_simp

text \<open>Taking whole contracts off a level is exact.\<close>

lemma take_off_whole:
  assumes "whole_ladder ((p, z, k) # r)" and "step \<in> \<int>" "0 \<le> step" "step \<le> z"
  shows "take_off step ((p, z, k) # r) = (if z = step then r else (p, z - step, k) # r)"
proof -
  have z: "z \<in> \<int>" "0 \<le> z" using assms(1) by (simp_all add: whole_ladder_def)
  have "0 \<le> depth r" by (rule depth_nonneg [OF whole_tail [OF assms(1)]])
  then have "z \<le> 9007199254740992" using assms(1) by (simp add: whole_ladder_def depth_def)
  then have eq: "fsub z step = z - step"
    unfolding fsub_def using z assms(2-4) by (intro whole_float) auto
  have int: "z - step \<in> \<int>" using z assms(2) by simp
  have "z - step = 0" if "z - step \<le> DUST"
  proof -
    from int obtain m where m: "z - step = of_int m" by (rule Ints_cases)
    have "0 \<le> m" using assms(4) m by (metis diff_ge_0_iff_ge of_int_0_le_iff)
    moreover have "rat_of_int m < 1" using that DUST_less_1 unfolding m by linarith
    ultimately show ?thesis unfolding m by simp
  qed
  then show ?thesis using DUST_nonneg by (auto simp: take_off_def Let_def eq)
qed

lemma take_off_depth:
  assumes "whole_ladder ((p, z, k) # r)" and "step \<in> \<int>" "0 \<le> step" "step \<le> z"
  shows "whole_ladder (take_off step ((p, z, k) # r)) \<and> depth (take_off step ((p, z, k) # r)) = depth ((p, z, k) # r) - step"
  using assms(1-4) whole_tail [OF assms(1)]
  by (auto simp: take_off_whole [OF assms] depth_def whole_ladder_def)

lemma step_le: "leg \<in> set legs \<Longrightarrow> leg = (p, z, k) # r \<Longrightarrow> step_of (levels_of legs) \<le> z"
proof -
  assume leg: "leg \<in> set legs" "leg = (p, z, k) # r"
  let ?zs = "map (\<lambda>(p, z, k). z) (levels_of legs)"
  have "z \<in> set ?zs" using leg by (force simp: levels_of_def)
  moreover from this have "?zs \<noteq> []" by auto
  ultimately show ?thesis unfolding step_of_def by (simp add: min_list_Min)
qed

text \<open>No leg is asked for more contracts than it has.\<close>

lemma schedule_depth:
  "list_all whole_ladder legs \<Longrightarrow>
     list_all (\<lambda>(step, ls). step \<in> \<int> \<and> 0 < step) (schedule legs) \<and>
     (\<forall>leg \<in> set legs. sum_list (map fst (schedule legs)) \<le> depth leg)"
proof (induction legs rule: schedule.induct)
  case (1 legs)
  let ?step = "step_of (levels_of legs)"
  have whole: "whole_ladder leg" if "leg \<in> set legs" for leg using 1(3) that by (simp add: list_all_iff)
  show ?case
  proof (cases "legs = [] \<or> [] \<in> set legs")
    case True
    then have "schedule legs = []" by (auto simp: schedule.simps [of legs])
    then show ?thesis using depth_nonneg [OF whole] by simp
  next
    case False
    then have ne: "legs \<noteq> []" "[] \<notin> set legs" by auto
    show ?thesis
    proof (cases "?step \<le> 0")
      case True
      have "list_all whole_ladder (map skip_empty legs)" using skip_depth whole by (auto simp: list_all_iff)
      from "1.IH"(1) [OF False refl refl True this] skip_depth whole False True show ?thesis
        by (simp add: schedule.simps [of legs] Let_def)
    next
      case neg: False
      obtain p k r where least: "(p, ?step, k) # r \<in> set legs" using step_of_in [OF ne] .
      have int: "?step \<in> \<int>" using whole [OF least] by (simp add: whole_ladder_def)
      have off: "whole_ladder (take_off ?step leg) \<and> depth (take_off ?step leg) = depth leg - ?step" if "leg \<in> set legs" for leg
      proof -
        from that ne(2) have "leg \<noteq> []" by auto
        then obtain p z k r where leg: "leg = (p, z, k) # r" by (cases leg) auto
        show ?thesis
          using take_off_depth [OF whole [OF that, unfolded leg] int _ step_le [OF that leg]] neg unfolding leg by simp
      qed
      then have "list_all whole_ladder (map (take_off ?step) legs)" by (auto simp: list_all_iff)
      from "1.IH"(2) [OF False refl refl neg this] off False neg int show ?thesis
        by (fastforce simp: schedule.simps [of legs] Let_def)
    qed
  qed
qed

lemma book_fills_size:
  assumes "list_all (\<lambda>(step, ls). step \<in> \<int> \<and> 0 < step) fs" and "b_size s \<in> \<int>" "0 \<le> b_size s"
    and "b_size s + sum_list (map fst fs) \<le> 9007199254740992"
  shows "b_size (fold (book_fill bps) fs s) = b_size s + sum_list (map fst fs)"
  using assms
proof (induction fs arbitrary: s)
  case (Cons f fs)
  obtain step ls where f: "f = (step, ls)" by (rule prod.exhaust)
  have pos: "0 \<le> sum_list (map fst fs)"
    using Cons.prems(1) by (intro sum_list_nonneg) (auto simp: list_all_iff)
  have "fadd (b_size s) step = b_size s + step"
    unfolding fadd_def using Cons.prems pos by (intro whole_float) (auto simp: f)
  then have b: "b_size (book_fill bps f s) = b_size s + step" by (simp add: book_fill_def f)
  have "b_size (fold (book_fill bps) fs (book_fill bps f s)) = b_size s + step + sum_list (map fst fs)"
    using Cons.prems unfolding b [symmetric] by (intro Cons.IH) (auto simp: f b [unfolded f])
  then show ?case by (simp add: f)
qed simp

section \<open>Contract by contract\<close>

text \<open>
  The specification of a walk over books of whole contracts, without ladders that are eaten up. A
  ladder is the list of its contracts, each with its price and venue. A batch is a number of
  contracts and one level of every leg; it pays if the payout less the prices, times the contracts,
  exceeds the fees.
\<close>

definition units :: "ladder \<Rightarrow> (rat \<times> bool) list" where
  "units leg = concat (map (\<lambda>(p, z, k). replicate (nat \<lfloor>z\<rfloor>) (p, k)) leg)"

definition total :: "(rat \<times> level list) list \<Rightarrow> rat" where
  "total fs = sum_list (map fst fs)"

definition bought :: "nat \<Rightarrow> (rat \<times> level list) list \<Rightarrow> (rat \<times> bool) list" where
  "bought i fs = concat (map (\<lambda>(n, ls). replicate (nat \<lfloor>n\<rfloor>) (case ls ! i of (p, z, k) \<Rightarrow> (p, k))) fs)"

definition batch_fees :: "int \<Rightarrow> rat \<Rightarrow> level list \<Rightarrow> rat" where
  "batch_fees bps n ls = fsum (map (\<lambda>(p, z, k). if k then FeeModel_kalshi_taker_fee p n else pm_fee bps p n) ls)"

definition pays :: "int \<Rightarrow> rat \<Rightarrow> rat \<times> level list \<Rightarrow> bool" where
  "pays bps payout = (\<lambda>(n, ls). 0 < fsub (fmul (fsub payout (fsum (map (\<lambda>(p, z, k). p) ls))) n) (batch_fees bps n ls))"

text \<open>A number of contracts at which some ladder comes to the end of one of its levels.\<close>

definition level_end :: "ladder list \<Rightarrow> rat \<Rightarrow> bool" where
  "level_end legs x \<longleftrightarrow> (\<exists>leg \<in> set legs. \<exists>j \<le> length leg. x = depth (take j leg))"

text \<open>
  Batches that match the books: what they buy of each leg are its first contracts, in order, as many
  of one leg as of the other, and every batch goes on to the end of a level.
\<close>

definition matches :: "ladder list \<Rightarrow> (rat \<times> level list) list \<Rightarrow> bool" where
  "matches legs fs \<longleftrightarrow> list_all (\<lambda>(n, ls). n \<in> \<int> \<and> 0 < n \<and> length ls = length legs) fs \<and>
     (\<forall>i < length legs. bought i fs = take (nat \<lfloor>total fs\<rfloor>) (units (legs ! i))) \<and>
     (\<forall>j \<le> length fs. 0 < j \<longrightarrow> level_end legs (total (take j fs)))"

text \<open>The result of the batches \<open>fs\<close>, its sums accumulated batch by batch.\<close>

definition basket_of :: "nat \<Rightarrow> int \<Rightarrow> rat \<Rightarrow> (rat \<times> level list) list \<Rightarrow> basket option" where
  "basket_of legs bps payout fs =
     (let n = total fs;
          costs = map (\<lambda>i. fold (\<lambda>(m, ls) c. fadd c (fmul (fst (ls ! i)) m)) fs 0) [0..<legs];
          fees = fold (\<lambda>(m, ls) c. fadd c (batch_fees bps m ls)) fs 0;
          cost = fsum costs; net = fsub (fsub (fmul payout n) cost) fees
      in if n \<le> 0 \<or> net \<le> 0 then None
         else Some \<lparr>bk_size = n, bk_cost = cost, bk_net = net,
           bk_net_edge = (if cost = 0 then 0 else fdiv net cost), bk_avg_prices = map (\<lambda>c. fdiv c n) costs\<rparr>)"

lemma units_skip: "whole_ladder leg \<Longrightarrow> units (skip_empty leg) = units leg"
  by (cases leg) (auto simp: units_def skip_empty_def whole_ladder_def split: prod.split)

lemma units_take_off:
  assumes "whole_ladder ((p, z, k) # r)" and "step \<in> \<int>" "0 \<le> step" "step \<le> z"
  shows "units ((p, z, k) # r) = replicate (nat \<lfloor>step\<rfloor>) (p, k) @ units (take_off step ((p, z, k) # r))"
proof -
  have "z \<in> \<int>" using assms(1) by (simp add: whole_ladder_def)
  then obtain a b where ab: "z = of_int a" "step = of_int b" using assms(2) by (metis Ints_cases)
  then have "0 \<le> b" "b \<le> a" using assms(3,4) by simp_all
  then have "nat a = nat b + nat (a - b)" by simp
  moreover have "\<lfloor>z - step\<rfloor> = a - b" unfolding ab by (metis floor_of_int of_int_diff)
  ultimately have "replicate (nat \<lfloor>z\<rfloor>) (p, k) = replicate (nat \<lfloor>step\<rfloor>) (p, k) @ replicate (nat \<lfloor>z - step\<rfloor>) (p, k)"
    by (simp add: ab replicate_add)
  then show ?thesis by (simp add: take_off_whole [OF assms] units_def)
qed

text \<open>The first leg of the schedule of whole books: its step, and what is left.\<close>

lemma whole_step:
  assumes "list_all whole_ladder legs" "legs \<noteq> []" "[] \<notin> set legs" "\<not> step_of (levels_of legs) \<le> 0"
  defines "step \<equiv> step_of (levels_of legs)"
  shows "step \<in> \<int>" "0 < step" "list_all whole_ladder (map (take_off step) legs)"
    "leg \<in> set legs \<Longrightarrow> \<exists>p z k r. leg = (p, z, k) # r \<and> whole_ladder ((p, z, k) # r) \<and> step \<le> z"
proof -
  show pos: "0 < step" using assms(4) by (simp add: step_def)
  obtain p k r where "(p, step, k) # r \<in> set legs" using step_of_in [OF assms(2,3)] unfolding step_def .
  then have "whole_ladder ((p, step, k) # r)" using assms(1) by (auto simp: list_all_iff)
  then show int: "step \<in> \<int>" by (simp add: whole_ladder_def)
  show cons: "\<exists>p z k r. leg = (p, z, k) # r \<and> whole_ladder ((p, z, k) # r) \<and> step \<le> z" if "leg \<in> set legs" for leg
  proof -
    from that assms(3) have "leg \<noteq> []" by auto
    then obtain p z k r where leg: "leg = (p, z, k) # r" by (cases leg) auto
    then show ?thesis using assms(1) that step_le [OF that leg] by (auto simp: list_all_iff step_def)
  qed
  show "list_all whole_ladder (map (take_off step) legs)"
    using cons take_off_depth int pos by (fastforce simp: list_all_iff)
qed

lemma total_schedule:
  "list_all whole_ladder legs \<Longrightarrow> total (take j (schedule legs)) \<in> \<int> \<and> 0 \<le> total (take j (schedule legs))"
proof -
  have "total fs \<in> \<int> \<and> 0 \<le> total fs" if "list_all (\<lambda>(n, ls). n \<in> \<int> \<and> 0 < n) fs" for fs :: "(rat \<times> level list) list"
    using that by (induction fs) (auto simp: total_def)
  moreover have "list_all (\<lambda>(n, ls). n \<in> \<int> \<and> 0 < n) (take j (schedule legs))" if "list_all whole_ladder legs"
    using conjunct1 [OF schedule_depth [OF that]] unfolding list_all_iff by (blast dest: in_set_takeD)
  ultimately show "list_all whole_ladder legs \<Longrightarrow> ?thesis" by blast
qed

lemma schedule_units:
  "list_all whole_ladder legs \<Longrightarrow> i < length legs \<Longrightarrow>
     bought i (take j (schedule legs)) = take (nat \<lfloor>total (take j (schedule legs))\<rfloor>) (units (legs ! i))"
proof (induction legs arbitrary: j rule: schedule.induct)
  case (1 legs)
  let ?step = "step_of (levels_of legs)"
  show ?case
  proof (cases "legs = [] \<or> [] \<in> set legs")
    case True
    then have "schedule legs = []" by (auto simp: schedule.simps [of legs])
    then show ?thesis by (simp add: bought_def total_def)
  next
    case False
    then have ne: "legs \<noteq> []" "[] \<notin> set legs" by auto
    show ?thesis
    proof (cases "?step \<le> 0")
      case True
      have "list_all whole_ladder (map skip_empty legs)" using skip_depth 1(3) by (auto simp: list_all_iff)
      from "1.IH"(1) [OF False refl refl True this, of j] 1(3,4) False True show ?thesis
        by (simp add: schedule.simps [of legs] Let_def units_skip list_all_iff)
    next
      case neg: False
      note w = whole_step [OF 1(3) ne neg]
      have s: "schedule legs = (?step, levels_of legs) # schedule (map (take_off ?step) legs)"
        using False neg by (simp add: schedule.simps [of legs] Let_def)
      show ?thesis
      proof (cases j)
        case (Suc j')
        obtain p z k r where leg: "legs ! i = (p, z, k) # r" "whole_ladder ((p, z, k) # r)" "?step \<le> z"
          using w(4) [OF nth_mem [OF 1(4)]] by blast
        have u: "units (legs ! i) = replicate (nat \<lfloor>?step\<rfloor>) (p, k) @ units (take_off ?step (legs ! i))"
          unfolding leg(1) using units_take_off [OF leg(2) w(1) _ leg(3)] w(2) by simp
        have lv: "(case levels_of legs ! i of (p, z, k) \<Rightarrow> (p, k)) = (p, k)" using 1(4) leg(1) by (simp add: levels_of_def)
        let ?t = "total (take j' (schedule (map (take_off ?step) legs)))"
        have t: "?t \<in> \<int>" "0 \<le> ?t" using total_schedule [OF w(3), of j'] by simp_all
        obtain a b where "?step = of_int a" "?t = of_int b" using w(1) t(1) by (metis Ints_cases)
        then have n: "nat \<lfloor>?step + ?t\<rfloor> = nat \<lfloor>?step\<rfloor> + nat \<lfloor>?t\<rfloor>" using w(2) t(2)
          by (metis floor_of_int nat_add_distrib of_int_0_le_iff of_int_add order_less_imp_le)
        have "bought i (take j' (schedule (map (take_off ?step) legs))) = take (nat \<lfloor>?t\<rfloor>) (units (take_off ?step (legs ! i)))"
          using "1.IH"(2) [OF False refl refl neg w(3), of j'] 1(4) by simp
        moreover have "total (take j (schedule legs)) = ?step + ?t" by (simp add: s Suc total_def)
        moreover have "bought i (take j (schedule legs)) =
            replicate (nat \<lfloor>?step\<rfloor>) (p, k) @ bought i (take j' (schedule (map (take_off ?step) legs)))"
          by (simp add: s Suc bought_def lv)
        ultimately show ?thesis by (simp add: u n)
      qed (simp add: bought_def total_def)
    qed
  qed
qed

lemma level_end_skip:
  assumes "list_all whole_ladder legs" "level_end (map skip_empty legs) x" shows "level_end legs x"
proof -
  obtain leg j where l: "leg \<in> set legs" "j \<le> length (skip_empty leg)" "x = depth (take j (skip_empty leg))"
    using assms(2) by (auto simp: level_end_def)
  have "\<exists>i \<le> length leg. x = depth (take i leg)"
  proof (cases "skip_empty leg = leg")
    case False
    then obtain p z k r where leg: "leg = (p, z, k) # r" "z \<le> 0" "skip_empty leg = r"
      by (cases leg) (auto simp: skip_empty_def split: if_splits)
    then have "z = 0" using assms(1) l(1) by (force simp: list_all_iff whole_ladder_def)
    then show ?thesis using l leg by (intro exI [of _ "Suc j"]) (simp add: depth_def)
  qed (use l in auto)
  then show ?thesis using l(1) by (auto simp: level_end_def)
qed

lemma level_end_take:
  assumes "list_all whole_ladder legs" "legs \<noteq> []" "[] \<notin> set legs" "\<not> step_of (levels_of legs) \<le> 0"
    and "level_end (map (take_off (step_of (levels_of legs))) legs) x" "0 < x"
  shows "level_end legs (step_of (levels_of legs) + x)"
proof -
  let ?step = "step_of (levels_of legs)"
  obtain leg j where l: "leg \<in> set legs" "j \<le> length (take_off ?step leg)" "x = depth (take j (take_off ?step leg))"
    using assms(5) by (auto simp: level_end_def)
  obtain p z k r where leg: "leg = (p, z, k) # r" "whole_ladder ((p, z, k) # r)" "?step \<le> z"
    using whole_step(4) [OF assms(1-4) l(1)] by blast
  have off: "take_off ?step leg = (if z = ?step then r else (p, z - ?step, k) # r)"
    unfolding leg(1) using whole_step(1,2) [OF assms(1-4)] leg(2,3) by (intro take_off_whole) auto
  obtain j' where j: "j = Suc j'" using l(3) assms(6) by (cases j) (auto simp: depth_def)
  have "\<exists>i \<le> length leg. ?step + x = depth (take i leg)"
  proof (cases "z = ?step")
    case True
    then show ?thesis using l off leg(1) by (intro exI [of _ "Suc j"]) (auto simp: depth_def)
  next
    case False
    then show ?thesis using l off leg(1) j by (intro exI [of _ j]) (auto simp: depth_def)
  qed
  then show ?thesis using l(1) by (auto simp: level_end_def)
qed

lemma schedule_level_ends:
  "list_all whole_ladder legs \<Longrightarrow> 0 < j \<Longrightarrow> j \<le> length (schedule legs) \<Longrightarrow> level_end legs (total (take j (schedule legs)))"
proof (induction legs arbitrary: j rule: schedule.induct)
  case (1 legs)
  let ?step = "step_of (levels_of legs)"
  show ?case
  proof (cases "legs = [] \<or> [] \<in> set legs")
    case True
    then have "schedule legs = []" by (auto simp: schedule.simps [of legs])
    then show ?thesis using 1(4,5) by simp
  next
    case False
    then have ne: "legs \<noteq> []" "[] \<notin> set legs" by auto
    show ?thesis
    proof (cases "?step \<le> 0")
      case True
      have "list_all whole_ladder (map skip_empty legs)" using skip_depth 1(3) by (auto simp: list_all_iff)
      moreover have "schedule legs = schedule (map skip_empty legs)" using False True by (simp add: schedule.simps [of legs] Let_def)
      ultimately show ?thesis
        using level_end_skip [OF 1(3)] "1.IH"(1) [OF False refl refl True] 1(4,5) by simp
    next
      case neg: False
      note w = whole_step [OF 1(3) ne neg]
      let ?rest = "schedule (map (take_off ?step) legs)"
      have s: "schedule legs = (?step, levels_of legs) # ?rest"
        using False neg by (simp add: schedule.simps [of legs] Let_def)
      obtain j' where j: "j = Suc j'" using 1(4) by (cases j) auto
      show ?thesis
      proof (cases j')
        case 0
        obtain p k r where leg: "(p, ?step, k) # r \<in> set legs" using step_of_in [OF ne] .
        have "depth (take 1 ((p, ?step, k) # r)) = total (take j (schedule legs))"
          by (simp add: s j 0 total_def depth_def)
        then show ?thesis unfolding level_end_def by (intro bexI [OF _ leg] exI [of _ 1]) simp
      next
        case (Suc i)
        have le: "j' \<le> length ?rest" using 1(5) by (simp add: s j)
        then have "level_end (map (take_off ?step) legs) (total (take j' ?rest))"
          using "1.IH"(2) [OF False refl refl neg w(3)] Suc by simp
        moreover have "0 < total (take j' ?rest)"
        proof -
          obtain f fs where f: "?rest = f # fs" using le Suc by (cases ?rest) auto
          have all: "list_all (\<lambda>(n, ls). n \<in> \<int> \<and> 0 < n) ?rest" using schedule_depth [OF w(3)] by blast
          then have "0 \<le> sum_list (map fst (take i fs))"
            by (intro sum_list_nonneg) (auto simp: f list_all_iff dest!: in_set_takeD)
          then show ?thesis using all by (auto simp: f Suc total_def)
        qed
        ultimately show ?thesis using level_end_take [OF 1(3) ne neg] by (simp add: s j total_def)
      qed
    qed
  qed
qed

lemma schedule_exhausts:
  "list_all whole_ladder legs \<Longrightarrow> legs \<noteq> [] \<Longrightarrow> \<exists>leg \<in> set legs. total (schedule legs) = depth leg"
proof (induction legs rule: schedule.induct)
  case (1 legs)
  let ?step = "step_of (levels_of legs)"
  show ?case
  proof (cases "[] \<in> set legs")
    case True
    then have "schedule legs = []" by (auto simp: schedule.simps [of legs])
    then show ?thesis using True by (intro bexI [of _ "[]"]) (simp_all add: total_def depth_def)
  next
    case False
    then have f: "\<not> (legs = [] \<or> [] \<in> set legs)" using 1(4) by simp
    show ?thesis
    proof (cases "?step \<le> 0")
      case True
      have "list_all whole_ladder (map skip_empty legs)" using skip_depth 1(3) by (auto simp: list_all_iff)
      from "1.IH"(1) [OF f refl refl True this] 1(3,4) f True skip_depth show ?thesis
        by (auto simp: schedule.simps [of legs] Let_def list_all_iff)
    next
      case neg: False
      note w = whole_step [OF 1(3,4) False neg]
      obtain leg where leg: "leg \<in> set legs" "total (schedule (map (take_off ?step) legs)) = depth (take_off ?step leg)"
        using "1.IH"(2) [OF f refl refl neg w(3)] 1(4) by auto
      have "depth (take_off ?step leg) = depth leg - ?step"
        using w(4) [OF leg(1)] take_off_depth w(1,2) by fastforce
      then show ?thesis using leg f neg
        by (intro bexI [OF _ leg(1)]) (simp add: schedule.simps [of legs] Let_def total_def)
    qed
  qed
qed

lemma schedule_lengths: "list_all (\<lambda>(n, ls). length ls = length legs) (schedule legs)"
  by (induction legs rule: schedule.induct) (simp add: schedule.simps Let_def levels_of_def)

lemma schedule_matches: "list_all whole_ladder legs \<Longrightarrow> matches legs (take j (schedule legs))"
proof -
  assume w: "list_all whole_ladder legs"
  have "list_all (\<lambda>(n, ls). n \<in> \<int> \<and> 0 < n \<and> length ls = length legs) (take j (schedule legs))"
    using schedule_depth [OF w] schedule_lengths [of legs] by (fastforce simp: list_all_iff dest: in_set_takeD)
  then show ?thesis using schedule_units [OF w] schedule_level_ends [OF w] by (simp add: matches_def)
qed

lemma margin_pays: "0 < basket_margin bps payout n ls \<longleftrightarrow> pays bps payout (n, ls)"
  "basket_fees bps n ls = batch_fees bps n ls"
proof -
  show f: "basket_fees bps n ls = batch_fees bps n ls"
    unfolding basket_fees_def batch_fees_def by (rule arg_cong [where f = fsum]) (simp add: level_fee_def split: prod.split)
  have "map fst ls = map (\<lambda>(p, z, k). p) ls" by (simp add: case_prod_unfold)
  then show "0 < basket_margin bps payout n ls \<longleftrightarrow> pays bps payout (n, ls)"
    unfolding basket_margin_def pays_def f prod.case by (rule arg_cong)
qed

lemma fills_fees: "b_fees (fold (book_fill bps) fs s) = fold (\<lambda>(m, ls) c. fadd c (batch_fees bps m ls)) fs (b_fees s)"
  by (induction fs arbitrary: s) (auto simp: book_fill_def margin_pays(2))

lemma fills_costs:
  "list_all (\<lambda>(n, ls). length ls = m) fs \<Longrightarrow> length (b_costs s) = m \<Longrightarrow>
   b_costs (fold (book_fill bps) fs s) = map (\<lambda>i. fold (\<lambda>(n, ls) c. fadd c (fmul (fst (ls ! i)) n)) fs (b_costs s ! i)) [0..<m]"
proof (induction fs arbitrary: s)
  case Nil
  then show ?case by (auto intro: nth_equalityI)
next
  case (Cons f fs)
  obtain n ls where f: "f = (n, ls)" by (rule prod.exhaust)
  have l: "length ls = m" using Cons.prems(1) by (simp add: f)
  have "b_costs (book_fill bps f s) = map2 (\<lambda>c l. fadd c (fmul (fst l) n)) (b_costs s) ls" by (simp add: book_fill_def f)
  moreover from this have "length (b_costs (book_fill bps f s)) = m" using l Cons.prems(2) by simp
  ultimately show ?case using Cons l by (simp add: f cong: map_cong)
qed

section \<open>Properties\<close>

text \<open>C28. The walks always end: both loops stop after at most one round more than there are levels on the
  books, whatever sizes, prices and fees are on them (a level whose size rounds to nothing included).\<close>
theorem walk_rounds_bounded:
  "(\<exists>k s'. k \<le> 1 + sum_list (map length legs) \<and>
     while_option basket_open (basket_round bps payout) (basket_start legs) = Some s' \<and>
     s' = (basket_round bps payout ^^ k) (basket_start legs)) \<and>
   (\<exists>k s'. k \<le> 1 + length a + length b \<and>
     while_option comp_open (comp_round ak bk bps) (comp_start a b) = Some s' \<and>
     s' = (comp_round ak bk bps ^^ k) (comp_start a b))"
  using basket_walk.rounds [of "basket_start legs" bps payout] comp_walk.rounds [of "comp_start a b" ak bk bps]
  by (auto simp: basket_depth_def basket_start_def comp_depth_def comp_start_def)

text \<open>C27. What a walk buys: on books of whole contracts the walk buys, from every leg alike, the first
  contracts of its book in order, in batches that each go on to the end of a level and each pay after
  the fees of the batch; it goes on until a book is used up or the next batch does not pay; and size,
  cost, fees and profit are the sums over these batches, with no result when nothing was bought or
  the sums show no profit.\<close>
theorem walk_is_profitable_prefix:
  assumes "list_all whole_ladder legs" and "legs \<noteq> []"
  shows "\<exists>fs. matches legs fs \<and> list_all (pays bps payout) fs \<and>
    ((\<exists>leg \<in> set legs. total fs = depth leg) \<or> (\<exists>f. matches legs (fs @ [f]) \<and> \<not> pays bps payout f)) \<and>
    walk_basket legs bps payout = Some (basket_of (length legs) bps payout fs)"
proof -
  let ?P = "\<lambda>(step, ls). 0 < basket_margin bps payout step ls"
  let ?fs = "takeWhile ?P (schedule legs)"
  have P: "?P = pays bps payout" by (auto simp: margin_pays)
  have take: "?fs = take (length ?fs) (schedule legs)" by (rule takeWhile_eq_take)
  have m: "matches legs ?fs" by (subst take) (rule schedule_matches [OF assms(1)])
  have pays: "list_all (pays bps payout) ?fs" unfolding P by (auto simp: list_all_iff dest: set_takeWhileD)
  have stop: "(\<exists>leg \<in> set legs. total ?fs = depth leg) \<or> (\<exists>f. matches legs (?fs @ [f]) \<and> \<not> pays bps payout f)"
  proof (cases "length ?fs < length (schedule legs)")
    case True
    let ?f = "schedule legs ! length ?fs"
    have "?fs @ [?f] = take (Suc (length ?fs)) (schedule legs)"
      using take_Suc_conv_app_nth [OF True] take by simp
    then have "matches legs (?fs @ [?f])" using schedule_matches [OF assms(1)] by metis
    moreover have "\<not> pays bps payout ?f" using nth_length_takeWhile [OF True] unfolding P .
    ultimately show ?thesis by blast
  next
    case False
    then have "?fs = schedule legs" using take by (metis linorder_not_less take_all)
    then show ?thesis using schedule_exhausts [OF assms] by metis
  qed
  let ?s = "fold (book_fill bps) ?fs (basket_start legs)"
  have all: "list_all (\<lambda>(n, ls). n \<in> \<int> \<and> 0 < n) ?fs" "list_all (\<lambda>(n, ls). length ls = length legs) ?fs"
    using m by (auto simp: matches_def list_all_iff)
  obtain leg where leg: "leg \<in> set legs" using assms(2) by (cases legs) auto
  have le: "total ?fs \<le> depth leg"
  proof -
    let ?rest = "dropWhile ?P (schedule legs)"
    have "total (?fs @ ?rest) = total ?fs + total ?rest" unfolding total_def map_append sum_list_append by (rule refl)
    then have "total (schedule legs) = total ?fs + total ?rest" by (simp only: takeWhile_dropWhile_id)
    moreover have "0 \<le> total ?rest"
    proof -
      have "list_all (\<lambda>(n, ls). n \<in> \<int> \<and> 0 < n) ?rest"
        using conjunct1 [OF schedule_depth [OF assms(1)]] unfolding list_all_iff by (blast dest: set_dropWhileD)
      then show ?thesis unfolding total_def by (intro sum_list_nonneg) (auto simp: list_all_iff)
    qed
    moreover have "total (schedule legs) \<le> depth leg" using schedule_depth [OF assms(1)] leg by (simp add: total_def)
    ultimately show ?thesis by linarith
  qed
  moreover have "depth leg \<le> 9007199254740992" using assms(1) leg by (auto simp: list_all_iff whole_ladder_def)
  ultimately have "b_size ?s = total ?fs"
    using book_fills_size [OF all(1), of "basket_start legs" bps] by (simp add: basket_start_def total_def)
  moreover have "b_costs ?s = map (\<lambda>i. fold (\<lambda>(n, ls) c. fadd c (fmul (fst (ls ! i)) n)) ?fs 0) [0..<length legs]"
    using fills_costs [OF all(2), of "basket_start legs" bps] by (simp add: basket_start_def)
  moreover have "b_fees ?s = fold (\<lambda>(n, ls) c. fadd c (batch_fees bps n ls)) ?fs 0"
    by (simp add: fills_fees basket_start_def)
  ultimately have "walk_basket legs bps payout = Some (basket_of (length legs) bps payout ?fs)"
    by (simp only: walk_reference reference_walk_def basket_result_def basket_of_def Let_def)
  with m pays stop show ?thesis by blast
qed

theorem walk_is_profitable_prefix_witness:
  "\<exists>fs. walk_basket [[(1 / 4, 3, False)], [(1 / 2, 5, False)]] 0 1 = Some (basket_of 2 0 1 fs) \<and>
     bought 0 fs = take (nat \<lfloor>total fs\<rfloor>) [(1 / 4, False), (1 / 4, False), (1 / 4, False)]"
proof -
  let ?legs = "[[(1 / 4, 3, False)], [(1 / 2, 5, False)]] :: ladder list"
  have "list_all whole_ladder ?legs" by (simp add: whole_ladder_def depth_def)
  from walk_is_profitable_prefix [OF this, of 0 1] obtain fs where
    "matches ?legs fs" "walk_basket ?legs 0 1 = Some (basket_of 2 0 1 fs)" by (auto simp: numeral_2_eq_2)
  then show ?thesis by (intro exI [of _ fs]) (auto simp: matches_def units_def numeral_3_eq_3)
qed

text \<open>A walk stays within the books: with whole contracts on every book, the size of a result is whole and
  at most the depth of each leg, so every leg can be bought in full; and its net profit is positive.\<close>
theorem walk_size_within_books:
  assumes "list_all whole_ladder legs" and "walk_basket legs bps payout = Some (Some r)" and "leg \<in> set legs"
  shows "bk_size r \<in> \<int> \<and> 0 < bk_size r \<and> bk_size r \<le> depth leg \<and> 0 < bk_net r"
proof -
  let ?fs = "takeWhile (\<lambda>(step, ls). 0 < basket_margin bps payout step ls) (schedule legs)"
  let ?s = "fold (book_fill bps) ?fs (basket_start legs)"
  have all: "list_all (\<lambda>(step, ls). step \<in> \<int> \<and> 0 < step) (schedule legs)"
    "sum_list (map fst (schedule legs)) \<le> depth leg" using schedule_depth [OF assms(1)] assms(3) by auto
  have split: "schedule legs = ?fs @ dropWhile (\<lambda>(step, ls). 0 < basket_margin bps payout step ls) (schedule legs)" by simp
  have fs: "list_all (\<lambda>(step, ls). step \<in> \<int> \<and> 0 < step) ?fs" using all(1) by (auto simp: list_all_iff dest: set_takeWhileD)
  have "sum_list (map fst ?fs) \<le> sum_list (map fst (schedule legs))"
  proof -
    have "0 \<le> sum_list (map fst (dropWhile (\<lambda>(step, ls). 0 < basket_margin bps payout step ls) (schedule legs)))"
      using all(1) by (intro sum_list_nonneg) (auto simp: list_all_iff dest!: set_dropWhileD)
    moreover have "sum_list (map fst (schedule legs)) = sum_list (map fst ?fs) +
        sum_list (map fst (dropWhile (\<lambda>(step, ls). 0 < basket_margin bps payout step ls) (schedule legs)))"
      by (metis split map_append sum_list_append)
    ultimately show ?thesis by linarith
  qed
  with all(2) have le: "sum_list (map fst ?fs) \<le> depth leg" by linarith
  moreover have "depth leg \<le> 9007199254740992" using assms(1,3) by (auto simp: list_all_iff whole_ladder_def)
  ultimately have size: "b_size ?s = sum_list (map fst ?fs)"
    using book_fills_size [OF fs, of "basket_start legs"] by (simp add: basket_start_def)
  have "sum_list (map fst fs) \<in> \<int>" if "list_all (\<lambda>(step, ls). step \<in> \<int> \<and> 0 < step) fs" for fs :: "(rat \<times> level list) list"
    using that by (induction fs) auto
  then have int: "sum_list (map fst ?fs) \<in> \<int>" using fs .
  have "basket_result payout ?s = Some r" using assms(2) by (simp add: walk_reference reference_walk_def)
  then have "bk_size r = b_size ?s" "0 < bk_size r" "0 < bk_net r"
    by (auto simp: basket_result_def Let_def split: if_splits)
  then show ?thesis using size le int by simp
qed

theorem walk_size_within_books_witness:
  "\<exists>r. walk_basket [[(1 / 4, 3, False)], [(1 / 2, 5, False)]] 0 1 = Some (Some r) \<and> bk_size r \<le> 3 \<and> 0 < bk_net r"
proof -
  have "case walk_basket [[(1 / 4, 3, False)], [(1 / 2, 5, False)]] 0 1 of Some (Some r) \<Rightarrow> True | _ \<Rightarrow> False"
    by code_simp
  then obtain r where r: "walk_basket [[(1 / 4, 3, False)], [(1 / 2, 5, False)]] 0 1 = Some (Some r)"
    by (auto split: option.splits)
  have "list_all whole_ladder [[(1 / 4, 3, False)], [(1 / 2, 5, False)]]" by (simp add: whole_ladder_def depth_def)
  from walk_size_within_books [OF this r, of "[(1 / 4, 3, False)]"] r show ?thesis by (auto simp: depth_def)
qed

text \<open>The books of the example: Kalshi sells at 31/32, Polymarket at 3/128, an edge of 1/128 a contract.\<close>

lemma example_kalshi_fees:
  "FeeModel_kalshi_taker_fee (31 / 32) 1 = fl (1 / 100)" "FeeModel_kalshi_taker_fee (31 / 32) 1000 = fl (212 / 100)"
  by code_simp+

lemma example_pm_fees: "pm_fee 500 (3 / 128) 1 = fl (114 / 100000)" "pm_fee 500 (3 / 128) 1000 = fl (114441 / 100000)"
  by code_simp+

lemmas example_fees = example_kalshi_fees example_pm_fees

lemma example_margins:
  "basket_margin 500 1 1 [(31 / 32, z, True), (3 / 128, z', False)] \<le> 0"
  "4 < basket_margin 500 1 1000 [(31 / 32, z, True), (3 / 128, z', False)]"
proof -
  have m: "basket_margin 500 1 n [(31 / 32, z, True), (3 / 128, z', False)] =
      fsub (fmul (fsub 1 (fsum [31 / 32, 3 / 128])) n) (fsum [FeeModel_kalshi_taker_fee (31 / 32) n, pm_fee 500 (3 / 128) n])" for n
    by (simp only: basket_margin_def basket_fees_def level_fee_def list.map prod.case fst_conv if_True if_False)
  have "fsub (fmul (fsub 1 (fsum [31 / 32, 3 / 128])) 1) (fsum [fl (1 / 100), fl (114 / 100000)]) \<le> 0" by code_simp
  then show "basket_margin 500 1 1 [(31 / 32, z, True), (3 / 128, z', False)] \<le> 0" unfolding m example_fees .
  have "4 < fsub (fmul (fsub 1 (fsum [31 / 32, 3 / 128])) 1000) (fsum [fl (212 / 100), fl (114441 / 100000)])" by code_simp
  then show "4 < basket_margin 500 1 1000 [(31 / 32, z, True), (3 / 128, z', False)]" unfolding m example_fees .
qed

text \<open>The walk can miss the market: its fees are rounded up to a cent for every batch, so one contract at
  the top of a book makes the first batch unprofitable and the walk reports nothing, although the
  thousand contracts behind it, at the same price, pay more than four dollars after fees. (The walk is
  documented to return nothing only when no net-positive size exists.)\<close>
theorem top_of_book_hides_depth:
  "walk_basket [[(31 / 32, 1, True), (31 / 32, 1000, True)], [(3 / 128, 1000, False)]] 500 1 = Some None \<and>
   (\<exists>r. walk_basket [[(31 / 32, 1000, True)], [(3 / 128, 1000, False)]] 500 1 = Some (Some r) \<and> 4 < bk_net r)"
proof
  have s: "schedule [[(31 / 32, 1, True), (31 / 32, 1000, True)], [(3 / 128, 1000, False)]] =
      (1, [(31 / 32, 1, True), (3 / 128, 1000, False)]) # r1"
    if "r1 = schedule (map (take_off 1) [[(31 / 32, 1, True), (31 / 32, 1000, True)], [(3 / 128, 1000, False)]])" for r1
    by (subst schedule.simps) (simp add: levels_of_def step_of_def that)
  show "walk_basket [[(31 / 32, 1, True), (31 / 32, 1000, True)], [(3 / 128, 1000, False)]] 500 1 = Some None"
    using example_margins(1)
    by (simp add: walk_reference reference_walk_def s [OF refl] not_less [symmetric] basket_result_def basket_start_def)
  have f: "take_off 1000 [(p, 1000, k)] = []" for p k by (simp add: take_off_def DUST_nonneg)
  have t: "schedule [[(31 / 32, 1000, True)], [(3 / 128, 1000, False)]] = [(1000, [(31 / 32, 1000, True), (3 / 128, 1000, False)])]"
    by (subst schedule.simps) (simp add: levels_of_def step_of_def f schedule.simps [of "[[], []]"])
  let ?s = "\<lparr>b_legs = [], b_size = fadd 0 1000,
    b_costs = [fadd 0 (fmul (31 / 32) 1000), fadd 0 (fmul (3 / 128) 1000)],
    b_fees = fadd 0 (fsum [fl (212 / 100), fl (114441 / 100000)]), b_stop = False\<rparr>"
  have "same_books (book_fill 500 (1000, [(31 / 32, 1000, True), (3 / 128, 1000, False)])
      (basket_start [[(31 / 32, 1000, True)], [(3 / 128, 1000, False)]])) ?s"
    by (simp add: same_books_def book_fill_def basket_start_def basket_fees_def level_fee_def example_fees numeral_2_eq_2)
  note eq = same_result [OF this, of 1]
  have "case basket_result 1 ?s of Some r \<Rightarrow> 4 < bk_net r | None \<Rightarrow> False" by code_simp
  then show "\<exists>r. walk_basket [[(31 / 32, 1000, True)], [(3 / 128, 1000, False)]] 500 1 = Some (Some r) \<and> 4 < bk_net r"
    using example_margins(2) [of 1000 1000]
    by (auto simp: walk_reference reference_walk_def t eq split: option.splits)
qed

end
