(* ===== verification/PairPricing.thy ===== *)
theory PairPricing
  imports BookWalk Executor
begin

text \<open>
  Pricing of verified pairs in \<open>live_probe.py\<close>, with the books of \<open>pmus.py\<close>: fetch the books of a
  pair, price every structure it supports, turn a priced pair into the opportunity that the
  executor consumes, and settle conflicts between pairs. \<open>fetch\<close> stands for \<open>get\<close>: the decoded reply
  of a URL while one pair is priced, \<open>None\<close> when the request failed. A pair is a record with
  exactly two tokens, each an id and an outcome's name: the catalog readers keep no other rows.
\<close>

definition KBASE :: string where "KBASE = ''https://api.elections.kalshi.com/trade-api/v2''"

definition PM_CLOB :: string where "PM_CLOB = ''https://clob.polymarket.com''"

definition GATEWAY :: string where "GATEWAY = ''https://gateway.polymarket.us''"

definition MIN_COMPLEMENTARY_SUM :: rat where "MIN_COMPLEMENTARY_SUM = fl (4 / 5)"

definition MAX_PLAUSIBLE_PROFIT_MARGIN :: rat where "MAX_PLAUSIBLE_PROFIT_MARGIN = fl (15 / 100)"

type_synonym fetch = "string \<Rightarrow> json option"

section \<open>Books\<close>

text \<open>\<open>(reply or {}).get(k)\<close>, where the reply may be missing.\<close>

definition reply_get :: "json option \<Rightarrow> string \<Rightarrow> pyexn + json" where
  "reply_get r k = jget (py_or (case r of Some v \<Rightarrow> v | None \<Rightarrow> JNull) (JObj [])) k JNull"

fun parse_levels :: "json list \<Rightarrow> pyexn + (rat \<times> rat) list" where
  "parse_levels [] = Inr []"
| "parse_levels (v # vs) =
     (case py_iter v of
        Inl e \<Rightarrow> Inl e
      | Inr [p, z] \<Rightarrow>
          then_sum (py_float p) (\<lambda>pf. then_sum (py_float z) (\<lambda>sf.
          then_sum (parse_levels vs) (\<lambda>ls. Inr ((if fl (3 / 2) < pf then fdiv pf 100 else pf, sf) # ls))))
      | Inr _ \<Rightarrow> Inl ValueError)"

definition levels_field :: "json \<Rightarrow> string \<Rightarrow> pyexn + (rat \<times> rat) list" where
  "levels_field fp k =
     then_sum (jget fp k JNull) (\<lambda>arr. then_sum (py_iter (py_or arr (JList []))) parse_levels)"

definition flip_levels :: "(rat \<times> rat) list \<Rightarrow> (rat \<times> rat) list" where
  "flip_levels bids = sort (map (\<lambda>(p, z). (fsub 1 p, z)) bids)"

definition kalshi_book :: "fetch \<Rightarrow> string \<Rightarrow> pyexn + (rat \<times> rat) list \<times> (rat \<times> rat) list" where
  "kalshi_book fetch ticker =
     then_sum (reply_get (fetch (KBASE @ ''/markets/'' @ ticker @ ''/orderbook?depth=100'')) ''orderbook_fp'') (\<lambda>fp0.
     let fp = py_or fp0 (JObj []) in
     then_sum (levels_field fp ''yes_dollars'') (\<lambda>yb.
     then_sum (levels_field fp ''no_dollars'') (\<lambda>nb. Inr (flip_levels nb, flip_levels yb))))"

text \<open>\<open>float(a[k])\<close>.\<close>

definition float_at :: "json \<Rightarrow> string \<Rightarrow> pyexn + rat" where
  "float_at a k = (case a of JObj ob \<Rightarrow> (case map_of ob k of Some v \<Rightarrow> py_float v | None \<Rightarrow> Inl KeyError) | _ \<Rightarrow> Inl TypeError)"

fun read_asks :: "json list \<Rightarrow> pyexn + (rat \<times> rat) list" where
  "read_asks [] = Inr []"
| "read_asks (a # as) =
     then_sum (float_at a ''price'') (\<lambda>p. then_sum (float_at a ''size'') (\<lambda>z.
     then_sum (read_asks as) (\<lambda>ls. Inr ((p, z) # ls))))"

definition pm_asks :: "fetch \<Rightarrow> string \<Rightarrow> pyexn + (rat \<times> rat) list" where
  "pm_asks fetch token =
     then_sum (jget (py_or (case fetch (PM_CLOB @ ''/book?token_id='' @ token) of Some v \<Rightarrow> v | None \<Rightarrow> JNull) (JObj []))
        ''asks'' (JList [])) (\<lambda>asks.
     then_sum (py_iter asks) (\<lambda>as. then_sum (read_asks as) (\<lambda>ls. Inr (sort ls))))"

text \<open>The unified book of Polymarket US.\<close>

definition us_slug :: "string \<Rightarrow> string option" where
  "us_slug s = (if prefix ''us:'' s then Some (takeWhile (\<lambda>c. c \<noteq> CHR ''#'') (drop 3 s)) else None)"

fun px_levels :: "json list \<Rightarrow> pyexn + (rat \<times> rat) list" where
  "px_levels [] = Inr []"
| "px_levels (l # ls) =
     then_sum (jget l ''px'' JNull) (\<lambda>px0.
     then_sum (jget (py_or px0 (JObj [])) ''value'' JNull) (\<lambda>v.
     then_sum (py_float (py_or v (JInt 0))) (\<lambda>p.
     then_sum (jget l ''qty'' JNull) (\<lambda>q.
     then_sum (py_float (py_or q (JInt 0))) (\<lambda>z.
     then_sum (px_levels ls) (\<lambda>r. Inr ((p, z) # r)))))))"

definition px_field :: "json \<Rightarrow> string \<Rightarrow> pyexn + (rat \<times> rat) list" where
  "px_field md k = then_sum (jget md k JNull) (\<lambda>v. then_sum (py_iter (py_or v (JList []))) px_levels)"

definition with_size :: "(rat \<times> rat) list \<Rightarrow> (rat \<times> rat) list" where
  "with_size ls = filter (\<lambda>(p, q). 0 < q) ls"

definition pmus_book :: "fetch \<Rightarrow> string \<Rightarrow> pyexn + (rat \<times> rat) list \<times> (rat \<times> rat) list" where
  "pmus_book fetch slug =
     then_sum (reply_get (fetch (GATEWAY @ ''/v1/markets/'' @ slug @ ''/book'')) ''marketData'') (\<lambda>md0.
     let md = py_or md0 (JObj []) in
     then_sum (px_field md ''offers'') (\<lambda>offers.
     then_sum (px_field md ''bids'') (\<lambda>bids.
     Inr (with_size (sort offers),
          with_size (sort (map (\<lambda>(p, q). (py_round (fsub 1 p) 6, q)) (filter (\<lambda>(p, q). 0 < p) bids)))))))"

section \<open>Pairs and their structures\<close>

definition INVERTED :: string where "INVERTED = ''inverted''"

record pair =
  p_ktk :: string
  p_kt :: string
  p_pt :: string
  p_tok0 :: "string \<times> string"
  p_tok1 :: "string \<times> string"
  p_pid :: string
  p_sim :: rat
  p_polarity :: string
  p_uncertain :: bool
  p_conflict :: "string option"

text \<open>The tokens by the lower-case name of their outcome, the second one winning a clash.\<close>

definition token_named :: "pair \<Rightarrow> string \<Rightarrow> string option" where
  "token_named p k = map_of [(lower (snd (p_tok1 p)), fst (p_tok1 p)), (lower (snd (p_tok0 p)), fst (p_tok0 p))] k"

definition yes_token :: "pair \<Rightarrow> string" where
  "yes_token p = (case token_named p ''yes'' of Some t \<Rightarrow> if t = [] then fst (p_tok0 p) else t | None \<Rightarrow> fst (p_tok0 p))"

definition no_token :: "pair \<Rightarrow> string" where
  "no_token p = (case token_named p ''no'' of Some t \<Rightarrow> if t = [] then fst (p_tok1 p) else t | None \<Rightarrow> fst (p_tok1 p))"

definition tag :: "bool \<Rightarrow> (rat \<times> rat) list \<Rightarrow> ladder" where
  "tag k ls = map (\<lambda>(p, z). (p, z, k)) ls"

text \<open>A priced structure: the cross-venue complement (with the sources of its two legs, true for
  Kalshi) or the two Polymarket tokens of a pair.\<close>

datatype priced =
    Comp pair comp_walk (a_src_k: bool) (b_src_k: bool) (implausible: bool)
  | Intra pair basket (implausible: bool)

definition best :: "(rat \<times> rat) list \<Rightarrow> rat" where
  "best ls = (case ls of [] \<Rightarrow> 9 | (p, z) # r \<Rightarrow> p)"

text \<open>The cross-venue structure: one leg per venue, each where it is cheaper, unless the best asks
  together are implausibly cheap.\<close>

definition comp_structure ::
    "pair \<Rightarrow> (rat \<times> rat) list \<Rightarrow> (rat \<times> rat) list \<Rightarrow> (rat \<times> rat) list \<Rightarrow> (rat \<times> rat) list \<Rightarrow> int \<Rightarrow> priced list" where
  "comp_structure p kyes kno pyes pno bps =
     (let inv = (p_polarity p = INVERTED); pm_A = (if inv then pno else pyes); pm_B = (if inv then pyes else pno);
          a_is_k = best kyes \<le> best pm_A; b_is_k = best kno \<le> best pm_B;
          A = (if a_is_k then kyes else pm_A); B = (if b_is_k then kno else pm_B) in
      if a_is_k \<noteq> b_is_k \<and> A \<noteq> [] \<and> B \<noteq> [] \<and> MIN_COMPLEMENTARY_SUM \<le> fadd (best A) (best B) then
        (case walk_complementary A B a_is_k b_is_k bps of
           Some (Some w) \<Rightarrow> [Comp p w a_is_k b_is_k (MAX_PLAUSIBLE_PROFIT_MARGIN < cw_net_edge w)]
         | _ \<Rightarrow> [])
      else [])"

definition intra_structure :: "pair \<Rightarrow> (rat \<times> rat) list \<Rightarrow> (rat \<times> rat) list \<Rightarrow> int \<Rightarrow> priced list" where
  "intra_structure p pyes pno bps =
     (case walk_basket [tag False pyes, tag False pno] bps 1 of
        Some (Some b) \<Rightarrow> [Intra p b (MAX_PLAUSIBLE_PROFIT_MARGIN < bk_net_edge b)]
      | _ \<Rightarrow> [])"

text \<open>\<open>pm_book\<close> is the source of Polymarket books: the mirror of the web socket or \<open>pm_asks\<close>.\<close>

definition pair_structures ::
    "fetch \<Rightarrow> (string \<Rightarrow> pyexn + (rat \<times> rat) list) \<Rightarrow> pair \<Rightarrow> int \<Rightarrow> pyexn + priced list" where
  "pair_structures fetch pm_book p bps =
     then_sum (kalshi_book fetch (p_ktk p)) (\<lambda>(kyes, kno).
     if prefix ''us:'' (yes_token p) then
       then_sum (pmus_book fetch (case us_slug (yes_token p) of Some s \<Rightarrow> s | None \<Rightarrow> [])) (\<lambda>(pyes, pno).
       Inr (comp_structure p kyes kno pyes pno bps))
     else
       then_sum (pm_book (yes_token p)) (\<lambda>pyes.
       then_sum (pm_book (no_token p)) (\<lambda>pno.
       Inr (comp_structure p kyes kno pyes pno bps @ intra_structure p pyes pno bps))))"

fun is_comp :: "priced \<Rightarrow> bool" where
  "is_comp (Comp p w a b i) = True"
| "is_comp (Intra p b i) = False"

definition price_pair :: "fetch \<Rightarrow> pair \<Rightarrow> int \<Rightarrow> pyexn + priced option" where
  "price_pair fetch p bps =
     then_sum (pair_structures fetch (pm_asks fetch) p bps) (\<lambda>rs. Inr (List.find is_comp rs))"

section \<open>Opportunities\<close>

definition to_opportunity :: "pair \<Rightarrow> comp_walk \<Rightarrow> bool \<Rightarrow> obj" where
  "to_opportunity p w ak =
     (let inv = (p_polarity p = INVERTED);
          a_token = (if inv then no_token p else yes_token p);
          b_token = (if inv then yes_token p else no_token p);
          kalshi_price = (if ak then cw_avg_a w else cw_avg_b w);
          poly_price = (if ak then cw_avg_b w else cw_avg_a w);
          pm_token = (if ak then b_token else a_token);
          strategy = (if ak then ''Buy Kalshi YES + Buy Polymarket complement (S3)''
                      else ''Buy Polymarket + Buy Kalshi NO (S4)'') in
      [(''opportunity_id'', JStr (''arb-'' @ p_ktk p @ ''-'' @ take 8 pm_token)),
       (''strategy_type'', JStr ''complementary''), (''strategy'', JStr strategy),
       (''total_profit'', JNum (cw_net w)), (''profit_margin'', JNum (cw_net_edge w)),
       (''kalshi_price'', JNum (py_round kalshi_price 4)), (''polymarket_price'', JNum (py_round poly_price 4)),
       (''polymarket_token'', JStr pm_token), (''max_tradeable_volume'', JNum (cw_size w)),
       (''match_data'', JObj
         [(''kalshi_market'', JObj [(''id'', JStr (p_ktk p)), (''title'', JStr (p_kt p))]),
          (''polymarket_market'', JObj [(''id'', JStr (p_pid p)), (''title'', JStr (p_pt p))])])])"

section \<open>Conflicts\<close>

text \<open>\<open>best[(side, id)]\<close>: the highest similarity among the pairs of a market.\<close>

definition best_sim :: "(pair \<Rightarrow> string) \<Rightarrow> pair list \<Rightarrow> string \<Rightarrow> rat" where
  "best_sim market ps k = fold (\<lambda>p b. if market p = k then max b (p_sim p) else b) ps 0"

definition demoted :: "pair list \<Rightarrow> pair \<Rightarrow> string list" where
  "demoted ps p =
     (if p_sim p < best_sim p_ktk ps (p_ktk p) then [''ktk''] else []) @
     (if p_sim p < best_sim p_pid ps (p_pid p) then [''pid''] else [])"

definition comma :: "string list \<Rightarrow> string" where
  "comma ss = (case ss of [] \<Rightarrow> [] | s # r \<Rightarrow> s @ concat (map (\<lambda>t. CHR '','' # t) r))"

definition arbitrate_conflicts :: "pair list \<Rightarrow> pair list" where
  "arbitrate_conflicts ps = map (\<lambda>p. let d = demoted ps p in
     if d = [] then p else p\<lparr>p_uncertain := True, p_conflict := Some (comma d)\<rparr>) ps"

section \<open>What the legs pay\<close>

text \<open>
  The meaning of a pair: \<open>A\<close> says whether the event of the Kalshi market happens. The YES token pays
  on the event when the pair is aligned and on its complement when it is inverted.
\<close>

definition token_pays :: "pair \<Rightarrow> string \<Rightarrow> bool \<Rightarrow> rat" where
  "token_pays p token A =
     (if token = yes_token p then of_bool (if p_polarity p = INVERTED then \<not> A else A)
      else if token = no_token p then of_bool (if p_polarity p = INVERTED then A else \<not> A) else 0)"

definition kalshi_pays :: "string \<Rightarrow> bool \<Rightarrow> rat" where
  "kalshi_pays side A = of_bool (if side = ''yes'' then A else \<not> A)"

text \<open>The legs the executor makes of an opportunity.\<close>

lemma opportunity_side:
  "kalshi_side (get_or (JStr []) (to_opportunity p w ak) ''strategy'') = Inr (if ak then ''yes'' else ''no'')"
proof -
  have "contains ''S3'' ''Buy Kalshi YES + Buy Polymarket complement (S3)''"
    "\<not> contains ''S3'' ''Buy Polymarket + Buy Kalshi NO (S4)''"
    "\<not> contains ''Kalshi YES'' ''Buy Polymarket + Buy Kalshi NO (S4)''" by code_simp+
  then show ?thesis by (simp add: to_opportunity_def Let_def kalshi_side_def)
qed

lemma built_legs:
  assumes "build_legs cfg (to_opportunity p w ak) = Inr (Some (rk, rp))"
  shows "rq_venue rk = KALSHI \<and> rq_venue rp = POLYMARKET \<and> rq_action rk = ''buy'' \<and> rq_action rp = ''buy'' \<and>
    rq_size rk = rq_size rp \<and> rq_ticker rk = Some (p_ktk p) \<and> rq_outcome_side rk = (if ak then ''yes'' else ''no'') \<and>
    rq_token_id rp = Some (if ak = (p_polarity p = INVERTED) then yes_token p else no_token p) \<and>
    rq_limit_price rk = py_round (if ak then cw_avg_a w else cw_avg_b w) 4 \<and>
    rq_limit_price rp = py_round (if ak then cw_avg_b w else cw_avg_a w) 4"
proof -
  let ?opp = "to_opportunity p w ak"
  have f: "get_or d ?opp ''match_data'' = JObj
         [(''kalshi_market'', JObj [(''id'', JStr (p_ktk p)), (''title'', JStr (p_kt p))]),
          (''polymarket_market'', JObj [(''id'', JStr (p_pid p)), (''title'', JStr (p_pt p))])]"
    "get_or d ?opp ''polymarket_token'' = JStr (if ak = (p_polarity p = INVERTED) then yes_token p else no_token p)"
    "get_or d ?opp ''strategy_type'' = JStr ''complementary''"
    "get_or d ?opp ''kalshi_price'' = JNum (py_round (if ak then cw_avg_a w else cw_avg_b w) 4)"
    "get_or d ?opp ''polymarket_price'' = JNum (py_round (if ak then cw_avg_b w else cw_avg_a w) 4)" for d
    by (simp_all add: to_opportunity_def Let_def)
  show ?thesis
    using assms unfolding build_legs_def f
    by (auto simp: jget_def opportunity_side Let_def kalshi_leg_def pm_leg_def order_request_of_def opt_text_def
        split: sum.splits if_splits)
qed

lemma comp_legs: "Comp p' w ak bk imp \<in> set (comp_structure p ky kn py pn bps) \<Longrightarrow> p' = p \<and> ak \<noteq> bk"
  by (simp only: comp_structure_def Let_def split: if_split_asm option.split_asm) auto

lemma intra_legs: "Comp p' w ak bk imp \<notin> set (intra_structure p py pn bps)"
  by (auto simp: intra_structure_def split: option.split)

lemma comp_in_structures:
  assumes "pair_structures fetch pm_book p bps = Inr rs" and "Comp p' w ak bk imp \<in> set rs"
  shows "p' = p \<and> ak \<noteq> bk"
proof -
  obtain ky kn py pn where "rs = comp_structure p ky kn py pn bps \<or>
      rs = comp_structure p ky kn py pn bps @ intra_structure p py pn bps"
    using assms(1) by (auto simp: pair_structures_def split: sum.splits if_splits prod.splits)
  then show ?thesis using assms(2) comp_legs intra_legs by fastforce
qed

lemma best_sim_less:
  assumes "0 \<le> x" shows "x < best_sim market ps k \<longleftrightarrow> (\<exists>q \<in> set ps. market q = k \<and> x < p_sim q)"
proof -
  have "x < fold (\<lambda>p b. if market p = k then max b (p_sim p) else b) ps b \<longleftrightarrow>
      x < b \<or> (\<exists>q \<in> set ps. market q = k \<and> x < p_sim q)" for b
    by (induction ps arbitrary: b) (auto simp: less_max_iff_disj)
  with assms show ?thesis by (simp add: best_sim_def)
qed

lemma demoted_iff:
  "0 \<le> p_sim p \<Longrightarrow> demoted ps p = [] \<longleftrightarrow>
     \<not> (\<exists>q \<in> set ps. (p_ktk q = p_ktk p \<or> p_pid q = p_pid p) \<and> p_sim p < p_sim q)"
  by (auto simp: demoted_def best_sim_less)

section \<open>Properties\<close>

text \<open>C29. A complement pays in every world: whatever the books, the structure priced for a pair has one leg
  on each venue, and the orders the executor builds from its opportunity are two buys of the same
  size, on the ticker and a token of that pair, that together pay exactly one dollar a contract
  whether or not the event happens, for an aligned as for an inverted pair.\<close>
theorem complement_pays_in_every_world:
  assumes "pair_structures fetch pm_book p bps = Inr rs" and "Comp p' w ak bk imp \<in> set rs"
    and "yes_token p \<noteq> no_token p" and "build_legs cfg (to_opportunity p' w ak) = Inr (Some (rk, rp))"
  shows "p' = p \<and> ak \<noteq> bk \<and> rq_venue rk = KALSHI \<and> rq_venue rp = POLYMARKET \<and>
    rq_action rk = ''buy'' \<and> rq_action rp = ''buy'' \<and> rq_size rk = rq_size rp \<and> rq_ticker rk = Some (p_ktk p) \<and>
    (\<exists>token. rq_token_id rp = Some token \<and> (\<forall>A. kalshi_pays (rq_outcome_side rk) A + token_pays p token A = 1))"
  using comp_in_structures [OF assms(1,2)] built_legs [OF assms(4)] assms(3)
  by (auto simp: kalshi_pays_def token_pays_def)

text \<open>Kalshi asks 1/2 for YES and 3/4 for NO, Polymarket 7/8 for its YES and 3/8 for its NO token.\<close>

definition demo_fetch :: fetch where
  "demo_fetch url = Some (JObj [(''orderbook_fp'', JObj
     [(''yes_dollars'', JList [JList [JNum (1 / 4), JInt 100]]), (''no_dollars'', JList [JList [JNum (1 / 2), JInt 100]])])])"

definition demo_pm :: "string \<Rightarrow> pyexn + (rat \<times> rat) list" where
  "demo_pm token = Inr (if token = ''1'' then [(7 / 8, 100)] else [(3 / 8, 100)])"

definition demo_pair :: pair where
  "demo_pair = \<lparr>p_ktk = ''KX'', p_kt = ''K'', p_pt = ''P'', p_tok0 = (''1'', ''Yes''), p_tok1 = (''2'', ''No''),
      p_pid = ''a'', p_sim = 1, p_polarity = ''aligned'', p_uncertain = False, p_conflict = None\<rparr>"

definition demo_walk :: comp_walk where
  "demo_walk = \<lparr>cw_size = 100, cw_cost = 175 / 2, cw_net = 43 / 4, cw_avg_a = 1 / 2, cw_avg_b = 3 / 8,
     cw_net_edge = fdiv (43 / 4) (175 / 2)\<rparr>"

lemma demo_fee: "FeeModel_kalshi_taker_fee (1 / 2) 100 = 7 / 4"
  by code_simp

lemma demo_floats:
  "fadd 0 100 = 100" "fadd (7 / 4) 0 = 7 / 4" "fadd 0 0 = 0" "fsub 1 (1 / 2) = 1 / 2" "fsub (1 / 2) (3 / 8) = 1 / 8"
  "fmul (1 / 8) 100 = 25 / 2" "fsub (25 / 2) (7 / 4) = 43 / 4" "fsub (43 / 4) 0 = 43 / 4" "fmul (1 / 2) 100 = 50"
  "fmul (3 / 8) 100 = 75 / 2" "fadd 0 50 = 50" "fadd 0 (75 / 2) = 75 / 2" "fdiv 50 100 = 1 / 2" "fdiv (75 / 2) 100 = 3 / 8"
  "fsub 100 50 = 50" "fsub 50 (75 / 2) = 25 / 2" "fadd 50 (75 / 2) = 175 / 2"
  by code_simp+

lemma demo_walks: "walk_complementary [(1 / 2, 100)] [(3 / 8, 100)] True False 0 = Some (Some demo_walk)"
  by (simp add: walk_complementary_def while_option_unfold comp_open_def comp_start_def comp_round_def comp_fees_def
      comp_result_def take_pair_def DUST_nonneg pm_fee_def FeeModel_polymarket_taker_fee_def demo_fee demo_floats demo_walk_def Let_def)


lemma demo_books: "kalshi_book demo_fetch (p_ktk demo_pair) = Inr ([(1 / 2, 100)], [(3 / 4, 100)])"
  by code_simp

lemma demo_intra: "intra_structure demo_pair [(7 / 8, 100)] [(3 / 8, 100)] 0 = []"
  by code_simp

lemma demo_structures: "\<exists>imp. pair_structures demo_fetch demo_pm demo_pair 0 = Inr [Comp demo_pair demo_walk True False imp]"
proof -
  have "MIN_COMPLEMENTARY_SUM \<le> fadd (1 / 2) (3 / 8)" "\<not> prefix ''us:'' (yes_token demo_pair)"
    "demo_pm (yes_token demo_pair) = Inr [(7 / 8, 100)]" "demo_pm (no_token demo_pair) = Inr [(3 / 8, 100)]"
    "p_polarity demo_pair \<noteq> INVERTED" by code_simp+
  then show ?thesis
    by (simp add: pair_structures_def demo_books demo_intra comp_structure_def best_def demo_walks Let_def)
qed

lemma demo_legs: "case build_legs default_config (to_opportunity demo_pair demo_walk True) of
    Inr (Some (rk, rp)) \<Rightarrow> True | _ \<Rightarrow> False"
  by code_simp

theorem complement_pays_in_every_world_witness:
  "\<exists>imp rk rp token. pair_structures demo_fetch demo_pm demo_pair 0 = Inr [Comp demo_pair demo_walk True False imp] \<and>
     build_legs default_config (to_opportunity demo_pair demo_walk True) = Inr (Some (rk, rp)) \<and>
     rq_token_id rp = Some token \<and> (\<forall>A. kalshi_pays (rq_outcome_side rk) A + token_pays demo_pair token A = 1)"
proof -
  obtain imp where s: "pair_structures demo_fetch demo_pm demo_pair 0 = Inr [Comp demo_pair demo_walk True False imp]"
    using demo_structures by blast
  obtain rk rp where b: "build_legs default_config (to_opportunity demo_pair demo_walk True) = Inr (Some (rk, rp))"
    using demo_legs by (auto split: sum.splits option.splits)
  have y: "yes_token demo_pair \<noteq> no_token demo_pair" by code_simp
  have m: "Comp demo_pair demo_walk True False imp \<in> set [Comp demo_pair demo_walk True False imp]" by simp
  from complement_pays_in_every_world [OF s m y b] s b show ?thesis by auto
qed

text \<open>Only the best matches of a market stay clean: after conflicts are settled a pair is uncertain
  exactly if it was before or a pair of the same ticker or the same Polymarket market has a higher
  similarity; no pair is lost, reordered or changed in anything but its flags.\<close>
theorem clean_pairs_are_best_matches:
  assumes "list_all (\<lambda>p. 0 \<le> p_sim p) ps"
  shows "map p_uncertain (arbitrate_conflicts ps) =
      map (\<lambda>p. p_uncertain p \<or> (\<exists>q \<in> set ps. (p_ktk q = p_ktk p \<or> p_pid q = p_pid p) \<and> p_sim p < p_sim q)) ps \<and>
    map (\<lambda>p. p\<lparr>p_uncertain := False, p_conflict := None\<rparr>) (arbitrate_conflicts ps) =
      map (\<lambda>p. p\<lparr>p_uncertain := False, p_conflict := None\<rparr>) ps"
  using assms demoted_iff by (auto simp: arbitrate_conflicts_def Let_def list_all_iff)

definition driver_pair :: "string \<Rightarrow> string \<Rightarrow> rat \<Rightarrow> pair" where
  "driver_pair pid pt sim =
     \<lparr>p_ktk = ''KXF1'', p_kt = ''Racing Bulls'', p_pt = pt, p_tok0 = (''1'', ''Yes''), p_tok1 = (''2'', ''No''),
      p_pid = pid, p_sim = sim, p_polarity = ''aligned'', p_uncertain = False, p_conflict = None\<rparr>"

theorem clean_pairs_are_best_matches_witness:
  "map p_uncertain (arbitrate_conflicts [driver_pair ''a'' ''Racing Bulls'' 1, driver_pair ''b'' ''Red Bull Racing'' (4 / 5)])
     = [False, True]"
  using clean_pairs_are_best_matches [of "[driver_pair ''a'' ''Racing Bulls'' 1, driver_pair ''b'' ''Red Bull Racing'' (4 / 5)]"]
  by (simp add: driver_pair_def)

text \<open>A tie is settled for both sides: two Polymarket markets matched to one Kalshi ticker with the same
  similarity (which is rounded to four decimals) both stay clean, although at most one of them can be
  the same event and every pairing but the best is documented to be demoted.\<close>
theorem tied_pairs_stay_clean:
  "let ps = [driver_pair ''a'' ''Racing Bulls'' (4 / 5), driver_pair ''b'' ''Red Bull Racing'' (4 / 5)]
   in arbitrate_conflicts ps = ps \<and> list_all (\<lambda>p. \<not> p_uncertain p \<and> p_ktk p = ''KXF1'') ps"
  by code_simp

text \<open>Two Kalshi levels against one Polymarket level: the walk takes both.\<close>

definition two_levels :: "(rat \<times> rat) list" where "two_levels = [(1 / 2, 100), (5 / 8, 100)]"

lemma two_level_fees:
  "FeeModel_kalshi_taker_fee (5 / 8) 100 = fl (33 / 20)" "FeeModel_kalshi_taker_fee (9 / 16) 200 = fl (69 / 20)"
  by code_simp+

lemma two_level_floats:
  "fsub (1 / 2) (5 / 16) = 3 / 16" "fmul (3 / 16) 100 = 75 / 4" "fsub (75 / 4) (7 / 4) = 17" "fsub 17 0 = 17"
  "fsub 1 (5 / 8) = 3 / 8" "fsub (3 / 8) (5 / 16) = 1 / 16" "fmul (1 / 16) 100 = 25 / 4"
  "\<not> fsub (25 / 4) (fl (33 / 20)) \<le> 0" "fmul (5 / 16) 100 = 125 / 4" "fadd 0 (125 / 4) = 125 / 4"
  "fmul (5 / 8) 100 = 125 / 2" "fadd 50 (125 / 2) = 225 / 2" "fadd (125 / 4) (125 / 4) = 125 / 2" "fadd 100 100 = 200"
  "fdiv (225 / 2) 200 = 9 / 16" "fsub 200 100 = 100" "fsub 100 100 = 0" "\<not> 100 \<le> DUST" "py_round (9 / 16) 4 = 9 / 16"
  by code_simp+

text \<open>The limit of a leg is too low for its size: the price of an opportunity is the average over the
  levels the walk took, rounded, and the executor sends it as the limit of the whole size, so every
  level dearer than the average is out of reach. Of the two hundred contracts of the example only
  the first hundred are offered at the limit.\<close>
theorem average_price_as_limit:
  "\<exists>w. walk_complementary two_levels [(5 / 16, 200)] True False 0 = Some (Some w) \<and>
     get (to_opportunity demo_pair w True) ''max_tradeable_volume'' = JNum 200 \<and>
     get (to_opportunity demo_pair w True) ''kalshi_price'' = JNum (9 / 16) \<and>
     sum_list (map snd (filter (\<lambda>(p, z). p \<le> 9 / 16) two_levels)) = 100"
  by (simp add: two_levels_def walk_complementary_def while_option_unfold comp_open_def comp_start_def comp_round_def
      comp_fees_def comp_result_def take_pair_def DUST_nonneg pm_fee_def FeeModel_polymarket_taker_fee_def demo_fee
      two_level_fees demo_floats two_level_floats to_opportunity_def not_le [symmetric] Let_def del: not_le)

end
