(* ===== verification/Screens.thy ===== *)
theory Screens
  imports PairPricing
begin

text \<open>
  The event screens of \<open>live_probe.py\<close> and their pricing. A screen reads a feed of events with their
  markets (decoded JSON) and returns candidates; pricing fetches the books of a candidate's legs and
  walks the basket. The module's regular expressions are searches for whole phrases (\<open>phrase_in\<close>)
  and for a number with a plus sign (\<open>at_least\<close>); \<open>loads\<close> stands for \<open>json.loads\<close>, \<open>None\<close>
  when the text is not JSON. A pair looked up by its ticker is a record as in \<open>PairPricing\<close>.
\<close>

section \<open>Phrases\<close>

definition is_word :: "char \<Rightarrow> bool" where
  "is_word c \<longleftrightarrow> is_digit c \<or> char_lower c \<in> set ''abcdefghijklmnopqrstuvwxyz'' \<or> c = CHR ''_''"

definition word_end :: "string \<Rightarrow> bool" where
  "word_end s = (case s of [] \<Rightarrow> True | c # r \<Rightarrow> \<not> is_word c)"

text \<open>A search for \<open>\\bphrase\\b\<close> in lower-case text, where \<open>b\<close> says whether a word may begin here.\<close>

fun phrase_at :: "string \<Rightarrow> bool \<Rightarrow> string \<Rightarrow> bool" where
  "phrase_at ph b s = (b \<and> prefix ph s \<and> word_end (drop (length ph) s) \<or>
     (case s of [] \<Rightarrow> False | c # r \<Rightarrow> phrase_at ph (\<not> is_word c) r))"

definition phrase_in :: "string list \<Rightarrow> string \<Rightarrow> bool" where
  "phrase_in phs s \<longleftrightarrow> list_ex (\<lambda>ph. phrase_at ph True (lower s)) phs"

definition ENDPOINTS :: "string list" where
  "ENDPOINTS = [''or above'', ''or below'', ''or higher'', ''or lower'', ''or more'', ''or less'', ''or later'', ''or earlier'']"

definition NONE_OUTCOMES :: "string list" where
  "NONE_OUTCOMES = [''none'', ''no one'', ''nobody'', ''neither'', ''no winner'']"

definition SUBJ_CATCHALLS :: "string list" where
  "SUBJ_CATCHALLS = [''another'', ''other'', ''someone else'', ''the field'', ''any other'']"

definition RACES :: "string list" where
  "RACES = [''first to'', ''to hit'', ''to reach'', ''to cross'', ''to pass'', ''to top'', ''to exceed'',
     ''will any'', ''will anyone'', ''will anybody'', ''anyone'']"

definition spaced :: "string list \<Rightarrow> string" where
  "spaced ss = (case ss of [] \<Rightarrow> [] | s # r \<Rightarrow> s @ concat (map (\<lambda>t. CHR '' '' # t) r))"

text \<open>The title is used by the last test only; a title that is neither text nor empty fails there.\<close>

definition event_exhaustive :: "json \<Rightarrow> string list \<Rightarrow> pyexn + bool" where
  "event_exhaustive event_title outcome_texts =
     (let joined = spaced outcome_texts in
      if phrase_in ENDPOINTS joined \<or> phrase_in NONE_OUTCOMES joined then Inr True
      else if \<not> phrase_in SUBJ_CATCHALLS joined then Inr False
      else case py_or event_title (JStr []) of
        JStr t \<Rightarrow> Inr (\<not> phrase_in RACES t)
      | _ \<Rightarrow> Inl TypeError)"

section \<open>Candidates\<close>

record cand =
  cd_ev :: json
  cd_kind :: string
  cd_gross :: rat
  cd_n :: nat
  cd_exhaustive :: bool
  cd_title :: json

record kalshi_cand = cand + cd_tickers :: "json list"
record ladder_cand = cand + cd_buy_yes :: json  cd_buy_no :: json
record pm_cand = cand + cd_tokens :: "json list"

text \<open>Whether a market of the Kalshi feed is open.\<close>

definition open_market :: "json \<Rightarrow> pyexn + bool" where
  "open_market m = then_sum (jget m ''status'' (JStr ''active'')) (\<lambda>s.
     Inr (lower (py_str s) \<in> {'''', ''active'', ''open'', ''initialized''}))"

fun keep_markets :: "(json \<Rightarrow> pyexn + bool) \<Rightarrow> json list \<Rightarrow> pyexn + json list" where
  "keep_markets f [] = Inr []"
| "keep_markets f (m # ms) = then_sum (f m) (\<lambda>k. then_sum (keep_markets f ms) (\<lambda>r. Inr (if k then m # r else r)))"

definition markets_of :: "json \<Rightarrow> pyexn + json list" where
  "markets_of e = then_sum (jget e ''markets'' JNull) (\<lambda>ms. py_iter (py_or ms (JList [])))"

text \<open>\<open>float(m.get(k) or d)\<close>, a number that does not parse being \<open>None\<close>.\<close>

definition quote :: "json \<Rightarrow> string \<Rightarrow> int \<Rightarrow> pyexn + rat option" where
  "quote m k d = then_sum (jget m k JNull) (\<lambda>v.
     Inr (case py_float (py_or v (JInt d)) of Inr x \<Rightarrow> Some x | Inl e \<Rightarrow> None))"

text \<open>The asks and bids of the markets of an event, \<open>None\<close> as soon as one is not a number; an
  outcome without an offer asks 9.\<close>

fun top_quotes :: "json list \<Rightarrow> pyexn + (rat \<times> rat) list option" where
  "top_quotes [] = Inr (Some [])"
| "top_quotes (m # ms) =
     then_sum (quote m ''yes_ask_dollars'' 0) (\<lambda>a.
     then_sum (quote m ''yes_bid_dollars'' 0) (\<lambda>b.
     case (a, b) of
       (Some a, Some b) \<Rightarrow> then_sum (top_quotes ms) (\<lambda>r.
          Inr (map_option ((#) (if a \<le> 0 then 9 else a, b)) r))
     | _ \<Rightarrow> Inr None))"

fun gets :: "string \<Rightarrow> json \<Rightarrow> json list \<Rightarrow> pyexn + json list" where
  "gets k d [] = Inr []"
| "gets k d (m # ms) = then_sum (jget m k d) (\<lambda>v. then_sum (gets k d ms) (\<lambda>r. Inr (v # r)))"

definition outcome_texts :: "json list \<Rightarrow> pyexn + string list" where
  "outcome_texts ms =
     then_sum (gets ''title'' (JStr []) ms) (\<lambda>ts. then_sum (gets ''yes_sub_title'' (JStr []) ms) (\<lambda>ss.
     Inr (map2 (\<lambda>t s. py_str t @ '' '' @ py_str s) ts ss)))"

text \<open>The two candidates of an event: its outcomes bought YES, and bought NO.\<close>

definition dutch_cands ::
    "rat \<Rightarrow> json \<Rightarrow> json \<Rightarrow> bool \<Rightarrow> (rat \<times> rat) list \<Rightarrow> (cand \<Rightarrow> 'a) \<Rightarrow> 'a list" where
  "dutch_cands min_gross ev title exhaustive qs mk =
     (let asks = fsum (map fst qs); bids = fsum (map snd qs) in
      (if asks < fsub 1 min_gross \<and> exhaustive
       then [mk \<lparr>cd_ev = ev, cd_kind = ''dutch_yes'', cd_gross = fsub 1 asks, cd_n = length qs,
                 cd_exhaustive = True, cd_title = title\<rparr>] else []) @
      (if fadd 1 min_gross < bids
       then [mk \<lparr>cd_ev = ev, cd_kind = ''dutch_no'', cd_gross = fsub bids 1, cd_n = length qs,
                 cd_exhaustive = exhaustive, cd_title = title\<rparr>] else []))"

definition with_tickers :: "json list \<Rightarrow> cand \<Rightarrow> kalshi_cand" where
  "with_tickers ts c = cand.extend c \<lparr>cd_tickers = ts\<rparr>"

definition kalshi_event :: "rat \<Rightarrow> json \<Rightarrow> pyexn + kalshi_cand list" where
  "kalshi_event min_gross e =
     then_sum (jget e ''mutually_exclusive'' JNull) (\<lambda>mx.
     if \<not> truthy mx then Inr []
     else then_sum (markets_of e) (\<lambda>ms0.
     then_sum (keep_markets open_market ms0) (\<lambda>ms.
     if length ms < 2 then Inr []
     else then_sum (top_quotes ms) (\<lambda>q. case q of None \<Rightarrow> Inr []
     | Some qs \<Rightarrow>
         then_sum (jget e ''title'' (JStr [])) (\<lambda>title.
         then_sum (outcome_texts ms) (\<lambda>texts.
         then_sum (event_exhaustive title texts) (\<lambda>ex.
         then_sum (gets ''ticker'' JNull ms) (\<lambda>tickers.
         then_sum (jget e ''event_ticker'' JNull) (\<lambda>ev.
         Inr (dutch_cands min_gross (py_or ev (case tickers of [] \<Rightarrow> JStr [] | t # _ \<Rightarrow> t)) title ex qs
               (with_tickers tickers)))))))))))"

fun concat_events :: "(json \<Rightarrow> pyexn + 'c list) \<Rightarrow> json list \<Rightarrow> pyexn + 'c list" where
  "concat_events f [] = Inr []"
| "concat_events f (e # es) = then_sum (f e) (\<lambda>cs. then_sum (concat_events f es) (\<lambda>r. Inr (cs @ r)))"

definition kalshi_event_screens :: "json list \<Rightarrow> rat \<Rightarrow> pyexn + kalshi_cand list" where
  "kalshi_event_screens events min_gross = concat_events (kalshi_event min_gross) events"


section \<open>Pricing an event\<close>

text \<open>\<open>pairs_by_ktk.get(tk)\<close>: a ticker that is a list or a dictionary is no key.\<close>

definition pair_for :: "(string \<times> pair) list \<Rightarrow> json \<Rightarrow> pyexn + pair option" where
  "pair_for pairs tk = (case tk of JStr t \<Rightarrow> Inr (map_of pairs t) | JList _ \<Rightarrow> Inl TypeError | JObj _ \<Rightarrow> Inl TypeError
     | _ \<Rightarrow> Inr None)"

definition tagged_asks :: "fetch \<Rightarrow> string option \<Rightarrow> pyexn + ladder" where
  "tagged_asks fetch token = (if is_set token then then_sum (pm_asks fetch (the token)) (\<lambda>ls. Inr (tag False ls)) else Inr [])"

text \<open>A ladder, and the one of a second venue merged into it.\<close>

definition merge_in :: "ladder \<Rightarrow> string option \<Rightarrow> ladder \<Rightarrow> ladder" where
  "merge_in l token l' = (if is_set token then sort (l @ l') else l)"

definition outcome_token :: "pair \<Rightarrow> bool \<Rightarrow> string option" where
  "outcome_token p want_yes = token_named p (if want_yes = (p_polarity p = INVERTED) then ''no'' else ''yes'')"

text \<open>The pair that may supply a leg: one that is matched with certainty.\<close>

definition certain :: "pair option \<Rightarrow> pair option" where
  "certain p = (case p of Some q \<Rightarrow> if p_uncertain q then None else Some q | None \<Rightarrow> None)"

definition pair_token :: "pair option \<Rightarrow> bool \<Rightarrow> string option" where
  "pair_token p want_yes = (case p of None \<Rightarrow> None | Some q \<Rightarrow> outcome_token q want_yes)"

fun dutch_legs :: "fetch \<Rightarrow> (string \<times> pair) list \<Rightarrow> json list \<Rightarrow> pyexn + (ladder \<times> ladder) list option" where
  "dutch_legs fetch pairs [] = Inr (Some [])"
| "dutch_legs fetch pairs (tk # tks) =
     then_sum (kalshi_book fetch (py_str tk)) (\<lambda>(kyes, kno).
     if kyes = [] \<and> kno = [] then Inr None
     else then_sum (pair_for pairs tk) (\<lambda>p.
       let yt = pair_token (certain p) True; nt = pair_token (certain p) False in
       then_sum (tagged_asks fetch yt) (\<lambda>ya. then_sum (tagged_asks fetch nt) (\<lambda>na.
       then_sum (dutch_legs fetch pairs tks) (\<lambda>r.
       Inr (map_option ((#) (merge_in (tag True kyes) yt ya, merge_in (tag True kno) nt na)) r))))))"

record priced_cand =
  pc_walk :: basket
  pc_strategy :: string
  pc_key :: string
  pc_kt :: json
  pc_legs :: nat
  pc_uncertain :: bool
  pc_implausible :: bool

definition price_legs :: "cand \<Rightarrow> ladder list \<Rightarrow> ladder list \<Rightarrow> int \<Rightarrow> priced_cand option" where
  "price_legs c yes_legs no_legs bps =
     (case (if cd_kind c = ''dutch_yes'' then walk_basket yes_legs bps 1
            else walk_basket no_legs bps (fsub (fl (of_nat (length no_legs))) 1)) of
        Some (Some b) \<Rightarrow> Some
          \<lparr>pc_walk = b, pc_strategy = cd_kind c, pc_key = cd_kind c @ '':'' @ py_str (cd_ev c),
           pc_kt = py_or (cd_title c) (cd_ev c), pc_legs = cd_n c,
           pc_uncertain = (cd_kind c = ''dutch_yes'' \<and> \<not> cd_exhaustive c),
           pc_implausible = (MAX_PLAUSIBLE_PROFIT_MARGIN < bk_net_edge b)\<rparr>
      | _ \<Rightarrow> None)"

definition price_kalshi_dutch ::
    "fetch \<Rightarrow> kalshi_cand \<Rightarrow> (string \<times> pair) list \<Rightarrow> int \<Rightarrow> pyexn + priced_cand option" where
  "price_kalshi_dutch fetch c pairs bps =
     then_sum (dutch_legs fetch pairs (cd_tickers c)) (\<lambda>legs. case legs of
       None \<Rightarrow> Inr None
     | Some ls \<Rightarrow> Inr (price_legs (cand.truncate c) (map fst ls) (map snd ls) bps))"

section \<open>Threshold ladders\<close>

text \<open>The first number followed by a plus sign, where white space may come between: its digits and
  commas, and the whole text that matched.\<close>

fun at_least :: "string \<Rightarrow> (string \<times> string) option" where
  "at_least [] = None"
| "at_least (c # s) =
     (let run = takeWhile (\<lambda>d. is_digit d \<or> d = CHR '','') (c # s);
          rest = dropWhile (\<lambda>d. is_digit d \<or> d = CHR '','') (c # s);
          gap = takeWhile is_space rest; after = dropWhile is_space rest in
      if is_digit c \<and> after \<noteq> [] \<and> hd after = CHR ''+'' then Some (run, run @ gap @ ''+'')
      else at_least s)"

text \<open>\<open>s.replace(pat, rep)\<close> for a pattern that is not empty; \<open>n\<close> characters are still to be skipped.\<close>

fun replace_from :: "nat \<Rightarrow> string \<Rightarrow> string \<Rightarrow> string \<Rightarrow> string" where
  "replace_from n pat rep [] = []"
| "replace_from (Suc n) pat rep (c # s) = replace_from n pat rep s"
| "replace_from 0 pat rep (c # s) =
     (if prefix pat (c # s) then rep @ replace_from (length pat - 1) pat rep s else c # replace_from 0 pat rep s)"

text \<open>Runs of white space become one space.\<close>

fun squeeze :: "bool \<Rightarrow> string \<Rightarrow> string" where
  "squeeze b [] = []"
| "squeeze b (c # s) = (if is_space c then (if b then squeeze True s else CHR '' '' # squeeze True s) else c # squeeze False s)"

text \<open>\<open>re.sub(r"-?\\d+$", "", s)\<close>: the number at the end, also before a final line break, and a hyphen in front of it.\<close>

definition drop_number :: "string \<Rightarrow> string" where
  "drop_number s =
     (let nl = s \<noteq> [] \<and> last s = CHR 0x0A \<and> butlast s \<noteq> [] \<and> is_digit (last (butlast s));
          core = (if nl then butlast s else s);
          front = rev (dropWhile is_digit (rev core));
          front' = (if front \<noteq> core \<and> front \<noteq> [] \<and> last front = CHR ''-'' then butlast front else front)
      in if nl then front' @ [CHR 0x0A] else front')"

record rung =
  rg_thr :: rat
  rg_ask :: rat
  rg_bid :: rat
  rg_ticker :: json

text \<open>The rung of a market and its subject; \<open>None\<close> for a market without a threshold or with an
  unreadable price.\<close>

definition rung_of :: "json \<Rightarrow> pyexn + (string \<times> rung) option" where
  "rung_of m =
     then_sum (jget m ''yes_sub_title'' (JStr [])) (\<lambda>sub. then_sum (jget m ''title'' (JStr [])) (\<lambda>title.
     let text = py_str sub @ '' '' @ py_str title in
     case at_least text of None \<Rightarrow> Inr None
     | Some (num, whole) \<Rightarrow>
       then_sum (quote m ''yes_ask_dollars'' 0) (\<lambda>ask. then_sum (quote m ''yes_bid_dollars'' 0) (\<lambda>bid.
       case (py_float (JStr (filter (\<lambda>c. c \<noteq> CHR '','') num)), ask, bid) of
         (Inr thr, Some a, Some b) \<Rightarrow>
           then_sum (jget m ''ticker'' JNull) (\<lambda>tk.
           let subj = lower (strip (squeeze False (replace_from 0 whole '' '' text)));
               subj' = (if subj = [] then drop_number (py_str (py_or tk (JStr []))) else subj) in
           Inr (Some (subj', \<lparr>rg_thr = thr, rg_ask = a, rg_bid = b, rg_ticker = tk\<rparr>)))
       | _ \<Rightarrow> Inr None))))"

definition add_rung :: "string \<Rightarrow> rung \<Rightarrow> (string \<times> rung list) list \<Rightarrow> (string \<times> rung list) list" where
  "add_rung k r g = AList.update k ((case map_of g k of Some rs \<Rightarrow> rs | None \<Rightarrow> []) @ [r]) g"

fun group_rungs :: "json list \<Rightarrow> (string \<times> rung list) list \<Rightarrow> pyexn + (string \<times> rung list) list" where
  "group_rungs [] g = Inr g"
| "group_rungs (m # ms) g =
     then_sum (open_market m) (\<lambda>op.
     if \<not> op then group_rungs ms g
     else then_sum (rung_of m) (\<lambda>r. case r of None \<Rightarrow> group_rungs ms g
       | Some (k, r) \<Rightarrow> group_rungs ms (add_rung k r g)))"

text \<open>\<open>rungs.sort()\<close>. Two rungs with equal numbers are compared by their tickers, which fails unless
  these are equal or both text; every such pair meets in some comparison of a sort.\<close>

definition rung_nums :: "rung \<Rightarrow> rat \<times> rat \<times> rat" where
  "rung_nums r = (rg_thr r, rg_ask r, rg_bid r)"

definition comparable :: "rung \<Rightarrow> rung \<Rightarrow> bool" where
  "comparable r s \<longleftrightarrow> rung_nums r \<noteq> rung_nums s \<or> rg_ticker r = rg_ticker s \<or>
     (case (rg_ticker r, rg_ticker s) of (JStr a, JStr b) \<Rightarrow> True | _ \<Rightarrow> False)"

definition ticker_code :: "rung \<Rightarrow> nat list" where
  "ticker_code r = (case rg_ticker r of JStr t \<Rightarrow> map of_char t | _ \<Rightarrow> [])"

fun code_le :: "nat list \<Rightarrow> nat list \<Rightarrow> bool" where
  "code_le [] ys = True"
| "code_le (x # xs) [] = False"
| "code_le (x # xs) (y # ys) = (x < y \<or> x = y \<and> code_le xs ys)"

definition rung_le :: "rung \<Rightarrow> rung \<Rightarrow> bool" where
  "rung_le r s \<longleftrightarrow> rung_nums r < rung_nums s \<or> rung_nums r = rung_nums s \<and> code_le (ticker_code r) (ticker_code s)"

fun insert_rung :: "rung \<Rightarrow> rung list \<Rightarrow> rung list" where
  "insert_rung r [] = [r]"
| "insert_rung r (s # ss) = (if rung_le r s then r # s # ss else s # insert_rung r ss)"

definition sort_rungs :: "rung list \<Rightarrow> pyexn + rung list" where
  "sort_rungs rs = (if list_all (\<lambda>r. list_all (comparable r) rs) rs then Inr (foldr insert_rung rs []) else Inl TypeError)"

text \<open>The largest violation so far is kept, the first one winning a tie.\<close>

definition better_rungs :: "rat \<Rightarrow> json \<Rightarrow> json \<Rightarrow> rung \<Rightarrow> rung \<Rightarrow> ladder_cand option \<Rightarrow> ladder_cand option" where
  "better_rungs min_gross ev title lo hi bst =
     (if rg_thr hi \<le> rg_thr lo \<or> rg_ask lo \<le> 0 \<or> rg_bid hi \<le> 0 then bst
      else let viol = fsub (rg_bid hi) (rg_ask lo) in
        if min_gross < viol \<and> (case bst of None \<Rightarrow> True | Some c \<Rightarrow> cd_gross c < viol)
        then Some \<lparr>cd_ev = py_or ev (rg_ticker lo), cd_kind = ''ladder'', cd_gross = viol, cd_n = 2,
               cd_exhaustive = True, cd_title = title, cd_buy_yes = rg_ticker lo, cd_buy_no = rg_ticker hi\<rparr>
        else bst)"

fun rung_pairs :: "rat \<Rightarrow> json \<Rightarrow> json \<Rightarrow> rung list \<Rightarrow> ladder_cand option \<Rightarrow> ladder_cand option" where
  "rung_pairs min_gross ev title [] bst = bst"
| "rung_pairs min_gross ev title (lo # rs) bst =
     rung_pairs min_gross ev title rs (fold (better_rungs min_gross ev title lo) rs bst)"

fun best_rungs :: "rat \<Rightarrow> json \<Rightarrow> json \<Rightarrow> rung list list \<Rightarrow> ladder_cand option \<Rightarrow> pyexn + ladder_cand option" where
  "best_rungs min_gross ev title [] bst = Inr bst"
| "best_rungs min_gross ev title (rs # gs) bst =
     (if length rs < 2 then best_rungs min_gross ev title gs bst
      else then_sum (sort_rungs rs) (\<lambda>ss. best_rungs min_gross ev title gs (rung_pairs min_gross ev title ss bst)))"

definition ladder_event :: "rat \<Rightarrow> json \<Rightarrow> pyexn + ladder_cand list" where
  "ladder_event min_gross e =
     then_sum (jget e ''mutually_exclusive'' JNull) (\<lambda>mx.
     if truthy mx then Inr []
     else then_sum (markets_of e) (\<lambda>ms. then_sum (group_rungs ms []) (\<lambda>g.
       then_sum (jget e ''event_ticker'' JNull) (\<lambda>ev. then_sum (jget e ''title'' (JStr [])) (\<lambda>title.
       then_sum (best_rungs min_gross ev title (map snd g) None) (\<lambda>bst.
       Inr (case bst of None \<Rightarrow> [] | Some c \<Rightarrow> [c])))))))"

definition kalshi_ladder_screens :: "json list \<Rightarrow> rat \<Rightarrow> pyexn + ladder_cand list" where
  "kalshi_ladder_screens events min_gross = concat_events (ladder_event min_gross) events"

definition ladder_leg :: "fetch \<Rightarrow> (string \<times> pair) list \<Rightarrow> json \<Rightarrow> bool \<Rightarrow> pyexn + ladder" where
  "ladder_leg fetch pairs ticker want_yes =
     then_sum (kalshi_book fetch (py_str ticker)) (\<lambda>(kyes, kno).
     then_sum (pair_for pairs ticker) (\<lambda>p.
     let tok = pair_token (certain p) want_yes in
     then_sum (tagged_asks fetch tok) (\<lambda>as. Inr (merge_in (tag True (if want_yes then kyes else kno)) tok as))))"

definition price_kalshi_ladder ::
    "fetch \<Rightarrow> ladder_cand \<Rightarrow> (string \<times> pair) list \<Rightarrow> int \<Rightarrow> pyexn + priced_cand option" where
  "price_kalshi_ladder fetch c pairs bps =
     then_sum (ladder_leg fetch pairs (cd_buy_yes c) True) (\<lambda>yes_leg.
     then_sum (ladder_leg fetch pairs (cd_buy_no c) False) (\<lambda>no_leg.
     Inr (case walk_basket [yes_leg, no_leg] bps 1 of
        Some (Some b) \<Rightarrow> Some
          \<lparr>pc_walk = b, pc_strategy = ''ladder'',
           pc_key = ''ladder:'' @ py_str (cd_buy_yes c) @ ''|'' @ py_str (cd_buy_no c),
           pc_kt = py_or (cd_title c) (cd_ev c), pc_legs = 2, pc_uncertain = False,
           pc_implausible = (MAX_PLAUSIBLE_PROFIT_MARGIN < bk_net_edge b)\<rparr>
      | _ \<Rightarrow> None)))"

section \<open>Feeds\<close>

fun event_pages :: "fetch \<Rightarrow> nat \<Rightarrow> json \<Rightarrow> json list \<Rightarrow> pyexn + json list" where
  "event_pages fetch 0 cur evs = Inr evs"
| "event_pages fetch (Suc n) cur evs =
     (case fetch (KBASE @ ''/events?limit=200&status=open&with_nested_markets=true'' @
             (if truthy cur then ''&cursor='' @ py_str cur else [])) of
        None \<Rightarrow> Inr evs
      | Some d \<Rightarrow>
          if \<not> truthy d then Inr evs
          else then_sum (jget d ''events'' (JList [])) (\<lambda>es. then_sum (py_iter es) (\<lambda>xs.
            then_sum (jget d ''cursor'' (JStr [])) (\<lambda>cur'.
            if \<not> truthy cur' \<or> \<not> truthy (get (obj_of d) ''events'') then Inr (evs @ xs)
            else event_pages fetch n cur' (evs @ xs)))))"

definition fetch_kalshi_events :: "fetch \<Rightarrow> pyexn + json list" where
  "fetch_kalshi_events fetch = event_pages fetch 45 (JStr []) []"

definition GAMMA :: string where "GAMMA = ''https://gamma-api.polymarket.com''"

definition pm_market_open :: "json \<Rightarrow> pyexn + bool" where
  "pm_market_open m = then_sum (jget m ''active'' JNull) (\<lambda>a.
     if truthy a then then_sum (jget m ''closed'' JNull) (\<lambda>c. Inr (\<not> truthy c)) else Inr False)"

fun quotes_of :: "string \<Rightarrow> int \<Rightarrow> json list \<Rightarrow> pyexn + rat list option" where
  "quotes_of k d [] = Inr (Some [])"
| "quotes_of k d (m # ms) = then_sum (quote m k d) (\<lambda>q. case q of None \<Rightarrow> Inr None
     | Some x \<Rightarrow> then_sum (quotes_of k d ms) (\<lambda>r. Inr (map_option ((#) x) r)))"

definition loaded :: "(string \<Rightarrow> json option) \<Rightarrow> json \<Rightarrow> json" where
  "loaded loads v = (case py_or v (JStr ''[]'') of JStr s \<Rightarrow> (case loads s of Some x \<Rightarrow> x | None \<Rightarrow> JList []) | _ \<Rightarrow> JList [])"

definition with_tokens :: "json list \<Rightarrow> cand \<Rightarrow> pm_cand" where
  "with_tokens ts c = cand.extend c \<lparr>cd_tokens = ts\<rparr>"

definition pm_event :: "(string \<Rightarrow> json option) \<Rightarrow> rat \<Rightarrow> json \<Rightarrow> pyexn + pm_cand list" where
  "pm_event loads min_gross e =
     then_sum (jget e ''negRisk'' JNull) (\<lambda>nr.
     if \<not> truthy nr then Inr []
     else then_sum (markets_of e) (\<lambda>ms0.
     then_sum (keep_markets pm_market_open ms0) (\<lambda>ms.
     if length ms < 2 then Inr []
     else then_sum (quotes_of ''bestAsk'' 9 ms) (\<lambda>asks. case asks of None \<Rightarrow> Inr [] | Some asks \<Rightarrow>
     then_sum (quotes_of ''bestBid'' 0 ms) (\<lambda>bids. case bids of None \<Rightarrow> Inr [] | Some bids \<Rightarrow>
         then_sum (jget e ''title'' (JStr [])) (\<lambda>title.
         then_sum (gets ''question'' JNull ms) (\<lambda>qs0.
         let qs = map (\<lambda>q. py_or q (JStr [])) qs0 in
         if list_ex (\<lambda>q. case q of JStr _ \<Rightarrow> False | _ \<Rightarrow> True) qs then Inl TypeError
         else then_sum (event_exhaustive title (map py_str qs)) (\<lambda>ex.
         then_sum (gets ''clobTokenIds'' JNull ms) (\<lambda>ids.
         then_sum (jget e ''slug'' JNull) (\<lambda>slug.
         then_sum (jget e ''id'' JNull) (\<lambda>eid.
         Inr (dutch_cands min_gross (JStr (''pm:'' @ py_str (py_or slug (py_or eid (JStr []))))) title ex
               (zip asks bids) (with_tokens (map (loaded loads) ids))))))))))))))"

fun pm_pages :: "fetch \<Rightarrow> (string \<Rightarrow> json option) \<Rightarrow> rat \<Rightarrow> nat \<Rightarrow> int \<Rightarrow> pyexn + pm_cand list" where
  "pm_pages fetch loads min_gross 0 offset = Inr []"
| "pm_pages fetch loads min_gross (Suc n) offset =
     (case fetch (GAMMA @ ''/events?closed=false&order=volume&ascending=false&limit=100&offset='' @ int_str offset) of
        Some (JList (e # es)) \<Rightarrow>
          then_sum (concat_events (pm_event loads min_gross) (e # es)) (\<lambda>cs.
          if length (e # es) < 100 then Inr cs
          else then_sum (pm_pages fetch loads min_gross n (offset + int (length (e # es)))) (\<lambda>r. Inr (cs @ r)))
      | _ \<Rightarrow> Inr [])"

definition pm_event_screens :: "fetch \<Rightarrow> (string \<Rightarrow> json option) \<Rightarrow> rat \<Rightarrow> nat \<Rightarrow> pyexn + pm_cand list" where
  "pm_event_screens fetch loads min_gross max_pages = pm_pages fetch loads min_gross max_pages 0"

text \<open>The two token ids of an outcome, \<open>None\<close> where there are not exactly two.\<close>

fun two_ids :: "json \<Rightarrow> pyexn + (string \<times> string) option" where
  "two_ids (JList xs) = Inr (case xs of [a, b] \<Rightarrow> Some (py_str a, py_str b) | _ \<Rightarrow> None)"
| "two_ids (JStr s) = Inr (case s of [a, b] \<Rightarrow> Some ([a], [b]) | _ \<Rightarrow> None)"
| "two_ids (JObj ob) = (if length ob = 2 then Inl KeyError else Inr None)"
| "two_ids _ = Inl TypeError"

fun pm_legs :: "fetch \<Rightarrow> json list \<Rightarrow> pyexn + (ladder \<times> ladder) list option" where
  "pm_legs fetch [] = Inr (Some [])"
| "pm_legs fetch (t # ts) =
     then_sum (two_ids t) (\<lambda>ids. case ids of None \<Rightarrow> Inr None
     | Some (y, n) \<Rightarrow>
         then_sum (pm_asks fetch y) (\<lambda>ya. then_sum (pm_asks fetch n) (\<lambda>na.
         then_sum (pm_legs fetch ts) (\<lambda>r. Inr (map_option ((#) (tag False ya, tag False na)) r)))))"

definition price_pm_dutch :: "fetch \<Rightarrow> pm_cand \<Rightarrow> int \<Rightarrow> pyexn + priced_cand option" where
  "price_pm_dutch fetch c bps =
     then_sum (pm_legs fetch (cd_tokens c)) (\<lambda>legs. case legs of
       None \<Rightarrow> Inr None
     | Some ls \<Rightarrow> Inr (price_legs (cand.truncate c) (map fst ls) (map snd ls) bps))"


section \<open>What the legs of an event pay\<close>

text \<open>What one contract of a leg pays when the event of the leg's ticker happens or not: the Kalshi
  contract of the wanted side, or the token of the paired Polymarket market.\<close>

definition contract_pays :: "pair option \<Rightarrow> bool \<Rightarrow> bool \<Rightarrow> bool \<Rightarrow> rat" where
  "contract_pays p want_yes is_kalshi A =
     (if is_kalshi then kalshi_pays (if want_yes then ''yes'' else ''no'') A
      else case p of None \<Rightarrow> 0 | Some q \<Rightarrow> token_pays q (case outcome_token q want_yes of Some t \<Rightarrow> t | None \<Rightarrow> []) A)"

text \<open>A level that a leg may hold: Polymarket levels come from a usable token of a certain pair.\<close>

definition sound_leg :: "pair option \<Rightarrow> bool \<Rightarrow> ladder \<Rightarrow> bool" where
  "sound_leg p want_yes leg \<longleftrightarrow> list_all (\<lambda>(pr, z, k). k \<or> (\<exists>q. p = Some q \<and> \<not> p_uncertain q \<and> is_set (outcome_token q want_yes))) leg"

definition distinct_tokens :: "(string \<times> pair) list \<Rightarrow> bool" where
  "distinct_tokens pairs \<longleftrightarrow> list_all (\<lambda>(t, q). yes_token q \<noteq> no_token q) pairs"

lemma tag_all [simp]: "list_all (\<lambda>(pr, z, k). P k) (tag b ls) \<longleftrightarrow> ls = [] \<or> P b"
  by (induction ls) (auto simp: tag_def)

lemma list_all_sort [simp]: "list_all P (sort xs) = list_all P xs"
  by (simp add: list_all_iff)

lemma merge_sound:
  assumes "tagged_asks fetch (pair_token (certain p) w) = Inr l'"
  shows "sound_leg p w (merge_in (tag True l) (pair_token (certain p) w) l')"
proof -
  have "sound_leg p w l'"
    using assms by (auto simp: tagged_asks_def sound_leg_def pair_token_def certain_def is_set_def
        split: if_splits sum.splits option.splits)
  moreover have "sound_leg p w (tag True l)" by (simp add: sound_leg_def)
  ultimately show ?thesis by (auto simp: merge_in_def sound_leg_def)
qed

lemma named_token:
  assumes "is_set (outcome_token q w)" and "yes_token q \<noteq> no_token q"
  shows "token_pays q (the (outcome_token q w)) A = of_bool (w = A)"
  using assms by (auto simp: outcome_token_def is_set_def token_pays_def yes_token_def no_token_def split: if_splits)

text \<open>Whichever venue a contract of a leg comes from, it pays on the leg's own side of the event.\<close>

lemma contract_pays_side:
  assumes "sound_leg p w leg" and "(pr, z, k) \<in> set leg" and "\<And>q. p = Some q \<Longrightarrow> yes_token q \<noteq> no_token q"
  shows "contract_pays p w k A = of_bool (w = A)"
proof (cases k)
  case True
  then show ?thesis by (cases w) (simp_all add: contract_pays_def kalshi_pays_def)
next
  case False
  then obtain q where q: "p = Some q" "is_set (outcome_token q w)"
    using assms(1,2) by (auto simp: sound_leg_def list_all_iff)
  then obtain t where t: "outcome_token q w = Some t" by (auto simp: is_set_def)
  with named_token [of q w A] q assms(3) False show ?thesis by (simp add: contract_pays_def)
qed

definition pair_of :: "(string \<times> pair) list \<Rightarrow> json \<Rightarrow> pair option" where
  "pair_of pairs tk = (case pair_for pairs tk of Inr p \<Rightarrow> p | Inl e \<Rightarrow> None)"

lemma pair_of_distinct:
  "distinct_tokens pairs \<Longrightarrow> pair_of pairs tk = Some q \<Longrightarrow> yes_token q \<noteq> no_token q"
  by (auto simp: distinct_tokens_def pair_of_def pair_for_def list_all_iff dest: map_of_SomeD split: json.splits)

lemma dutch_legs_sound:
  assumes "dutch_legs fetch pairs tks = Inr (Some ls)"
  shows "list_all2 (\<lambda>tk (y, n). sound_leg (pair_of pairs tk) True y \<and> sound_leg (pair_of pairs tk) False n) tks ls"
  using assms
proof (induction tks arbitrary: ls)
  case (Cons tk tks)
  from Cons.prems obtain kyes kno p ya na r where h: "pair_for pairs tk = Inr p"
    "tagged_asks fetch (pair_token (certain p) True) = Inr ya" "tagged_asks fetch (pair_token (certain p) False) = Inr na"
    "dutch_legs fetch pairs tks = Inr (Some r)"
    "ls = (merge_in (tag True kyes) (pair_token (certain p) True) ya, merge_in (tag True kno) (pair_token (certain p) False) na) # r"
    by (auto simp: Let_def split: sum.splits prod.splits if_splits)
  from h(1) have "pair_of pairs tk = p" by (simp add: pair_of_def)
  with h(2,3,5) Cons.IH [OF h(4)] show ?case by (simp add: merge_sound)
qed simp

text \<open>The payoff of one contract from each leg, the \<open>i\<close>-th from the level \<open>lv i\<close>, in the world \<open>A\<close>.\<close>

definition basket_pays :: "(string \<times> pair) list \<Rightarrow> bool \<Rightarrow> json list \<Rightarrow> level list \<Rightarrow> (json \<Rightarrow> bool) \<Rightarrow> rat" where
  "basket_pays pairs w tks lvs A = sum_list (map2 (\<lambda>tk (p, z, k). contract_pays (pair_of pairs tk) w k (A tk)) tks lvs)"

definition happening :: "(json \<Rightarrow> bool) \<Rightarrow> json list \<Rightarrow> nat" where
  "happening A tks = length (filter A tks)"

lemma basket_pays_count:
  assumes "list_all2 (\<lambda>tk leg. sound_leg (pair_of pairs tk) w leg) tks legs" and "distinct_tokens pairs"
    and "list_all2 (\<lambda>lv leg. lv \<in> set leg) lvs legs"
  shows "basket_pays pairs w tks lvs A = (if w then of_nat (happening A tks) else of_nat (length tks) - of_nat (happening A tks))"
  using assms
proof (induction tks arbitrary: legs lvs)
  case (Cons tk tks)
  then obtain leg legs' p z k lvs' where e: "legs = leg # legs'" "lvs = (p, z, k) # lvs'" "(p, z, k) \<in> set leg"
    "list_all2 (\<lambda>lv leg. lv \<in> set leg) lvs' legs'" "sound_leg (pair_of pairs tk) w leg"
    "list_all2 (\<lambda>tk leg. sound_leg (pair_of pairs tk) w leg) tks legs'"
    by (auto simp: list_all2_Cons1 list_all2_Cons2)
  have "contract_pays (pair_of pairs tk) w k (A tk) = of_bool (w = A tk)"
    using contract_pays_side [OF e(5,3)] pair_of_distinct [OF Cons.prems(2)] by blast
  with Cons.IH [OF e(6) Cons.prems(2) e(4)] show ?case
    by (auto simp: e basket_pays_def happening_def)
qed (auto simp: basket_pays_def happening_def)

lemma price_legs_cases:
  assumes "price_legs c ys ns bps = Some r"
  shows "if cd_kind c = ''dutch_yes'' then walk_basket ys bps 1 = Some (Some (pc_walk r))
    else walk_basket ns bps (fsub (fl (of_nat (length ns))) 1) = Some (Some (pc_walk r))"
  using assms by (auto simp: price_legs_def split: option.splits if_splits)


text \<open>What a leg of the side \<open>w\<close> must offer, in order of price: of the Kalshi book every resting bid for
  the other side, at one minus its price; and, where the ticker has a certain pair with a token for
  the side, every ask of a token that pays on this side of the event. Nothing else.\<close>

definition leg_offers :: "fetch \<Rightarrow> (string \<times> pair) list \<Rightarrow> bool \<Rightarrow> json \<Rightarrow> ladder \<Rightarrow> bool" where
  "leg_offers fetch pairs w tk leg =
     (\<exists>fp bids asks.
        reply_get (fetch (KBASE @ ''/markets/'' @ py_str tk @ ''/orderbook?depth=100'')) ''orderbook_fp'' = Inr fp \<and>
        levels_field (py_or fp (JObj [])) (if w then ''no_dollars'' else ''yes_dollars'') = Inr bids \<and>
        (if \<exists>q. pair_for pairs tk = Inr (Some q) \<and> \<not> p_uncertain q \<and> is_set (outcome_token q w)
         then \<exists>q t. pair_for pairs tk = Inr (Some q) \<and> \<not> p_uncertain q \<and> pm_asks fetch t = Inr asks \<and>
           (\<forall>A. token_pays q t A = of_bool (w = A))
         else asks = []) \<and>
        mset leg = mset (map (\<lambda>(p, z). (fsub 1 p, z, True)) bids) + mset (map (\<lambda>(p, z). (p, z, False)) asks) \<and>
        sorted leg)"

lemma tag_sorted: "sorted xs \<Longrightarrow> sorted (tag b xs)"
  unfolding tag_def sorted_map by (erule sorted_wrt_mono_rel [rotated]) (auto simp: less_eq_prod_simp)

lemma merge_offers:
  assumes "kalshi_book fetch (py_str tk) = Inr (kyes, kno)" and "pair_for pairs tk = Inr p"
    and "tagged_asks fetch (pair_token (certain p) w) = Inr a" and "distinct_tokens pairs"
  shows "leg_offers fetch pairs w tk (merge_in (tag True (if w then kyes else kno)) (pair_token (certain p) w) a)"
proof -
  let ?leg = "merge_in (tag True (if w then kyes else kno)) (pair_token (certain p) w) a"
  obtain fp bids where k: "reply_get (fetch (KBASE @ ''/markets/'' @ py_str tk @ ''/orderbook?depth=100'')) ''orderbook_fp'' = Inr fp"
    "levels_field (py_or fp (JObj [])) (if w then ''no_dollars'' else ''yes_dollars'') = Inr bids"
    "(if w then kyes else kno) = flip_levels bids"
    using assms(1) by (cases w) (auto simp: kalshi_book_def Let_def split: sum.splits)
  let ?t = "pair_token (certain p) w"
  have kal: "tag True (flip_levels bids) = sort (map (\<lambda>(p, z). (fsub 1 p, z, True)) bids)"
  proof (rule properties_for_sort [symmetric])
    show "sorted (tag True (flip_levels bids))" by (rule tag_sorted) (simp add: flip_levels_def)
    show "mset (tag True (flip_levels bids)) = mset (map (\<lambda>(p, z). (fsub 1 p, z, True)) bids)"
      by (auto simp: tag_def flip_levels_def multiset.map_comp intro!: image_mset_cong)
  qed
  show ?thesis
  proof (cases "is_set ?t")
    case True
    then obtain q where q: "p = Some q" "\<not> p_uncertain q" "is_set (outcome_token q w)" "?t = outcome_token q w"
      by (auto simp: pair_token_def certain_def is_set_def split: option.splits if_splits)
    obtain asks where as: "pm_asks fetch (the (outcome_token q w)) = Inr asks" "a = tag False asks"
      using assms(3) q by (auto simp: tagged_asks_def split: sum.splits)
    have "yes_token q \<noteq> no_token q" using pair_of_distinct [OF assms(4), of tk q] assms(2) q(1) by (simp add: pair_of_def)
    note pays = named_token [OF q(3) this]
    have m: "mset ?leg = mset (map (\<lambda>(p, z). (fsub 1 p, z, True)) bids) + mset (map (\<lambda>(p, z). (p, z, False)) asks)"
      using True by (simp add: merge_in_def k(3) kal as(2)) (simp add: tag_def)
    have "sorted ?leg" using True by (simp add: merge_in_def)
    then show ?thesis unfolding leg_offers_def
      using k(1,2) m assms(2) q(1,2,3) as(1) pays by (intro exI [of _ fp] exI [of _ bids] exI [of _ asks]) auto
  next
    case False
    then have none: "\<not> (\<exists>q. pair_for pairs tk = Inr (Some q) \<and> \<not> p_uncertain q \<and> is_set (outcome_token q w))"
      using assms(2) by (auto simp: pair_token_def certain_def)
    have "?leg = sort (map (\<lambda>(p, z). (fsub 1 p, z, True)) bids)" using False by (simp add: merge_in_def k(3) kal)
    then have "sorted ?leg" "mset ?leg = mset (map (\<lambda>(p, z). (fsub 1 p, z, True)) bids)" by simp_all
    then show ?thesis unfolding leg_offers_def
      using k(1,2) none by (intro exI [of _ fp] exI [of _ bids] exI [of _ "[]"]) auto
  qed
qed

lemma dutch_legs_offers:
  assumes "dutch_legs fetch pairs tks = Inr (Some ls)" and "distinct_tokens pairs"
  shows "list_all2 (\<lambda>tk (y, n). leg_offers fetch pairs True tk y \<and> leg_offers fetch pairs False tk n) tks ls"
  using assms
proof (induction tks arbitrary: ls)
  case (Cons tk tks)
  from Cons.prems(1) obtain kyes kno p ya na rs where h: "kalshi_book fetch (py_str tk) = Inr (kyes, kno)" "pair_for pairs tk = Inr p"
    "tagged_asks fetch (pair_token (certain p) True) = Inr ya" "tagged_asks fetch (pair_token (certain p) False) = Inr na"
    "dutch_legs fetch pairs tks = Inr (Some rs)"
    "ls = (merge_in (tag True kyes) (pair_token (certain p) True) ya, merge_in (tag True kno) (pair_token (certain p) False) na) # rs"
    by (auto simp: Let_def split: sum.splits prod.splits if_splits)
  show ?case
    using merge_offers [OF h(1,2,3) Cons.prems(2)] merge_offers [OF h(1,2,4) Cons.prems(2)] Cons.IH [OF h(5) Cons.prems(2)] h(6)
    by simp
qed simp

section \<open>Properties of the dutch screens\<close>

lemma priced_dutch:
  assumes "price_kalshi_dutch fetch c pairs bps = Inr (Some r)"
  shows "\<exists>ls. dutch_legs fetch pairs (cd_tickers c) = Inr (Some ls) \<and>
    price_legs (cand.truncate c) (map fst ls) (map snd ls) bps = Some r"
  using assms by (auto simp: price_kalshi_dutch_def split: sum.splits option.splits)

lemma priced_positive: "walk_basket legs bps payout = Some (Some r) \<Longrightarrow> 0 < bk_size r \<and> 0 < bk_net r"
  by (auto simp: walk_basket_def basket_result_def Let_def split: if_splits)

lemma price_legs_uncertain:
  "price_legs c ys ns bps = Some r \<Longrightarrow> pc_uncertain r = (cd_kind c = ''dutch_yes'' \<and> \<not> cd_exhaustive c)"
  by (auto simp: price_legs_def split: option.splits)

lemma truncate_kind [simp]: "cd_kind (cand.truncate c) = cd_kind c"
  by (simp add: cand.truncate_def)

text \<open>C30. A priced event pays in every world: its legs are, ticker by ticker, all the offers of the wanted
  side on both venues (Kalshi bids for the other side, asks of the token of a certain pair that pays
  on this side), and whichever level the contract of a leg comes from, one contract of each leg pays
  at least what the walk was priced with: a dollar for the YES basket, where exactly one outcome of
  the event happens, and a dollar less than there are outcomes for the NO basket, where at most one
  does. (For pairs whose two tokens differ, and as many legs as a float can count.)\<close>
theorem dutch_pays_in_every_world:
  assumes "price_kalshi_dutch fetch c pairs bps = Inr (Some r)" and "distinct_tokens pairs"
    and "if cd_kind c = ''dutch_yes'' then happening A (cd_tickers c) = 1 else happening A (cd_tickers c) \<le> 1"
    and "length (cd_tickers c) \<le> 9007199254740992"
  shows "\<exists>legs. list_all2 (leg_offers fetch pairs (cd_kind c = ''dutch_yes'')) (cd_tickers c) legs \<and>
    (let payout = (if cd_kind c = ''dutch_yes'' then 1 else of_nat (length (cd_tickers c)) - 1)
     in walk_basket legs bps payout = Some (Some (pc_walk r)) \<and> 0 < bk_net (pc_walk r) \<and>
        (\<forall>lvs. list_all2 (\<lambda>lv leg. lv \<in> set leg) lvs legs \<longrightarrow>
          payout \<le> basket_pays pairs (cd_kind c = ''dutch_yes'') (cd_tickers c) lvs A))"
proof -
  let ?tks = "cd_tickers c"
  obtain ls where ls: "dutch_legs fetch pairs ?tks = Inr (Some ls)"
    and r: "price_legs (cand.truncate c) (map fst ls) (map snd ls) bps = Some r"
    using priced_dutch [OF assms(1)] by blast
  have sound: "list_all2 (\<lambda>tk leg. sound_leg (pair_of pairs tk) True leg) ?tks (map fst ls)"
    "list_all2 (\<lambda>tk leg. sound_leg (pair_of pairs tk) False leg) ?tks (map snd ls)"
    using dutch_legs_sound [OF ls] by (auto simp: list_all2_map2 elim!: list_all2_mono)
  have offers: "list_all2 (leg_offers fetch pairs True) ?tks (map fst ls)" "list_all2 (leg_offers fetch pairs False) ?tks (map snd ls)"
    using dutch_legs_offers [OF ls assms(2)] by (auto simp: list_all2_map2 elim!: list_all2_mono)
  have len: "length ls = length ?tks" using sound(1) by (metis length_map list_all2_lengthD)
  show ?thesis
  proof (cases "cd_kind c = ''dutch_yes''")
    case True
    then have w: "walk_basket (map fst ls) bps 1 = Some (Some (pc_walk r))" using price_legs_cases [OF r] by simp
    have "1 \<le> basket_pays pairs True ?tks lvs A" if "list_all2 (\<lambda>lv leg. lv \<in> set leg) lvs (map fst ls)" for lvs
      using basket_pays_count [OF sound(1) assms(2) that, of A] assms(3) True by simp
    then show ?thesis using w offers(1) True priced_positive [OF w] by (intro exI [of _ "map fst ls"]) simp
  next
    case False
    then have w: "walk_basket (map snd ls) bps (fsub (fl (of_nat (length ls))) 1) = Some (Some (pc_walk r))"
      using price_legs_cases [OF r] by simp
    have ne: "ls \<noteq> []" using w by (auto simp: walk_basket_def)
    have "fl (of_nat (length ls)) = of_nat (length ls)" using assms(4) len by (intro fl_nat) simp
    moreover have "(of_nat (length ls) :: rat) - 1 = of_nat (length ls - 1)"
      using ne by (cases "length ls") simp_all
    moreover have "fl (of_nat (length ls - 1)) = of_nat (length ls - 1)" using assms(4) len by (intro fl_nat) simp
    ultimately have pay: "fsub (fl (of_nat (length ls))) 1 = of_nat (length ?tks) - 1" by (simp only: fsub_def len)
    have "of_nat (length ?tks) - 1 \<le> basket_pays pairs False ?tks lvs A"
      if "list_all2 (\<lambda>lv leg. lv \<in> set leg) lvs (map snd ls)" for lvs
      using basket_pays_count [OF sound(2) assms(2) that, of A] assms(3) False by simp
    then show ?thesis using w [unfolded pay] offers(2) False priced_positive [OF w]
      by (intro exI [of _ "map snd ls"]) simp
  qed
qed

definition duel_fetch :: fetch where
  "duel_fetch url = Some (JObj [(''orderbook_fp'', JObj [(''no_dollars'', JList [JList [JNum (1 / 2), JInt 100]])]),
     (''asks'', JList [JObj [(''price'', JNum (1 / 4)), (''size'', JInt 10)]])])"

definition duel :: kalshi_cand where
  "duel = with_tickers [JStr ''KA'', JStr ''KB'']
     \<lparr>cd_ev = JStr ''K'', cd_kind = ''dutch_no'', cd_gross = 1 / 4, cd_n = 2, cd_exhaustive = False, cd_title = JStr ''Duel''\<rparr>"

lemma duel_legs: "dutch_legs duel_fetch [(''KA'', demo_pair), (''KB'', demo_pair)] [JStr ''KA'', JStr ''KB''] =
  Inr (Some (replicate 2 ([(1 / 4, 10, False), (1 / 2, 100, True)], [(1 / 4, 10, False)])))"
  by code_simp

lemma duel_walk: "\<exists>b. walk_basket [[(1 / 4, 10, False)], [(1 / 4, 10, False)]] 0 1 = Some (Some b)"
proof -
  have "case walk_basket [[(1 / 4, 10, False)], [(1 / 4, 10, False)]] 0 1 of Some (Some r) \<Rightarrow> True | _ \<Rightarrow> False" by code_simp
  then show ?thesis by (auto split: option.splits)
qed

lemma duel_priced: "\<exists>r. price_kalshi_dutch duel_fetch duel [(''KA'', demo_pair), (''KB'', demo_pair)] 0 = Inr (Some r)"
proof -
  have f: "fsub (fl 2) 1 = 1" by code_simp
  have d: "cd_tickers duel = [JStr ''KA'', JStr ''KB'']" "cd_kind duel = ''dutch_no''"
    by (simp_all add: duel_def with_tickers_def cand.defs)
  have "\<exists>r. price_legs (cand.truncate duel) ls [[(1 / 4, 10, False)], [(1 / 4, 10, False)]] 0 = Some r" for ls
    using duel_walk by (auto simp: price_legs_def d f)
  then show ?thesis by (simp only: price_kalshi_dutch_def d duel_legs) (simp add: numeral_2_eq_2)
qed

theorem dutch_pays_in_every_world_witness:
  "\<exists>r. price_kalshi_dutch duel_fetch duel [(''KA'', demo_pair), (''KB'', demo_pair)] 0 = Inr (Some r) \<and> 0 < bk_net (pc_walk r)"
proof -
  obtain r where r: "price_kalshi_dutch duel_fetch duel [(''KA'', demo_pair), (''KB'', demo_pair)] 0 = Inr (Some r)"
    using duel_priced by blast
  have d: "distinct_tokens [(''KA'', demo_pair), (''KB'', demo_pair)]" by code_simp
  have k: "if cd_kind duel = ''dutch_yes'' then happening (\<lambda>t. t = JStr ''KA'') (cd_tickers duel) = 1
      else happening (\<lambda>t. t = JStr ''KA'') (cd_tickers duel) \<le> 1"
    "length (cd_tickers duel) \<le> 9007199254740992"
    by (simp_all add: duel_def with_tickers_def cand.defs happening_def)
  from dutch_pays_in_every_world [OF r d k] r show ?thesis by (auto simp: Let_def)
qed

section \<open>Properties of the screens\<close>

lemma fsum_from: "is_float b \<Longrightarrow> 0 \<le> b \<Longrightarrow> \<forall>x \<in> set xs. 0 \<le> x \<Longrightarrow> b \<le> fold (\<lambda>x acc. fadd acc x) xs b"
proof (induction xs arbitrary: b)
  case (Cons x xs)
  have "b \<le> fadd b x" unfolding fadd_def using Cons.prems by (intro fl_ge) auto
  moreover have "fadd b x \<le> fold (\<lambda>x acc. fadd acc x) xs (fadd b x)"
    using Cons.prems by (intro Cons.IH) (auto simp: fadd_nonneg)
  ultimately show ?case by simp
qed simp

lemma fsum_above:
  assumes "\<forall>x \<in> set xs. 0 \<le> x" and "a \<in> set xs" and "is_float a"
  shows "a \<le> fsum xs"
proof -
  have "a \<le> fold (\<lambda>x acc. fadd acc x) xs b" if "is_float b" "0 \<le> b" for b
    using assms that
  proof (induction xs arbitrary: b)
    case (Cons x xs)
    have nn: "0 \<le> fadd b x" using Cons.prems by (simp add: fadd_nonneg)
    show ?case
    proof (cases "a = x")
      case True
      have "a \<le> fadd b x" unfolding fadd_def True using Cons.prems True by (intro fl_ge) auto
      also have "... \<le> fold (\<lambda>x acc. fadd acc x) xs (fadd b x)" using Cons.prems nn by (intro fsum_from) auto
      finally show ?thesis by simp
    next
      case False
      then show ?thesis using Cons.IH [of "fadd b x"] Cons.prems nn by simp
    qed
  qed simp
  then show ?thesis by (simp add: fsum_def)
qed

lemma concat_events_from:
  "concat_events f es = Inr cs \<Longrightarrow> c \<in> set cs \<Longrightarrow> \<exists>e \<in> set es. \<exists>cs'. f e = Inr cs' \<and> c \<in> set cs'"
  by (induction es arbitrary: cs) (auto split: sum.splits)

lemma dutch_cands_from:
  assumes "c \<in> set (dutch_cands mg ev title ex qs (with_tickers ts))"
  shows "cd_tickers c = ts \<and> cd_n c = length qs \<and> cd_exhaustive c = ex \<and>
    (if cd_kind c = ''dutch_yes'' then ex \<and> fsum (map fst qs) < fsub 1 mg \<and> cd_gross c = fsub 1 (fsum (map fst qs))
     else cd_kind c = ''dutch_no'' \<and> fadd 1 mg < fsum (map snd qs) \<and> cd_gross c = fsub (fsum (map snd qs)) 1)"
  using assms by (auto simp: dutch_cands_def Let_def with_tickers_def cand.defs split: if_splits)

definition quoted :: "json \<Rightarrow> rat \<times> rat \<Rightarrow> bool" where
  "quoted m q \<longleftrightarrow> (\<exists>a b. quote m ''yes_ask_dollars'' 0 = Inr (Some a) \<and> quote m ''yes_bid_dollars'' 0 = Inr (Some b) \<and>
     q = (if a \<le> 0 then 9 else a, b))"

lemma top_quotes_quoted: "top_quotes ms = Inr (Some qs) \<Longrightarrow> list_all2 quoted ms qs"
  by (induction ms arbitrary: qs) (fastforce simp: quoted_def split: sum.splits option.splits)+

lemma all_offered:
  assumes "list_all2 quoted ms qs" and "fsum (map fst qs) < 9" and "m \<in> set ms"
  shows "\<exists>a. quote m ''yes_ask_dollars'' 0 = Inr (Some a) \<and> 0 < a"
proof -
  obtain q where q: "q \<in> set qs" "quoted m q" using assms(1,3) by (metis in_set_conv_nth list_all2_conv_all_nth)
  have nonneg: "0 \<le> fst q" if "quoted m q" for m q using that by (auto simp: quoted_def)
  have "\<forall>q \<in> set qs. \<exists>m. quoted m q" using assms(1) by (metis in_set_conv_nth list_all2_conv_all_nth)
  then have "\<forall>x \<in> set (map fst qs). 0 \<le> x" using nonneg by auto
  then have "fst q \<noteq> 9" using fsum_above [of "map fst qs" 9] q(1) assms(2) by (force simp: fl_simps)
  then show ?thesis using q(2) by (auto simp: quoted_def split: if_splits)
qed

lemma keep_markets_filter: "keep_markets f ms0 = Inr ms \<Longrightarrow> ms = filter (\<lambda>m. f m = Inr True) ms0"
  by (induction ms0 arbitrary: ms) (auto split: sum.splits if_splits)

lemma gets_all: "gets k d ms = Inr vs \<Longrightarrow> list_all2 (\<lambda>m v. jget m k d = Inr v) ms vs"
  by (induction ms arbitrary: vs) (auto split: sum.splits)

text \<open>The text of an outcome, by which the screen judges whether an event is exhaustive.\<close>

definition named :: "json \<Rightarrow> string \<Rightarrow> bool" where
  "named m t \<longleftrightarrow> (\<exists>a b. jget m ''title'' (JStr []) = Inr a \<and> jget m ''yes_sub_title'' (JStr []) = Inr b \<and>
     t = py_str a @ '' '' @ py_str b)"

lemma outcome_texts_named: "outcome_texts ms = Inr ts \<Longrightarrow> list_all2 named ms ts"
  unfolding outcome_texts_def named_def
  by (auto simp: list_all2_conv_all_nth dest!: gets_all split: sum.splits)

text \<open>What the screen promises of a candidate \<open>c\<close> of the event \<open>e\<close>, whose open markets are \<open>ms\<close>.\<close>

definition screened :: "rat \<Rightarrow> json \<Rightarrow> json list \<Rightarrow> kalshi_cand \<Rightarrow> bool" where
  "screened mg e ms c \<longleftrightarrow>
     truthy (get (obj_of e) ''mutually_exclusive'') \<and>
     (\<exists>ms0. py_iter (py_or (get (obj_of e) ''markets'') (JList [])) = Inr ms0 \<and> ms = filter (\<lambda>m. open_market m = Inr True) ms0) \<and>
     2 \<le> length ms \<and> cd_n c = length ms \<and> list_all2 (\<lambda>m t. jget m ''ticker'' JNull = Inr t) ms (cd_tickers c) \<and>
     (\<exists>title texts. jget e ''title'' (JStr []) = Inr title \<and> list_all2 named ms texts \<and>
        event_exhaustive title texts = Inr (cd_exhaustive c)) \<and>
     (\<exists>qs. list_all2 quoted ms qs \<and>
        (if cd_kind c = ''dutch_yes''
         then cd_exhaustive c \<and> fsum (map fst qs) < fsub 1 mg \<and> cd_gross c = fsub 1 (fsum (map fst qs))
         else cd_kind c = ''dutch_no'' \<and> fadd 1 mg < fsum (map snd qs) \<and> cd_gross c = fsub (fsum (map snd qs)) 1))"

lemma kalshi_event_from:
  assumes "kalshi_event mg e = Inr cs" and "c \<in> set cs"
  shows "\<exists>ms. screened mg e ms c"
proof -
  obtain ms0 ms qs tickers ex ev title texts where h: "truthy (get (obj_of e) ''mutually_exclusive'')" "\<not> length ms < 2"
    "markets_of e = Inr ms0" "keep_markets open_market ms0 = Inr ms"
    "top_quotes ms = Inr (Some qs)" "gets ''ticker'' JNull ms = Inr tickers"
    "jget e ''title'' (JStr []) = Inr title" "outcome_texts ms = Inr texts" "event_exhaustive title texts = Inr ex"
    "cs = dutch_cands mg ev title ex qs (with_tickers tickers)"
    using assms unfolding kalshi_event_def jget_def [of e "''mutually_exclusive''"]
    by (simp split: sum.splits option.splits if_splits) blast+
  note c = dutch_cands_from [OF assms(2) [unfolded h(10)]]
  note q = top_quotes_quoted [OF h(5)]
  have m: "py_iter (py_or (get (obj_of e) ''markets'') (JList [])) = Inr ms0"
    using h(3) by (auto simp: markets_of_def jget_def split: sum.splits if_splits json.splits option.splits)
  have "\<exists>title texts. jget e ''title'' (JStr []) = Inr title \<and> list_all2 named ms texts \<and> event_exhaustive title texts = Inr (cd_exhaustive c)"
    using h(7,9) outcome_texts_named [OF h(8)] c by metis
  moreover have "list_all2 (\<lambda>m t. jget m ''ticker'' JNull = Inr t) ms (cd_tickers c)" using gets_all [OF h(6)] c by simp
  moreover have "cd_n c = length ms" using c list_all2_lengthD [OF q] by simp
  moreover have "\<exists>qs. list_all2 quoted ms qs \<and>
      (if cd_kind c = ''dutch_yes''
       then cd_exhaustive c \<and> fsum (map fst qs) < fsub 1 mg \<and> cd_gross c = fsub 1 (fsum (map fst qs))
       else cd_kind c = ''dutch_no'' \<and> fadd 1 mg < fsum (map snd qs) \<and> cd_gross c = fsub (fsum (map snd qs)) 1)"
    using q c by (intro exI [of _ qs]) auto
  ultimately show ?thesis
    unfolding screened_def using h(1,2) m keep_markets_filter [OF h(4)] by (intro exI [of _ ms]) (simp add: not_less)
qed

text \<open>C31. The screen of the Kalshi feed is sound: a candidate is an event whose outcomes exclude each other,
  its tickers those of all the open markets of the event, at least two, in order, and it is called
  exhaustive exactly when the words of the event and of these outcomes say so. It is offered for its
  YES side only where the event is held to be exhaustive and every one of these outcomes is offered
  at a positive price, the asks adding up to less than a dollar less the margin; for its NO side where
  the bids exceed a dollar and the margin; its gross edge is what is left of (or over) the dollar.\<close>
theorem dutch_screen_sound:
  assumes "kalshi_event_screens events mg = Inr cs" and "c \<in> set cs" and "0 \<le> mg"
  shows "\<exists>e \<in> set events. \<exists>ms. screened mg e ms c \<and>
    (cd_kind c = ''dutch_yes'' \<longrightarrow> (\<forall>m \<in> set ms. \<exists>a. quote m ''yes_ask_dollars'' 0 = Inr (Some a) \<and> 0 < a))"
proof -
  obtain e cs' where e: "e \<in> set events" "kalshi_event mg e = Inr cs'" "c \<in> set cs'"
    using concat_events_from assms(1,2) unfolding kalshi_event_screens_def by metis
  obtain ms where ms: "screened mg e ms c" using kalshi_event_from [OF e(2,3)] by blast
  have "fsub 1 mg \<le> 1" unfolding fsub_def using assms(3) by (intro fl_le) auto
  then have less: "x < fsub 1 mg \<Longrightarrow> x < 9" for x by simp
  obtain qs where qs: "list_all2 quoted ms qs" "cd_kind c = ''dutch_yes'' \<Longrightarrow> fsum (map fst qs) < fsub 1 mg"
    using ms unfolding screened_def by (auto split: if_splits)
  have "\<exists>a. quote m ''yes_ask_dollars'' 0 = Inr (Some a) \<and> 0 < a" if "cd_kind c = ''dutch_yes''" "m \<in> set ms" for m
    using all_offered [OF qs(1) less [OF qs(2) [OF that(1)]] that(2)] .
  then show ?thesis using e(1) ms by blast
qed

text \<open>A feed with the event of the example: two outcomes, bid at 3/4 and at 1/2.\<close>

definition duel_market :: "string \<Rightarrow> rat \<Rightarrow> json" where
  "duel_market tk bid = JObj [(''ticker'', JStr tk), (''yes_ask_dollars'', JNum (7 / 8)), (''yes_bid_dollars'', JNum bid)]"

definition duel_event :: json where
  "duel_event = JObj [(''mutually_exclusive'', JBool True), (''event_ticker'', JStr ''K''), (''title'', JStr ''Duel''),
     (''markets'', JList [duel_market ''KA'' (3 / 4), duel_market ''KB'' (1 / 2)])]"

lemma duel_screened: "kalshi_event_screens [duel_event] (1 / 64) = Inr [duel]"
  by code_simp

theorem dutch_screen_sound_witness:
  "\<exists>ms. screened (1 / 64) duel_event ms duel \<and> 2 \<le> length ms"
proof -
  obtain ms where ms: "screened (1 / 64) duel_event ms duel"
    using dutch_screen_sound [OF duel_screened, of duel] by auto
  moreover from ms have "2 \<le> length ms" unfolding screened_def by blast
  ultimately show ?thesis by blast
qed

text \<open>A basket of YES contracts is never marked for review: every candidate of the screen that buys YES is
  held to be exhaustive, so its priced result is certain, although exhaustiveness is a guess from
  words and such results are documented to go to review.\<close>
theorem yes_dutch_never_reviewed:
  assumes "kalshi_event_screens events mg = Inr cs" and "c \<in> set cs"
    and "price_kalshi_dutch fetch c pairs bps = Inr (Some r)"
  shows "\<not> pc_uncertain r"
proof -
  obtain e cs' where "kalshi_event mg e = Inr cs'" "c \<in> set cs'"
    using concat_events_from assms(1,2) unfolding kalshi_event_screens_def by metis
  from kalshi_event_from [OF this] have "cd_kind c = ''dutch_yes'' \<Longrightarrow> cd_exhaustive c" by (auto simp: screened_def)
  moreover have "cd_exhaustive (cand.truncate c) = cd_exhaustive c" by (simp add: cand.truncate_def)
  ultimately show ?thesis using priced_dutch [OF assms(3)] price_legs_uncertain by fastforce
qed

theorem yes_dutch_never_reviewed_witness:
  "\<exists>r. price_kalshi_dutch duel_fetch duel [(''KA'', demo_pair), (''KB'', demo_pair)] 0 = Inr (Some r) \<and> \<not> pc_uncertain r"
  using duel_priced yes_dutch_never_reviewed [OF duel_screened, of duel] by auto

definition one_sided_event :: json where
  "one_sided_event = JObj [(''mutually_exclusive'', JBool True), (''event_ticker'', JStr ''C''), (''title'', JStr ''CPI''),
     (''markets'', JList (map (\<lambda>(t, sub). JObj [(''ticker'', JStr t), (''yes_sub_title'', JStr sub),
        (''yes_ask_dollars'', JNum (1 / 4)), (''yes_bid_dollars'', JNum (1 / 8))])
        [(''C3'', ''3 to 4''), (''C4'', ''4 or above'')]))]"

text \<open>Ranges that leave a gap pass for exhaustive: a single \<open>or above\<close> is enough, so the ranges from 3
  to 4 and from 4 up are offered as a basket of YES contracts at half a dollar, and where the value
  comes out below 3 no contract of the basket pays anything.\<close>
theorem one_sided_ranges_exhaustive:
  "(\<exists>c. kalshi_event_screens [one_sided_event] (1 / 64) = Inr [c] \<and> cd_kind c = ''dutch_yes'' \<and> cd_gross c = 1 / 2 \<and>
      cd_tickers c = [JStr ''C3'', JStr ''C4'']) \<and>
   basket_pays [] True [JStr ''C3'', JStr ''C4''] [(p, z, True), (p', z', True)] (\<lambda>tk. False) = 0"
proof
  have "case kalshi_event_screens [one_sided_event] (1 / 64) of
      Inr [c] \<Rightarrow> cd_kind c = ''dutch_yes'' \<and> cd_gross c = 1 / 2 \<and> cd_tickers c = [JStr ''C3'', JStr ''C4'']
    | _ \<Rightarrow> False" by code_simp
  then show "\<exists>c. kalshi_event_screens [one_sided_event] (1 / 64) = Inr [c] \<and> cd_kind c = ''dutch_yes'' \<and>
      cd_gross c = 1 / 2 \<and> cd_tickers c = [JStr ''C3'', JStr ''C4'']"
    by (auto split: sum.splits list.splits)
qed (simp add: basket_pays_def contract_pays_def kalshi_pays_def)

section \<open>Properties of the ladder screen\<close>

definition admissible :: "rung \<Rightarrow> rung \<Rightarrow> bool" where
  "admissible lo hi \<longleftrightarrow> rg_thr lo < rg_thr hi \<and> 0 < rg_ask lo \<and> 0 < rg_bid hi"

definition violation :: "rung \<Rightarrow> rung \<Rightarrow> rat" where
  "violation lo hi = fsub (rg_bid hi) (rg_ask lo)"

definition cand_of :: "ladder_cand \<Rightarrow> rung \<Rightarrow> rung \<Rightarrow> bool" where
  "cand_of c lo hi \<longleftrightarrow> cd_gross c = violation lo hi \<and> cd_buy_yes c = rg_ticker lo \<and> cd_buy_no c = rg_ticker hi"

definition tops :: "rat \<Rightarrow> (rung \<times> rung) set \<Rightarrow> ladder_cand option \<Rightarrow> bool" where
  "tops mg V bst \<longleftrightarrow> (case bst of None \<Rightarrow> \<forall>(lo, hi) \<in> V. admissible lo hi \<longrightarrow> violation lo hi \<le> mg
     | Some c \<Rightarrow> mg < cd_gross c \<and> (\<exists>(lo, hi) \<in> V. admissible lo hi \<and> cand_of c lo hi) \<and>
         (\<forall>(lo, hi) \<in> V. admissible lo hi \<longrightarrow> violation lo hi \<le> cd_gross c))"

lemma better_tops: "tops mg V bst \<Longrightarrow> tops mg (insert (lo, hi) V) (better_rungs mg ev title lo hi bst)"
  by (cases bst) (auto simp: tops_def better_rungs_def admissible_def violation_def cand_of_def Let_def split: if_splits)

lemma fold_tops: "tops mg V bst \<Longrightarrow> tops mg (V \<union> {lo} \<times> set rs) (fold (better_rungs mg ev title lo) rs bst)"
proof (induction rs arbitrary: V bst)
  case (Cons r rs)
  have "insert (lo, r) V \<union> {lo} \<times> set rs = V \<union> {lo} \<times> set (r # rs)" by auto
  with Cons.IH [OF better_tops [OF Cons.prems, of lo r ev title]] show ?case by simp
qed simp

fun ordered_pairs :: "'a list \<Rightarrow> ('a \<times> 'a) set" where
  "ordered_pairs [] = {}"
| "ordered_pairs (x # xs) = {x} \<times> set xs \<union> ordered_pairs xs"

lemma rung_pairs_tops: "tops mg V bst \<Longrightarrow> tops mg (V \<union> ordered_pairs rs) (rung_pairs mg ev title rs bst)"
proof (induction rs arbitrary: V bst)
  case (Cons r rs)
  from Cons.IH [OF fold_tops [OF Cons.prems, of r rs ev title]] show ?case by (simp add: Un_assoc)
qed simp

abbreviation by_threshold :: "rung list \<Rightarrow> bool" where
  "by_threshold \<equiv> sorted_wrt (\<lambda>r s. rg_thr r \<le> rg_thr s)"

lemma rung_le_thr: "rung_le r s \<Longrightarrow> rg_thr r \<le> rg_thr s" "\<not> rung_le r s \<Longrightarrow> rg_thr s \<le> rg_thr r"
  by (auto simp: rung_le_def rung_nums_def less_prod_simp)

lemma insert_rung_set [simp]: "set (insert_rung r ss) = insert r (set ss)"
  by (induction ss) auto

lemma insert_rung_sorted: "by_threshold ss \<Longrightarrow> by_threshold (insert_rung r ss)"
  by (induction ss) (auto dest: rung_le_thr intro: order_trans)

lemma sort_rungs_sorted: "sort_rungs rs = Inr ss \<Longrightarrow> by_threshold ss \<and> set ss = set rs"
proof -
  have "by_threshold (foldr insert_rung rs []) \<and> set (foldr insert_rung rs []) = set rs"
    by (induction rs) (auto simp: insert_rung_sorted)
  then show "sort_rungs rs = Inr ss \<Longrightarrow> by_threshold ss \<and> set ss = set rs" by (auto simp: sort_rungs_def split: if_splits)
qed

lemma ordered_pairs_sorted:
  "by_threshold ss \<Longrightarrow> lo \<in> set ss \<Longrightarrow> hi \<in> set ss \<Longrightarrow> rg_thr lo < rg_thr hi \<Longrightarrow> (lo, hi) \<in> ordered_pairs ss"
  by (induction ss) (auto simp: not_less [symmetric])

lemma ordered_pairs_sub: "ordered_pairs ss \<subseteq> set ss \<times> set ss"
  by (induction ss) auto


text \<open>The pairs of rungs that share a subject.\<close>

definition same_subject :: "rung list list \<Rightarrow> (rung \<times> rung) set" where
  "same_subject gs = (\<Union>rs \<in> set gs. set rs \<times> set rs)"

lemma tops_cover:
  assumes "tops mg V bst" and "V \<subseteq> W" and "\<And>lo hi. (lo, hi) \<in> W \<Longrightarrow> admissible lo hi \<Longrightarrow> (lo, hi) \<in> V"
  shows "tops mg W bst"
proof (cases bst)
  case None
  with assms show ?thesis unfolding tops_def by fastforce
next
  case (Some c)
  then obtain lo hi where "(lo, hi) \<in> V" "admissible lo hi" "cand_of c lo hi" using assms(1) by (auto simp: tops_def)
  then have "\<exists>(lo, hi) \<in> W. admissible lo hi \<and> cand_of c lo hi" using assms(2) by auto
  moreover have "\<forall>(lo, hi) \<in> W. admissible lo hi \<longrightarrow> violation lo hi \<le> cd_gross c"
    using assms(1,3) Some by (fastforce simp: tops_def)
  ultimately show ?thesis using assms(1) Some by (simp add: tops_def)
qed

lemma best_rungs_tops:
  "tops mg V bst \<Longrightarrow> best_rungs mg ev title gs bst = Inr bst' \<Longrightarrow> tops mg (V \<union> same_subject gs) bst'"
proof (induction gs arbitrary: V bst)
  case (Cons rs gs)
  have eq: "V \<union> same_subject (rs # gs) = (V \<union> set rs \<times> set rs) \<union> same_subject gs" by (auto simp: same_subject_def)
  have "\<exists>b. best_rungs mg ev title gs b = Inr bst' \<and> tops mg (V \<union> set rs \<times> set rs) b"
  proof (cases "length rs < 2")
    case True
    then have "rs = [] \<or> (\<exists>r. rs = [r])" by (cases rs; cases "tl rs") auto
    then have "tops mg (V \<union> set rs \<times> set rs) bst"
      by (intro tops_cover [OF Cons.prems(1)]) (auto simp: admissible_def)
    then show ?thesis using True Cons.prems(2) by auto
  next
    case False
    then obtain ss where ss: "sort_rungs rs = Inr ss"
      "best_rungs mg ev title gs (rung_pairs mg ev title ss bst) = Inr bst'"
      using Cons.prems(2) by (auto split: sum.splits)
    note sorted = sort_rungs_sorted [OF ss(1)]
    have "tops mg (V \<union> set rs \<times> set rs) (rung_pairs mg ev title ss bst)"
    proof (rule tops_cover [OF rung_pairs_tops [OF Cons.prems(1)]])
      show "V \<union> ordered_pairs ss \<subseteq> V \<union> set rs \<times> set rs" using ordered_pairs_sub [of ss] sorted by auto
    next
      fix lo hi assume "(lo, hi) \<in> V \<union> set rs \<times> set rs" "admissible lo hi"
      then show "(lo, hi) \<in> V \<union> ordered_pairs ss"
        using ordered_pairs_sorted [of ss lo hi] sorted by (auto simp: admissible_def)
    qed
    then show ?thesis using ss(2) by blast
  qed
  then show ?case unfolding eq using Cons.IH by blast
qed (simp add: same_subject_def)

text \<open>A rung of a group comes from an open market whose text, less the threshold, is the group's subject.\<close>

definition grouped :: "json list \<Rightarrow> (string \<times> rung list) list \<Rightarrow> bool" where
  "grouped ms g \<longleftrightarrow> (\<forall>k rs r. map_of g k = Some rs \<and> r \<in> set rs \<longrightarrow>
     (\<exists>m \<in> set ms. open_market m = Inr True \<and> rung_of m = Inr (Some (k, r)))) \<and> distinct (map fst g)"

lemma group_rungs_grouped:
  "group_rungs ms g = Inr g' \<Longrightarrow> grouped ms0 g \<Longrightarrow> set ms \<subseteq> set ms0 \<Longrightarrow> grouped ms0 g'"
proof (induction ms arbitrary: g)
  case (Cons m ms)
  obtain op where op: "open_market m = Inr op" using Cons.prems(1) by (auto split: sum.splits)
  show ?case
  proof (cases op)
    case True
    obtain r where r: "rung_of m = Inr r" using Cons.prems(1) op True by (auto split: sum.splits)
    show ?thesis
    proof (cases r)
      case (Some kr)
      obtain k x where kx: "kr = (k, x)" by force
      have "grouped ms0 (add_rung k x g)"
        using Cons.prems(2,3) op True r Some kx
        by (fastforce simp: grouped_def add_rung_def map_of_update distinct_update split: option.splits if_splits)
      then show ?thesis using Cons op True r Some kx by (auto split: sum.splits)
    qed (use Cons op True r in auto)
  qed (use Cons op in auto)
qed simp

text \<open>The ladder screen finds the largest violation: of all pairs of rungs of an event that share a
  subject, the lower one offered and the higher one bid, it reports one whose bid exceeds the ask of
  the lower threshold by the most, and nothing exactly when no pair does by more than the margin.
  Both rungs are open markets of an event whose outcomes do not exclude each other, and YES on the
  lower with NO on the higher threshold pay at least a dollar whatever the count comes to.\<close>
theorem ladder_screen_largest:
  assumes "ladder_event mg e = Inr cs" and "\<not> truthy (get (obj_of e) ''mutually_exclusive'')"
  shows "\<exists>ms g. markets_of e = Inr ms \<and> group_rungs ms [] = Inr g \<and>
    (case cs of
       [] \<Rightarrow> \<forall>(lo, hi) \<in> same_subject (map snd g). admissible lo hi \<longrightarrow> violation lo hi \<le> mg
     | c # r \<Rightarrow> r = [] \<and> mg < cd_gross c \<and>
         (\<forall>(lo, hi) \<in> same_subject (map snd g). admissible lo hi \<longrightarrow> violation lo hi \<le> cd_gross c) \<and>
         (\<exists>k lo hi. cand_of c lo hi \<and> rg_thr lo < rg_thr hi \<and>
            (\<forall>r \<in> {lo, hi}. \<exists>m \<in> set ms. open_market m = Inr True \<and> rung_of m = Inr (Some (k, r))) \<and>
            (\<forall>count. 1 \<le> kalshi_pays ''yes'' (rg_thr lo \<le> count) + kalshi_pays ''no'' (rg_thr hi \<le> count))))"
proof -
  obtain ms g ev title bst where h: "markets_of e = Inr ms" "group_rungs ms [] = Inr g"
    "best_rungs mg ev title (map snd g) None = Inr bst" "cs = (case bst of None \<Rightarrow> [] | Some c \<Rightarrow> [c])"
    using assms unfolding ladder_event_def jget_def [of e] by (auto split: sum.splits if_splits)
  have g: "grouped ms g" by (rule group_rungs_grouped [OF h(2)]) (simp_all add: grouped_def)
  have tops: "tops mg (same_subject (map snd g)) bst"
    using best_rungs_tops [OF _ h(3), of "{}"] by (simp add: tops_def)
  have subj: "\<exists>k. \<forall>r \<in> {lo, hi}. \<exists>m \<in> set ms. open_market m = Inr True \<and> rung_of m = Inr (Some (k, r))"
    if pair: "(lo, hi) \<in> same_subject (map snd g)" for lo hi
  proof -
    obtain k rs where "(k, rs) \<in> set g" "lo \<in> set rs" "hi \<in> set rs" using pair by (auto simp: same_subject_def)
    then show ?thesis using g unfolding grouped_def by (metis empty_iff insert_iff map_of_eq_Some_iff)
  qed
  show ?thesis
  proof (cases bst)
    case None
    then show ?thesis using h tops by (auto simp: tops_def)
  next
    case (Some c)
    then obtain lo hi where lh: "(lo, hi) \<in> same_subject (map snd g)" "admissible lo hi" "cand_of c lo hi"
      using tops by (auto simp: tops_def)
    moreover have "1 \<le> kalshi_pays ''yes'' (rg_thr lo \<le> count) + kalshi_pays ''no'' (rg_thr hi \<le> count)" for count
      using lh(2) by (auto simp: kalshi_pays_def admissible_def)
    ultimately have "\<exists>k lo hi. cand_of c lo hi \<and> rg_thr lo < rg_thr hi \<and>
            (\<forall>r \<in> {lo, hi}. \<exists>m \<in> set ms. open_market m = Inr True \<and> rung_of m = Inr (Some (k, r))) \<and>
            (\<forall>count. 1 \<le> kalshi_pays ''yes'' (rg_thr lo \<le> count) + kalshi_pays ''no'' (rg_thr hi \<le> count))"
      using subj [OF lh(1)] by (auto simp: admissible_def)
    then show ?thesis using h Some tops by (auto simp: tops_def)
  qed
qed

definition props_event :: json where
  "props_event = JObj [(''event_ticker'', JStr ''P''), (''markets'', JList (map (\<lambda>(t, sub, ask, bid).
     JObj [(''ticker'', JStr t), (''yes_sub_title'', JStr sub), (''yes_ask_dollars'', JNum ask), (''yes_bid_dollars'', JNum bid)])
       [(''B11'', ''Brunson: 11+'', 1 / 4, 1 / 8), (''B13'', ''Brunson: 13+'', 3 / 4, 1 / 2), (''A5'', ''Alvarado: 5+'', 1 / 8, 1 / 16)]))]"

theorem ladder_screen_largest_witness:
  "\<exists>c. ladder_event (1 / 64) props_event = Inr [c] \<and> cd_gross c = 1 / 4 \<and> cd_buy_yes c = JStr ''B11'' \<and> cd_buy_no c = JStr ''B13'' \<and>
     (\<exists>k lo hi. cand_of c lo hi \<and> rg_thr lo < rg_thr hi)"
proof -
  have "case ladder_event (1 / 64) props_event of
      Inr [c] \<Rightarrow> cd_gross c = 1 / 4 \<and> cd_buy_yes c = JStr ''B11'' \<and> cd_buy_no c = JStr ''B13'' | _ \<Rightarrow> False" by code_simp
  then obtain c where c: "ladder_event (1 / 64) props_event = Inr [c]"
    "cd_gross c = 1 / 4 \<and> cd_buy_yes c = JStr ''B11'' \<and> cd_buy_no c = JStr ''B13''"
    by (auto split: sum.splits list.splits)
  have "\<not> truthy (get (obj_of props_event) ''mutually_exclusive'')" by code_simp
  from ladder_screen_largest [OF c(1) this] c show ?thesis by auto
qed

end
