(* ===== verification/Normalizer.thy ===== *)
theory Normalizer
  imports VenueFees Executor
begin

text \<open>
  The normalization layer of \<open>data_normalizer.py\<close>: untyped venue data become books, markets and
  prices with decimals of six places. Decimals are rationals, points in time are seconds since the
  epoch. \<open>fromiso\<close> stands for \<open>datetime.fromisoformat\<close> (\<open>None\<close> when it raises), \<open>loads\<close> for
  \<open>json.loads\<close>, \<open>clk i\<close> is the reading of the \<open>i\<close>-th place that takes the current time.
\<close>

datatype market_status = ACTIVE | CLOSED_MARKET | SETTLED | SUSPENDED | UNKNOWN

datatype outcome_type = BINARY | CATEGORICAL | SCALAR

record norm_price =
  np_value :: rat
  np_timestamp :: rat
  np_source :: string

record norm_level =
  lv_price :: rat
  lv_size :: rat
  lv_count :: json

record norm_book =
  nb_bids :: "norm_level list"
  nb_asks :: "norm_level list"
  nb_timestamp :: rat
  nb_sequence :: json

record norm_outcome =
  no_id :: json
  no_name :: json
  no_price :: "norm_price option"
  no_volume :: "rat option"

record norm_market =
  nm_id :: json
  nm_platform :: string
  nm_title :: json
  nm_status :: market_status
  nm_type :: outcome_type
  nm_outcomes :: "norm_outcome list"
  nm_close :: "rat option"
  nm_volume :: rat
  nm_liquidity :: rat
  nm_created :: "rat option"
  nm_updated :: rat
  nm_metadata :: obj

section \<open>Books\<close>

definition get_best_bid :: "norm_book \<Rightarrow> norm_level option" where
  "get_best_bid b = (case nb_bids b of [] \<Rightarrow> None | l # ls \<Rightarrow> Some l)"

definition get_best_ask :: "norm_book \<Rightarrow> norm_level option" where
  "get_best_ask b = (case nb_asks b of [] \<Rightarrow> None | l # ls \<Rightarrow> Some l)"

definition get_spread :: "norm_book \<Rightarrow> rat option" where
  "get_spread b = (case (get_best_bid b, get_best_ask b) of
     (Some b1, Some a1) \<Rightarrow> Some (dsub (lv_price a1) (lv_price b1)) | _ \<Rightarrow> None)"

definition get_mid_price :: "norm_book \<Rightarrow> rat option" where
  "get_mid_price b = (case (get_best_bid b, get_best_ask b) of
     (Some b1, Some a1) \<Rightarrow> Some (ddiv (dadd (lv_price b1) (lv_price a1)) 2) | _ \<Rightarrow> None)"

section \<open>Scalars\<close>

text \<open>\<open>Decimal(str(v))\<close>, \<open>None\<close> where it raises.\<close>

fun dec_of :: "json \<Rightarrow> rat option" where
  "dec_of (JInt i) = Some (of_int i)"
| "dec_of (JNum x) = Some (repr_dec x)"
| "dec_of (JStr s) = parse_num s"
| "dec_of _ = None"

text \<open>Six decimals, half up; a value that is no number or has more than 28 digits then is 0.\<close>

definition normalize_decimal :: "json \<Rightarrow> rat" where
  "normalize_decimal v = (case dec_of v of None \<Rightarrow> 0
     | Some d \<Rightarrow> let q = quantize_half_up 6 d in if \<bar>q\<bar> * 10 ^ 6 < 10 ^ 28 then q else 0)"

text \<open>\<open>s.replace('Z', '+00:00')\<close>.\<close>

definition zulu :: "string \<Rightarrow> string" where
  "zulu s = concat (map (\<lambda>c. if c = CHR ''Z'' then ''+00:00'' else [c]) s)"

text \<open>\<open>datetime.fromtimestamp(x, tz=utc)\<close>: microseconds, years 1 to 9999.\<close>

definition from_timestamp :: "rat \<Rightarrow> rat option" where
  "from_timestamp x = (let t = of_int (round_half_even (x * 10 ^ 6)) / 10 ^ 6 in
     if -62135596800 \<le> t \<and> t < 253402300800 then Some t else None)"

definition stamp :: "rat \<Rightarrow> rat option" where
  "stamp x = (if 10000000000 < x then from_timestamp (fdiv x 1000) else from_timestamp x)"

fun normalize_timestamp :: "(string \<Rightarrow> rat option) \<Rightarrow> json \<Rightarrow> rat option" where
  "normalize_timestamp fromiso (JStr s) = fromiso (zulu s)"
| "normalize_timestamp fromiso (JInt i) = (if 10000000000 < i then from_timestamp (fl (of_int i / 1000)) else from_timestamp (of_int i))"
| "normalize_timestamp fromiso (JNum x) = stamp x"
| "normalize_timestamp fromiso (JBool b) = Some (if b then 1 else 0)"
| "normalize_timestamp fromiso _ = None"

text \<open>\<open>v > 1\<close>, \<open>v / 100\<close> and \<open>1 - v\<close> of an untyped value.\<close>

fun above_one :: "json \<Rightarrow> pyexn + bool" where
  "above_one (JInt i) = Inr (1 < i)"
| "above_one (JNum x) = Inr (1 < x)"
| "above_one (JBool b) = Inr False"
| "above_one _ = Inl TypeError"

fun hundredth :: "json \<Rightarrow> json" where
  "hundredth (JInt i) = JNum (fl (of_int i / 100))"
| "hundredth (JNum x) = JNum (fdiv x 100)"
| "hundredth v = v"

fun complement :: "json \<Rightarrow> json" where
  "complement (JInt i) = JInt (1 - i)"
| "complement (JNum x) = JNum (fsub 1 x)"
| "complement (JBool b) = JInt (if b then 0 else 1)"
| "complement v = v"

text \<open>Prices above 1 are cents.\<close>

definition from_cents :: "json \<Rightarrow> pyexn + json" where
  "from_cents p = then_sum (above_one p) (\<lambda>c. Inr (if c then hundredth p else p))"

section \<open>Order books\<close>

definition level_of :: "(json \<Rightarrow> pyexn + json) \<Rightarrow> bool \<Rightarrow> json \<Rightarrow> pyexn + norm_level" where
  "level_of scale counted l =
     then_sum (jget l ''price'' (JInt 0)) (\<lambda>p0. then_sum (scale p0) (\<lambda>p.
     then_sum (jget l ''size'' (JInt 0)) (\<lambda>z. then_sum (jget l ''count'' JNull) (\<lambda>n.
     Inr \<lparr>lv_price = normalize_decimal p, lv_size = normalize_decimal z, lv_count = (if counted then n else JNull)\<rparr>))))"

fun levels :: "(json \<Rightarrow> pyexn + json) \<Rightarrow> bool \<Rightarrow> json list \<Rightarrow> pyexn + norm_level list" where
  "levels scale counted [] = Inr []"
| "levels scale counted (l # ls) =
     then_sum (level_of scale counted l) (\<lambda>x. then_sum (levels scale counted ls) (\<lambda>xs. Inr (x # xs)))"

definition side_of :: "json \<Rightarrow> string \<Rightarrow> (json \<Rightarrow> pyexn + json) \<Rightarrow> bool \<Rightarrow> pyexn + norm_level list" where
  "side_of raw k scale counted =
     then_sum (jget raw k (JList [])) (\<lambda>v. then_sum (py_iter v) (levels scale counted))"

definition book_sides :: "json \<Rightarrow> string \<Rightarrow> pyexn + norm_level list \<times> norm_level list" where
  "book_sides raw platform =
     (if platform = ''kalshi'' then
        then_sum (side_of raw ''yes_bids'' from_cents True) (\<lambda>bids.
        then_sum (side_of raw ''yes_asks'' from_cents True) (\<lambda>asks. Inr (bids, asks)))
      else if platform = ''polymarket'' then
        then_sum (side_of raw ''bids'' Inr False) (\<lambda>bids.
        then_sum (side_of raw ''asks'' Inr False) (\<lambda>asks. Inr (bids, asks)))
      else Inr ([], []))"

definition normalize_orderbook ::
    "(string \<Rightarrow> rat option) \<Rightarrow> rat \<Rightarrow> json \<Rightarrow> string \<Rightarrow> pyexn + norm_book" where
  "normalize_orderbook fromiso t0 raw platform =
     then_sum (book_sides raw platform) (\<lambda>(bids, asks).
     then_sum (jget raw ''timestamp'' JNull) (\<lambda>ts.
     then_sum (jget raw ''seq'' JNull) (\<lambda>sq. then_sum (jget raw ''sequence'' sq) (\<lambda>sequence.
     Inr \<lparr>nb_bids = sort_key (\<lambda>l. - lv_price l) bids, nb_asks = sort_key lv_price asks,
          nb_timestamp = (case normalize_timestamp fromiso ts of Some t \<Rightarrow> t | None \<Rightarrow> t0), nb_sequence = sequence\<rparr>))))"

section \<open>Markets\<close>

definition status_of :: "string \<Rightarrow> market_status" where
  "status_of s = (case map_of [(''active'', ACTIVE), (''closed'', CLOSED_MARKET), (''settled'', SETTLED),
       (''finalized'', SETTLED), (''suspended'', SUSPENDED)] s of Some st \<Rightarrow> st | None \<Rightarrow> UNKNOWN)"

text \<open>\<open>if p and p > 1: p = p / 100\<close>.\<close>

definition quoted_price :: "json \<Rightarrow> pyexn + json" where
  "quoted_price p = (if truthy p then from_cents p else Inr p)"

text \<open>\<open>NormalizedPrice(value=normalize_decimal(p or 0.5), ...) if p is not None else None\<close>.\<close>

definition kalshi_price :: "rat \<Rightarrow> json \<Rightarrow> norm_price option" where
  "kalshi_price t p = (if p = JNull then None
     else Some \<lparr>np_value = normalize_decimal (py_or p (JNum (1 / 2))), np_timestamp = t, np_source = ''kalshi''\<rparr>)"

definition lower_text :: "json \<Rightarrow> pyexn + string" where
  "lower_text v = (case v of JStr s \<Rightarrow> Inr (lower s) | _ \<Rightarrow> Inl AttributeError)"

definition normalize_kalshi_market ::
    "(string \<Rightarrow> rat option) \<Rightarrow> (nat \<Rightarrow> rat) \<Rightarrow> json \<Rightarrow> pyexn + norm_market" where
  "normalize_kalshi_market fromiso clk raw =
     then_sum (jget raw ''id'' (JStr ''unknown'')) (\<lambda>id0.
     let ob = obj_of raw; market_id = get_or id0 ob ''ticker'' in
     then_sum (lower_text (get_or (JStr ''unknown'') ob ''status'')) (\<lambda>status_str.
     then_sum (quoted_price (get_or (get ob ''yes_bid'') ob ''yes_price'')) (\<lambda>yes_price.
     then_sum (quoted_price (get_or (get ob ''no_bid'') ob ''no_price'')) (\<lambda>no_price.
     Inr \<lparr>nm_id = market_id, nm_platform = ''kalshi'', nm_title = get_or market_id ob ''title'',
          nm_status = status_of status_str, nm_type = BINARY,
          nm_outcomes =
            [\<lparr>no_id = JStr (py_str market_id @ ''_yes''), no_name = JStr ''YES'', no_price = kalshi_price (clk 0) yes_price,
              no_volume = Some (normalize_decimal (get_or (JInt 0) ob ''yes_volume''))\<rparr>,
             \<lparr>no_id = JStr (py_str market_id @ ''_no''), no_name = JStr ''NO'', no_price = kalshi_price (clk 1) no_price,
              no_volume = Some (normalize_decimal (get_or (JInt 0) ob ''no_volume''))\<rparr>],
          nm_close = normalize_timestamp fromiso (get ob ''close_time''),
          nm_volume = normalize_decimal (get_or (JInt 0) ob ''volume''),
          nm_liquidity = normalize_decimal (get_or (JInt 0) ob ''open_interest''),
          nm_created = normalize_timestamp fromiso (get ob ''created_time''), nm_updated = clk 2,
          nm_metadata = [(''raw_status'', get ob ''status''), (''event_ticker'', get ob ''event_ticker''),
            (''result'', get ob ''result'')]\<rparr>))))"

text \<open>Text fields of Polymarket may hold JSON themselves.\<close>

definition unpacked :: "(string \<Rightarrow> json option) \<Rightarrow> json \<Rightarrow> pyexn + json" where
  "unpacked loads v = (case v of JStr s \<Rightarrow> (case loads s of Some x \<Rightarrow> Inr x | None \<Rightarrow> Inl ValueError) | _ \<Rightarrow> Inr v)"

text \<open>\<open>float(v[i])\<close> where \<open>i < len(v)\<close>, and \<open>None\<close> past the end or for a text that is no number.\<close>

fun price_at :: "json \<Rightarrow> nat \<Rightarrow> pyexn + rat option" where
  "price_at (JList xs) i = (if i < length xs
     then Inr (case py_float (xs ! i) of Inr x \<Rightarrow> Some x | Inl e \<Rightarrow> None) else Inr None)"
| "price_at (JStr s) i = (if i < length s
     then Inr (case py_float (JStr [s ! i]) of Inr x \<Rightarrow> Some x | Inl e \<Rightarrow> None) else Inr None)"
| "price_at (JObj ob) i = (if i < length ob then Inl KeyError else Inr None)"
| "price_at _ i = Inl TypeError"

fun pm_outcomes :: "(nat \<Rightarrow> rat) \<Rightarrow> json \<Rightarrow> nat \<Rightarrow> (json \<times> json) list \<Rightarrow> pyexn + norm_outcome list" where
  "pm_outcomes clk prices i [] = Inr []"
| "pm_outcomes clk prices i ((name, token) # ps) =
     then_sum (price_at prices i) (\<lambda>p. then_sum (pm_outcomes clk prices (Suc i) ps) (\<lambda>os.
     Inr (\<lparr>no_id = token, no_name = name,
           no_price = map_option (\<lambda>x. \<lparr>np_value = normalize_decimal (JNum x), np_timestamp = clk i,
              np_source = ''polymarket''\<rparr>) p, no_volume = None\<rparr> # os)))"

fun upper_names :: "norm_outcome list \<Rightarrow> pyexn + string list" where
  "upper_names [] = Inr []"
| "upper_names (v # vs) = (case no_name v of JStr s \<Rightarrow> then_sum (upper_names vs) (\<lambda>r. Inr (upper s # r)) | _ \<Rightarrow> Inl AttributeError)"

definition pm_type :: "norm_outcome list \<Rightarrow> pyexn + outcome_type" where
  "pm_type os = (if length os = 2
     then then_sum (upper_names os) (\<lambda>ns. Inr (if set ns = {''YES'', ''NO''} then BINARY else CATEGORICAL))
     else Inr CATEGORICAL)"

definition normalize_polymarket_market ::
    "(string \<Rightarrow> rat option) \<Rightarrow> (string \<Rightarrow> json option) \<Rightarrow> (nat \<Rightarrow> rat) \<Rightarrow> json \<Rightarrow> pyexn + norm_market" where
  "normalize_polymarket_market fromiso loads clk raw =
     then_sum (jget raw ''id'' (JStr ''unknown'')) (\<lambda>market_id.
     let ob = obj_of raw in
     then_sum (unpacked loads (get_or (JList []) ob ''outcomes'')) (\<lambda>names.
     then_sum (unpacked loads (get_or (get_or (JList []) ob ''clob_token_ids'') ob ''clobTokenIds'')) (\<lambda>tokens.
     then_sum (unpacked loads (get_or (JList []) ob ''outcomePrices'')) (\<lambda>prices.
     then_sum (py_iter names) (\<lambda>ns. then_sum (py_iter tokens) (\<lambda>ts.
     then_sum (pm_outcomes (\<lambda>i. clk (Suc i)) prices 0 (zip ns ts)) (\<lambda>os.
     then_sum (pm_type os) (\<lambda>ty.
     Inr \<lparr>nm_id = market_id, nm_platform = ''polymarket'',
          nm_title = get_or (get_or market_id ob ''title'') ob ''question'',
          nm_status = (if truthy (get_or (JBool True) ob ''active'') then ACTIVE else CLOSED_MARKET),
          nm_type = ty, nm_outcomes = os,
          nm_close = normalize_timestamp fromiso (get_or (get ob ''end_date_iso'') ob ''endDate''),
          nm_volume = normalize_decimal (get_or (JInt 0) ob ''volume''),
          nm_liquidity = normalize_decimal (get_or (JInt 0) ob ''liquidity''),
          nm_created = normalize_timestamp fromiso (get ob ''createdAt''), nm_updated = clk 0,
          nm_metadata = [(''slug'', get ob ''slug''), (''tags'', get_or (JList []) ob ''tags''),
            (''group_id'', get ob ''groupId'')]\<rparr>))))))))"

fun find_outcome :: "string \<Rightarrow> norm_outcome list \<Rightarrow> pyexn + norm_outcome option" where
  "find_outcome name [] = Inr None"
| "find_outcome name (v # vs) = (case no_name v of
     JStr s \<Rightarrow> if lower s = lower name then Inr (Some v) else find_outcome name vs
   | _ \<Rightarrow> Inl AttributeError)"

definition get_outcome_by_name :: "norm_market \<Rightarrow> string \<Rightarrow> pyexn + norm_outcome option" where
  "get_outcome_by_name m name = find_outcome name (nm_outcomes m)"

definition get_binary_prices :: "norm_market \<Rightarrow> pyexn + (rat \<times> rat) option" where
  "get_binary_prices m =
     (if nm_type m \<noteq> BINARY then Inr None
      else then_sum (get_outcome_by_name m ''yes'') (\<lambda>y. then_sum (get_outcome_by_name m ''no'') (\<lambda>n.
        Inr (case (y, n) of
          (Some y, Some n) \<Rightarrow> (case (no_price y, no_price n) of
             (Some yp, Some np) \<Rightarrow> Some (np_value yp, np_value np) | _ \<Rightarrow> None)
        | _ \<Rightarrow> None))))"

section \<open>Price updates\<close>

definition normalize_price_update ::
    "(string \<Rightarrow> rat option) \<Rightarrow> (nat \<Rightarrow> rat) \<Rightarrow> json \<Rightarrow> string \<Rightarrow> pyexn + (string \<times> norm_price) list" where
  "normalize_price_update fromiso clk raw platform =
     (if platform = ''kalshi'' then
        then_sum (jget raw ''yes_bid'' JNull) (\<lambda>bid0.
        if bid0 = JNull then Inr []
        else then_sum (from_cents bid0) (\<lambda>bid.
          Inr [(''yes'', \<lparr>np_value = normalize_decimal bid, np_timestamp = clk 0, np_source = ''kalshi_stream''\<rparr>),
               (''no'', \<lparr>np_value = normalize_decimal (complement bid), np_timestamp = clk 1, np_source = ''kalshi_stream''\<rparr>)]))
      else if platform = ''polymarket'' then
        then_sum (jget raw ''price'' JNull) (\<lambda>price.
        if price = JNull then Inr []
        else then_sum (lower_text (get_or (JStr ''unknown'') (obj_of raw) ''outcome'')) (\<lambda>outcome.
          Inr [(outcome, \<lparr>np_value = normalize_decimal price,
            np_timestamp = (case normalize_timestamp fromiso (get (obj_of raw) ''timestamp'') of Some t \<Rightarrow> t | None \<Rightarrow> clk 0),
            np_source = ''polymarket_stream''\<rparr>)]))
      else Inr [])"


section \<open>Properties\<close>

text \<open>A decimal of the layer: six places and at most 28 digits.\<close>

definition six_places :: "rat \<Rightarrow> bool" where
  "six_places x \<longleftrightarrow> x * 10 ^ 6 \<in> \<int> \<and> \<bar>x\<bar> * 10 ^ 6 < 10 ^ 28"

lemma normalize_decimal_six [simp]: "six_places (normalize_decimal v)"
  by (auto simp: normalize_decimal_def six_places_def quantize_half_up_def Let_def split: option.split)

definition normal_book :: "norm_book \<Rightarrow> bool" where
  "normal_book b \<longleftrightarrow> sorted_wrt (\<lambda>l m. lv_price m \<le> lv_price l) (nb_bids b) \<and>
     sorted_wrt (\<lambda>l m. lv_price l \<le> lv_price m) (nb_asks b) \<and>
     list_all (\<lambda>l. six_places (lv_price l) \<and> six_places (lv_size l)) (nb_bids b @ nb_asks b)"

lemma levels_six:
  "levels scale n ls = Inr xs \<Longrightarrow> length xs = length ls \<and> list_all (\<lambda>l. six_places (lv_price l) \<and> six_places (lv_size l)) xs"
  by (induction ls arbitrary: xs) (fastforce simp: level_of_def split: sum.splits)+

lemma sorted_by: "sorted_wrt (\<lambda>l m. f l \<le> f m) (sort_key f xs)"
  using sorted_sort_key [of f xs] by (simp add: sorted_map)

text \<open>A normalized book is well formed, whatever the venue sent: its bids descend and its asks ascend, so
  the first levels are the best ones, and every price and size is a decimal of six places; no level
  is dropped or made up.\<close>
theorem normalized_book_normal:
  assumes "normalize_orderbook fromiso t0 raw platform = Inr b"
  shows "normal_book b \<and>
    (\<exists>bids asks. book_sides raw platform = Inr (bids, asks) \<and> mset (nb_bids b) = mset bids \<and> mset (nb_asks b) = mset asks) \<and>
    (\<forall>l. get_best_bid b = Some l \<longrightarrow> (\<forall>m \<in> set (nb_bids b). lv_price m \<le> lv_price l)) \<and>
    (\<forall>l. get_best_ask b = Some l \<longrightarrow> (\<forall>m \<in> set (nb_asks b). lv_price l \<le> lv_price m))"
proof -
  obtain bids asks where s: "book_sides raw platform = Inr (bids, asks)"
    "nb_bids b = sort_key (\<lambda>l. - lv_price l) bids" "nb_asks b = sort_key lv_price asks"
    using assms by (auto simp: normalize_orderbook_def split: sum.splits)
  have "list_all (\<lambda>l. six_places (lv_price l) \<and> six_places (lv_size l)) (bids @ asks)"
    using s(1) levels_six by (fastforce simp: book_sides_def side_of_def split: if_splits sum.splits)
  then have n: "normal_book b"
    using sorted_by [of "\<lambda>l. - lv_price l" bids] sorted_by [of lv_price asks]
    by (simp add: normal_book_def s list_all_iff)
  moreover have "\<forall>m \<in> set (nb_bids b). lv_price m \<le> lv_price l" if "get_best_bid b = Some l" for l
    using n that by (auto simp: normal_book_def get_best_bid_def split: list.splits)
  moreover have "\<forall>m \<in> set (nb_asks b). lv_price l \<le> lv_price m" if "get_best_ask b = Some l" for l
    using n that by (auto simp: normal_book_def get_best_ask_def split: list.splits)
  ultimately show ?thesis using s by auto
qed

definition kalshi_level :: "int \<Rightarrow> int \<Rightarrow> json" where
  "kalshi_level cents z = JObj [(''price'', JInt cents), (''size'', JInt z)]"

definition kalshi_raw_book :: json where
  "kalshi_raw_book = JObj [(''yes_bids'', JList [kalshi_level 40 5, kalshi_level 42 7]),
     (''yes_asks'', JList [kalshi_level 45 3]), (''timestamp'', JInt 1700000000)]"

theorem normalized_book_normal_witness:
  "\<exists>b. normalize_orderbook (\<lambda>s. None) 0 kalshi_raw_book ''kalshi'' = Inr b \<and> normal_book b \<and>
     map lv_price (nb_bids b) = [42 / 100, 40 / 100]"
proof -
  have "case normalize_orderbook (\<lambda>s. None) 0 kalshi_raw_book ''kalshi'' of
      Inr b \<Rightarrow> map lv_price (nb_bids b) = [42 / 100, 40 / 100] | _ \<Rightarrow> False" by code_simp
  then obtain b where b: "normalize_orderbook (\<lambda>s. None) 0 kalshi_raw_book ''kalshi'' = Inr b"
    "map lv_price (nb_bids b) = [42 / 100, 40 / 100]" by (auto split: sum.splits)
  from normalized_book_normal [OF b(1)] b show ?thesis by auto
qed

text \<open>The value a price has after normalization, when it is there at all.\<close>

definition price_values :: "pyexn + norm_market \<Rightarrow> rat option list" where
  "price_values r = (case r of Inl e \<Rightarrow> [] | Inr m \<Rightarrow> map (\<lambda>v. map_option np_value (no_price v)) (nm_outcomes m))"

text \<open>A normalized Kalshi market is binary: it has exactly the outcomes YES and NO, each with a price of
  six places where the venue quoted that side, and its binary prices are those two prices exactly when
  both sides were quoted.\<close>
theorem kalshi_market_is_binary:
  assumes "normalize_kalshi_market fromiso clk raw = Inr m"
  shows "nm_type m = BINARY \<and> map no_name (nm_outcomes m) = [JStr ''YES'', JStr ''NO''] \<and>
    list_all (\<lambda>v. case v of None \<Rightarrow> True | Some x \<Rightarrow> six_places x) (price_values (Inr m)) \<and>
    get_binary_prices m = Inr (case price_values (Inr m) of [Some y, Some n] \<Rightarrow> Some (y, n) | _ \<Rightarrow> None)"
proof -
  obtain i j v w yp np where m: "nm_type m = BINARY"
    "nm_outcomes m = [\<lparr>no_id = i, no_name = JStr ''YES'', no_price = kalshi_price (clk 0) yp, no_volume = v\<rparr>,
       \<lparr>no_id = j, no_name = JStr ''NO'', no_price = kalshi_price (clk 1) np, no_volume = w\<rparr>]"
    using assms by (auto simp: normalize_kalshi_market_def Let_def split: sum.splits)
  have l: "lower ''YES'' = ''yes''" "lower ''yes'' = ''yes''" "lower ''NO'' = ''no''" "lower ''no'' = ''no''" by code_simp+
  show ?thesis using m(1)
    by (simp add: get_binary_prices_def get_outcome_by_name_def m(2) l price_values_def kalshi_price_def)
qed

theorem kalshi_market_is_binary_witness:
  "\<exists>m. normalize_kalshi_market (\<lambda>s. None) (\<lambda>i. 0) (JObj [(''ticker'', JStr ''KX''), (''status'', JStr ''active''),
     (''yes_bid'', JInt 40)]) = Inr m \<and> get_binary_prices m = Inr None"
proof -
  let ?raw = "JObj [(''ticker'', JStr ''KX''), (''status'', JStr ''active''), (''yes_bid'', JInt 40)]"
  have "price_values (normalize_kalshi_market (\<lambda>s. None) (\<lambda>i. 0) ?raw) = [Some (4 / 10), None]" by code_simp
  then obtain m where m: "normalize_kalshi_market (\<lambda>s. None) (\<lambda>i. 0) ?raw = Inr m" "price_values (Inr m) = [Some (4 / 10), None]"
    by (cases "normalize_kalshi_market (\<lambda>s. None) (\<lambda>i. 0) ?raw") (simp_all add: price_values_def)
  from kalshi_market_is_binary [OF m(1)] m show ?thesis by simp
qed

text \<open>One cent reads as a dollar: only prices above 1 are taken for cents, so of Kalshi asks at one and at
  two cents the first becomes 1.00 and the second, 0.02, the best ask; a bid of one cent streams as a
  YES price of 1 and a NO price of 0.\<close>
theorem one_cent_reads_as_dollar:
  "(\<exists>b. normalize_orderbook fromiso t0 (JObj [(''yes_asks'', JList [kalshi_level 1 10, kalshi_level 2 10])]) ''kalshi'' = Inr b \<and>
      map lv_price (nb_asks b) = [2 / 100, 1]) \<and>
   (\<exists>y n. normalize_price_update fromiso clk (JObj [(''yes_bid'', JInt 1)]) ''kalshi'' = Inr [(''yes'', y), (''no'', n)] \<and>
      np_value y = 1 \<and> np_value n = 0)"
proof
  have "map lv_price (sort_key lv_price [\<lparr>lv_price = 1, lv_size = 10, lv_count = JNull\<rparr>,
      \<lparr>lv_price = 2 / 100, lv_size = 10, lv_count = JNull\<rparr>]) = [2 / 100, 1]" by code_simp
  moreover have "book_sides (JObj [(''yes_asks'', JList [kalshi_level 1 10, kalshi_level 2 10])]) ''kalshi'' =
      Inr ([], [\<lparr>lv_price = 1, lv_size = 10, lv_count = JNull\<rparr>, \<lparr>lv_price = 2 / 100, lv_size = 10, lv_count = JNull\<rparr>])"
    by code_simp
  ultimately show "\<exists>b. normalize_orderbook fromiso t0 (JObj [(''yes_asks'', JList [kalshi_level 1 10, kalshi_level 2 10])]) ''kalshi'' = Inr b \<and>
      map lv_price (nb_asks b) = [2 / 100, 1]"
    by (simp add: normalize_orderbook_def jget_def)
next
  have "normalize_decimal (JInt 1) = 1" "normalize_decimal (JInt 0) = 0" by code_simp+
  then show "\<exists>y n. normalize_price_update fromiso clk (JObj [(''yes_bid'', JInt 1)]) ''kalshi'' = Inr [(''yes'', y), (''no'', n)] \<and>
      np_value y = 1 \<and> np_value n = 0"
    by (simp add: normalize_price_update_def jget_def from_cents_def)
qed

text \<open>A market nobody bids for is worth half a dollar: a Kalshi bid of zero is false, so the fallback of 0.5
  replaces it, and a market bid at zero on both sides is normalized to prices of 1/2 and 1/2.\<close>
theorem zero_bid_reads_as_half:
  assumes "get_or (get ob ''yes_bid'') ob ''yes_price'' = JInt 0" and "get_or (get ob ''no_bid'') ob ''no_price'' = JInt 0"
    and "get_or (JStr ''unknown'') ob ''status'' = JStr st"
  shows "price_values (normalize_kalshi_market fromiso clk (JObj ob)) = [Some (1 / 2), Some (1 / 2)]"
proof -
  have "normalize_decimal (JNum (1 / 2)) = 1 / 2" by code_simp
  then show ?thesis
    using assms by (simp add: price_values_def normalize_kalshi_market_def jget_def quoted_price_def kalshi_price_def
        lower_text_def Let_def)
qed

theorem zero_bid_reads_as_half_witness:
  "price_values (normalize_kalshi_market (\<lambda>s. None) (\<lambda>i. 0) (JObj [(''ticker'', JStr ''KX''), (''status'', JStr ''active''),
     (''yes_bid'', JInt 0), (''no_bid'', JInt 0)])) = [Some (1 / 2), Some (1 / 2)]"
  by (rule zero_bid_reads_as_half) simp_all

end
