(* ===== verification/Roots.thy ===== *)
theory Roots
  imports Floating
begin

text \<open>
  \<open>math.sqrt\<close> of a float, correctly rounded, for the impact models of \<open>risk_engine.py\<close> and of the
  research harness.
\<close>

function isqrt :: "int \<Rightarrow> int" where
  "isqrt n = (if n \<le> 0 then 0 else let r = 2 * isqrt (n div 4) in if (r + 1) * (r + 1) \<le> n then r + 1 else r)"
  by auto
termination by (relation "measure nat") auto

declare isqrt.simps [simp del]

lemma isqrt_bounds: "0 \<le> n \<Longrightarrow> 0 \<le> isqrt n \<and> isqrt n * isqrt n \<le> n \<and> n < (isqrt n + 1) * (isqrt n + 1)"
proof (induction n rule: isqrt.induct)
  case (1 n)
  show ?case
  proof (cases "n \<le> 0")
    case True
    with 1 have "n = 0" by simp
    then show ?thesis by (simp add: isqrt.simps [of 0])
  next
    case False
    let ?q = "n div 4" and ?s = "isqrt (n div 4)"
    have ih: "0 \<le> ?s" "?s * ?s \<le> ?q" "?q < (?s + 1) * (?s + 1)" using 1 False by auto
    have "4 * (?s * ?s) \<le> n" using ih(2) by linarith
    moreover have "n < 4 * ((?s + 1) * (?s + 1))" using ih(3) by linarith
    ultimately show ?thesis using False ih(1)
      by (simp add: isqrt.simps [of n] Let_def) (auto simp: algebra_simps)
  qed
qed

text \<open>The root is taken with more than 60 bits; a remainder is kept as a half unit below the last of
  them, so that the rounding to a float sees on which side the root lies.\<close>

definition fl_sqrt :: "rat \<Rightarrow> rat" where
  "fl_sqrt x =
     (if x \<le> 0 then 0
      else let e = 60 - flog 2 x div 2; y = x * 4 powi e; r = isqrt \<lfloor>y\<rfloor> in
        fl ((if of_int (r * r) = y then of_int r else of_int r + 1 / 2) / 2 powi e))"

definition py_sqrt :: "rat \<Rightarrow> rat option" where
  "py_sqrt x = (if x < 0 then None else Some (fl_sqrt x))"

lemma fl_sqrt_nonneg: "0 \<le> fl_sqrt x"
proof (cases "x \<le> 0")
  case False
  define e where "e = 60 - flog 2 x div 2"
  have "0 \<le> \<lfloor>x * 4 powi e\<rfloor>" using False by simp
  then have "0 \<le> isqrt \<lfloor>x * 4 powi e\<rfloor>" using isqrt_bounds by blast
  then show ?thesis using False
    by (auto simp: fl_sqrt_def Let_def e_def [symmetric] intro!: fl_nonneg divide_nonneg_nonneg)
qed (simp add: fl_sqrt_def)

lemma sqrt_examples: "fl_sqrt 4 = 2" "fl_sqrt (1 / 4) = 1 / 2" "fl_sqrt 2 = 6369051672525773 / 4503599627370496"
  by code_simp+


end
