(* ===== verification/RiskEngine.thy ===== *)
theory RiskEngine
  imports Normalizer Roots
begin

text \<open>
  The risk engine of \<open>risk_engine.py\<close>: slippage from a walk over a normalized book, market impact,
  timing risk, fees, and the assessment of an opportunity that the executor's risk gate reads.
  Decimals are rationals rounded to 28 digits after each operation, \<open>math.sqrt\<close> is the correctly
  rounded root of a float. \<open>None\<close> stands for an exception: the scoring code catches every
  exception in one place. \<open>clk i\<close> is the reading of the \<open>i\<close>-th place that takes the current time;
  \<open>ln28\<close> is \<open>Decimal.ln\<close> and \<open>std\<close> is numpy's \<open>std\<close>, each \<open>None\<close> where it raises. Values of the
  model are finite, so texts such as NaN are not read as decimals.
\<close>

section \<open>Market impact\<close>

datatype execution_strategy = AGGRESSIVE | PASSIVE | ADAPTIVE

datatype network_condition = LOW | MEDIUM | HIGH | CRITICAL

record impact_model =
  linear_impact :: rat
  square_root_impact :: rat
  temporary_impact_decay :: rat
  liquidity_factor :: rat
  volatility_factor :: rat

definition default_impact_model :: impact_model where
  "default_impact_model = \<lparr>linear_impact = 1 / 10000, square_root_impact = 1 / 1000, temporary_impact_decay = 1 / 2,
     liquidity_factor = 1, volatility_factor = 1\<rparr>"

definition calculate_impact :: "impact_model \<Rightarrow> rat \<Rightarrow> rat \<Rightarrow> rat option \<Rightarrow> (rat \<times> impact_model) option" where
  "calculate_impact m trade_size market_depth volatility =
     (if market_depth \<le> 0 then Some (5 / 100, m)
      else let size_ratio = ddiv trade_size market_depth; linear = dmul (linear_impact m) size_ratio in
        case py_sqrt (fl size_ratio) of None \<Rightarrow> None
        | Some rt \<Rightarrow>
            let permanent = dadd linear (dmul (square_root_impact m) rt);
                m' = (case volatility of None \<Rightarrow> m
                  | Some v \<Rightarrow> if v = 0 then m else m\<lparr>volatility_factor := dadd 1 v\<rparr>);
                score = dmul (dmul permanent (liquidity_factor m')) (volatility_factor m')
            in Some (min score (5 / 100), m'))"

section \<open>Slippage\<close>

record slippage_estimate =
  base_slippage :: rat
  market_impact :: rat
  timing_risk :: rat
  total_slippage :: rat
  se_confidence :: rat
  se_breakdown :: obj

text \<open>What is left to fill, the cost so far and the depth consumed so far.\<close>

fun walk_levels :: "norm_level list \<Rightarrow> rat \<Rightarrow> rat \<Rightarrow> rat \<Rightarrow> rat \<times> rat" where
  "walk_levels [] remaining cost consumed = (cost, consumed)"
| "walk_levels (l # ls) remaining cost consumed =
     (if remaining \<le> 0 then (cost, consumed)
      else let fill = min remaining (lv_size l) in
        walk_levels ls (dsub remaining fill) (dadd cost (dmul fill (lv_price l))) (dadd consumed fill))"

definition walk_orderbook :: "norm_level list \<Rightarrow> rat \<Rightarrow> (rat \<times> rat) option" where
  "walk_orderbook ls trade_size =
     (case ls of [] \<Rightarrow> Some (5 / 100, 0)
      | l # _ \<Rightarrow>
        let (total_cost, consumed) = walk_levels ls trade_size 0 0; best_price = lv_price l in
        if 0 < consumed
        then if best_price = 0 then None
             else Some (ddiv \<bar>dsub (ddiv total_cost consumed) best_price\<bar> best_price, consumed)
        else Some (5 / 100, consumed))"

definition estimate_timing_risk :: "rat \<Rightarrow> rat \<Rightarrow> rat option \<Rightarrow> execution_strategy \<Rightarrow> rat option" where
  "estimate_timing_risk trade_size market_depth volatility strategy =
     (let execution_time0 = (case strategy of AGGRESSIVE \<Rightarrow> 5 | PASSIVE \<Rightarrow> 30 | ADAPTIVE \<Rightarrow> 15);
          execution_time = (if 0 < market_depth
            then dmul execution_time0 (dadd 1 (min (ddiv trade_size market_depth) 1)) else execution_time0);
          vol = (case volatility of None \<Rightarrow> 1 / 1000 | Some v \<Rightarrow> v)
      in map_option (\<lambda>rt. dmul (dmul (ddiv vol 60) rt) (1 / 2)) (py_sqrt (fl execution_time)))"

definition get_strategy_multiplier :: "execution_strategy \<Rightarrow> rat" where
  "get_strategy_multiplier s = (case s of AGGRESSIVE \<Rightarrow> 12 / 10 | PASSIVE \<Rightarrow> 8 / 10 | ADAPTIVE \<Rightarrow> 1)"

definition estimate_confidence :: "rat \<Rightarrow> norm_book \<Rightarrow> rat \<Rightarrow> rat \<Rightarrow> rat" where
  "estimate_confidence t book trade_size consumed =
     (let c0 = 1;
          c1 = (if length (nb_bids book) < 5 \<or> length (nb_asks book) < 5 then dmul c0 (8 / 10) else c0);
          c2 = (if 0 < consumed \<and> 0 < trade_size \<and> ddiv consumed trade_size < 1 / 2 then dmul c1 (5 / 10) else c1);
          age = t - nb_timestamp book;
          c3 = (if 10 < age then dmul c2 (9 / 10) else c2);
          c4 = (if 30 < age then dmul c3 (7 / 10) else c3)
      in max c4 (1 / 10))"

definition dsum :: "rat list \<Rightarrow> rat" where "dsum xs = fold (\<lambda>x acc. dadd acc x) xs 0"

definition side_levels :: "norm_book \<Rightarrow> string \<Rightarrow> norm_level list" where
  "side_levels book side = (if side = ''buy'' then nb_asks book else nb_bids book)"

definition estimate_slippage ::
    "impact_model \<Rightarrow> rat \<Rightarrow> norm_book \<Rightarrow> rat \<Rightarrow> string \<Rightarrow> execution_strategy \<Rightarrow> rat option \<Rightarrow>
     (slippage_estimate \<times> impact_model) option" where
  "estimate_slippage m t book trade_size side strategy volatility =
     (let ls = side_levels book side in
      if ls = [] then Some (\<lparr>base_slippage = 5 / 100, market_impact = 5 / 100, timing_risk = 1 / 100,
          total_slippage = 10 / 100, se_confidence = 1 / 10, se_breakdown = []\<rparr>, m)
      else case walk_orderbook ls trade_size of None \<Rightarrow> None
      | Some (base, consumed) \<Rightarrow>
          let total_depth = dsum (map lv_size (take 10 ls)) in
          case calculate_impact m trade_size total_depth volatility of None \<Rightarrow> None
          | Some (impact, m') \<Rightarrow>
              (case estimate_timing_risk trade_size total_depth volatility strategy of None \<Rightarrow> None
               | Some timing \<Rightarrow>
                   let k = get_strategy_multiplier strategy in
                   Some (\<lparr>base_slippage = base, market_impact = impact, timing_risk = timing,
                       total_slippage = dmul (dadd (dadd base impact) timing) k,
                       se_confidence = estimate_confidence t book trade_size consumed,
                       se_breakdown =
                         [(''depth_consumed'', JNum (fl consumed)),
                          (''levels_touched'', JInt (if 0 < consumed then int (length ls) else 0)),
                          (''strategy_multiplier'', JNum (fl k)), (''total_depth'', JNum (fl total_depth))]\<rparr>, m')))"

section \<open>Volatility\<close>

type_synonym price_history = "string \<Rightarrow> (rat \<times> rat) list option"

text \<open>\<open>deque(maxlen=1000)\<close>: a full one loses its oldest entry.\<close>

definition push_bounded :: "nat \<Rightarrow> 'a \<Rightarrow> 'a list \<Rightarrow> 'a list" where
  "push_bounded n x xs = (let ys = xs @ [x] in drop (length ys - n) ys)"

definition update_price_history :: "string \<Rightarrow> rat \<Rightarrow> rat \<Rightarrow> price_history \<Rightarrow> price_history" where
  "update_price_history market_id price timestamp h =
     h(market_id \<mapsto> push_bounded 1000 (timestamp, price) (case h market_id of None \<Rightarrow> [] | Some xs \<Rightarrow> xs))"

text \<open>The relative changes between neighbours, as floats.\<close>

fun returns_of :: "rat list \<Rightarrow> rat list" where
  "returns_of (p # q # ps) = (if 0 < p then [fl (ddiv (dsub q p) p)] else []) @ returns_of (q # ps)"
| "returns_of ps = []"

definition VOLATILITY_WINDOW :: rat where "VOLATILITY_WINDOW = 300"

definition calculate_volatility :: "(rat list \<Rightarrow> rat) \<Rightarrow> price_history \<Rightarrow> string \<Rightarrow> rat \<Rightarrow> rat" where
  "calculate_volatility std h market_id t =
     (case h market_id of None \<Rightarrow> 1 / 1000
      | Some prices \<Rightarrow>
          if length prices < 2 then 1 / 1000
          else let recent = filter (\<lambda>(s, p). t - VOLATILITY_WINDOW < s) prices in
            if length recent < 2 then 1 / 1000
            else let rs = returns_of (map snd recent) in
              if rs = [] then 1 / 1000
              else let std_dev = (if 1 < length rs then repr_dec (std rs) else 1 / 1000);
                       factor = repr_dec (fl_sqrt (fl (365 * 24 * 60 * 60 / VOLATILITY_WINDOW)))
                in dmul std_dev factor)"

section \<open>Fees\<close>

definition calculate_gas_fee :: "(rat \<Rightarrow> rat option) \<Rightarrow> rat \<Rightarrow> network_condition option \<Rightarrow> rat option" where
  "calculate_gas_fee ln28 trade_size network =
     (let multiplier = (case network of Some LOW \<Rightarrow> 5 / 10 | Some MEDIUM \<Rightarrow> 1 | Some HIGH \<Rightarrow> 2 | Some CRITICAL \<Rightarrow> 5 | None \<Rightarrow> 1)
      in case ln28 (ddiv trade_size 10000) of None \<Rightarrow> None
         | Some l \<Rightarrow>
             let size_factor = max (dadd 1 (ddiv l 10)) 1
             in Some (dmul (dmul (dmul (5 / 1000) multiplier) size_factor) trade_size))"

record fee_breakdown =
  fb_trading_fee :: rat
  fb_gas_fee :: "rat option"
  fb_total_fee :: rat
  fb_percentage :: rat
  fb_network :: "string option"

definition network_name :: "network_condition option \<Rightarrow> string" where
  "network_name n = (case n of Some LOW \<Rightarrow> ''low'' | Some MEDIUM \<Rightarrow> ''medium'' | Some HIGH \<Rightarrow> ''high''
     | Some CRITICAL \<Rightarrow> ''critical'' | None \<Rightarrow> ''unknown'')"

definition calculate_total_fees ::
    "(rat \<Rightarrow> rat option) \<Rightarrow> string \<Rightarrow> rat \<Rightarrow> execution_strategy \<Rightarrow> network_condition option \<Rightarrow> fee_breakdown option" where
  "calculate_total_fees ln28 platform trade_size strategy network =
     (if platform = ''kalshi'' then
        Some \<lparr>fb_trading_fee = 0, fb_gas_fee = None, fb_total_fee = 0, fb_percentage = 0, fb_network = None\<rparr>
      else if platform = ''polymarket'' then
        (let trading_fee = dmul trade_size (1 / 100) in
         case calculate_gas_fee ln28 trade_size network of None \<Rightarrow> None
         | Some gas \<Rightarrow>
             let score = dadd trading_fee gas in
             Some \<lparr>fb_trading_fee = trading_fee, fb_gas_fee = Some gas, fb_total_fee = score,
                   fb_percentage = (if 0 < trade_size then ddiv score trade_size else 0),
                   fb_network = Some (network_name network)\<rparr>)
      else None)"

definition estimate_network_condition :: "int \<Rightarrow> network_condition" where
  "estimate_network_condition hour = (if 14 \<le> hour \<and> hour \<le> 22 then MEDIUM else LOW)"

section \<open>Assessment\<close>

datatype recommendation =
  Reduce_size | Use_limit_orders | Monitor_volatility | Quick_settlement | Cap_position | Proceed | Scoring_error

record risk_assessment =
  ra_id :: json
  ra_total :: rat
  ra_execution :: rat
  ra_market :: rat
  ra_platform :: rat
  ra_profit_after :: rat
  ra_confidence :: rat
  ra_recommendations :: "recommendation list"

text \<open>One side's contribution: 100 times its slippage, or 25 without a book.\<close>

definition side_risk ::
    "impact_model \<Rightarrow> rat \<Rightarrow> norm_book option \<Rightarrow> string \<Rightarrow> rat \<Rightarrow> (rat \<times> impact_model) option" where
  "side_risk m t book side trade_size =
     (case book of None \<Rightarrow> Some (25, m)
      | Some b \<Rightarrow> map_option (\<lambda>(e, m'). (dmul (total_slippage e) 100, m')) (estimate_slippage m t b trade_size side ADAPTIVE None))"

definition calculate_execution_risk ::
    "impact_model \<Rightarrow> (nat \<Rightarrow> rat) \<Rightarrow> norm_book option \<Rightarrow> norm_book option \<Rightarrow> rat \<Rightarrow> (rat \<times> impact_model) option" where
  "calculate_execution_risk m clk buy_book sell_book trade_size =
     (case side_risk m (clk 0) buy_book ''buy'' trade_size of None \<Rightarrow> None
      | Some (rb, m1) \<Rightarrow>
          (case side_risk m1 (clk 1) sell_book ''sell'' trade_size of None \<Rightarrow> None
           | Some (rs, m2) \<Rightarrow> Some (min (dadd (dadd 0 rb) rs) 50, m2)))"

definition calculate_market_risk :: "rat \<Rightarrow> rat" where
  "calculate_market_risk profit_margin =
     min (if profit_margin < 2 / 100 then dadd 10 20 else if profit_margin < 5 / 100 then dadd 10 10 else 10) 30"

definition calculate_platform_risk :: "json \<Rightarrow> json \<Rightarrow> rat" where
  "calculate_platform_risk buy_platform sell_platform =
     (let r0 = 5; r1 = (if buy_platform \<noteq> sell_platform then dadd r0 5 else r0);
          r2 = (if JStr ''polymarket'' \<in> {buy_platform, sell_platform} then dadd r1 3 else r1)
      in min r2 20)"

text \<open>Books older than half a minute lower the confidence.\<close>

definition aged :: "rat \<Rightarrow> norm_book option \<Rightarrow> rat \<Rightarrow> rat" where
  "aged t book c = (case book of None \<Rightarrow> c | Some b \<Rightarrow> if 30 < t - nb_timestamp b then dmul c (8 / 10) else c)"

definition calculate_confidence :: "(nat \<Rightarrow> rat) \<Rightarrow> norm_book option \<Rightarrow> norm_book option \<Rightarrow> rat" where
  "calculate_confidence clk buy_book sell_book =
     (if buy_book = None \<and> sell_book = None then 0
      else let c1 = (if buy_book = None then dmul 1 (5 / 10) else 1);
               c2 = (if sell_book = None then dmul c1 (5 / 10) else c1)
        in max (aged (clk 3) sell_book (aged (clk 2) buy_book c2)) (5 / 100))"

definition MAX_POSITION_SIZE :: rat where "MAX_POSITION_SIZE = 10000"

definition generate_recommendations :: "rat \<Rightarrow> rat \<Rightarrow> rat \<Rightarrow> rat \<Rightarrow> rat \<Rightarrow> recommendation list" where
  "generate_recommendations score execution market platform trade_size =
     (let rs = (if 40 < score then [Reduce_size] else []) @ (if 30 < execution then [Use_limit_orders] else []) @
               (if 20 < market then [Monitor_volatility] else []) @ (if 15 < platform then [Quick_settlement] else []) @
               (if MAX_POSITION_SIZE < trade_size then [Cap_position] else [])
      in if rs = [] then [Proceed] else rs)"

definition assess_unsafe ::
    "impact_model \<Rightarrow> (nat \<Rightarrow> rat) \<Rightarrow> json \<Rightarrow> norm_book option \<Rightarrow> norm_book option \<Rightarrow> json \<Rightarrow>
     (risk_assessment \<times> impact_model) option" where
  "assess_unsafe m clk opportunity kalshi_book polymarket_book opportunity_id =
     (if \<not> is_obj opportunity then None
      else let opp = obj_of opportunity in
        case (dec_of (get_or (JInt 100) opp ''max_tradeable_volume''), dec_of (get_or (JInt 0) opp ''profit_margin'')) of
          (Some trade_size, Some profit_margin) \<Rightarrow>
            let buy_platform = get opp ''buy_platform''; sell_platform = get opp ''sell_platform'';
                buy_book = (if buy_platform = JStr ''kalshi'' then kalshi_book else polymarket_book);
                sell_book = (if sell_platform = JStr ''polymarket'' then polymarket_book else kalshi_book) in
            (case calculate_execution_risk m clk buy_book sell_book trade_size of None \<Rightarrow> None
             | Some (execution, m') \<Rightarrow>
                 let market = calculate_market_risk profit_margin;
                     platform = calculate_platform_risk buy_platform sell_platform;
                     score = min (dadd (dadd execution market) platform) 100 in
                 Some (\<lparr>ra_id = opportunity_id, ra_total = score, ra_execution = execution, ra_market = market,
                     ra_platform = platform, ra_profit_after = dmul profit_margin (dsub 1 (ddiv score 100)),
                     ra_confidence = calculate_confidence clk buy_book sell_book,
                     ra_recommendations = generate_recommendations score execution market platform trade_size\<rparr>, m'))
        | _ \<Rightarrow> None)"

definition maximal_risk :: "json \<Rightarrow> risk_assessment" where
  "maximal_risk opportunity_id = \<lparr>ra_id = opportunity_id, ra_total = 100, ra_execution = 50, ra_market = 30,
     ra_platform = 20, ra_profit_after = 0, ra_confidence = 0, ra_recommendations = [Scoring_error]\<rparr>"

definition opportunity_id :: "json \<Rightarrow> json" where
  "opportunity_id opportunity =
     (case py_or opportunity (JObj []) of JObj ob \<Rightarrow> get_or (JStr ''unknown'') ob ''opportunity_id'' | _ \<Rightarrow> JStr ''unknown'')"

text \<open>Scoring that raises leaves the impact model as it was: without a volatility nothing writes it.\<close>

definition assess_opportunity ::
    "impact_model \<Rightarrow> (nat \<Rightarrow> rat) \<Rightarrow> json \<Rightarrow> norm_book option \<Rightarrow> norm_book option \<Rightarrow> risk_assessment \<times> impact_model" where
  "assess_opportunity m clk opportunity kalshi_book polymarket_book =
     (case assess_unsafe m clk opportunity kalshi_book polymarket_book (opportunity_id opportunity) of
        Some r \<Rightarrow> r | None \<Rightarrow> (maximal_risk (opportunity_id opportunity), m))"


section \<open>Bounds of the scores\<close>

lemma dec_int: "\<bar>n\<bar> \<le> 10 ^ 28 \<Longrightarrow> dec28 (of_int n) = of_int n"
  by (rule d28.R_of_int) auto

lemma dec_nums [simp]:
  "dec28 5 = 5" "dec28 10 = 10" "dec28 20 = 20" "dec28 25 = 25" "dec28 30 = 30" "dec28 50 = 50" "dec28 100 = 100"
  "dec28 13 = 13" "dec28 8 = 8" "dec28 1 = 1" "dec28 80 = 80" "dec28 93 = 93"
  using dec_int [of 5] dec_int [of 10] dec_int [of 20] dec_int [of 25] dec_int [of 30] dec_int [of 50] dec_int [of 100]
    dec_int [of 13] dec_int [of 8] dec_int [of 1] dec_int [of 80] dec_int [of 93] by simp_all

lemma dadd_nonneg: "0 \<le> x \<Longrightarrow> 0 \<le> y \<Longrightarrow> 0 \<le> dadd x y"
  by (simp add: dadd_def d28.R_nonneg)

lemma ddiv_nonneg: "0 \<le> x \<Longrightarrow> 0 \<le> y \<Longrightarrow> 0 \<le> ddiv x y"
  by (simp add: ddiv_def d28.R_nonneg)

lemma market_risk_values: "calculate_market_risk p \<in> {10, 20, 30}"
  by (simp add: calculate_market_risk_def dadd_def)

lemma platform_risk_values: "calculate_platform_risk b s \<in> {5, 8, 10, 13}"
  by (simp add: calculate_platform_risk_def dadd_def Let_def)

lemma dmul_le_left: "dec28 c = c \<Longrightarrow> 0 \<le> c \<Longrightarrow> 0 \<le> y \<Longrightarrow> y \<le> 1 \<Longrightarrow> dmul c y \<le> c"
  using dmul_mono_right [of y 1 c] by (simp add: dmul_def)

lemma aged_bounds: "dec28 c = c \<Longrightarrow> 0 \<le> c \<Longrightarrow> 0 \<le> aged t b c \<and> aged t b c \<le> c \<and> dec28 (aged t b c) = aged t b c"
  using dmul_le_left [of c "8 / 10"] dmul_nonneg [of c "8 / 10"] by (auto simp: aged_def dmul_def split: option.split)

lemma half_exact [simp]: "dec28 (1 / 2) = 1 / 2" "dec28 (1 / 4) = 1 / 4"
proof -
  have "dec28 (5 / 10) = 5 / 10" by (rule d28.R_exact [of _ 5 "-1"]) auto
  then show "dec28 (1 / 2) = 1 / 2" by simp
  have "dec28 (25 / 100) = 25 / 100" by (rule d28.R_exact [of _ 25 "-2"]) (auto simp: power_int_def power2_eq_square)
  then show "dec28 (1 / 4) = 1 / 4" by simp
qed

lemma confidence_bounds: "0 \<le> calculate_confidence clk b s \<and> calculate_confidence clk b s \<le> 1"
proof -
  have "0 \<le> aged u s (aged t b c) \<and> aged u s (aged t b c) \<le> 1" if "dec28 c = c" "0 \<le> c" "c \<le> 1" for t u c
    using aged_bounds [OF that(1,2), of t b] aged_bounds [of "aged t b c" u s] that(3) by (meson order_trans)
  then show ?thesis by (auto simp: calculate_confidence_def dmul_def Let_def)
qed

lemma execution_risk_le: "calculate_execution_risk m clk b s z = Some (x, m') \<Longrightarrow> x \<le> 50"
  by (auto simp: calculate_execution_risk_def split: option.splits)

text \<open>A book whose prices are positive and whose sizes are not negative.\<close>

definition fair_book :: "norm_book option \<Rightarrow> bool" where
  "fair_book book \<longleftrightarrow> (case book of None \<Rightarrow> True
     | Some b \<Rightarrow> list_all (\<lambda>l. 0 < lv_price l \<and> 0 \<le> lv_size l) (nb_bids b @ nb_asks b))"

lemma walk_orderbook_nonneg:
  "walk_orderbook ls z = Some (x, c) \<Longrightarrow> list_all (\<lambda>l. 0 < lv_price l \<and> 0 \<le> lv_size l) ls \<Longrightarrow> 0 \<le> x"
  by (auto simp: walk_orderbook_def Let_def ddiv_nonneg split: list.splits prod.splits if_splits)

text \<open>The factors of an impact model that never gives a negative impact.\<close>

definition fair_model :: "impact_model \<Rightarrow> bool" where
  "fair_model m \<longleftrightarrow> 0 \<le> linear_impact m \<and> 0 \<le> square_root_impact m \<and> 0 \<le> liquidity_factor m \<and> 0 \<le> volatility_factor m"

lemma calculate_impact_calm:
  assumes "\<not> d \<le> 0"
  shows "calculate_impact m z d None = map_option (\<lambda>rt. (min (dmul (dmul (dadd (dmul (linear_impact m) (ddiv z d))
     (dmul (square_root_impact m) rt)) (liquidity_factor m)) (volatility_factor m)) (5 / 100), m)) (py_sqrt (fl (ddiv z d)))"
  unfolding calculate_impact_def Let_def if_not_P [OF assms] option.case by (rule option.case_eq_if [THEN trans]) (simp add: map_option_case option.case_eq_if)

lemma calculate_impact_nonneg:
  assumes "calculate_impact m z d None = Some (x, m')" and "fair_model m" and "0 \<le> z"
  shows "0 \<le> x \<and> m' = m"
proof (cases "d \<le> 0")
  case False
  obtain rt where s: "py_sqrt (fl (ddiv z d)) = Some rt"
    and x: "x = min (dmul (dmul (dadd (dmul (linear_impact m) (ddiv z d)) (dmul (square_root_impact m) rt))
      (liquidity_factor m)) (volatility_factor m)) (5 / 100)" "m' = m"
    using assms(1) unfolding calculate_impact_calm [OF False] by (elim map_option_eq_Some [THEN iffD1, elim_format] exE conjE) (blast dest: Pair_inject)
  have "0 \<le> ddiv z d" using assms(3) False by (simp add: ddiv_nonneg)
  moreover have "0 \<le> rt" using s by (auto simp: py_sqrt_def fl_sqrt_nonneg split: if_splits)
  ultimately show ?thesis using x assms(2) by (simp add: fair_model_def dmul_nonneg dadd_nonneg)
qed (use assms in \<open>auto simp: calculate_impact_def\<close>)

lemma calculate_impact_model: "calculate_impact m z d None = Some (x, m') \<Longrightarrow> m' = m"
  by (auto simp: calculate_impact_def Let_def split: if_splits option.splits)

lemma timing_nonneg:
  assumes "estimate_timing_risk z d None k = Some x" shows "0 \<le> x"
proof -
  obtain y where "x = dmul (dmul (ddiv (1 / 1000) 60) (fl_sqrt y)) (1 / 2)"
    using assms unfolding estimate_timing_risk_def py_sqrt_def Let_def by (auto split: if_split_asm)
  then show ?thesis by (simp add: dmul_nonneg ddiv_nonneg fl_sqrt_nonneg)
qed

lemma estimate_model: "estimate_slippage m t b z side k None = Some (e, m') \<Longrightarrow> m' = m"
  using calculate_impact_model by (fastforce simp: estimate_slippage_def Let_def split: if_split_asm option.split_asm)

lemma estimate_nonneg:
  assumes "estimate_slippage m t b z side k None = Some (e, m')" and "fair_model m" and "0 \<le> z" and "fair_book (Some b)"
  shows "0 \<le> total_slippage e"
proof (cases "side_levels b side = []")
  case True
  then show ?thesis using assms(1) by (auto simp: estimate_slippage_def)
next
  case False
  then obtain w c i tm where h: "walk_orderbook (side_levels b side) z = Some (w, c)"
    "calculate_impact m z (dsum (map lv_size (take 10 (side_levels b side)))) None = Some (i, m')"
    "estimate_timing_risk z (dsum (map lv_size (take 10 (side_levels b side)))) None k = Some tm"
    "total_slippage e = dmul (dadd (dadd w i) tm) (get_strategy_multiplier k)"
    using assms(1) by (auto simp: estimate_slippage_def Let_def split: option.splits)
  have "list_all (\<lambda>l. 0 < lv_price l \<and> 0 \<le> lv_size l) (side_levels b side)"
    using assms(4) by (auto simp: fair_book_def side_levels_def)
  then have "0 \<le> w" by (rule walk_orderbook_nonneg [OF h(1)])
  moreover have "0 \<le> i" using calculate_impact_nonneg [OF h(2) assms(2,3)] by simp
  moreover have "0 \<le> tm" using timing_nonneg [OF h(3)] .
  moreover have "0 \<le> get_strategy_multiplier k" by (simp add: get_strategy_multiplier_def split: execution_strategy.split)
  ultimately show ?thesis by (simp add: h(4) dmul_nonneg dadd_nonneg)
qed

lemma side_risk_nonneg:
  "side_risk m t b side z = Some (x, m') \<Longrightarrow> fair_model m \<Longrightarrow> 0 \<le> z \<Longrightarrow> fair_book b \<Longrightarrow> 0 \<le> x"
  by (auto simp: side_risk_def dmul_nonneg split: option.splits dest: estimate_nonneg)

lemma side_risk_model: "side_risk m t b side z = Some (x, m') \<Longrightarrow> m' = m"
  by (auto simp: side_risk_def split: option.splits dest: estimate_model)

lemma execution_risk_nonneg:
  assumes "calculate_execution_risk m clk b s z = Some (x, m')" and "fair_model m" and "0 \<le> z"
    and "fair_book b" and "fair_book s"
  shows "0 \<le> x"
proof -
  obtain rb rs m1 where r1: "side_risk m (clk 0) b ''buy'' z = Some (rb, m1)" "side_risk m1 (clk 1) s ''sell'' z = Some (rs, m')"
    "x = min (dadd (dadd 0 rb) rs) 50"
    using assms(1) by (auto simp: calculate_execution_risk_def split: option.splits)
  note r = r1 [unfolded side_risk_model [OF r1(1)]]
  have "0 \<le> rb" "0 \<le> rs" using side_risk_nonneg [OF r(1)] side_risk_nonneg [OF r(2)] assms by blast+
  then show ?thesis by (simp add: r(3) dadd_nonneg)
qed

text \<open>Risk scores stay in their scale, whatever the opportunity and the books: the score is at most 100
  and its parts at most 50, 30 and 20, a market risk of 10 to 30 and a platform risk of 5 to 13 are
  always charged, and the confidence is between 0 and 1. With fair books and a size that is not
  negative no part is negative either, so the score is a number from 0 to 100.\<close>
theorem risk_scores_in_scale:
  assumes "assess_opportunity m clk opportunity kb pb = (a, m')" and "fair_model m"
  shows "ra_total a \<le> 100 \<and> ra_execution a \<le> 50 \<and> 10 \<le> ra_market a \<and> ra_market a \<le> 30 \<and>
    5 \<le> ra_platform a \<and> ra_platform a \<le> 20 \<and> 0 \<le> ra_confidence a \<and> ra_confidence a \<le> 1 \<and>
    (fair_book kb \<and> fair_book pb \<and>
     (\<forall>z. dec_of (get_or (JInt 100) (obj_of opportunity) ''max_tradeable_volume'') = Some z \<longrightarrow> 0 \<le> z) \<longrightarrow>
       0 \<le> ra_execution a \<and> 0 \<le> ra_total a)"
proof (cases "assess_unsafe m clk opportunity kb pb (opportunity_id opportunity)")
  case None
  then have "a = maximal_risk (opportunity_id opportunity)" using assms(1) by (simp add: assess_opportunity_def)
  then show ?thesis by (simp add: maximal_risk_def)
next
  case (Some r)
  then have u: "assess_unsafe m clk opportunity kb pb (opportunity_id opportunity) = Some (a, m')"
    using assms(1) by (simp add: assess_opportunity_def)
  then obtain z pm bb sb x where h: "dec_of (get_or (JInt 100) (obj_of opportunity) ''max_tradeable_volume'') = Some z"
    "bb \<in> {kb, pb}" "sb \<in> {kb, pb}" "calculate_execution_risk m clk bb sb z = Some (x, m')" "ra_execution a = x"
    "ra_market a = calculate_market_risk pm"
    "ra_platform a = calculate_platform_risk (get (obj_of opportunity) ''buy_platform'') (get (obj_of opportunity) ''sell_platform'')"
    "ra_total a = min (dadd (dadd x (ra_market a)) (ra_platform a)) 100" "ra_confidence a = calculate_confidence clk bb sb"
    by (auto simp: assess_unsafe_def Let_def split: if_splits option.splits) blast+
  have v: "ra_market a \<in> {10, 20, 30}" "ra_platform a \<in> {5, 8, 10, 13}"
    unfolding h(6,7) by (rule market_risk_values platform_risk_values)+
  have "0 \<le> ra_execution a \<and> 0 \<le> ra_total a" if "fair_book kb" "fair_book pb" "0 \<le> z"
  proof -
    have "0 \<le> x" using execution_risk_nonneg [OF h(4) assms(2)] h(2,3) that by auto
    then show ?thesis using v by (auto simp: h(5,8) intro!: dadd_nonneg)
  qed
  then show ?thesis
    using v confidence_bounds [of clk bb sb] execution_risk_le [OF h(4)] h(1,5,8,9) by auto
qed


theorem risk_scores_in_scale_witness:
  "ra_total (fst (assess_opportunity default_impact_model (\<lambda>i. 0) (JObj [(''max_tradeable_volume'', JInt 10)]) None None)) \<le> 100 \<and>
   0 \<le> ra_total (fst (assess_opportunity default_impact_model (\<lambda>i. 0) (JObj [(''max_tradeable_volume'', JInt 10)]) None None))"
proof -
  let ?r = "assess_opportunity default_impact_model (\<lambda>i. 0) (JObj [(''max_tradeable_volume'', JInt 10)]) None None"
  have "fair_model default_impact_model" by (simp add: fair_model_def default_impact_model_def)
  from risk_scores_in_scale [OF _ this, of "\<lambda>i. 0" "JObj [(''max_tradeable_volume'', JInt 10)]" None None "fst ?r" "snd ?r"]
  show ?thesis by (simp add: fair_book_def)
qed

section \<open>The executor's gate\<close>

text \<open>The executor sees an assessment as its score and its confidence, as floats; \<open>book_in\<close> tells which
  book an entry of the opportunity is.\<close>

definition engine_assess ::
    "impact_model \<Rightarrow> (nat \<Rightarrow> rat) \<Rightarrow> (json \<Rightarrow> norm_book option) \<Rightarrow> obj \<Rightarrow> json list \<Rightarrow> string + rat \<times> rat" where
  "engine_assess m clk book_in opp bs =
     (let a = fst (assess_opportunity m clk (JObj opp) (book_in (bs ! 0)) (book_in (bs ! 1))) in
      Inr (fl (ra_total a), fl (ra_confidence a)))"

lemma unscored_books:
  "calculate_confidence clk None None = 0"
  by (simp add: calculate_confidence_def)

text \<open>C35. The risk gate fails closed: with the risk engine behind it and thresholds below 100 and above 0, an
  opportunity that comes with books passes only if scoring succeeded without an exception, its score is
  within the limit, and at least one of the two books was there; an opportunity whose books are both
  absent is let through unassessed (as documented), and so is one without books.\<close>
theorem risk_gate_fails_closed:
  assumes "risk_assess E = engine_assess m clk book_in" and "MAX_RISK_SCORE cfg < 100" and "0 < MIN_RISK_CONFIDENCE cfg"
    and "get opp ''risk_orderbooks'' = JList [kb, pb]" and "\<not> (kb = JNull \<and> pb = JNull)"
    and "risk_gate E cfg opp = None"
  shows "\<exists>a m'. assess_unsafe m clk (JObj opp) (book_in kb) (book_in pb) (opportunity_id (JObj opp)) = Some (a, m') \<and>
    fl (ra_total a) \<le> MAX_RISK_SCORE cfg \<and> MIN_RISK_CONFIDENCE cfg \<le> fl (ra_confidence a) \<and>
    (book_in kb \<noteq> None \<or> book_in pb \<noteq> None)"
proof (cases "assess_unsafe m clk (JObj opp) (book_in kb) (book_in pb) (opportunity_id (JObj opp))")
  case None
  then have "fst (assess_opportunity m clk (JObj opp) (book_in kb) (book_in pb)) = maximal_risk (opportunity_id (JObj opp))"
    by (simp add: assess_opportunity_def)
  then have "risk_gate E cfg opp = Some ''risk_too_high''"
    using assms(1,2,4,5) by (simp add: risk_gate_def engine_assess_def maximal_risk_def fl_simps Let_def)
  then show ?thesis using assms(6) by simp
next
  case (Some r)
  obtain a m' where r: "r = (a, m')" by force
  have a: "fst (assess_opportunity m clk (JObj opp) (book_in kb) (book_in pb)) = a" by (simp add: assess_opportunity_def Some r)
  have gate: "fl (ra_total a) \<le> MAX_RISK_SCORE cfg" "MIN_RISK_CONFIDENCE cfg \<le> fl (ra_confidence a)"
    using assms(1,4-6) by (auto simp: risk_gate_def engine_assess_def a Let_def split: if_splits)
  have "ra_confidence a = 0" if "book_in kb = None" "book_in pb = None"
    using Some that by (auto simp: assess_unsafe_def r unscored_books Let_def split: option.splits)
  then have "book_in kb \<noteq> None \<or> book_in pb \<noteq> None" using gate(2) assms(3) by (cases "book_in kb"; cases "book_in pb") simp_all
  then show ?thesis using Some r gate by blast
qed

definition thin_book :: norm_book where
  "thin_book = \<lparr>nb_bids = [], nb_asks = [], nb_timestamp = 0, nb_sequence = JNull\<rparr>"

definition booked_opportunity :: obj where
  "booked_opportunity = [(''opportunity_id'', JStr ''o1''), (''max_tradeable_volume'', JInt 100), (''profit_margin'', JNum (1 / 8)),
     (''buy_platform'', JStr ''kalshi''), (''sell_platform'', JStr ''polymarket''), (''risk_orderbooks'', JList [JStr ''k'', JStr ''p''])]"

definition scored_env :: desk_env where
  "scored_env = \<lparr>risk_assess = engine_assess default_impact_model (\<lambda>i. 0) (\<lambda>v. if v = JStr ''k'' then Some thin_book else None),
     allowlisted = (\<lambda>_ _. True), day_of = (\<lambda>_. ''2026-01-01'')\<rparr>"

lemma booked_passes: "risk_gate scored_env default_config booked_opportunity = None"
  by code_simp

theorem risk_gate_fails_closed_witness:
  "\<exists>a m'. assess_unsafe default_impact_model (\<lambda>i. 0) (JObj booked_opportunity) (Some thin_book) None (JStr ''o1'') = Some (a, m') \<and>
     fl (ra_total a) \<le> MAX_RISK_SCORE default_config"
proof -
  let ?book = "\<lambda>v. if v = JStr ''k'' then Some thin_book else None"
  have h: "risk_assess scored_env = engine_assess default_impact_model (\<lambda>i. 0) ?book" "MAX_RISK_SCORE default_config < 100"
    "0 < MIN_RISK_CONFIDENCE default_config" "get booked_opportunity ''risk_orderbooks'' = JList [JStr ''k'', JStr ''p'']"
    "\<not> (JStr ''k'' = JNull \<and> JStr ''p'' = JNull)" "opportunity_id (JObj booked_opportunity) = JStr ''o1''"
    by (simp add: scored_env_def) code_simp+
  from risk_gate_fails_closed [OF h(1-5) booked_passes] h(6) show ?thesis by auto
qed


section \<open>The walk over a normalized book\<close>

definition places :: "nat \<Rightarrow> rat \<Rightarrow> bool" where
  "places k x \<longleftrightarrow> x * 10 ^ k \<in> \<int> \<and> \<bar>x\<bar> * 10 ^ k \<le> 10 ^ 28"

lemma six_places_iff: "six_places x \<Longrightarrow> places 6 x"
  by (auto simp: six_places_def places_def)

lemma places_exact: "k \<le> 1000 \<Longrightarrow> places k x \<Longrightarrow> dec28 x = x"
proof -
  assume k: "k \<le> 1000" and x: "places k x"
  then obtain m where m: "x * 10 ^ k = of_int m" by (auto simp: places_def Ints_def)
  then have e: "x = of_int m * of_int 10 powi (- int k)"
    by (simp add: power_int_minus field_simps)
  have "of_int \<bar>m\<bar> = \<bar>x\<bar> * 10 ^ k" using m by (metis abs_mult abs_of_nonneg of_int_abs zero_le_numeral zero_le_power)
  then have "of_int \<bar>m\<bar> \<le> (of_int (10 ^ 28) :: rat)" using x by (simp add: places_def)
  then have "\<bar>m\<bar> \<le> 10 ^ nat 28" by (simp only: of_int_le_iff) simp
  with e k show ?thesis by (intro d28.R_exact [of x m "- int k"]) auto
qed

lemma places_bound:
  "x * 10 ^ k \<in> \<int> \<Longrightarrow> \<bar>x\<bar> \<le> b \<Longrightarrow> b * 10 ^ k \<le> 10 ^ 28 \<Longrightarrow> places k x"
  unfolding places_def using mult_right_mono [of "\<bar>x\<bar>" b "10 ^ k"] by (meson order_trans zero_le_numeral zero_le_power)

text \<open>Levels as the normalizer makes them, priced as probabilities, on a book of at most a quadrillion contracts.\<close>

definition priced_levels :: "norm_level list \<Rightarrow> bool" where
  "priced_levels ls \<longleftrightarrow> list_all (\<lambda>l. lv_price l * 10 ^ 6 \<in> \<int> \<and> 0 < lv_price l \<and> lv_price l \<le> 1 \<and>
     lv_size l * 10 ^ 6 \<in> \<int> \<and> 0 \<le> lv_size l) ls \<and> sum_list (map lv_size ls) \<le> 10 ^ 15"

lemma Ints_min: "x * c \<in> \<int> \<Longrightarrow> y * c \<in> \<int> \<Longrightarrow> min x y * c \<in> (\<int> :: rat set)"
  by (simp add: min_def)

text \<open>Every sum and product of the walk is exact, so it takes as much as is wanted and there, and pays for
  it between the first and the dearest price.\<close>

lemma walk_levels_exact:
  assumes "list_all (\<lambda>l. lv_price l * 10 ^ 6 \<in> \<int> \<and> 0 < lv_price l \<and> lv_price l \<le> 1 \<and>
      lv_size l * 10 ^ 6 \<in> \<int> \<and> 0 \<le> lv_size l \<and> p \<le> lv_price l \<and> lv_price l \<le> q) ls"
    and "0 \<le> z" "z * 10 ^ 6 \<in> \<int>" "z \<le> 10 ^ 15" "0 \<le> n" "n * 10 ^ 6 \<in> \<int>" "n + sum_list (map lv_size ls) \<le> 10 ^ 15"
    and "c * 10 ^ 12 \<in> \<int>" "p * n \<le> c" "c \<le> q * n" "0 \<le> c" "c \<le> n"
  shows "case walk_levels ls z c n of (c', n') \<Rightarrow> n' = n + min z (sum_list (map lv_size ls)) \<and>
    p * n' \<le> c' \<and> c' \<le> q * n' \<and> 0 \<le> c' \<and> c' \<le> n'"
  using assms
proof (induction ls arbitrary: z c n)
  case Nil
  then show ?case by simp
next
  case (Cons l ls)
  show ?case
  proof (cases "z \<le> 0")
    case True
    have "0 \<le> sum_list (map lv_size (l # ls))" using Cons.prems(1) by (intro sum_list_nonneg) (auto simp: list_all_iff)
    then show ?thesis using True Cons.prems by simp
  next
    case False
    let ?f = "min z (lv_size l)" and ?t = "sum_list (map lv_size ls)"
    have l: "lv_price l * 10 ^ 6 \<in> \<int>" "0 < lv_price l" "lv_price l \<le> 1" "lv_size l * 10 ^ 6 \<in> \<int>" "0 \<le> lv_size l"
      "p \<le> lv_price l" "lv_price l \<le> q" using Cons.prems(1) by auto
    have t: "0 \<le> ?t" using Cons.prems(1) by (intro sum_list_nonneg) (auto simp: list_all_iff)
    have f: "0 \<le> ?f" "?f \<le> z" "?f \<le> lv_size l" using False l(5) by auto
    have fi: "?f * 10 ^ 6 \<in> \<int>" using Cons.prems(3) l(4) by (rule Ints_min)
    have zi: "(z - ?f) * 10 ^ 6 \<in> \<int>" using Ints_diff [OF Cons.prems(3) fi] by (simp add: left_diff_distrib)
    have ni: "(n + ?f) * 10 ^ 6 \<in> \<int>" using Ints_add [OF Cons.prems(6) fi] by (simp add: distrib_right)
    have pi: "?f * lv_price l * 10 ^ 12 \<in> \<int>"
      using Ints_mult [OF fi l(1)] by (simp add: mult_ac power_add [symmetric] flip: power_add)
    have ci: "(c + ?f * lv_price l) * 10 ^ 12 \<in> \<int>" using Ints_add [OF Cons.prems(8) pi] by (simp add: distrib_right)
    have paid: "0 \<le> ?f * lv_price l" "?f * lv_price l \<le> ?f"
      using mult_nonneg_nonneg [OF f(1) less_imp_le [OF l(2)]] mult_left_le [OF l(3) f(1)] by blast+
    have rem: "dsub z ?f = z - ?f"
      unfolding dsub_def using f zi Cons.prems(4) by (intro places_exact [of 6] places_bound [of _ _ "10 ^ 15"]) auto
    have con: "dadd n ?f = n + ?f"
      unfolding dadd_def using f ni Cons.prems(5,7) t by (intro places_exact [of 6] places_bound [of _ _ "10 ^ 15"]) auto
    have mul: "dmul ?f (lv_price l) = ?f * lv_price l"
      unfolding dmul_def using f pi paid Cons.prems(4) by (intro places_exact [of 12] places_bound [of _ _ "10 ^ 15"]) auto
    have cst: "dadd c (dmul ?f (lv_price l)) = c + ?f * lv_price l"
      unfolding dadd_def mul using f ci paid Cons.prems(5,7,11,12) t
      by (intro places_exact [of 12] places_bound [of _ _ "10 ^ 15"]) auto
    have lo: "p * (n + ?f) \<le> c + ?f * lv_price l" and hi: "c + ?f * lv_price l \<le> q * (n + ?f)"
      using mult_left_mono [OF l(6) f(1)] mult_left_mono [OF l(7) f(1)] Cons.prems(9,10) by (simp_all add: algebra_simps)
    have ih: "case walk_levels ls (z - ?f) (c + ?f * lv_price l) (n + ?f) of (c', n') \<Rightarrow>
        n' = n + ?f + min (z - ?f) ?t \<and> p * n' \<le> c' \<and> c' \<le> q * n' \<and> 0 \<le> c' \<and> c' \<le> n'"
    proof (rule Cons.IH)
      show "n + ?f + ?t \<le> 10 ^ 15" using f Cons.prems(7) by simp
    qed (use Cons.prems f zi ni ci lo hi paid in auto)
    moreover have "n + ?f + min (z - ?f) ?t = n + min z (lv_size l + ?t)" using t l(5) False by (simp add: min_def)
    ultimately show ?thesis using False by (simp add: rem con cst Let_def)
  qed
qed


text \<open>Slippage is what the book says: walking a normalized book of probability prices, sorted from its best
  price, for a size of at most a quadrillion takes the size or the whole side, whichever is less, and
  pays per contract between nothing over the best price and the dearest price of the book: the reported
  slippage is between 0 and the relative distance of the two prices.\<close>
theorem slippage_within_book:
  assumes "priced_levels ls" and "ls = l # r" and "list_all (\<lambda>m. lv_price l \<le> lv_price m \<and> lv_price m \<le> q) ls"
    and "0 < z" and "z * 10 ^ 6 \<in> \<int>" and "z \<le> 10 ^ 15" and "0 < sum_list (map lv_size ls)" and "q * 10 ^ 6 \<in> \<int>" and "q \<le> 1"
  shows "\<exists>s. walk_orderbook ls z = Some (s, min z (sum_list (map lv_size ls))) \<and>
    0 \<le> s \<and> s \<le> ddiv (q - lv_price l) (lv_price l)"
proof -
  let ?p = "lv_price l" and ?n = "min z (sum_list (map lv_size ls))"
  obtain c n where w: "walk_levels ls z 0 0 = (c, n)" by force
  have "case walk_levels ls z 0 0 of (c', n') \<Rightarrow> n' = 0 + min z (sum_list (map lv_size ls)) \<and>
    ?p * n' \<le> c' \<and> c' \<le> q * n' \<and> 0 \<le> c' \<and> c' \<le> n'"
    using assms by (intro walk_levels_exact) (auto simp: priced_levels_def list_all_iff)
  note w' = this [unfolded w prod.case]
  have n: "n = ?n" using w' by simp
  have c: "?p * n \<le> c" "c \<le> q * n" using w' by blast+
  have pos: "0 < ?n" using assms(4,7) by simp
  have p: "0 < ?p" "?p \<le> q" "?p * 10 ^ 6 \<in> \<int>" using assms(1-3) by (auto simp: priced_levels_def)
  have "?p \<le> c / n" "c / n \<le> q" using c pos by (simp_all add: n field_simps)
  moreover have pe: "dec28 ?p = ?p" "dec28 q = q"
    using p assms(8,9) by (auto intro!: places_exact [of 6] places_bound [of _ _ 1])
  ultimately have avg: "?p \<le> ddiv c n" "ddiv c n \<le> q"
    unfolding ddiv_def using d28.R_mono [of ?p "c / n"] d28.R_mono [of "c / n" q] by auto
  have qi: "(q - ?p) * 10 ^ 6 \<in> \<int>" using Ints_diff [OF assms(8) p(3)] by (simp add: left_diff_distrib)
  then have "dec28 (q - ?p) = q - ?p" using p assms(9) by (intro places_exact [of 6] places_bound [of _ _ 1]) auto
  then have "0 \<le> dsub (ddiv c n) ?p" "dsub (ddiv c n) ?p \<le> q - ?p"
    unfolding dsub_def using avg d28.R_mono [of "ddiv c n - ?p" "q - ?p"] d28.R_nonneg [of "ddiv c n - ?p"] by auto
  then have "0 \<le> ddiv \<bar>dsub (ddiv c n) ?p\<bar> ?p" "ddiv \<bar>dsub (ddiv c n) ?p\<bar> ?p \<le> ddiv (q - ?p) ?p"
    using p by (auto intro: ddiv_nonneg ddiv_mono)
  moreover have "walk_orderbook ls z = Some (ddiv \<bar>dsub (ddiv c n) ?p\<bar> ?p, n)"
    using pos p assms(2) w by (simp add: walk_orderbook_def n Let_def)
  ultimately show ?thesis using n by blast
qed

definition two_asks :: "norm_level list" where
  "two_asks = [\<lparr>lv_price = 1 / 2, lv_size = 100, lv_count = JNull\<rparr>, \<lparr>lv_price = 3 / 4, lv_size = 50, lv_count = JNull\<rparr>]"

theorem slippage_within_book_witness:
  "\<exists>s. walk_orderbook two_asks 120 = Some (s, 120) \<and> 0 \<le> s \<and> s \<le> ddiv (1 / 4) (1 / 2)"
proof -
  have i: "120 * 10 ^ 6 \<in> (\<int> :: rat set)" "3 / 4 * 10 ^ 6 \<in> (\<int> :: rat set)" "1 / 2 * 10 ^ 6 \<in> (\<int> :: rat set)"
    "100 * 10 ^ 6 \<in> (\<int> :: rat set)" "50 * 10 ^ 6 \<in> (\<int> :: rat set)" by simp_all
  have h: "priced_levels two_asks" "list_all (\<lambda>m. 1 / 2 \<le> lv_price m \<and> lv_price m \<le> 3 / 4) two_asks"
    "sum_list (map lv_size two_asks) = 150"
    using i by (simp_all add: two_asks_def priced_levels_def)
  have t: "two_asks = \<lparr>lv_price = 1 / 2, lv_size = 100, lv_count = JNull\<rparr> # [\<lparr>lv_price = 3 / 4, lv_size = 50, lv_count = JNull\<rparr>]"
    by (simp add: two_asks_def)
  have "\<exists>s. walk_orderbook two_asks 120 = Some (s, min 120 150) \<and> 0 \<le> s \<and> s \<le> ddiv (3 / 4 - 1 / 2) (1 / 2)"
    using slippage_within_book [OF h(1) t, of "3 / 4" 120] h(2,3) i(1,2) by simp
  then show ?thesis by simp
qed

text \<open>Volatility sticks: an estimate that is given a volatility leaves its factor in the model, and a later
  estimate without one, for whatever market, is computed as if it had been given the same volatility.\<close>
theorem volatility_sticks:
  assumes "calculate_impact m z d (Some v) = Some (x, m')" and "0 < d" and "v \<noteq> 0"
  shows "calculate_impact m' z d None = Some (x, m') \<and> volatility_factor m' = dadd 1 v \<and>
    map_option fst (calculate_impact m' z2 d2 None) = map_option fst (calculate_impact m z2 d2 (Some v))"
  using assms by (auto simp: calculate_impact_def Let_def split: option.splits if_splits)

theorem volatility_sticks_witness:
  "\<exists>x m'. calculate_impact default_impact_model 0 1 (Some 1) = Some (x, m') \<and> volatility_factor m' = dadd 1 1"
proof -
  have "case calculate_impact default_impact_model 0 1 (Some 1) of Some r \<Rightarrow> True | None \<Rightarrow> False" by code_simp
  then obtain x m' where r: "calculate_impact default_impact_model 0 1 (Some 1) = Some (x, m')" by (auto split: option.splits)
  from volatility_sticks [OF r] r show ?thesis by simp
qed

text \<open>The maximal score of an opportunity without books, a margin below two percent and Polymarket on one
  side of two venues is 93, as the engine's comment says; the default gate would reject it.\<close>

lemma unbooked_score:
  assumes "is_obj opp" "dec_of (get_or (JInt 100) (obj_of opp) ''max_tradeable_volume'') = Some z"
    and "dec_of (get_or (JInt 0) (obj_of opp) ''profit_margin'') = Some pm" "pm < 2 / 100"
    and "get (obj_of opp) ''buy_platform'' = JStr ''kalshi''" "get (obj_of opp) ''sell_platform'' = JStr ''polymarket''"
  shows "ra_total (fst (assess_opportunity m clk opp None None)) = 93"
  using assms by (simp add: assess_opportunity_def assess_unsafe_def calculate_execution_risk_def side_risk_def
      calculate_market_risk_def calculate_platform_risk_def dadd_def dec_int Let_def numeral_eq_Suc)

end
