(* ===== verification/Expressions.thy ===== *)
theory Expressions
  imports Effects "HOL-Library.List_Lexorder"
begin

text \<open>
  The condition language of \<open>research/harness/strategy_spec.py\<close>: the whitelist walk over a parsed
  expression, the names it depends on, and its evaluation by Python's \<open>eval\<close> in a namespace that
  holds four helper functions and the context of a bar. The syntax trees are those of Python's
  \<open>ast\<close> module, nodes outside the whitelist being \<open>EOther\<close> (or an \<open>Other\<close> operator) with their
  children. Values are the ones a context can hold: None, booleans, integers, floats (NaN apart),
  texts, the helper functions and the empty dictionary bound to \<open>__builtins__\<close>; constants that are
  bytes, complex numbers or the ellipsis are left out. The parser is a parameter (\<open>ast.parse\<close>), as
  are the two things the interpreter decides outside the semantics of the language: formatting with
  \<open>%\<close> and the identity of equal numbers and texts. \<open>simpleeval\<close> is not among the requirements, so
  the built-in \<open>eval\<close> is the evaluator.
\<close>

section \<open>Values and errors\<close>

datatype evexn =
    Exn pyexn
  | ZeroDivisionError
  | NameError string
  | SyntaxError
  | RuntimeError string
  | ImportError
  | FileNotFoundError string
  | PermissionError
  | TestSetAccessError string

datatype pyval =
    PNone
  | PBool bool
  | PInt int
  | PFloat rat
  | PNan
  | PStr string
  | PFun string
  | PDict

type_synonym 'a eval = "evexn + 'a"

record runtime =
  printf :: "string \<Rightarrow> pyval \<Rightarrow> pyexn + string"
  identical :: "pyval \<Rightarrow> pyval \<Rightarrow> bool"

definition sbind :: "'e + 'a \<Rightarrow> ('a \<Rightarrow> 'e + 'b) \<Rightarrow> 'e + 'b" where
  "sbind r f = (case r of Inl e \<Rightarrow> Inl e | Inr x \<Rightarrow> f x)"

lemma sbind_simps [simp]: "sbind (Inl e) f = Inl e" "sbind (Inr x) f = f x"
  by (simp_all add: sbind_def)

lemma sbind_cong [fundef_cong]: "r = r' \<Longrightarrow> (\<And>x. r' = Inr x \<Longrightarrow> f x = g x) \<Longrightarrow> sbind r f = sbind r' g"
  by (cases r') (auto simp: sbind_def)

lemma sbind_eq_Inr: "sbind r f = Inr y \<longleftrightarrow> (\<exists>x. r = Inr x \<and> f x = Inr y)"
  by (cases r) (auto simp: sbind_def)

lemma sbind_eq_Inl: "sbind r f = Inl e \<longleftrightarrow> r = Inl e \<or> (\<exists>x. r = Inr x \<and> f x = Inl e)"
  by (cases r) (auto simp: sbind_def)

abbreviation type_error :: "'a eval" where "type_error \<equiv> Inl (Exn TypeError)"

abbreviation value_error :: "'a eval" where "value_error \<equiv> Inl (Exn ValueError)"

fun truth :: "pyval \<Rightarrow> bool" where
  "truth PNone = False"
| "truth (PBool b) = b"
| "truth (PInt i) = (i \<noteq> 0)"
| "truth (PFloat x) = (x \<noteq> 0)"
| "truth PNan = True"
| "truth (PStr s) = (s \<noteq> [])"
| "truth (PFun f) = True"
| "truth PDict = False"

text \<open>Numbers: booleans count as integers; an operation with a float converts an integer operand.\<close>

datatype pynum = NI int | NF rat | NNan

fun as_num :: "pyval \<Rightarrow> pynum option" where
  "as_num (PBool b) = Some (NI (if b then 1 else 0))"
| "as_num (PInt i) = Some (NI i)"
| "as_num (PFloat x) = Some (NF x)"
| "as_num PNan = Some NNan"
| "as_num _ = None"

fun num_float :: "pynum \<Rightarrow> rat option" where
  "num_float (NI i) = Some (fl (of_int i))"
| "num_float (NF x) = Some x"
| "num_float NNan = None"

fun num_exact :: "pynum \<Rightarrow> rat option" where
  "num_exact (NI i) = Some (of_int i)"
| "num_exact (NF x) = Some x"
| "num_exact NNan = None"

definition of_float :: "rat option \<Rightarrow> pyval" where
  "of_float r = (case r of Some x \<Rightarrow> PFloat x | None \<Rightarrow> PNan)"

definition lift_float :: "(rat \<Rightarrow> rat \<Rightarrow> rat) \<Rightarrow> pynum \<Rightarrow> pynum \<Rightarrow> pyval" where
  "lift_float f a b =
     (case (num_float a, num_float b) of (Some x, Some y) \<Rightarrow> PFloat (f x y) | _ \<Rightarrow> PNan)"

section \<open>Operators\<close>

datatype binop = OpAdd | OpSub | OpMult | OpDiv | OpMod | OpOther string

datatype unop = OpNot | OpUSub | OpUAdd | OpUOther string

datatype cmpop = OpEq | OpNotEq | OpLt | OpLtE | OpGt | OpGtE | OpIs | OpIsNot | OpCOther string

definition float_mod :: "rat \<Rightarrow> rat \<Rightarrow> rat" where
  "float_mod x y =
     (let m = x - y * of_int (trunc (x / y))
      in if m \<noteq> 0 \<and> (y < 0) \<noteq> (m < 0) then fadd m y else m)"

definition num_bin :: "binop \<Rightarrow> pynum \<Rightarrow> pynum \<Rightarrow> pyval eval" where
  "num_bin bop a b =
     (case bop of
        OpAdd \<Rightarrow> Inr (case (a, b) of (NI i, NI j) \<Rightarrow> PInt (i + j) | _ \<Rightarrow> lift_float fadd a b)
      | OpSub \<Rightarrow> Inr (case (a, b) of (NI i, NI j) \<Rightarrow> PInt (i - j) | _ \<Rightarrow> lift_float fsub a b)
      | OpMult \<Rightarrow> Inr (case (a, b) of (NI i, NI j) \<Rightarrow> PInt (i * j) | _ \<Rightarrow> lift_float fmul a b)
      | OpDiv \<Rightarrow>
          if num_exact b = Some 0 then Inl ZeroDivisionError
          else Inr (case (a, b) of (NI i, NI j) \<Rightarrow> PFloat (fl (of_int i / of_int j)) | _ \<Rightarrow> lift_float fdiv a b)
      | OpMod \<Rightarrow>
          if num_exact b = Some 0 then Inl ZeroDivisionError
          else Inr (case (a, b) of (NI i, NI j) \<Rightarrow> PInt (i mod j) | _ \<Rightarrow> lift_float float_mod a b)
      | OpOther s \<Rightarrow> Inl SyntaxError)"

definition repeat_str :: "string \<Rightarrow> int \<Rightarrow> string" where
  "repeat_str s n = concat (replicate (nat n) s)"

definition binary :: "runtime \<Rightarrow> binop \<Rightarrow> pyval \<Rightarrow> pyval \<Rightarrow> pyval eval" where
  "binary rt bop v w =
     (case (as_num v, as_num w) of
        (Some a, Some b) \<Rightarrow> num_bin bop a b
      | (None, Some (NI n)) \<Rightarrow>
          (case (bop, v) of
             (OpMult, PStr s) \<Rightarrow> Inr (PStr (repeat_str s n))
           | (OpMod, PStr s) \<Rightarrow> (case printf rt s w of Inl e \<Rightarrow> Inl (Exn e) | Inr t \<Rightarrow> Inr (PStr t))
           | _ \<Rightarrow> type_error)
      | (Some (NI n), None) \<Rightarrow>
          (case (bop, w) of (OpMult, PStr s) \<Rightarrow> Inr (PStr (repeat_str s n)) | _ \<Rightarrow> type_error)
      | _ \<Rightarrow>
          (case (bop, v, w) of
             (OpAdd, PStr s, PStr t) \<Rightarrow> Inr (PStr (s @ t))
           | (OpMod, PStr s, _) \<Rightarrow> (case printf rt s w of Inl e \<Rightarrow> Inl (Exn e) | Inr t \<Rightarrow> Inr (PStr t))
           | _ \<Rightarrow> type_error))"

fun unary :: "unop \<Rightarrow> pyval \<Rightarrow> pyval eval" where
  "unary OpNot v = Inr (PBool (\<not> truth v))"
| "unary OpUSub v =
     (case as_num v of
        Some (NI i) \<Rightarrow> Inr (PInt (- i))
      | Some (NF x) \<Rightarrow> Inr (PFloat (- x))
      | Some NNan \<Rightarrow> Inr PNan
      | None \<Rightarrow> type_error)"
| "unary OpUAdd v =
     (case as_num v of
        Some (NI i) \<Rightarrow> Inr (PInt i)
      | Some (NF x) \<Rightarrow> Inr (PFloat x)
      | Some NNan \<Rightarrow> Inr PNan
      | None \<Rightarrow> type_error)"
| "unary (OpUOther s) v = Inl SyntaxError"

definition py_equal :: "pyval \<Rightarrow> pyval \<Rightarrow> bool" where
  "py_equal v w =
     (case (as_num v, as_num w) of
        (Some a, Some b) \<Rightarrow> (case (num_exact a, num_exact b) of (Some x, Some y) \<Rightarrow> x = y | _ \<Rightarrow> False)
      | (None, None) \<Rightarrow> v = w
      | _ \<Rightarrow> False)"

definition ordered :: "(rat \<Rightarrow> rat \<Rightarrow> bool) \<Rightarrow> (string \<Rightarrow> string \<Rightarrow> bool) \<Rightarrow> pyval \<Rightarrow> pyval \<Rightarrow> bool eval" where
  "ordered r rs v w =
     (case (as_num v, as_num w) of
        (Some a, Some b) \<Rightarrow>
          Inr (case (num_exact a, num_exact b) of (Some x, Some y) \<Rightarrow> r x y | _ \<Rightarrow> False)
      | _ \<Rightarrow> (case (v, w) of (PStr s, PStr t) \<Rightarrow> Inr (rs s t) | _ \<Rightarrow> type_error))"

abbreviation py_lt :: "pyval \<Rightarrow> pyval \<Rightarrow> bool eval" where "py_lt \<equiv> ordered (<) (<)"

abbreviation py_gt :: "pyval \<Rightarrow> pyval \<Rightarrow> bool eval" where "py_gt \<equiv> ordered (>) (>)"

definition singleton :: "pyval \<Rightarrow> bool" where
  "singleton v = (case v of PNone \<Rightarrow> True | PBool b \<Rightarrow> True | PFun f \<Rightarrow> True | PDict \<Rightarrow> True | _ \<Rightarrow> False)"

definition same_object :: "runtime \<Rightarrow> pyval \<Rightarrow> pyval \<Rightarrow> bool" where
  "same_object rt v w = (if singleton v \<or> singleton w then v = w else identical rt v w)"

fun compare :: "runtime \<Rightarrow> cmpop \<Rightarrow> pyval \<Rightarrow> pyval \<Rightarrow> bool eval" where
  "compare rt OpEq v w = Inr (py_equal v w)"
| "compare rt OpNotEq v w = Inr (\<not> py_equal v w)"
| "compare rt OpLt v w = py_lt v w"
| "compare rt OpLtE v w = ordered (\<le>) (\<le>) v w"
| "compare rt OpGt v w = py_gt v w"
| "compare rt OpGtE v w = ordered (\<ge>) (\<ge>) v w"
| "compare rt OpIs v w = Inr (same_object rt v w)"
| "compare rt OpIsNot v w = Inr (\<not> same_object rt v w)"
| "compare rt (OpCOther s) v w = Inl SyntaxError"

section \<open>The helper functions\<close>

definition sign_val :: "pyval \<Rightarrow> pyval eval" where
  "sign_val v =
     sbind (py_gt v (PInt 0)) (\<lambda>g. if g then Inr (PInt 1)
       else sbind (py_lt v (PInt 0)) (\<lambda>l. Inr (PInt (if l then - 1 else 0))))"

definition abs_val :: "pyval \<Rightarrow> pyval eval" where
  "abs_val v =
     (case as_num v of
        Some (NI i) \<Rightarrow> Inr (PInt \<bar>i\<bar>)
      | Some (NF x) \<Rightarrow> Inr (PFloat \<bar>x\<bar>)
      | Some NNan \<Rightarrow> Inr PNan
      | None \<Rightarrow> type_error)"

text \<open>\<open>min\<close> and \<open>max\<close> keep the first item and replace it by a later one that is strictly better
  under the key; a single argument is iterated (a text gives its characters).\<close>

definition iterate :: "pyval \<Rightarrow> pyval list eval" where
  "iterate v =
     (case v of PStr s \<Rightarrow> Inr (map (\<lambda>c. PStr [c]) s) | PDict \<Rightarrow> Inr [] | _ \<Rightarrow> type_error)"

fun pick :: "(pyval \<Rightarrow> pyval \<Rightarrow> bool eval) \<Rightarrow> (pyval \<Rightarrow> pyval eval) \<Rightarrow> pyval \<Rightarrow> pyval \<Rightarrow> pyval list \<Rightarrow> pyval eval" where
  "pick better key v k [] = Inr v"
| "pick better key v k (x # xs) =
     sbind (key x) (\<lambda>kx. sbind (better kx k) (\<lambda>b. if b then pick better key x kx xs else pick better key v k xs))"

definition extremum ::
  "(pyval \<Rightarrow> pyval \<Rightarrow> bool eval) \<Rightarrow> (pyval \<Rightarrow> pyval eval) \<Rightarrow> pyval option \<Rightarrow> pyval list \<Rightarrow> pyval eval" where
  "extremum better key dflt vs =
     (case vs of
        [] \<Rightarrow> type_error
      | [v] \<Rightarrow>
          sbind (iterate v) (\<lambda>items.
            case items of
              [] \<Rightarrow> (case dflt of Some d \<Rightarrow> Inr d | None \<Rightarrow> value_error)
            | x # xs \<Rightarrow> sbind (key x) (\<lambda>k. pick better key x k xs))
      | x # xs \<Rightarrow>
          if dflt \<noteq> None then type_error
          else sbind (key x) (\<lambda>k. pick better key x k xs))"

definition call1 :: "pyval \<Rightarrow> pyval \<Rightarrow> pyval eval" where
  "call1 f v =
     (case f of
        PFun n \<Rightarrow>
          if n = ''abs'' then abs_val v
          else if n = ''sign'' then sign_val v
          else if n = ''min'' then extremum py_lt Inr None [v]
          else if n = ''max'' then extremum py_gt Inr None [v]
          else type_error
      | _ \<Rightarrow> type_error)"

definition call :: "pyval \<Rightarrow> pyval list \<Rightarrow> (string \<times> pyval) list \<Rightarrow> pyval eval" where
  "call f vs kws =
     (case f of
        PFun n \<Rightarrow>
          if n = ''abs'' then (case (vs, kws) of ([v], []) \<Rightarrow> abs_val v | _ \<Rightarrow> type_error)
          else if n = ''sign'' then
            (case (vs, kws) of
               ([v], []) \<Rightarrow> sign_val v
             | ([], [(k, v)]) \<Rightarrow> if k = ''x'' then sign_val v else type_error
             | _ \<Rightarrow> type_error)
          else if n = ''min'' \<or> n = ''max'' then
            if list_all (\<lambda>(k, v). k = ''key'' \<or> k = ''default'') kws then
              let better = (if n = ''min'' then py_lt else py_gt);
                  key = (case map_of kws ''key'' of None \<Rightarrow> Inr | Some PNone \<Rightarrow> Inr | Some g \<Rightarrow> call1 g)
              in extremum better key (map_of kws ''default'') vs
            else type_error
          else type_error
      | _ \<Rightarrow> type_error)"

section \<open>Expressions\<close>

datatype expr =
    EConst pyval
  | EName string
  | EBool bool "expr list"
  | EBin binop expr expr
  | EUn unop expr
  | ECmp expr "cmpop list" "expr list"
  | EIf expr expr expr
  | ECall expr "expr list" "string option list" "expr list"
  | EOther string "expr list"

definition ALLOWED_FUNCTIONS :: "string list" where
  "ALLOWED_FUNCTIONS = [''abs'', ''min'', ''max'', ''sign'']"

fun allowed_bin :: "binop \<Rightarrow> bool" where
  "allowed_bin (OpOther s) = False" | "allowed_bin _ = True"

fun allowed_un :: "unop \<Rightarrow> bool" where
  "allowed_un (OpUOther s) = False" | "allowed_un _ = True"

fun allowed_cmp :: "cmpop \<Rightarrow> bool" where
  "allowed_cmp (OpCOther s) = False" | "allowed_cmp _ = True"

definition callee_ok :: "expr \<Rightarrow> bool" where
  "callee_ok f = (case f of EName n \<Rightarrow> n \<in> set ALLOWED_FUNCTIONS | _ \<Rightarrow> False)"

text \<open>The loop over \<open>ast.walk\<close>: every node is whitelisted and every call is of a helper by name.\<close>

fun nodes_ok :: "expr \<Rightarrow> bool" where
  "nodes_ok (EConst v) = True"
| "nodes_ok (EName n) = True"
| "nodes_ok (EBool c es) = list_all nodes_ok es"
| "nodes_ok (EBin bop a b) = (allowed_bin bop \<and> nodes_ok a \<and> nodes_ok b)"
| "nodes_ok (EUn uop a) = (allowed_un uop \<and> nodes_ok a)"
| "nodes_ok (ECmp a cops es) = (nodes_ok a \<and> list_all allowed_cmp cops \<and> list_all nodes_ok es)"
| "nodes_ok (EIf c a b) = (nodes_ok c \<and> nodes_ok a \<and> nodes_ok b)"
| "nodes_ok (ECall f es ks vs) = (callee_ok f \<and> nodes_ok f \<and> list_all nodes_ok es \<and> list_all nodes_ok vs)"
| "nodes_ok (EOther s es) = False"

text \<open>The identifiers of an expression (the callees among them).\<close>

fun names :: "expr \<Rightarrow> string list" where
  "names (EConst v) = []"
| "names (EName n) = [n]"
| "names (EBool c es) = concat (map names es)"
| "names (EBin bop a b) = names a @ names b"
| "names (EUn uop a) = names a"
| "names (ECmp a cops es) = names a @ concat (map names es)"
| "names (EIf c a b) = names c @ names a @ names b"
| "names (ECall f es ks vs) = names f @ concat (map names es) @ concat (map names vs)"
| "names (EOther s es) = concat (map names es)"

type_synonym parser = "string \<Rightarrow> expr option"

definition validate_expr_ast :: "parser \<Rightarrow> string \<Rightarrow> expr eval" where
  "validate_expr_ast parse src =
     (case parse src of
        None \<Rightarrow> value_error
      | Some e \<Rightarrow> if nodes_ok e then Inr e else value_error)"

definition extract_expr_names :: "parser \<Rightarrow> string \<Rightarrow> string list" where
  "extract_expr_names parse src =
     (case parse src of
        None \<Rightarrow> []
      | Some e \<Rightarrow> [n \<leftarrow> sort (remdups (names e)). n \<notin> set ALLOWED_FUNCTIONS])"

section \<open>Evaluation\<close>

type_synonym env = "string \<Rightarrow> pyval option"

text \<open>Operands are evaluated from the left; \<open>and\<close>, \<open>or\<close> and chained comparisons stop early and give
  the operand (the comparison) that decided. An argument \<open>**v\<close> is a keyword without a name: its
  value must be a mapping, and the only one there is, is empty.\<close>

fun ev :: "runtime \<Rightarrow> env \<Rightarrow> expr \<Rightarrow> pyval eval"
  and ev_bool :: "runtime \<Rightarrow> env \<Rightarrow> bool \<Rightarrow> expr list \<Rightarrow> pyval eval"
  and ev_cmp :: "runtime \<Rightarrow> env \<Rightarrow> pyval \<Rightarrow> cmpop list \<Rightarrow> expr list \<Rightarrow> pyval eval"
  and ev_args :: "runtime \<Rightarrow> env \<Rightarrow> expr list \<Rightarrow> pyval list eval"
  and ev_kws :: "runtime \<Rightarrow> env \<Rightarrow> string option list \<Rightarrow> expr list \<Rightarrow> (string \<times> pyval) list eval"
where
  "ev rt ns (EConst v) = Inr v"
| "ev rt ns (EName n) = (case ns n of Some v \<Rightarrow> Inr v | None \<Rightarrow> Inl (NameError n))"
| "ev rt ns (EBool c es) = ev_bool rt ns c es"
| "ev rt ns (EBin bop a b) = sbind (ev rt ns a) (\<lambda>v. sbind (ev rt ns b) (\<lambda>w. binary rt bop v w))"
| "ev rt ns (EUn uop a) = sbind (ev rt ns a) (unary uop)"
| "ev rt ns (ECmp a cops es) = sbind (ev rt ns a) (\<lambda>v. ev_cmp rt ns v cops es)"
| "ev rt ns (EIf c a b) = sbind (ev rt ns c) (\<lambda>v. if truth v then ev rt ns a else ev rt ns b)"
| "ev rt ns (ECall f es ks vs) =
     sbind (ev rt ns f) (\<lambda>g. sbind (ev_args rt ns es) (\<lambda>xs. sbind (ev_kws rt ns ks vs) (\<lambda>kws. call g xs kws)))"
| "ev rt ns (EOther s es) = Inl SyntaxError"
| "ev_bool rt ns c [] = Inr (PBool c)"
| "ev_bool rt ns c (e # es) =
     sbind (ev rt ns e) (\<lambda>v. if es \<noteq> [] \<and> truth v = c then ev_bool rt ns c es else Inr v)"
| "ev_cmp rt ns v (cop # cops) (e # es) =
     sbind (ev rt ns e) (\<lambda>w. sbind (compare rt cop v w) (\<lambda>b.
       if b \<and> es \<noteq> [] then ev_cmp rt ns w cops es else Inr (PBool b)))"
| "ev_cmp rt ns v _ _ = Inr v"
| "ev_args rt ns [] = Inr []"
| "ev_args rt ns (e # es) = sbind (ev rt ns e) (\<lambda>v. sbind (ev_args rt ns es) (\<lambda>vs. Inr (v # vs)))"
| "ev_kws rt ns (k # ks) (e # es) =
     sbind (ev rt ns e) (\<lambda>v. case k of
         None \<Rightarrow> if v = PDict then ev_kws rt ns ks es else type_error
       | Some n \<Rightarrow> sbind (ev_kws rt ns ks es) (\<lambda>kws. Inr ((n, v) # kws)))"
| "ev_kws rt ns _ _ = Inr []"

text \<open>\<open>eval\<close> compiles first: a keyword given twice in one call is a syntax error.\<close>

fun compiles :: "expr \<Rightarrow> bool" where
  "compiles (EBool c es) = list_all compiles es"
| "compiles (EBin bop a b) = (compiles a \<and> compiles b)"
| "compiles (EUn uop a) = compiles a"
| "compiles (ECmp a cops es) = (compiles a \<and> list_all compiles es)"
| "compiles (EIf c a b) = (compiles c \<and> compiles a \<and> compiles b)"
| "compiles (ECall f es ks vs) =
     (compiles f \<and> list_all compiles es \<and> list_all compiles vs \<and> distinct [k \<leftarrow> ks. k \<noteq> None])"
| "compiles _ = True"

definition namespace :: "env \<Rightarrow> env" where
  "namespace ctx n =
     (case ctx n of
        Some v \<Rightarrow> Some v
      | None \<Rightarrow>
          if n \<in> set ALLOWED_FUNCTIONS then Some (PFun n)
          else if n = ''__builtins__'' then Some PDict
          else None)"

record condition =
  expr_src :: string
  cond_description :: string

definition eval_condition :: "runtime \<Rightarrow> parser \<Rightarrow> condition \<Rightarrow> env \<Rightarrow> bool eval" where
  "eval_condition rt parse c ctx =
     sbind (validate_expr_ast parse (expr_src c)) (\<lambda>e.
       if compiles e then sbind (ev rt (namespace ctx) e) (\<lambda>v. Inr (truth v))
       else Inl SyntaxError)"

section \<open>What an evaluation reads, and what it can raise\<close>

definition unbound :: "'a eval \<Rightarrow> bool" where
  "unbound r = (\<exists>n. r = Inl (NameError n))"

lemma unbound_simps [simp]:
  "\<not> unbound (Inr x)" "\<not> unbound (Inl (Exn e))" "\<not> unbound (Inl ZeroDivisionError)" "\<not> unbound (Inl SyntaxError)"
  "unbound (Inl (NameError n))"
  by (simp_all add: unbound_def)

lemma unbound_sbind [simp]: "unbound (sbind r f) \<longleftrightarrow> unbound r \<or> (\<exists>x. r = Inr x \<and> unbound (f x))"
  by (cases r) (auto simp: unbound_def)

lemma no_names_in_operators [simp]:
  "\<not> unbound (num_bin bop a b)" "\<not> unbound (binary rt bop v w)" "\<not> unbound (unary uop v)"
  "\<not> unbound (ordered r rs v w)" "\<not> unbound (compare rt cop v w)"
proof -
  show n: "\<not> unbound (num_bin bop a b)" for bop a b
    by (cases bop) (auto simp: num_bin_def)
  show "\<not> unbound (binary rt bop v w)"
    using n by (auto simp: binary_def split: option.split pynum.split binop.split pyval.split sum.split)
  show "\<not> unbound (unary uop v)"
    by (cases uop) (auto split: option.split pynum.split)
  show o: "\<not> unbound (ordered r rs v w)" for r rs
    by (auto simp: ordered_def split: option.split pyval.split)
  show "\<not> unbound (compare rt cop v w)"
    by (cases cop) (auto simp: o)
qed

lemma no_names_in_helpers [simp]:
  "\<not> unbound (abs_val v)" "\<not> unbound (sign_val v)" "\<not> unbound (iterate v)"
  by (auto simp: abs_val_def sign_val_def iterate_def split: option.split pynum.split pyval.split)

lemma no_names_in_pick:
  "(\<And>x y. \<not> unbound (better x y)) \<Longrightarrow> (\<And>x. \<not> unbound (key x)) \<Longrightarrow> \<not> unbound (pick better key v k xs)"
  by (induction xs arbitrary: v k) auto

lemma no_names_in_extremum:
  "(\<And>x y. \<not> unbound (better x y)) \<Longrightarrow> (\<And>x. \<not> unbound (key x)) \<Longrightarrow> \<not> unbound (extremum better key d vs)"
  by (auto simp: extremum_def no_names_in_pick split: list.split option.split)

lemma no_names_in_call1 [simp]: "\<not> unbound (call1 f v)"
  by (auto simp: call1_def no_names_in_extremum split: pyval.split)

lemma no_names_in_call [simp]: "\<not> unbound (call f vs kws)"
  by (auto simp: call_def Let_def no_names_in_extremum split: pyval.split list.split option.split)

lemma ev_bound_names:
  "set (names e) \<subseteq> dom ns \<Longrightarrow> \<not> unbound (ev rt ns e)"
  "(\<Union>e\<in>set es. set (names e)) \<subseteq> dom ns \<Longrightarrow> \<not> unbound (ev_bool rt ns c es)"
  "(\<Union>e\<in>set es. set (names e)) \<subseteq> dom ns \<Longrightarrow> \<not> unbound (ev_cmp rt ns v cops es)"
  "(\<Union>e\<in>set es. set (names e)) \<subseteq> dom ns \<Longrightarrow> \<not> unbound (ev_args rt ns es)"
  "(\<Union>e\<in>set es. set (names e)) \<subseteq> dom ns \<Longrightarrow> \<not> unbound (ev_kws rt ns ks es)"
proof (induction rt ns e and rt ns c es and rt ns v cops es and rt ns es and rt ns ks es
       rule: ev_ev_bool_ev_cmp_ev_args_ev_kws.induct)
qed (auto split: option.split)

definition agree :: "env \<Rightarrow> env \<Rightarrow> string set \<Rightarrow> bool" where
  "agree ns ns' A = (\<forall>n\<in>A. ns n = ns' n)"

lemma agree_simps [simp]:
  "agree ns ns' {}" "agree ns ns' (insert n A) \<longleftrightarrow> ns n = ns' n \<and> agree ns ns' A"
  "agree ns ns' (A \<union> A') \<longleftrightarrow> agree ns ns' A \<and> agree ns ns' A'" "agree ns ns A"
  by (auto simp: agree_def)

lemma agree_mono: "agree ns ns' A \<Longrightarrow> A' \<subseteq> A \<Longrightarrow> agree ns ns' A'"
  by (auto simp: agree_def)

lemma ev_agree:
  "agree ns ns' (set (names e)) \<Longrightarrow> ev rt ns e = ev rt ns' e"
  "agree ns ns' (\<Union>e\<in>set es. set (names e)) \<Longrightarrow> ev_bool rt ns c es = ev_bool rt ns' c es"
  "agree ns ns' (\<Union>e\<in>set es. set (names e)) \<Longrightarrow> ev_cmp rt ns v cops es = ev_cmp rt ns' v cops es"
  "agree ns ns' (\<Union>e\<in>set es. set (names e)) \<Longrightarrow> ev_args rt ns es = ev_args rt ns' es"
  "agree ns ns' (\<Union>e\<in>set es. set (names e)) \<Longrightarrow> ev_kws rt ns ks es = ev_kws rt ns' ks es"
proof (induction rt ns e and rt ns c es and rt ns v cops es and rt ns es and rt ns ks es
       rule: ev_ev_bool_ev_cmp_ev_args_ev_kws.induct)
qed (auto intro!: sbind_cong split: option.split)

end
