(* ===== verification/Strategy.thy ===== *)
theory Strategy
  imports Expressions
begin

text \<open>
  The feature registry (\<open>research/features/registry.py\<close>, \<open>computers.py\<close>) and the strategy contract
  (\<open>research/harness/strategy_spec.py\<close>). A bar is a partial map from column names to values. The
  registry keeps its specs in a dictionary and a cache of resolved functions; the only module a
  dotted path can name is \<open>research.features.computers\<close>, whose functions are its table here. Texts
  that only describe (a spec's description) and the JSON form of a spec are left out.
\<close>

section \<open>Bars and feature functions\<close>

type_synonym bar = env

definition bar_get :: "bar \<Rightarrow> string \<Rightarrow> pyval" where
  "bar_get b k = (case b k of Some v \<Rightarrow> v | None \<Rightarrow> PNone)"

fun float_of :: "pyval \<Rightarrow> pyval eval" where
  "float_of (PBool b) = Inr (PFloat (if b then 1 else 0))"
| "float_of (PInt i) = Inr (PFloat (fl (of_int i)))"
| "float_of (PFloat x) = Inr (PFloat x)"
| "float_of PNan = Inr PNan"
| "float_of (PStr s) = (case parse_float s of Some x \<Rightarrow> Inr (PFloat x) | None \<Rightarrow> value_error)"
| "float_of _ = type_error"

definition to_float :: "pyval \<Rightarrow> pyval" where
  "to_float v = (case float_of v of Inr x \<Rightarrow> x | Inl e \<Rightarrow> PNone)"

type_synonym computer = "bar \<Rightarrow> rat \<Rightarrow> pyval"

definition compute_margin :: computer where
  "compute_margin b gc = to_float (bar_get b ''margin'')"

definition compute_time_remaining :: computer where
  "compute_time_remaining b gc = PFloat (if gc \<le> 2880 then fsub 2880 gc else 0)"

definition compute_pace_ppm :: computer where
  "compute_pace_ppm b gc =
     (case to_float (bar_get b ''total'') of
        PFloat t \<Rightarrow> PFloat (fdiv t (fdiv (max gc 1) 60))
      | v \<Rightarrow> v)"

definition compute_recent_run_signed :: computer where
  "compute_recent_run_signed b gc =
     (case to_float (bar_get b ''recent_run_signed_4m'') of PNan \<Rightarrow> PNone | v \<Rightarrow> v)"

definition compute_lineup_hash :: computer where
  "compute_lineup_hash b gc = to_float (bar_get b ''lineup_sig'')"

definition compute_home_stars_on :: computer where
  "compute_home_stars_on b gc = to_float (bar_get b ''home_stars_on'')"

definition compute_away_stars_on :: computer where
  "compute_away_stars_on b gc = to_float (bar_get b ''away_stars_on'')"

definition compute_kalshi_implied_wp :: computer where
  "compute_kalshi_implied_wp b gc = to_float (bar_get b ''kalshi_home_winprob'')"

definition compute_pm_implied_wp :: computer where
  "compute_pm_implied_wp b gc = to_float (bar_get b ''pm_home_mid'')"

definition compute_lead_changes_cum :: computer where
  "compute_lead_changes_cum b gc = to_float (bar_get b ''lead_changes_cum'')"

definition compute_espn_home_winprob :: computer where
  "compute_espn_home_winprob b gc = to_float (bar_get b ''espn_home_winprob'')"

definition computers :: "(string \<times> computer) list" where
  "computers =
     [(''compute_margin'', compute_margin),
      (''compute_time_remaining'', compute_time_remaining),
      (''compute_pace_ppm'', compute_pace_ppm),
      (''compute_recent_run_signed'', compute_recent_run_signed),
      (''compute_lineup_hash'', compute_lineup_hash),
      (''compute_home_stars_on'', compute_home_stars_on),
      (''compute_away_stars_on'', compute_away_stars_on),
      (''compute_kalshi_implied_wp'', compute_kalshi_implied_wp),
      (''compute_pm_implied_wp'', compute_pm_implied_wp),
      (''compute_lead_changes_cum'', compute_lead_changes_cum),
      (''compute_espn_home_winprob'', compute_espn_home_winprob)]"

section \<open>The registry\<close>

record feature_spec =
  feature_name :: string
  compute_fn_path :: string
  feature_source :: string
  latency_ms :: int
  available_at_offset_sec :: int
  is_live_safe :: bool
  revisable :: bool

record registry =
  reg_specs :: "(string \<times> feature_spec) list"
  fn_cache :: "(string \<times> computer) list"

definition register :: "feature_spec \<Rightarrow> registry \<Rightarrow> registry eval" where
  "register sp reg =
     (if map_of (reg_specs reg) (feature_name sp) \<noteq> None then value_error
      else Inr (reg\<lparr>reg_specs := reg_specs reg @ [(feature_name sp, sp)]\<rparr>))"

definition get_feature :: "registry \<Rightarrow> string \<Rightarrow> feature_spec eval" where
  "get_feature reg n =
     (case map_of (reg_specs reg) n of None \<Rightarrow> Inl (Exn KeyError) | Some sp \<Rightarrow> Inr sp)"

definition list_live_safe :: "registry \<Rightarrow> string list" where
  "list_live_safe reg = sort (map fst [(n, sp) \<leftarrow> reg_specs reg. is_live_safe sp])"

definition validate_strategy_features :: "registry \<Rightarrow> string list \<Rightarrow> unit eval" where
  "validate_strategy_features reg fnames =
     (let unregistered = [n \<leftarrow> fnames. map_of (reg_specs reg) n = None];
          not_live_safe = [n \<leftarrow> fnames. case map_of (reg_specs reg) n of None \<Rightarrow> False | Some sp \<Rightarrow> \<not> is_live_safe sp]
      in if unregistered = [] \<and> not_live_safe = [] then Inr () else value_error)"

definition rpartition_dot :: "string \<Rightarrow> string \<times> string" where
  "rpartition_dot s =
     (let r = rev s; rest = dropWhile (\<lambda>c. c \<noteq> CHR ''.'') r
      in if rest = [] then ([], s) else (rev (tl rest), rev (takeWhile (\<lambda>c. c \<noteq> CHR ''.'') r)))"

definition resolve_path :: "string \<Rightarrow> computer eval" where
  "resolve_path path =
     (let (module_path, attr) = rpartition_dot path
      in if module_path = [] \<or> attr = [] then Inl (RuntimeError ''malformed'')
         else if module_path \<noteq> ''research.features.computers'' then Inl ImportError
         else case map_of computers attr of
             None \<Rightarrow> Inl (RuntimeError ''no attribute'')
           | Some f \<Rightarrow> Inr f)"

definition resolve :: "feature_spec \<Rightarrow> registry \<Rightarrow> computer eval \<times> registry" where
  "resolve sp reg =
     (case map_of (fn_cache reg) (feature_name sp) of
        Some f \<Rightarrow> (Inr f, reg)
      | None \<Rightarrow>
          (case resolve_path (compute_fn_path sp) of
             Inl e \<Rightarrow> (Inl e, reg)
           | Inr f \<Rightarrow> (Inr f, reg\<lparr>fn_cache := AList.update (feature_name sp) f (fn_cache reg)\<rparr>)))"

definition compute :: "string \<Rightarrow> bar \<Rightarrow> rat \<Rightarrow> registry \<Rightarrow> pyval eval \<times> registry" where
  "compute n b gc reg =
     (case get_feature reg n of
        Inl e \<Rightarrow> (Inl e, reg)
      | Inr sp \<Rightarrow>
          if gc < of_int (available_at_offset_sec sp) then (Inl (RuntimeError n), reg)
          else (case resolve sp reg of
              (Inl e, reg') \<Rightarrow> (Inl e, reg')
            | (Inr f, reg') \<Rightarrow> (Inr (f b gc), reg')))"

definition seed_feature :: "string \<Rightarrow> string \<Rightarrow> int \<Rightarrow> int \<Rightarrow> bool \<Rightarrow> bool \<Rightarrow> feature_spec" where
  "seed_feature n src lat off live revises =
     \<lparr>feature_name = n, compute_fn_path = ''research.features.computers.compute_'' @ n, feature_source = src,
      latency_ms = lat, available_at_offset_sec = off, is_live_safe = live, revisable = revises\<rparr>"

definition seed_features :: "feature_spec list" where
  "seed_features =
     [seed_feature ''margin'' ''espn_pbp'' 5000 0 True False,
      seed_feature ''time_remaining'' ''derived'' 0 0 True False,
      seed_feature ''pace_ppm'' ''derived'' 5000 120 True False,
      seed_feature ''recent_run_signed'' ''espn_pbp'' 5000 240 True False,
      seed_feature ''lineup_hash'' ''espn_pbp'' 5000 60 True False,
      seed_feature ''home_stars_on'' ''espn_pbp'' 5000 60 True False,
      seed_feature ''away_stars_on'' ''espn_pbp'' 5000 60 True False,
      seed_feature ''kalshi_implied_wp'' ''kalshi_rest'' 1000 0 True True,
      seed_feature ''pm_implied_wp'' ''polymarket_clob'' 1000 0 True True,
      seed_feature ''lead_changes_cum'' ''espn_pbp'' 5000 0 True False,
      seed_feature ''espn_home_winprob'' ''espn_winprob'' 5000 0 False True]"

fun register_all :: "feature_spec list \<Rightarrow> registry \<Rightarrow> registry eval" where
  "register_all [] reg = Inr reg"
| "register_all (sp # sps) reg = sbind (register sp reg) (register_all sps)"

definition REGISTRY :: registry where
  "REGISTRY =
     (case register_all seed_features \<lparr>reg_specs = [], fn_cache = []\<rparr> of
        Inr reg \<Rightarrow> reg
      | Inl e \<Rightarrow> \<lparr>reg_specs = [], fn_cache = []\<rparr>)"

section \<open>The strategy contract\<close>

record sizing_rule =
  sizing_mode :: string
  sizing_value :: rat
  max_position_contracts :: int

record strategy_spec =
  spec_name :: string
  spec_description :: string
  features :: "string list"
  entry_condition :: condition
  exit_conditions :: "condition list"
  sizing :: sizing_rule
  time_stop_sec :: int
  spec_side :: string
  spec_venue :: string
  cost_assumption_bps :: "int option"

definition BUILTIN_CONTEXT_KEYS :: "string list" where
  "BUILTIN_CONTEXT_KEYS =
     [''home_score'', ''away_score'', ''elapsed_game_sec'', ''pos_side'', ''pos_entry_price'',
      ''pos_entry_elapsed'', ''pos_size'', ''minutes_since_entry'', ''unrealized_pnl_bps'',
      ''True'', ''False'', ''None'']"

definition ALLOWED_SIZING_MODES :: "string list" where
  "ALLOWED_SIZING_MODES = [''fixed_contracts'', ''fixed_dollars'', ''kelly_fraction'']"

definition ALLOWED_SIDES :: "string list" where
  "ALLOWED_SIDES = [''long_home'', ''long_away'', ''long_trailing'', ''long_hot'', ''long_cold'']"

definition ALLOWED_VENUES :: "string list" where
  "ALLOWED_VENUES = [''kalshi'', ''polymarket'', ''either'']"

definition check_condition :: "parser \<Rightarrow> strategy_spec \<Rightarrow> condition \<Rightarrow> unit eval" where
  "check_condition parse spec c =
     sbind (validate_expr_ast parse (expr_src c)) (\<lambda>e.
       if [n \<leftarrow> extract_expr_names parse (expr_src c). n \<notin> set (features spec) \<and> n \<notin> set BUILTIN_CONTEXT_KEYS] = []
       then Inr () else value_error)"

fun check_conditions :: "parser \<Rightarrow> strategy_spec \<Rightarrow> condition list \<Rightarrow> unit eval" where
  "check_conditions parse spec [] = Inr ()"
| "check_conditions parse spec (c # cs) =
     sbind (check_condition parse spec c) (\<lambda>u. check_conditions parse spec cs)"

definition validate :: "parser \<Rightarrow> registry \<Rightarrow> strategy_spec \<Rightarrow> unit eval" where
  "validate parse reg spec =
     (if spec_side spec \<notin> set ALLOWED_SIDES then value_error
      else if spec_venue spec \<notin> set ALLOWED_VENUES then value_error
      else if sizing_mode (sizing spec) \<notin> set ALLOWED_SIZING_MODES then value_error
      else if sizing_value (sizing spec) \<le> 0 then value_error
      else if max_position_contracts (sizing spec) < 1 then value_error
      else if time_stop_sec spec < 0 \<or> 7200 < time_stop_sec spec then value_error
      else if (case cost_assumption_bps spec of None \<Rightarrow> False | Some bps \<Rightarrow> bps < 0) then value_error
      else sbind (validate_strategy_features reg (features spec)) (\<lambda>u.
        if exit_conditions spec = [] then value_error
        else check_conditions parse spec (entry_condition spec # exit_conditions spec)))"

section \<open>Lemmas on the registry\<close>

lemma register_specs:
  "register sp reg = Inr reg' \<Longrightarrow>
     reg_specs reg' = reg_specs reg @ [(feature_name sp, sp)] \<and> map_of (reg_specs reg) (feature_name sp) = None
     \<and> fn_cache reg' = fn_cache reg"
  by (auto simp: register_def split: if_splits)

lemma REGISTRY_eq:
  "REGISTRY = \<lparr>reg_specs = map (\<lambda>sp. (feature_name sp, sp)) seed_features, fn_cache = []\<rparr>"
  by (simp add: REGISTRY_def seed_features_def seed_feature_def register_def)

text \<open>The cache is transparent: what it holds is what the path of the registered spec resolves to.\<close>

definition cache_ok :: "registry \<Rightarrow> bool" where
  "cache_ok reg = (\<forall>n f. map_of (fn_cache reg) n = Some f \<longrightarrow>
     (\<exists>sp. map_of (reg_specs reg) n = Some sp \<and> resolve_path (compute_fn_path sp) = Inr f))"

definition names_ok :: "registry \<Rightarrow> bool" where
  "names_ok reg = (\<forall>n sp. map_of (reg_specs reg) n = Some sp \<longrightarrow> feature_name sp = n)"

definition compute_value :: "string \<Rightarrow> bar \<Rightarrow> rat \<Rightarrow> registry \<Rightarrow> pyval eval" where
  "compute_value n b gc reg =
     sbind (get_feature reg n) (\<lambda>sp.
       if gc < of_int (available_at_offset_sec sp) then Inl (RuntimeError n)
       else sbind (resolve_path (compute_fn_path sp)) (\<lambda>f. Inr (f b gc)))"

datatype reg_op = Register feature_spec | Compute string bar rat

fun reg_step :: "reg_op \<Rightarrow> registry \<Rightarrow> registry" where
  "reg_step (Register sp) reg = (case register sp reg of Inl e \<Rightarrow> reg | Inr reg' \<Rightarrow> reg')"
| "reg_step (Compute n b gc) reg = snd (compute n b gc reg)"

definition reg_run :: "reg_op list \<Rightarrow> registry" where
  "reg_run ops = fold reg_step ops REGISTRY"

lemma compute_step:
  assumes "cache_ok reg" "names_ok reg"
  shows "fst (compute n b gc reg) = compute_value n b gc reg"
    and "cache_ok (snd (compute n b gc reg))"
    and "reg_specs (snd (compute n b gc reg)) = reg_specs reg"
proof -
  consider "map_of (reg_specs reg) n = None"
    | sp where "map_of (reg_specs reg) n = Some sp" "feature_name sp = n"
    using assms(2) by (cases "map_of (reg_specs reg) n") (auto simp: names_ok_def)
  then have "fst (compute n b gc reg) = compute_value n b gc reg \<and> cache_ok (snd (compute n b gc reg))
     \<and> reg_specs (snd (compute n b gc reg)) = reg_specs reg"
  proof cases
    case 1
    then show ?thesis using assms(1) by (simp add: compute_def compute_value_def get_feature_def)
  next
    case 2
    show ?thesis
    proof (cases "map_of (fn_cache reg) n")
      case None
      then show ?thesis using 2 assms(1)
        by (cases "resolve_path (compute_fn_path sp)")
           (auto simp: compute_def compute_value_def get_feature_def resolve_def cache_ok_def map_of_update)
    next
      case (Some f)
      then have "resolve_path (compute_fn_path sp) = Inr f"
        using 2 assms(1) unfolding cache_ok_def by (metis option.inject)
      then show ?thesis using 2 assms(1) Some
        by (auto simp: compute_def compute_value_def get_feature_def resolve_def)
    qed
  qed
  then show "fst (compute n b gc reg) = compute_value n b gc reg"
    and "cache_ok (snd (compute n b gc reg))" and "reg_specs (snd (compute n b gc reg)) = reg_specs reg" by auto
qed

lemma register_step:
  assumes "cache_ok reg" "names_ok reg" "register sp reg = Inr reg'"
  shows "cache_ok reg' \<and> names_ok reg'"
proof -
  have new: "map_of (reg_specs reg) (feature_name sp) = None" and cache: "fn_cache reg' = fn_cache reg"
    and look: "map_of (reg_specs reg') n = (if n = feature_name sp then Some sp else map_of (reg_specs reg) n)" for n
    using register_specs [OF assms(3)] by (auto simp: map_add_def split: option.split)
  have "cache_ok reg'"
    unfolding cache_ok_def cache look
    using assms(1) new by (simp add: cache_ok_def) (metis option.distinct(1))
  then show ?thesis using assms(2) by (auto simp: names_ok_def look)
qed

lemma REGISTRY_ok: "cache_ok REGISTRY" "names_ok REGISTRY"
  by (simp_all add: REGISTRY_eq cache_ok_def names_ok_def seed_features_def seed_feature_def)

lemma reg_run_ok: "cache_ok (reg_run ops) \<and> names_ok (reg_run ops)"
proof -
  have "cache_ok (reg_step st reg) \<and> names_ok (reg_step st reg)" if "cache_ok reg" "names_ok reg" for st reg
    using that register_step [OF that] compute_step(2,3) [OF that]
    by (cases st) (auto simp: names_ok_def split: sum.split)
  then have "cache_ok (fold reg_step ops reg) \<and> names_ok (fold reg_step ops reg)" if "cache_ok reg" "names_ok reg" for reg
    using that by (induction ops arbitrary: reg) auto
  then show ?thesis using REGISTRY_ok by (simp add: reg_run_def)
qed

text \<open>C23. The function cache of the registry cannot be observed: after any sequence of registrations and
  computations, starting from the seed registry, a computed feature is what its registered spec says
  (the availability check, then the function its dotted path resolves to), as if there were no cache.\<close>

theorem registry_cache_transparent:
  "fst (compute n b gc (reg_run ops)) = compute_value n b gc (reg_run ops)"
  using compute_step(1) reg_run_ok by blast

section \<open>What a validated strategy may read\<close>

abbreviation conditions :: "strategy_spec \<Rightarrow> condition list" where
  "conditions spec \<equiv> entry_condition spec # exit_conditions spec"

lemma validate_strategy_features_Inr:
  "validate_strategy_features reg fnames = Inr () \<longleftrightarrow>
     (\<forall>n\<in>set fnames. \<exists>sp. map_of (reg_specs reg) n = Some sp \<and> is_live_safe sp)"
proof -
  have "(map_of (reg_specs reg) n \<noteq> None \<and>
      \<not> (case map_of (reg_specs reg) n of None \<Rightarrow> False | Some sp \<Rightarrow> \<not> is_live_safe sp)) \<longleftrightarrow>
      (\<exists>sp. map_of (reg_specs reg) n = Some sp \<and> is_live_safe sp)" for n
    by (cases "map_of (reg_specs reg) n") auto
  then show ?thesis unfolding validate_strategy_features_def Let_def filter_empty_conv
    by (metis (lifting) sum.distinct(1))
qed

lemma check_conditions_Inr:
  "check_conditions parse spec cs = Inr () \<longleftrightarrow> (\<forall>c\<in>set cs. check_condition parse spec c = Inr ())"
  by (induction cs) (auto simp: sbind_eq_Inr)

lemma check_condition_Inr:
  "check_condition parse spec c = Inr () \<longleftrightarrow>
     (\<exists>e. parse (expr_src c) = Some e \<and> nodes_ok e \<and>
        set (names e) \<subseteq> set (features spec) \<union> set BUILTIN_CONTEXT_KEYS \<union> set ALLOWED_FUNCTIONS)"
  by (auto simp: check_condition_def validate_expr_ast_def extract_expr_names_def filter_empty_conv
           split: option.split)

lemma validate_Inr:
  assumes "validate parse reg spec = Inr ()"
  shows "\<forall>n\<in>set (features spec). \<exists>sp. map_of (reg_specs reg) n = Some sp \<and> is_live_safe sp"
    and "\<forall>c\<in>set (conditions spec). check_condition parse spec c = Inr ()"
    and "exit_conditions spec \<noteq> []" and "0 < sizing_value (sizing spec)"
    and "0 \<le> time_stop_sec spec" and "spec_side spec \<in> set ALLOWED_SIDES" and "spec_venue spec \<in> set ALLOWED_VENUES"
  using assms unfolding validate_def
  by (auto simp: sbind_eq_Inr validate_strategy_features_Inr check_conditions_Inr split: if_split_asm)

text \<open>Python never parses True, False or None as a name.\<close>

definition parser_ok :: "parser \<Rightarrow> bool" where
  "parser_ok parse = (\<forall>src e. parse src = Some e \<longrightarrow> set (names e) \<inter> {''True'', ''False'', ''None''} = {})"

lemma dom_namespace: "dom ctx \<union> set ALLOWED_FUNCTIONS \<subseteq> dom (namespace ctx)"
  by (auto simp: namespace_def split: option.split)

lemma sets_bound:
  "N \<subseteq> F \<union> B \<union> A \<Longrightarrow> N \<inter> T = {} \<Longrightarrow> F \<union> (B - T) \<subseteq> D \<Longrightarrow> D \<union> A \<subseteq> E \<Longrightarrow> N \<subseteq> E"
  for N F B A T D E :: "'a set"
  by blast

lemma sets_live: "F \<subseteq> L \<Longrightarrow> F \<union> B \<union> A \<subseteq> L \<union> B \<union> A" for F L B A :: "'a set"
  by blast

lemma condition_names_bound:
  assumes "check_condition parse spec c = Inr ()" "parser_ok parse"
    and "set (features spec) \<union> (set BUILTIN_CONTEXT_KEYS - {''True'', ''False'', ''None''}) \<subseteq> dom ctx"
  shows "\<not> unbound (eval_condition rt parse c ctx)"
proof -
  obtain e where e: "parse (expr_src c) = Some e" "nodes_ok e"
    and n: "set (names e) \<subseteq> set (features spec) \<union> set BUILTIN_CONTEXT_KEYS \<union> set ALLOWED_FUNCTIONS"
    using assms(1) by (auto simp: check_condition_Inr)
  have "set (names e) \<inter> {''True'', ''False'', ''None''} = {}" using assms(2) e by (simp add: parser_ok_def)
  then have "set (names e) \<subseteq> dom (namespace ctx)" by (rule sets_bound [OF n _ assms(3) dom_namespace])
  then show ?thesis using e ev_bound_names(1) [of e "namespace ctx" rt]
    by (simp add: eval_condition_def validate_expr_ast_def)
qed

text \<open>Type safety of the condition language: when a strategy is accepted by \<open>validate\<close>, none of its
  conditions can raise a NameError in a context that holds its declared features and the built-in
  keys, whatever their values are.\<close>

theorem validated_conditions_never_unbound:
  assumes "validate parse reg spec = Inr ()" and "c \<in> set (conditions spec)" and "parser_ok parse"
    and "set (features spec) \<union> (set BUILTIN_CONTEXT_KEYS - {''True'', ''False'', ''None''}) \<subseteq> dom ctx"
  shows "eval_condition rt parse c ctx \<noteq> Inl (NameError n)"
  using condition_names_bound [of parse spec c ctx rt] validate_Inr(2) [OF assms(1)] assms(2-)
  by (auto simp: unbound_def)

lemma condition_agree:
  assumes "check_condition parse spec c = Inr ()"
    and "agree ctx ctx' (set (features spec) \<union> set BUILTIN_CONTEXT_KEYS \<union> set ALLOWED_FUNCTIONS)"
  shows "eval_condition rt parse c ctx = eval_condition rt parse c ctx'"
proof -
  obtain e where e: "parse (expr_src c) = Some e" "nodes_ok e"
    and n: "set (names e) \<subseteq> set (features spec) \<union> set BUILTIN_CONTEXT_KEYS \<union> set ALLOWED_FUNCTIONS"
    using assms(1) by (auto simp: check_condition_Inr)
  have "agree (namespace ctx) (namespace ctx') (set (names e))"
    using agree_mono [OF assms(2) n] by (auto simp: agree_def namespace_def)
  then show ?thesis using e ev_agree(1) [of "namespace ctx" "namespace ctx'" e rt]
    by (simp add: eval_condition_def validate_expr_ast_def)
qed

text \<open>Live safety: a condition of an accepted strategy has the same value in any two contexts that
  agree on the live-safe features of the registry, the built-in keys and the helper functions; in
  particular the leakage canary \<open>espn_home_winprob\<close>, or any undeclared key, cannot influence it.\<close>

theorem validated_conditions_read_live_safe:
  assumes "validate parse reg spec = Inr ()" and "c \<in> set (conditions spec)"
    and "agree ctx ctx' (set (list_live_safe reg) \<union> set BUILTIN_CONTEXT_KEYS \<union> set ALLOWED_FUNCTIONS)"
  shows "eval_condition rt parse c ctx = eval_condition rt parse c ctx'"
proof -
  have "set (features spec) \<subseteq> set (list_live_safe reg)"
  proof
    fix n assume "n \<in> set (features spec)"
    then obtain sp where "(n, sp) \<in> set (reg_specs reg)" "is_live_safe sp"
      using validate_Inr(1) [OF assms(1)] map_of_SomeD by fast
    then have "(n, sp) \<in> set [(n, sp) \<leftarrow> reg_specs reg. is_live_safe sp]" by simp
    then have "n \<in> fst ` set [(n, sp) \<leftarrow> reg_specs reg. is_live_safe sp]" by (metis fst_conv imageI)
    then show "n \<in> set (list_live_safe reg)" unfolding list_live_safe_def by simp
  qed
  then have "agree ctx ctx' (set (features spec) \<union> set BUILTIN_CONTEXT_KEYS \<union> set ALLOWED_FUNCTIONS)"
    by (rule agree_mono [OF assms(3) sets_live])
  then show ?thesis using condition_agree validate_Inr(2) [OF assms(1)] assms(2) by blast
qed


section \<open>A concrete strategy\<close>

definition demo_parse :: parser where
  "demo_parse src =
     (if src = ''margin > 5'' then Some (ECmp (EName ''margin'') [OpGt] [EConst (PInt 5)])
      else if src = ''minutes_since_entry >= 4''
      then Some (ECmp (EName ''minutes_since_entry'') [OpGtE] [EConst (PInt 4)])
      else None)"

definition demo_spec :: strategy_spec where
  "demo_spec =
     \<lparr>spec_name = ''lead'', spec_description = [], features = [''margin''],
      entry_condition = \<lparr>expr_src = ''margin > 5'', cond_description = []\<rparr>,
      exit_conditions = [\<lparr>expr_src = ''minutes_since_entry >= 4'', cond_description = []\<rparr>],
      sizing = \<lparr>sizing_mode = ''fixed_contracts'', sizing_value = 10, max_position_contracts = 5\<rparr>,
      time_stop_sec = 600, spec_side = ''long_home'', spec_venue = ''polymarket'', cost_assumption_bps = None\<rparr>"

lemma demo_valid: "validate demo_parse REGISTRY demo_spec = Inr ()"
  by code_simp

lemma demo_parser_ok: "parser_ok demo_parse"
  by (auto simp: parser_ok_def demo_parse_def split: if_split_asm)

theorem validated_conditions_never_unbound_witness:
  "eval_condition rt demo_parse (entry_condition demo_spec) (\<lambda>n. Some PNone) \<noteq> Inl (NameError n)"
  by (rule validated_conditions_never_unbound [OF demo_valid _ demo_parser_ok]) (simp_all add: dom_def)

theorem validated_conditions_read_live_safe_witness:
  "eval_condition rt demo_parse (entry_condition demo_spec) [''margin'' \<mapsto> PInt 9, ''espn_home_winprob'' \<mapsto> PFloat (9 / 10)]
     = eval_condition rt demo_parse (entry_condition demo_spec) [''margin'' \<mapsto> PInt 9]"
proof (rule validated_conditions_read_live_safe [OF demo_valid])
  have "''espn_home_winprob'' \<notin> set (list_live_safe REGISTRY) \<union> set BUILTIN_CONTEXT_KEYS \<union> set ALLOWED_FUNCTIONS"
    by (simp add: list_live_safe_def REGISTRY_eq seed_features_def seed_feature_def BUILTIN_CONTEXT_KEYS_def ALLOWED_FUNCTIONS_def)
  then show "agree [''margin'' \<mapsto> PInt 9, ''espn_home_winprob'' \<mapsto> PFloat (9 / 10)] [''margin'' \<mapsto> PInt 9]
     (set (list_live_safe REGISTRY) \<union> set BUILTIN_CONTEXT_KEYS \<union> set ALLOWED_FUNCTIONS)"
    by (auto simp: agree_def)
qed simp

end
