(* ===== verification/Fills.thy ===== *)
theory Fills
  imports VenueFees Roots Effects
begin

text \<open>
  The cost profiles and the fill simulator of the research harness (\<open>cost_profile.py\<close> and
  \<open>realistic_fills.py\<close>). A book side is a list of (price, size) pairs of floats. \<open>None\<close> for an
  average price is Python's NaN. The active profile is the state of \<open>cost_profile.py\<close>; a fill reads
  it and never writes it, so fills take it as an argument.
\<close>

section \<open>Cost profiles\<close>

record cost_profile =
  profile_name :: string
  spread_bps :: int
  pm_curve_fee_rate_bps :: int
  pm_flat_taker_rate :: rat
  kalshi_taker_multiplier :: rat
  depth_per_level :: rat

definition PESSIMISTIC :: cost_profile where
  "PESSIMISTIC = \<lparr>profile_name = ''pessimistic'', spread_bps = 100, pm_curve_fee_rate_bps = 1000,
     pm_flat_taker_rate = fl (2 / 100), kalshi_taker_multiplier = 1, depth_per_level = 1000\<rparr>"

definition LIVE_PM :: cost_profile where
  "LIVE_PM = \<lparr>profile_name = ''live_pm'', spread_bps = 50, pm_curve_fee_rate_bps = 200,
     pm_flat_taker_rate = fl (5 / 1000), kalshi_taker_multiplier = 1, depth_per_level = 1000\<rparr>"

definition ZERO_COST :: cost_profile where
  "ZERO_COST = \<lparr>profile_name = ''zero'', spread_bps = 0, pm_curve_fee_rate_bps = 0,
     pm_flat_taker_rate = 0, kalshi_taker_multiplier = 0, depth_per_level = 1000\<rparr>"

text \<open>The calibration file as decoded JSON, \<open>None\<close> when it cannot be read or decoded.\<close>

definition load_calibrated_depth :: "json option \<Rightarrow> rat \<Rightarrow> rat" where
  "load_calibrated_depth file dflt =
     (case file of
        Some (JObj ob) \<Rightarrow>
          (case py_float (get ob ''depth_per_level'') of
             Inr v \<Rightarrow> if 0 < v then v else dflt
           | Inl e \<Rightarrow> dflt)
      | _ \<Rightarrow> dflt)"

definition CALIBRATED_PM :: "json option \<Rightarrow> cost_profile" where
  "CALIBRATED_PM file = \<lparr>profile_name = ''calibrated_pm'', spread_bps = 100, pm_curve_fee_rate_bps = 200,
     pm_flat_taker_rate = fl (5 / 1000), kalshi_taker_multiplier = 1,
     depth_per_level = load_calibrated_depth file (fl (2826 / 100))\<rparr>"

definition OFFICIAL_2026 :: cost_profile where
  "OFFICIAL_2026 = \<lparr>profile_name = ''official_2026'', spread_bps = 100, pm_curve_fee_rate_bps = 500,
     pm_flat_taker_rate = 0, kalshi_taker_multiplier = 1, depth_per_level = 1000\<rparr>"

definition builtin_profiles :: "json option \<Rightarrow> (string \<times> cost_profile) list" where
  "builtin_profiles file =
     [(''pessimistic'', PESSIMISTIC), (''live_pm'', LIVE_PM), (''zero'', ZERO_COST),
      (''calibrated_pm'', CALIBRATED_PM file), (''official_2026'', OFFICIAL_2026)]"

datatype profile_arg = ByName string | ByProfile cost_profile | OtherArg

definition set_active_profile :: "json option \<Rightarrow> profile_arg \<Rightarrow> cost_profile \<Rightarrow> (pyexn + cost_profile) \<times> cost_profile" where
  "set_active_profile file arg active =
     (case arg of
        ByName n \<Rightarrow>
          (case map_of (builtin_profiles file) n of
             None \<Rightarrow> (Inl ValueError, active)
           | Some p \<Rightarrow> (Inr active, p))
      | ByProfile p \<Rightarrow> (Inr active, p)
      | OtherArg \<Rightarrow> (Inl TypeError, active))"

text \<open>\<open>with use_profile(arg): body\<close>: the body runs on the active profile and may change it or raise.\<close>

definition use_profile ::
  "json option \<Rightarrow> profile_arg \<Rightarrow> (cost_profile \<Rightarrow> (pyexn + 'a) \<times> cost_profile) \<Rightarrow> cost_profile \<Rightarrow> (pyexn + 'a) \<times> cost_profile" where
  "use_profile file arg body active =
     (case set_active_profile file arg active of
        (Inl e, act') \<Rightarrow> (Inl e, act')
      | (Inr previous, act') \<Rightarrow>
          let (r, act'') = body act' in (r, snd (set_active_profile file (ByProfile previous) act'')))"

section \<open>Fees and impact\<close>

definition kalshi_fee :: "cost_profile \<Rightarrow> rat \<Rightarrow> rat \<Rightarrow> rat" where
  "kalshi_fee prof price sz = fmul (kalshi_taker_fee price sz 1) (kalshi_taker_multiplier prof)"

definition polymarket_curve_fee :: "rat \<Rightarrow> rat \<Rightarrow> int \<Rightarrow> pyexn + rat" where
  "polymarket_curve_fee price sz bps =
     (if bps \<le> 0 then Inr 0 else pm_taker_fee price sz (Some bps) None)"

definition polymarket_fee :: "cost_profile \<Rightarrow> rat \<Rightarrow> rat \<Rightarrow> int option \<Rightarrow> pyexn + rat" where
  "polymarket_fee prof price sz fee_rate_bps =
     (case polymarket_curve_fee price sz
             (case fee_rate_bps of None \<Rightarrow> pm_curve_fee_rate_bps prof | Some bps \<Rightarrow> bps) of
        Inl e \<Rightarrow> Inl e
      | Inr curve \<Rightarrow> Inr (fadd curve (fmul (fmul (pm_flat_taker_rate prof) price) sz)))"

definition MAX_IMPACT_FRACTION :: rat where "MAX_IMPACT_FRACTION = fl (5 / 100)"

definition market_impact_fraction :: "rat \<Rightarrow> rat \<Rightarrow> rat" where
  "market_impact_fraction sz depth =
     (if depth \<le> 0 then MAX_IMPACT_FRACTION
      else let ratio = fdiv sz depth;
               impact = fadd (fmul (fl (1 / 10000)) ratio) (fmul (fl (1 / 1000)) (fl_sqrt ratio))
           in min impact MAX_IMPACT_FRACTION)"

section \<open>Walking a book\<close>

type_synonym level = "rat \<times> rat"

text \<open>The loop over sorted levels: the fills and what remains.\<close>

fun walk_levels :: "rat \<Rightarrow> level list \<Rightarrow> level list \<times> rat" where
  "walk_levels remaining [] = ([], remaining)"
| "walk_levels remaining ((price, sz) # ls) =
     (if remaining \<le> 0 then ([], remaining)
      else let got = min sz remaining
           in if 0 < got then
                let (fills, left) = walk_levels (fsub remaining got) ls in ((price, got) # fills, left)
              else walk_levels remaining ls)"

definition sort_asks :: "level list \<Rightarrow> level list" where
  "sort_asks = sort_key fst"

definition sort_bids :: "level list \<Rightarrow> level list" where
  "sort_bids = sort_key (\<lambda>l. - fst l)"

definition walk_asks :: "level list \<Rightarrow> rat \<Rightarrow> level list \<times> rat" where
  "walk_asks asks target = (let (fills, left) = walk_levels target (sort_asks asks) in (fills, fsub target left))"

definition walk_bids :: "level list \<Rightarrow> rat \<Rightarrow> level list \<times> rat" where
  "walk_bids bids target = (let (fills, left) = walk_levels target (sort_bids bids) in (fills, fsub target left))"

definition avg_price :: "level list \<Rightarrow> rat option" where
  "avg_price fills =
     (if fills = [] then None
      else let notional = fsum (map (\<lambda>(p, s). fmul p s) fills); tot = fsum (map snd fills)
           in if 0 < tot then Some (fdiv notional tot) else None)"

section \<open>Snapshots\<close>

record snapshot =
  ob_venue :: string
  ob_side :: string
  ob_bids :: "level list"
  ob_asks :: "level list"
  ob_ts_wall :: rat
  ob_ts_game_sec :: "rat option"
  ob_fee_rate_bps :: "int option"

definition coerce_level :: "json \<Rightarrow> level option" where
  "coerce_level l =
     (let both = (\<lambda>p s. case (py_float p, py_float s) of (Inr x, Inr y) \<Rightarrow> Some (x, y) | _ \<Rightarrow> None)
      in case l of
           JObj ob \<Rightarrow> both (get ob ''price'') (if get ob ''size'' \<noteq> JNull then get ob ''size'' else get ob ''quantity'')
         | JList (p # s # r) \<Rightarrow> both p s
         | _ \<Rightarrow> None)"

fun coerce_levels :: "json list \<Rightarrow> level list" where
  "coerce_levels [] = []"
| "coerce_levels (l # ls) =
     (case coerce_level l of Some pl \<Rightarrow> pl # coerce_levels ls | None \<Rightarrow> coerce_levels ls)"

definition raw_side :: "obj \<Rightarrow> string \<Rightarrow> string \<Rightarrow> string \<Rightarrow> json" where
  "raw_side raw venue side arr =
     (let own = get raw (side @ CHR ''_'' # arr); plain = get raw arr
      in if venue = ''kalshi'' then py_or (py_or own plain) (JList [])
         else py_or (py_or plain own) (JList []))"

definition normalize_orderbook ::
  "obj \<Rightarrow> string \<Rightarrow> string \<Rightarrow> int option \<Rightarrow> rat option \<Rightarrow> rat option \<Rightarrow> rat \<Rightarrow> pyexn + snapshot" where
  "normalize_orderbook raw venue side fee_rate_bps ts_wall ts_game_sec wall =
     (let venue_lc = lower venue; side_lc = lower side
      in if venue_lc \<noteq> ''kalshi'' \<and> venue_lc \<noteq> ''polymarket'' then Inl ValueError
         else if side_lc \<noteq> ''yes'' \<and> side_lc \<noteq> ''no'' then Inl ValueError
         else case py_iter (raw_side raw venue_lc side_lc ''bids'') of
             Inl e \<Rightarrow> Inl e
           | Inr bids_raw \<Rightarrow>
               (case py_iter (raw_side raw venue_lc side_lc ''asks'') of
                  Inl e \<Rightarrow> Inl e
                | Inr asks_raw \<Rightarrow>
                    Inr \<lparr>ob_venue = venue_lc, ob_side = side_lc,
                         ob_bids = sort_bids (coerce_levels bids_raw), ob_asks = sort_asks (coerce_levels asks_raw),
                         ob_ts_wall = (case ts_wall of Some t \<Rightarrow> t | None \<Rightarrow> wall),
                         ob_ts_game_sec = ts_game_sec, ob_fee_rate_bps = fee_rate_bps\<rparr>))"

section \<open>The fill\<close>

text \<open>Clamping NaN into [0, 1] with \<open>max(0.0, min(1.0, x))\<close> gives 1, since every comparison with NaN
  is false.\<close>

record fill_result =
  filled :: bool
  fill_avg_price :: "rat option"
  filled_size :: rat
  requested_size :: rat
  fees_paid :: rat
  slippage_bps :: rat
  kill_reason :: "string option"
  fill_levels :: "level list"
  latency_ms_assumed :: int
  fill_ts_wall :: rat

definition killed :: "string \<Rightarrow> rat \<Rightarrow> int \<Rightarrow> rat \<Rightarrow> fill_result" where
  "killed reason sz latency ts =
     \<lparr>filled = False, fill_avg_price = None, filled_size = 0, requested_size = sz, fees_paid = 0,
      slippage_bps = 0, kill_reason = Some reason, fill_levels = [], latency_ms_assumed = latency,
      fill_ts_wall = ts\<rparr>"

fun sum_fees :: "(rat \<Rightarrow> rat \<Rightarrow> pyexn + rat) \<Rightarrow> rat \<Rightarrow> level list \<Rightarrow> pyexn + rat" where
  "sum_fees fee acc [] = Inr acc"
| "sum_fees fee acc ((p, s) # fills) =
     (case fee p s of Inl e \<Rightarrow> Inl e | Inr x \<Rightarrow> sum_fees fee (fadd acc x) fills)"

definition fees_for_fills :: "cost_profile \<Rightarrow> string \<Rightarrow> level list \<Rightarrow> int option \<Rightarrow> pyexn + rat" where
  "fees_for_fills prof venue fills fee_rate_bps =
     (if venue = ''kalshi'' then sum_fees (\<lambda>p s. Inr (kalshi_fee prof p s)) 0 fills
      else if venue = ''polymarket'' then sum_fees (\<lambda>p s. polymarket_fee prof p s fee_rate_bps) 0 fills
      else Inl ValueError)"

text \<open>\<open>stale\<close> is the staleness bound, \<open>None\<close> for infinity; \<open>wall\<close> is the reading of the wall clock
  that is taken when \<open>now_wall\<close> is not given.\<close>

definition simulate_fill ::
  "cost_profile \<Rightarrow> snapshot \<Rightarrow> string \<Rightarrow> rat \<Rightarrow> int \<Rightarrow> rat option \<Rightarrow> rat option \<Rightarrow> rat \<Rightarrow> pyexn + fill_result" where
  "simulate_fill prof snap side sz latency stale now_wall wall =
     (let ts = (case now_wall of Some t \<Rightarrow> t | None \<Rightarrow> wall)
      in if sz \<le> 0 then Inr (killed ''size_zero'' sz latency ts)
         else if (case stale of None \<Rightarrow> False | Some th \<Rightarrow> ob_ts_wall snap < fsub ts th)
         then Inr (killed ''snapshot_stale'' sz latency ts)
         else if side \<noteq> ''buy'' \<and> side \<noteq> ''sell'' then Inl ValueError
         else
           let levels = (if side = ''buy'' then ob_asks snap else ob_bids snap);
               (fills, got) = (if side = ''buy'' then walk_asks levels sz else walk_bids levels sz);
               sign = (if side = ''buy'' then 1 else - 1)
           in case levels of
                [] \<Rightarrow> Inr (killed ''no_side'' sz latency ts)
              | (best_price, _) # _ \<Rightarrow>
                  if got \<le> 0 then Inr (killed ''no_liquidity'' sz latency ts)
                  else
                    let impact = market_impact_fraction got (fsum (map snd (take 10 levels)));
                        adjust = (\<lambda>lit. max 0 (min 1 (fmul lit (fadd 1 (sign * impact)))));
                        avg = (case avg_price fills of Some lit \<Rightarrow> adjust lit | None \<Rightarrow> 1);
                        slip = (if 0 < best_price
                          then fmul (fdiv (if side = ''buy'' then fsub avg best_price else fsub best_price avg) best_price) 10000
                          else 0)
                    in case fees_for_fills prof (ob_venue snap) fills (ob_fee_rate_bps snap) of
                         Inl e \<Rightarrow> Inl e
                       | Inr fees \<Rightarrow>
                           Inr \<lparr>filled = True, fill_avg_price = Some avg, filled_size = got, requested_size = sz,
                                fees_paid = fees, slippage_bps = slip, kill_reason = None, fill_levels = fills,
                                latency_ms_assumed = latency, fill_ts_wall = ts\<rparr>)"

section \<open>Round trips\<close>

record round_trip =
  rt_entry_fill :: fill_result
  rt_exit_fill :: fill_result
  gross_entry_price :: "rat option"
  gross_exit_price :: "rat option"
  round_trip_fee :: rat
  round_trip_slippage :: "rat option"
  net_cost_in_dollars :: "rat option"
  net_cost_in_probability_units :: "rat option"
  rt_kill_reason :: "string option"

definition round_trip_cost_bps ::
  "cost_profile \<Rightarrow> snapshot \<Rightarrow> snapshot \<Rightarrow> rat \<Rightarrow> int \<Rightarrow> rat \<Rightarrow> rat \<Rightarrow> pyexn + round_trip" where
  "round_trip_cost_bps prof at_entry at_exit sz latency wall wall' =
     (case simulate_fill prof at_entry ''buy'' sz latency None None wall of
        Inl e \<Rightarrow> Inl e
      | Inr en \<Rightarrow>
          (case simulate_fill prof at_exit ''sell'' sz latency None None wall' of
             Inl e \<Rightarrow> Inl e
           | Inr ex \<Rightarrow>
               let fees = fadd (fees_paid en) (fees_paid ex)
               in (case (fill_avg_price en, fill_avg_price ex) of
                    (Some entry, Some out) \<Rightarrow>
                      let got = min (filled_size en) (filled_size ex);
                          entry_best = (case ob_asks at_entry of [] \<Rightarrow> entry | l # _ \<Rightarrow> fst l);
                          exit_best = (case ob_bids at_exit of [] \<Rightarrow> out | l # _ \<Rightarrow> fst l);
                          slip = fadd (fmul (fsub entry entry_best) got) (fmul (fsub exit_best out) got);
                          cost = fadd (fmul (fsub entry out) got) fees
                      in Inr \<lparr>rt_entry_fill = en, rt_exit_fill = ex, gross_entry_price = Some entry,
                              gross_exit_price = Some out, round_trip_fee = fees, round_trip_slippage = Some slip,
                              net_cost_in_dollars = Some cost,
                              net_cost_in_probability_units = (if 0 < got then Some (fdiv cost got) else None),
                              rt_kill_reason = None\<rparr>
                  | _ \<Rightarrow>
                      Inr \<lparr>rt_entry_fill = en, rt_exit_fill = ex, gross_entry_price = fill_avg_price en,
                           gross_exit_price = fill_avg_price ex, round_trip_fee = fees,
                           round_trip_slippage = None, net_cost_in_dollars = None,
                           net_cost_in_probability_units = None,
                           rt_kill_reason = (if kill_reason en \<noteq> None then kill_reason en else kill_reason ex)\<rparr>)))"

text \<open>A fill is filled exactly when it has an average price, so the code's test of \<open>filled\<close> is the
  pattern above.\<close>

section \<open>Lemmas on the walk\<close>

lemma walk_stop: "r \<le> 0 \<Longrightarrow> walk_levels r ls = ([], r)"
  by (cases ls) auto

lemma walk_skip: "0 < r \<Longrightarrow> snd l \<le> 0 \<Longrightarrow> walk_levels r (l # ls) = walk_levels r ls"
  by (cases l) (auto simp: Let_def min_def)

lemma walk_take:
  "0 < r \<Longrightarrow> 0 < snd l \<Longrightarrow>
     walk_levels r (l # ls) =
       ((fst l, min (snd l) r) # fst (walk_levels (fsub r (min (snd l) r)) ls),
        snd (walk_levels (fsub r (min (snd l) r)) ls))"
  by (cases l) (auto simp: Let_def split: prod.split)

declare walk_levels.simps(2) [simp del]

lemma walk_cases:
  fixes r :: rat and l :: level
  obtains "r \<le> 0" | "0 < r" "snd l \<le> 0" | "0 < r" "0 < snd l"
  by (metis not_le_imp_less)

lemma walk_remaining:
  "is_float r \<Longrightarrow> 0 \<le> r \<Longrightarrow>
     0 \<le> snd (walk_levels r ls) \<and> snd (walk_levels r ls) \<le> r \<and> is_float (snd (walk_levels r ls))"
proof (induction ls arbitrary: r)
  case (Cons l ls)
  show ?case
  proof (cases rule: walk_cases [where r = r and l = l])
    case 3
    have "is_float (fsub r (min (snd l) r))" "0 \<le> fsub r (min (snd l) r)" "fsub r (min (snd l) r) \<le> r"
      using 3 Cons.prems by (auto intro!: fsub_nonneg fsub_le)
    then show ?thesis using Cons.IH [of "fsub r (min (snd l) r)"] 3 by (auto simp: walk_take)
  qed (use Cons in \<open>auto simp: walk_stop walk_skip\<close>)
qed simp

text \<open>Price priority: the fills are the offered levels in order, each in full; only the last one may be
  cut, and then nothing of the order remains.\<close>

abbreviation offered :: "level list \<Rightarrow> level list" where
  "offered ls \<equiv> [l \<leftarrow> ls. 0 < snd l]"

definition prefix_fill :: "level list \<Rightarrow> level list \<Rightarrow> rat \<Rightarrow> bool" where
  "prefix_fill ls fills left =
     (\<exists>full cut rest. offered ls = full @ rest \<and> fills = full @ cut \<and>
        (cut = [] \<or> (\<exists>p t t' rest'. cut = [(p, t)] \<and> rest = (p, t') # rest' \<and> 0 < t \<and> t \<le> t' \<and> left = 0)) \<and>
        (0 < left \<longrightarrow> cut = [] \<and> rest = []))"

lemma prefix_fill_skip: "snd l \<le> 0 \<Longrightarrow> prefix_fill (l # ls) fills left = prefix_fill ls fills left"
  by (simp add: prefix_fill_def)

lemma prefix_fill_full: "0 < snd l \<Longrightarrow> prefix_fill ls fills left \<Longrightarrow> prefix_fill (l # ls) (l # fills) left"
  unfolding prefix_fill_def by (metis (no_types, lifting) append_Cons filter.simps(2))

lemma prefix_fill_cut: "0 < snd l \<Longrightarrow> 0 < t \<Longrightarrow> t \<le> snd l \<Longrightarrow> prefix_fill (l # ls) [(fst l, t)] 0"
  unfolding prefix_fill_def
  by (rule exI [of _ "[]"], rule exI [of _ "[(fst l, t)]"]) (cases l, auto)

lemma prefix_fill_stop: "left \<le> 0 \<Longrightarrow> prefix_fill ls [] left"
  unfolding prefix_fill_def by (rule exI [of _ "[]"], rule exI [of _ "[]"]) simp

lemma walk_prefix: "is_float r \<Longrightarrow> 0 \<le> r \<Longrightarrow> prefix_fill ls (fst (walk_levels r ls)) (snd (walk_levels r ls))"
proof (induction ls arbitrary: r)
  case Nil
  show ?case by (auto simp: prefix_fill_def)
next
  case (Cons l ls)
  show ?case
  proof (cases rule: walk_cases [where r = r and l = l])
    case 1
    then show ?thesis by (simp add: walk_stop prefix_fill_stop)
  next
    case 2
    then show ?thesis using Cons by (simp add: walk_skip prefix_fill_skip)
  next
    case 3
    show ?thesis
    proof (cases "snd l \<le> r")
      case True
      then have "0 \<le> fsub r (snd l)" by (rule fsub_nonneg)
      then show ?thesis using Cons.IH [of "fsub r (snd l)"] 3 True
        by (simp add: walk_take prefix_fill_full flip: surjective_pairing)
    next
      case False
      then have "min (snd l) r = r" by simp
      then show ?thesis using 3 False by (simp add: walk_take walk_stop prefix_fill_cut)
    qed
  qed
qed

lemma walk_fill_levels: "(p, t) \<in> set (fst (walk_levels r ls)) \<Longrightarrow> 0 < t \<and> (\<exists>t'. (p, t') \<in> set ls \<and> t \<le> t')"
proof (induction ls arbitrary: r)
  case (Cons l ls)
  show ?case
  proof (cases rule: walk_cases [where r = r and l = l])
    case 3
    then show ?thesis using Cons by (cases l) (fastforce simp: walk_take)
  qed (use Cons in \<open>auto simp: walk_stop walk_skip\<close>)
qed simp

text \<open>With whole sizes nothing is rounded: the order takes what it asks or what there is.\<close>

definition whole_levels :: "level list \<Rightarrow> bool" where
  "whole_levels ls = (\<forall>l\<in>set ls. \<exists>n. snd l = of_int n)"

lemma walk_whole:
  assumes "whole_levels ls" "0 \<le> n" "n \<le> 9007199254740992"
  shows "snd (walk_levels (of_int n) ls) = max 0 (of_int n - sum_list (map snd (offered ls)))"
  using assms
proof (induction ls arbitrary: n)
  case (Cons l ls)
  obtain m where m: "snd l = of_int m" using Cons.prems(1) by (auto simp: whole_levels_def)
  have nn: "0 \<le> sum_list (map snd (offered ls))" by (rule sum_list_nonneg) auto
  show ?case
  proof (cases rule: walk_cases [where r = "of_int n" and l = l])
    case 3
    then have d: "fsub (of_int n) (min (snd l) (of_int n)) = of_int (n - min m n)"
      using Cons.prems m by (simp add: min_def fsub_int) 
    have "snd (walk_levels (of_int (n - min m n)) ls) = max 0 (of_int (n - min m n) - sum_list (map snd (offered ls)))"
      using Cons 3 m by (intro Cons.IH) (auto simp: whole_levels_def)
    then show ?thesis using 3 d m nn by (auto simp: walk_take min_def max_def)
  qed (use Cons nn in \<open>auto simp: walk_stop walk_skip whole_levels_def max_def\<close>)
qed simp


section \<open>Properties of fills\<close>

abbreviation walked_levels :: "snapshot \<Rightarrow> string \<Rightarrow> level list" where
  "walked_levels snap side \<equiv> (if side = ''buy'' then sort_asks (ob_asks snap) else sort_bids (ob_bids snap))"

text \<open>A fill, opened up once for the properties below.\<close>

lemma simulate_fill_result:
  assumes "simulate_fill prof snap side sz latency stale now_wall wall = Inr r"
  defines "ws \<equiv> walked_levels snap side"
  shows "if \<not> filled r then r = killed (the (kill_reason r)) sz latency (fill_ts_wall r)
    else (kill_reason r = None \<and> 0 < sz \<and> fill_levels r = fst (walk_levels sz ws)
     \<and> filled_size r = fsub sz (snd (walk_levels sz ws)) \<and> 0 < filled_size r
     \<and> (\<exists>a. fill_avg_price r = Some a \<and> 0 \<le> a \<and> a \<le> 1)
     \<and> fees_for_fills prof (ob_venue snap) (fill_levels r) (ob_fee_rate_bps snap) = Inr (fees_paid r))"
proof -
  have walked: "(if side = ''buy'' then walk_asks (if side = ''buy'' then ob_asks snap else ob_bids snap) sz
        else walk_bids (if side = ''buy'' then ob_asks snap else ob_bids snap) sz)
      = (fst (walk_levels sz ws), fsub sz (snd (walk_levels sz ws)))"
    by (simp add: ws_def walk_asks_def walk_bids_def split: prod.split)
  show ?thesis
    using assms(1) unfolding simulate_fill_def Let_def walked prod.case
    by (auto simp: killed_def split: if_split_asm list.split_asm sum.split_asm option.split)
qed

lemma simulate_fill_cases:
  assumes "simulate_fill prof snap side sz latency stale now_wall wall = Inr r"
  obtains (killed) reason ts where "r = killed reason sz latency ts"
  | (filled) "filled r" "kill_reason r = None" "0 < sz"
    "fill_levels r = fst (walk_levels sz (walked_levels snap side))"
    "filled_size r = fsub sz (snd (walk_levels sz (walked_levels snap side)))" "0 < filled_size r"
    "\<exists>a. fill_avg_price r = Some a \<and> 0 \<le> a \<and> a \<le> 1"
    "fees_for_fills prof (ob_venue snap) (fill_levels r) (ob_fee_rate_bps snap) = Inr (fees_paid r)"
proof (cases "filled r")
  case True
  then show thesis using simulate_fill_result [OF assms] filled by (metis (no_types, lifting))
next
  case False
  then show thesis using simulate_fill_result [OF assms] killed by (metis (no_types, lifting))
qed

text \<open>A simulated fill never gives more than was asked and never leaves the price range: a fill is
  killed with nothing filled and nothing charged, or it fills a positive size of at most the request
  at an average price between 0 and 1.\<close>

theorem fill_within_request:
  assumes "simulate_fill prof snap side sz latency stale now_wall wall = Inr r" and "is_float sz"
  shows "if filled r
         then kill_reason r = None \<and> 0 < filled_size r \<and> filled_size r \<le> sz \<and>
              (\<exists>a. fill_avg_price r = Some a \<and> 0 \<le> a \<and> a \<le> 1)
         else kill_reason r \<noteq> None \<and> filled_size r = 0 \<and> fees_paid r = 0 \<and> fill_avg_price r = None \<and> fill_levels r = []"
  using assms(1)
proof (cases rule: simulate_fill_cases)
  case filled
  then have "0 \<le> snd (walk_levels sz (walked_levels snap side))"
    using walk_remaining [OF assms(2), of "walked_levels snap side"] by auto
  then show ?thesis using filled fsub_le [OF assms(2)] by auto
qed (simp add: killed_def)

text \<open>Price priority of the simulator, against a reference: the fills are the offered levels in the
  order of price, each taken in full; only the last can be cut, when nothing of the request remains,
  and a request that is not filled completely has used up the side. With whole contracts the filled
  size is exactly the smaller of the request and the depth of the side.\<close>

theorem fill_in_price_order:
  assumes "simulate_fill prof snap side sz latency stale now_wall wall = Inr r" and "is_float sz" and "filled r"
    and "ws = walked_levels snap side"
  shows "(\<exists>left. prefix_fill ws (fill_levels r) left \<and> filled_size r = fsub sz left) \<and>
    (\<forall>n d. whole_levels ws \<and> sz = of_int n \<and> n \<le> 9007199254740992 \<and> sum_list (map snd (offered ws)) = of_int d \<longrightarrow>
       filled_size r = of_int (min n d))"
proof (intro conjI allI impI)
  have r: "0 < sz" "fill_levels r = fst (walk_levels sz ws)" "filled_size r = fsub sz (snd (walk_levels sz ws))"
    using assms(3,4) by (cases rule: simulate_fill_cases [OF assms(1)]; simp add: killed_def)+
  show "\<exists>left. prefix_fill ws (fill_levels r) left \<and> filled_size r = fsub sz left"
    using walk_prefix [OF assms(2), of ws] r by auto
  fix n d
  assume w: "whole_levels ws \<and> sz = of_int n \<and> n \<le> 9007199254740992 \<and> sum_list (map snd (offered ws)) = of_int d"
  have n: "0 < n" using r(1) w by simp
  have "(0 :: rat) \<le> sum_list (map snd (offered ws))" by (rule sum_list_nonneg) auto
  then have d: "0 \<le> d" using w by simp
  have "snd (walk_levels (of_int n) ws) = max 0 (of_int n - of_int d)"
    using walk_whole [of ws n] w n by simp
  then have "snd (walk_levels sz ws) = of_int (max 0 (n - d))" using w by (simp add: max_def)
  then show "filled_size r = of_int (min n d)" using r(3) w n d by (auto simp: fsub_int max_def min_def)
qed

text \<open>\<open>with use_profile(p)\<close> leaves the active profile as it found it, whatever the body does to it and
  also when the body raises or the profile does not exist.\<close>

theorem use_profile_restores:
  "snd (use_profile file arg body active) = active"
  by (auto simp: use_profile_def set_active_profile_def Let_def split: profile_arg.split option.split prod.split)

lemma sum_fees_0:
  "(\<And>p s. (p, s) \<in> set fills \<Longrightarrow> fee p s = Inr 0) \<Longrightarrow> sum_fees fee 0 fills = Inr 0"
  by (induction fills) (auto simp: fadd_def)

text \<open>The zero-cost profile charges no fee: on Kalshi always, on Polymarket when the book carries no
  fee rate of its own or the profile's.\<close>

theorem zero_profile_charges_nothing:
  assumes "simulate_fill ZERO_COST snap side sz latency stale now_wall wall = Inr r"
    and "ob_venue snap = ''kalshi'' \<or> ob_fee_rate_bps snap \<in> {None, Some (pm_curve_fee_rate_bps ZERO_COST)}"
  shows "fees_paid r = 0"
  using assms(1)
proof (cases rule: simulate_fill_cases)
  case filled
  have "kalshi_fee ZERO_COST p s = 0" for p s by (simp add: kalshi_fee_def ZERO_COST_def)
  moreover have "polymarket_fee ZERO_COST p s (ob_fee_rate_bps snap) = Inr 0" if "ob_venue snap \<noteq> ''kalshi''" for p s
    using assms(2) that by (auto simp: polymarket_fee_def polymarket_curve_fee_def ZERO_COST_def fadd_def)
  ultimately have "fees_for_fills ZERO_COST (ob_venue snap) (fill_levels r) (ob_fee_rate_bps snap) \<noteq> Inr 0 \<Longrightarrow> False"
    using filled(8) by (auto simp: fees_for_fills_def sum_fees_0 split: if_split_asm)
  then show ?thesis using filled(8) by auto
qed (simp add: killed_def)

text \<open>Witnesses on a book of whole contracts: asks of 5 at 0.5 and 20 at 0.25, in the order of price the
  other way round.\<close>

definition demo_book :: snapshot where
  "demo_book = \<lparr>ob_venue = ''polymarket'', ob_side = ''yes'', ob_bids = [], ob_asks = [(1 / 2, 5), (1 / 4, 20)],
     ob_ts_wall = 0, ob_ts_game_sec = None, ob_fee_rate_bps = Some 0\<rparr>"

lemma demo_book_fill:
  "simulate_fill ZERO_COST demo_book ''buy'' 22 250 None (Some 0) 0 = Inr r \<Longrightarrow> filled r"
  "\<exists>r. simulate_fill ZERO_COST demo_book ''buy'' 22 250 None (Some 0) 0 = Inr r"
proof -
  have "case simulate_fill ZERO_COST demo_book ''buy'' 22 250 None (Some 0) 0 of Inr r \<Rightarrow> filled r | Inl e \<Rightarrow> False"
    by code_simp
  then show "simulate_fill ZERO_COST demo_book ''buy'' 22 250 None (Some 0) 0 = Inr r \<Longrightarrow> filled r"
    "\<exists>r. simulate_fill ZERO_COST demo_book ''buy'' 22 250 None (Some 0) 0 = Inr r"
    by (auto split: sum.split_asm)
qed


theorem fill_within_request_witness:
  "\<exists>r. simulate_fill ZERO_COST demo_book ''buy'' 22 250 None (Some 0) 0 = Inr r \<and> filled_size r \<le> 22"
proof -
  obtain r where r: "simulate_fill ZERO_COST demo_book ''buy'' 22 250 None (Some 0) 0 = Inr r"
    using demo_book_fill(2) by blast
  then show ?thesis using fill_within_request [OF r] demo_book_fill(1) [OF r] by (simp add: fl_simps)
qed

theorem fill_in_price_order_witness:
  "\<exists>r. simulate_fill ZERO_COST demo_book ''buy'' 22 250 None (Some 0) 0 = Inr r \<and> filled_size r = 22"
proof -
  obtain r where r: "simulate_fill ZERO_COST demo_book ''buy'' 22 250 None (Some 0) 0 = Inr r"
    using demo_book_fill(2) by blast
  have ws: "[(1 / 4, 20), (1 / 2, 5)] = walked_levels demo_book ''buy''"
    by (simp add: demo_book_def sort_asks_def)
  have "\<exists>n. (20 :: rat) = of_int n" "\<exists>n. (5 :: rat) = of_int n" by (metis of_int_numeral)+
  then have "filled_size r = of_int (min 22 25)"
    using fill_in_price_order [OF r _ demo_book_fill(1) [OF r] ws]
    by (simp add: fl_simps whole_levels_def)
  then show ?thesis using r by auto
qed

theorem zero_profile_charges_nothing_witness:
  "\<exists>r. simulate_fill ZERO_COST demo_book ''buy'' 22 250 None (Some 0) 0 = Inr r \<and> filled r \<and> fees_paid r = 0"
proof -
  obtain r where r: "simulate_fill ZERO_COST demo_book ''buy'' 22 250 None (Some 0) 0 = Inr r"
    using demo_book_fill(2) by blast
  then show ?thesis using zero_profile_charges_nothing [OF r] demo_book_fill(1) [OF r]
    by (auto simp: demo_book_def ZERO_COST_def)
qed

end
