(* ===== verification/Replay.thy ===== *)
theory Replay
  imports Strategy Fills
begin

text \<open>
  The single-game replay of \<open>research/harness/replay.py\<close>: bars in chronological order, entry and exit
  conditions over the context of a bar, one position at a time, fills at the next bar's book. A bar
  carries its join key, its game clock and the Polymarket mids as \<open>_build_bars\<close> leaves them (None or
  a number), and every other column in \<open>cols\<close>. An exception that leaves \<open>replay_game\<close> is the left
  of a sum. A filled order has an average price, which \<open>price_of\<close> reads.
\<close>

section \<open>Bars, positions and trades\<close>

record rbar =
  minute_ts :: int
  elapsed_game_sec :: rat
  pm_home_mid :: "rat option"
  pm_away_mid :: "rat option"
  cols :: env

definition opt_float :: "rat option \<Rightarrow> pyval" where
  "opt_float r = (case r of None \<Rightarrow> PNone | Some x \<Rightarrow> PFloat x)"

definition row_view :: "rbar \<Rightarrow> bar" where
  "row_view b = (cols b)(''minute_ts'' \<mapsto> PInt (minute_ts b), ''elapsed_game_sec'' \<mapsto> PFloat (elapsed_game_sec b),
     ''pm_home_mid'' \<mapsto> opt_float (pm_home_mid b), ''pm_away_mid'' \<mapsto> opt_float (pm_away_mid b))"

record position =
  pos_side :: string
  pos_size :: rat
  pos_entry_price :: rat
  pos_entry_fill :: fill_result
  pos_entry_wall :: int
  pos_entry_game_sec :: rat

record trade =
  trade_game_id :: string
  trade_side :: string
  entry_ts_wall :: int
  entry_ts_game_sec :: rat
  entry_price :: rat
  entry_fill :: fill_result
  exit_ts_wall :: int
  exit_ts_game_sec :: rat
  exit_price :: rat
  exit_fill :: "fill_result option"
  settle_value :: "rat option"
  contracts_filled :: rat
  pnl_gross :: rat
  pnl_net :: rat
  exit_reason :: string

datatype skip =
    FeatureUnavailable string
  | ExitEvalFailed evexn
  | EntryEvalFailed evexn
  | SideUnresolved
  | NoQuote string
  | EntryKilled "string option"

record trial_result =
  res_spec_hash :: string
  res_game_id :: string
  n_trades :: int
  res_trades :: "trade list"
  res_pnl_gross :: rat
  res_pnl_net :: rat
  notional_traded :: rat
  avg_holding_sec :: rat
  res_skipped :: "(int \<times> skip) list"
  rng_seed :: int
  synthetic_depth_used :: bool

definition price_of :: "fill_result \<Rightarrow> rat" where
  "price_of r = (case fill_avg_price r of Some a \<Rightarrow> a | None \<Rightarrow> 0)"

section \<open>Books\<close>

definition tick :: "nat \<Rightarrow> rat" where
  "tick i = fmul (of_nat i) (fl (5 / 1000))"

definition LOW :: rat where "LOW = fl (1 / 1000)"

definition HIGH :: rat where "HIGH = fl (999 / 1000)"

definition synthesize_orderbook_from_mid ::
  "cost_profile \<Rightarrow> string \<Rightarrow> string \<Rightarrow> rat \<Rightarrow> int \<Rightarrow> rat \<Rightarrow> snapshot" where
  "synthesize_orderbook_from_mid prof venue side mid ts_wall ts_game =
     (let half_spread = fdiv (of_int (spread_bps prof)) 20000;
          bid_top = max LOW (fsub mid half_spread);
          ask_top = min HIGH (fadd mid half_spread)
      in \<lparr>ob_venue = venue, ob_side = side,
          ob_bids = map (\<lambda>i. (max LOW (fsub bid_top (tick i)), depth_per_level prof)) [0, 1, 2],
          ob_asks = map (\<lambda>i. (min HIGH (fadd ask_top (tick i)), depth_per_level prof)) [0, 1, 2],
          ob_ts_wall = fl (of_int ts_wall), ob_ts_game_sec = Some ts_game,
          ob_fee_rate_bps = (if venue = ''polymarket'' then Some (pm_curve_fee_rate_bps prof) else None)\<rparr>)"

text \<open>A quote column: None or NaN is no quote. Against NaN a comparison is false, so the clamps give
  their bound.\<close>

definition quote :: "bar \<Rightarrow> string \<Rightarrow> rat option eval" where
  "quote b k =
     (let v = bar_get b k
      in if v = PNone \<or> v = PNan then Inr None
         else sbind (float_of v) (\<lambda>f. case f of PFloat x \<Rightarrow> Inr (Some x) | _ \<Rightarrow> Inr None))"

definition real_levels :: "(rat \<Rightarrow> rat) \<Rightarrow> (rat \<Rightarrow> rat \<Rightarrow> rat) \<Rightarrow> rat \<Rightarrow> rat option \<Rightarrow> level list" where
  "real_levels clamp shift bound best_q =
     map (\<lambda>i. (case best_q of Some x \<Rightarrow> clamp (shift x (tick i)) | None \<Rightarrow> bound, 1000)) [0, 1, 2]"

definition want_team :: "string \<Rightarrow> string" where
  "want_team side = (if side = ''long_home'' then ''home'' else ''away'')"

definition make_orderbook ::
  "cost_profile \<Rightarrow> string \<Rightarrow> string \<Rightarrow> rbar \<Rightarrow> (snapshot option \<times> bool) eval" where
  "make_orderbook prof venue side b =
     (let ts = minute_ts b; gs = elapsed_game_sec b
      in if venue = ''polymarket'' then
           (case (if side = ''long_home'' then pm_home_mid b else pm_away_mid b) of
              None \<Rightarrow> Inr (None, False)
            | Some mid \<Rightarrow> Inr (Some (synthesize_orderbook_from_mid prof ''polymarket'' ''yes'' mid ts gs), True))
         else if venue = ''kalshi'' then
           sbind (quote (row_view b) ''kalshi_mid'') (\<lambda>m. case m of
               None \<Rightarrow> Inr (None, False)
             | Some mid \<Rightarrow>
                 let same_team = py_equal (bar_get (row_view b) ''kalshi_team'') (PStr (want_team side))
                 in if same_team \<and> bar_get (row_view b) ''kalshi_yes_bid'' \<noteq> PNone
                      \<and> bar_get (row_view b) ''kalshi_yes_ask'' \<noteq> PNone then
                      sbind (quote (row_view b) ''kalshi_yes_bid'') (\<lambda>bid.
                        sbind (quote (row_view b) ''kalshi_yes_ask'') (\<lambda>ask'.
                          Inr (Some \<lparr>ob_venue = ''kalshi'', ob_side = ''yes'',
                                     ob_bids = real_levels (max LOW) fsub LOW bid,
                                     ob_asks = real_levels (min HIGH) fadd HIGH ask',
                                     ob_ts_wall = fl (of_int ts), ob_ts_game_sec = Some gs,
                                     ob_fee_rate_bps = None\<rparr>, False)))
                    else Inr (Some (synthesize_orderbook_from_mid prof ''kalshi'' ''yes''
                                      (if same_team then mid else fsub 1 mid) ts gs), True))
         else value_error)"

section \<open>Side, mark and context\<close>

definition resolve_side :: "string \<Rightarrow> rbar \<Rightarrow> env \<Rightarrow> string option eval" where
  "resolve_side want b feats =
     (if want = ''long_home'' then Inr (Some ''long_home'')
      else if want = ''long_away'' then Inr (Some ''long_away'')
      else sbind (quote (row_view b) ''margin'') (\<lambda>m. case m of
          None \<Rightarrow> Inr None
        | Some margin \<Rightarrow>
            if want = ''long_trailing''
            then Inr (Some (if 0 < margin then ''long_away'' else ''long_home''))
            else sbind (quote feats ''recent_run_signed'') (\<lambda>r. case r of
                None \<Rightarrow> Inr None
              | Some rr \<Rightarrow>
                  if want = ''long_hot'' then Inr (Some (if 0 < rr then ''long_home'' else ''long_away''))
                  else if want = ''long_cold'' then Inr (Some (if 0 < rr then ''long_away'' else ''long_home''))
                  else value_error)))"

definition current_mark :: "rbar \<Rightarrow> string \<Rightarrow> string \<Rightarrow> rat option eval" where
  "current_mark b venue side =
     (if venue = ''polymarket'' then
        Inr (if side = ''long_home'' then pm_home_mid b
             else if side = ''long_away'' then pm_away_mid b else None)
      else if venue = ''kalshi'' then
        sbind (quote (row_view b) ''kalshi_mid'') (\<lambda>m.
          Inr (map_option (\<lambda>mid. if py_equal (bar_get (row_view b) ''kalshi_team'') (PStr (want_team side))
                                 then mid else fsub 1 mid) m))
      else Inr None)"

definition bar_float :: "rbar \<Rightarrow> string \<Rightarrow> pyval eval" where
  "bar_float b k = (if bar_get (row_view b) k = PNone then Inr PNone else float_of (bar_get (row_view b) k))"

definition position_keys :: "rbar \<Rightarrow> position option \<Rightarrow> rat option \<Rightarrow> (string \<times> pyval) list" where
  "position_keys b pos mark =
     (case pos of
        None \<Rightarrow>
          [(''pos_side'', PNone), (''pos_entry_price'', PNone), (''pos_entry_elapsed'', PNone), (''pos_size'', PNone),
           (''minutes_since_entry'', PNone), (''unrealized_pnl_bps'', PNone)]
      | Some p \<Rightarrow>
          [(''pos_side'', PStr (pos_side p)), (''pos_entry_price'', PFloat (pos_entry_price p)),
           (''pos_entry_elapsed'', PFloat (pos_entry_game_sec p)), (''pos_size'', PFloat (pos_size p)),
           (''minutes_since_entry'', PFloat (fdiv (fsub (elapsed_game_sec b) (pos_entry_game_sec p)) 60)),
           (''unrealized_pnl_bps'',
              case mark of
                None \<Rightarrow> PNone
              | Some m \<Rightarrow>
                  PFloat (fmul (fdiv (fsub m (pos_entry_price p)) (max (pos_entry_price p) (fl (1 / 1000000)))) 10000))])"

definition dunder :: "string \<Rightarrow> bool" where
  "dunder n = (take 2 n = ''__'')"

definition build_context :: "string \<Rightarrow> rbar \<Rightarrow> position option \<Rightarrow> env \<Rightarrow> env eval" where
  "build_context venue b pos feats =
     sbind (bar_float b ''home_score'') (\<lambda>hs. sbind (bar_float b ''away_score'') (\<lambda>aw.
       sbind (bar_float b ''margin'') (\<lambda>m. sbind (bar_float b ''total'') (\<lambda>t.
         sbind (case pos of None \<Rightarrow> Inr None | Some p \<Rightarrow> current_mark b venue (pos_side p)) (\<lambda>mark.
           Inr (map_of ([(''home_score'', hs), (''away_score'', aw),
                         (''elapsed_game_sec'', PFloat (elapsed_game_sec b)), (''margin'', m), (''total'', t)]
                        @ position_keys b pos mark)
                ++ (\<lambda>n. if dunder n then None else feats n)))))))"

text \<open>The declared features, in order; one that is not yet available ends the bar.\<close>

fun resolve_features :: "registry \<Rightarrow> rbar \<Rightarrow> string list \<Rightarrow> env \<Rightarrow> (string + env) eval" where
  "resolve_features reg b [] feats = Inr (Inr feats)"
| "resolve_features reg b (n # ns) feats =
     (case compute_value n (row_view b) (elapsed_game_sec b) reg of
        Inr v \<Rightarrow> resolve_features reg b ns (feats(n \<mapsto> v))
      | Inl (RuntimeError s) \<Rightarrow> Inr (Inl n)
      | Inl e \<Rightarrow> Inl e)"

section \<open>Closing a position\<close>

record game_run =
  run_rt :: runtime
  run_parse :: parser
  run_reg :: registry
  run_prof :: cost_profile
  run_spec :: strategy_spec
  run_game_id :: string
  run_venue :: string
  home_won :: pyval

definition outcome :: "pyval \<Rightarrow> bool option" where
  "outcome hw = (if hw = PNone \<or> hw = PNan then None else Some (truth hw))"

definition settle_position :: "game_run \<Rightarrow> position \<Rightarrow> rbar option \<Rightarrow> string option \<Rightarrow> trade" where
  "settle_position g p last_bar forced_reason =
     (let known = outcome (home_won g);
          price = (case known of
              None \<Rightarrow>
                (case last_bar of
                   None \<Rightarrow> pos_entry_price p
                 | Some b \<Rightarrow>
                     (case pm_home_mid b of
                        None \<Rightarrow> pos_entry_price p
                      | Some mid \<Rightarrow> if pos_side p = ''long_away'' then fsub 1 mid else mid))
            | Some won \<Rightarrow> if (if pos_side p = ''long_home'' then won else \<not> won) then 1 else 0);
          gross = fmul (fsub price (pos_entry_price p)) (pos_size p)
      in \<lparr>trade_game_id = run_game_id g, trade_side = pos_side p, entry_ts_wall = pos_entry_wall p,
          entry_ts_game_sec = pos_entry_game_sec p, entry_price = pos_entry_price p, entry_fill = pos_entry_fill p,
          exit_ts_wall = (case last_bar of None \<Rightarrow> pos_entry_wall p | Some b \<Rightarrow> minute_ts b),
          exit_ts_game_sec = (case last_bar of None \<Rightarrow> pos_entry_game_sec p | Some b \<Rightarrow> elapsed_game_sec b),
          exit_price = price, exit_fill = None,
          settle_value = (if known = None then None else Some price),
          contracts_filled = pos_size p, pnl_gross = gross, pnl_net = fsub gross (fees_paid (pos_entry_fill p)),
          exit_reason =
            (case known of
               None \<Rightarrow> (case forced_reason of Some r \<Rightarrow> r | None \<Rightarrow> ''unknown_outcome_marked'')
             | Some won \<Rightarrow> if (if pos_side p = ''long_home'' then won else \<not> won)
                           then ''settle_at_one'' else ''settle_at_zero'')\<rparr>)"

definition lift_exn :: "pyexn + 'a \<Rightarrow> 'a eval" where
  "lift_exn r = (case r of Inl e \<Rightarrow> Inl (Exn e) | Inr x \<Rightarrow> Inr x)"

definition close_position :: "game_run \<Rightarrow> position \<Rightarrow> rbar option \<Rightarrow> string \<Rightarrow> trade eval" where
  "close_position g p exit_bar reason =
     (case exit_bar of
        None \<Rightarrow> Inr (settle_position g p None None)
      | Some b \<Rightarrow>
          sbind (make_orderbook (run_prof g) (run_venue g) (pos_side p) b) (\<lambda>(snap, synthetic).
            case snap of
              None \<Rightarrow>
                Inr (settle_position g p (Some b)
                  (if reason \<in> {''explicit_exit'', ''time_stop'', ''end_of_game''} then Some reason else None))
            | Some ob \<Rightarrow>
                sbind (lift_exn (simulate_fill (run_prof g) ob ''sell'' (pos_size p) 250 None
                         (Some (fl (of_int (minute_ts b)))) 0)) (\<lambda>ex.
                  if \<not> filled ex then Inr (settle_position g p (Some b) (Some reason))
                  else
                    let contracts = min (pos_size p) (filled_size ex);
                        gross = fmul (fsub (price_of ex) (pos_entry_price p)) contracts
                    in Inr \<lparr>trade_game_id = run_game_id g, trade_side = pos_side p, entry_ts_wall = pos_entry_wall p,
                            entry_ts_game_sec = pos_entry_game_sec p, entry_price = pos_entry_price p,
                            entry_fill = pos_entry_fill p, exit_ts_wall = minute_ts b,
                            exit_ts_game_sec = elapsed_game_sec b, exit_price = price_of ex, exit_fill = Some ex,
                            settle_value = None, contracts_filled = contracts, pnl_gross = gross,
                            pnl_net = fsub (fsub gross (fees_paid (pos_entry_fill p))) (fees_paid ex),
                            exit_reason = reason\<rparr>)))"

section \<open>The engine\<close>

record replay_state =
  st_position :: "position option"
  st_trades :: "trade list"
  st_skipped :: "(int \<times> skip) list"
  st_synthetic :: bool

definition start :: replay_state where
  "start = \<lparr>st_position = None, st_trades = [], st_skipped = [], st_synthetic = False\<rparr>"

abbreviation skip_bar :: "rbar \<Rightarrow> skip \<Rightarrow> replay_state \<Rightarrow> replay_state" where
  "skip_bar b s st \<equiv> st\<lparr>st_skipped := st_skipped st @ [(minute_ts b, s)]\<rparr>"

text \<open>The loop over the exit conditions: whether one fired, and the exception that ended it otherwise.
  A TypeError (a None operand) only passes over the condition.\<close>

fun exit_loop :: "game_run \<Rightarrow> env \<Rightarrow> condition list \<Rightarrow> bool \<times> evexn option" where
  "exit_loop g ctx [] = (False, None)"
| "exit_loop g ctx (c # cs) =
     (case eval_condition (run_rt g) (run_parse g) c ctx of
        Inr True \<Rightarrow> (True, None)
      | Inr False \<Rightarrow> exit_loop g ctx cs
      | Inl (Exn TypeError) \<Rightarrow> exit_loop g ctx cs
      | Inl e \<Rightarrow> (False, Some e))"

definition try_exit :: "game_run \<Rightarrow> rbar \<Rightarrow> rbar option \<Rightarrow> env \<Rightarrow> position \<Rightarrow> replay_state \<Rightarrow> replay_state eval" where
  "try_exit g b next ctx p st =
     (let time_stop_fired = of_int (time_stop_sec (run_spec g)) \<le> fsub (elapsed_game_sec b) (pos_entry_game_sec p);
          (explicit, failed) = exit_loop g ctx (exit_conditions (run_spec g));
          st' = (case failed of None \<Rightarrow> st | Some e \<Rightarrow> skip_bar b (ExitEvalFailed e) st)
      in if explicit \<or> time_stop_fired then
           sbind (close_position g p (Some (case next of Some b' \<Rightarrow> b' | None \<Rightarrow> b))
                    (if next = None then ''end_of_game'' else if explicit then ''explicit_exit'' else ''time_stop''))
             (\<lambda>t. Inr (st'\<lparr>st_trades := st_trades st' @ [t], st_position := None\<rparr>))
         else Inr st')"

definition try_entry :: "game_run \<Rightarrow> rbar \<Rightarrow> rbar option \<Rightarrow> env \<Rightarrow> env \<Rightarrow> replay_state \<Rightarrow> replay_state eval" where
  "try_entry g b next feats ctx st =
     (case next of
        None \<Rightarrow> Inr st
      | Some b' \<Rightarrow>
          (case eval_condition (run_rt g) (run_parse g) (entry_condition (run_spec g)) ctx of
             Inl e \<Rightarrow> Inr (skip_bar b (EntryEvalFailed e) st)
           | Inr False \<Rightarrow> Inr st
           | Inr True \<Rightarrow>
               sbind (resolve_side (spec_side (run_spec g)) b feats) (\<lambda>side. case side of
                   None \<Rightarrow> Inr (skip_bar b SideUnresolved st)
                 | Some sd \<Rightarrow>
                     sbind (make_orderbook (run_prof g) (run_venue g) sd b') (\<lambda>(snap, synthetic).
                       case snap of
                         None \<Rightarrow> Inr (skip_bar b (NoQuote sd) st)
                       | Some ob \<Rightarrow>
                           let st' = st\<lparr>st_synthetic := st_synthetic st \<or> synthetic\<rparr>
                           in sbind (lift_exn (simulate_fill (run_prof g) ob ''buy'' (sizing_value (sizing (run_spec g)))
                                       250 None (Some (fl (of_int (minute_ts b')))) 0)) (\<lambda>fill.
                                if kill_reason fill \<noteq> None \<or> \<not> filled fill
                                then Inr (skip_bar b (EntryKilled (kill_reason fill)) st')
                                else Inr (st'\<lparr>st_position := Some \<lparr>pos_side = sd, pos_size = filled_size fill,
                                       pos_entry_price = price_of fill, pos_entry_fill = fill,
                                       pos_entry_wall = minute_ts b', pos_entry_game_sec = elapsed_game_sec b'\<rparr>\<rparr>))))))"

text \<open>One round of the loop: the bar, and the next one if there is one.\<close>

definition bar_step :: "game_run \<Rightarrow> rbar \<Rightarrow> rbar option \<Rightarrow> replay_state \<Rightarrow> replay_state eval" where
  "bar_step g b next st =
     sbind (resolve_features (run_reg g) b (features (run_spec g)) (\<lambda>_. None)) (\<lambda>fs. case fs of
         Inl n \<Rightarrow> Inr (skip_bar b (FeatureUnavailable n) st)
       | Inr feats \<Rightarrow>
           sbind (build_context (run_venue g) b (st_position st) feats) (\<lambda>ctx.
             case st_position st of
               Some p \<Rightarrow> try_exit g b next ctx p st
             | None \<Rightarrow> try_entry g b next feats ctx st))"

fun replay_loop :: "game_run \<Rightarrow> rbar list \<Rightarrow> replay_state \<Rightarrow> replay_state eval" where
  "replay_loop g [] st = Inr st"
| "replay_loop g (b # bs) st =
     sbind (bar_step g b (case bs of [] \<Rightarrow> None | b' # _ \<Rightarrow> Some b') st) (replay_loop g bs)"

definition settle_open :: "game_run \<Rightarrow> rbar list \<Rightarrow> replay_state \<Rightarrow> trade list" where
  "settle_open g bars st =
     (case st_position st of
        None \<Rightarrow> st_trades st
      | Some p \<Rightarrow>
          st_trades st @ [settle_position g p (if bars = [] then None else Some (last bars)) None])"

definition summarise :: "string \<Rightarrow> string \<Rightarrow> int \<Rightarrow> trade list \<Rightarrow> replay_state \<Rightarrow> trial_result" where
  "summarise hash gid seed ts st =
     \<lparr>res_spec_hash = hash, res_game_id = gid, n_trades = int (length ts), res_trades = ts,
      res_pnl_gross = fsum (map pnl_gross ts), res_pnl_net = fsum (map pnl_net ts),
      notional_traded = fsum (map (\<lambda>t. \<bar>fmul (contracts_filled t) (entry_price t)\<bar>) ts),
      avg_holding_sec =
        (if ts = [] then 0
         else fdiv (fsum (map (\<lambda>t. fsub (exit_ts_game_sec t) (entry_ts_game_sec t)) ts)) (of_nat (length ts))),
      res_skipped = st_skipped st, rng_seed = seed, synthetic_depth_used = st_synthetic st\<rparr>"

definition run_game :: "game_run \<Rightarrow> rbar list \<Rightarrow> string \<Rightarrow> int \<Rightarrow> trial_result eval" where
  "run_game g bars hash seed =
     sbind (replay_loop g bars start) (\<lambda>st. Inr (summarise hash (run_game_id g) seed (settle_open g bars st) st))"

definition venue_for :: "string option \<Rightarrow> string \<Rightarrow> string" where
  "venue_for override spec_v =
     (let v = (case override of Some w \<Rightarrow> if w = [] then spec_v else w | None \<Rightarrow> spec_v)
      in if v = ''either'' then ''polymarket'' else v)"

text \<open>\<open>load\<close> gives the bars of a game and the outcome in its metadata (None when there is none);
  \<open>hash\<close> is the digest of the spec's JSON.\<close>

definition replay_game ::
  "runtime \<Rightarrow> parser \<Rightarrow> registry \<Rightarrow> cost_profile \<Rightarrow> (strategy_spec \<Rightarrow> string) \<Rightarrow>
   (string \<Rightarrow> string \<Rightarrow> (rbar list \<times> pyval) eval) \<Rightarrow> strategy_spec \<Rightarrow> string \<Rightarrow> int \<Rightarrow> string option \<Rightarrow> trial_result eval" where
  "replay_game rt parse reg prof hash load spec gid seed override =
     sbind (validate parse reg spec) (\<lambda>u.
       let venue = venue_for override (spec_venue spec)
       in sbind (load gid venue) (\<lambda>(bars, hw).
            run_game \<lparr>run_rt = rt, run_parse = parse, run_reg = reg, run_prof = prof, run_spec = spec,
                      run_game_id = gid, run_venue = venue, home_won = hw\<rparr> bars (hash spec) seed))"

fun replay_games ::
  "runtime \<Rightarrow> parser \<Rightarrow> registry \<Rightarrow> cost_profile \<Rightarrow> (strategy_spec \<Rightarrow> string) \<Rightarrow>
   (string \<Rightarrow> string \<Rightarrow> (rbar list \<times> pyval) eval) \<Rightarrow> strategy_spec \<Rightarrow> string list \<Rightarrow> int \<Rightarrow> trial_result list eval" where
  "replay_games rt parse reg prof hash load spec [] seed = Inr []"
| "replay_games rt parse reg prof hash load spec (gid # gids) seed =
     sbind (replay_game rt parse reg prof hash load spec gid seed None) (\<lambda>r.
       sbind (replay_games rt parse reg prof hash load spec gids seed) (\<lambda>rs. Inr (r # rs)))"

end
