(* ===== verification/ReplayProps.thy ===== *)
theory ReplayProps
  imports Replay
begin

text \<open>
  What holds of the replay: no bar is read before its time, positions follow one another, the
  leakage canary cannot reach a result, accepted strategies never run into an unbound name, and the
  money of a trade is bounded by its contracts. The last section shows where the engine departs from
  its own description.
\<close>

section \<open>No lookahead\<close>

text \<open>The first \<open>n\<close> rounds of the loop.\<close>

fun steps :: "game_run \<Rightarrow> nat \<Rightarrow> rbar list \<Rightarrow> replay_state \<Rightarrow> replay_state eval" where
  "steps g (Suc n) (b # bs) st =
     sbind (bar_step g b (case bs of [] \<Rightarrow> None | b' # _ \<Rightarrow> Some b') st) (steps g n bs)"
| "steps g n bs st = Inr st"

lemma steps_0 [simp]: "steps g 0 bs st = Inr st"
  by (cases bs) auto

lemma loop_split: "replay_loop g bs st = sbind (steps g n bs st) (replay_loop g (drop n bs))"
proof (induction g n bs st rule: steps.induct)
  case (1 g n b bs st)
  then show ?case
    by (cases "bar_step g b (case bs of [] \<Rightarrow> None | b' # _ \<Rightarrow> Some b') st") auto
qed auto


text \<open>What a round can do to the state: it may note a skip, and it may close or open a position.\<close>

definition closes :: "game_run \<Rightarrow> rbar \<Rightarrow> position \<Rightarrow> trade \<Rightarrow> bool" where
  "closes g b p t = (\<exists>reason. close_position g p (Some b) reason = Inr t)"

definition opens :: "game_run \<Rightarrow> rbar \<Rightarrow> position \<Rightarrow> bool" where
  "opens g b p =
     (\<exists>sd ob syn fill. make_orderbook (run_prof g) (run_venue g) sd b = Inr (Some ob, syn) \<and> sd \<in> {''long_home'', ''long_away''} \<and>
        simulate_fill (run_prof g) ob ''buy'' (sizing_value (sizing (run_spec g))) 250 None
          (Some (fl (of_int (minute_ts b)))) 0 = Inr fill \<and> filled fill \<and>
        p = \<lparr>pos_side = sd, pos_size = filled_size fill, pos_entry_price = price_of fill, pos_entry_fill = fill,
             pos_entry_wall = minute_ts b, pos_entry_game_sec = elapsed_game_sec b\<rparr>)"

lemma settle_fields [simp]:
  "entry_ts_wall (settle_position g p lb r) = pos_entry_wall p"
  "trade_side (settle_position g p lb r) = pos_side p"
  "exit_ts_wall (settle_position g p (Some b) r) = minute_ts b"
  "contracts_filled (settle_position g p lb r) = pos_size p"
  "entry_fill (settle_position g p lb r) = pos_entry_fill p"
  "entry_price (settle_position g p lb r) = pos_entry_price p"
  by (simp_all add: settle_position_def Let_def)

lemma closes_cases:
  assumes "closes g b p t"
  obtains (settled) r where "t = settle_position g p (Some b) r"
  | (sold) snap ex where "simulate_fill (run_prof g) snap ''sell'' (pos_size p) 250 None (Some (fl (of_int (minute_ts b)))) 0 = Inr ex"
      "filled ex" "contracts_filled t = min (pos_size p) (filled_size ex)" "exit_price t = price_of ex"
      "pnl_gross t = fmul (fsub (price_of ex) (pos_entry_price p)) (contracts_filled t)"
      "pnl_net t = fsub (fsub (pnl_gross t) (fees_paid (pos_entry_fill p))) (fees_paid ex)"
      "exit_ts_wall t = minute_ts b" "entry_ts_wall t = pos_entry_wall p" "trade_side t = pos_side p"
      "entry_fill t = pos_entry_fill p" "entry_price t = pos_entry_price p"
proof -
  obtain reason where c: "close_position g p (Some b) reason = Inr t" using assms by (auto simp: closes_def)
  obtain snap syn where mk: "make_orderbook (run_prof g) (run_venue g) (pos_side p) b = Inr (snap, syn)"
    using c by (auto simp: close_position_def sbind_eq_Inr)
  show thesis
  proof (cases snap)
    case None
    then have "t = settle_position g p (Some b)
        (if reason \<in> {''explicit_exit'', ''time_stop'', ''end_of_game''} then Some reason else None)"
      using c mk by (simp add: close_position_def)
    then show thesis by (rule settled)
  next
    case (Some ob)
    obtain ex where ex: "simulate_fill (run_prof g) ob ''sell'' (pos_size p) 250 None (Some (fl (of_int (minute_ts b)))) 0 = Inr ex"
      using c mk Some by (auto simp: close_position_def sbind_eq_Inr lift_exn_def split: sum.split_asm)
    show thesis
    proof (cases "filled ex")
      case False
      then have "t = settle_position g p (Some b) (Some reason)"
        using c mk Some ex by (simp add: close_position_def lift_exn_def)
      then show thesis by (rule settled)
    next
      case True
      then show thesis using c mk Some ex by (intro sold [OF ex]) (auto simp: close_position_def lift_exn_def Let_def)
    qed
  qed
qed

lemma closes_times: "closes g b p t \<Longrightarrow> exit_ts_wall t = minute_ts b \<and> entry_ts_wall t = pos_entry_wall p"
  by (erule closes_cases) auto

lemma try_exit_effect:
  assumes "try_exit g b next ctx p st = Inr st'"
  shows "(st_position st' = st_position st \<and> st_trades st' = st_trades st \<or>
          (\<exists>t. closes g (case next of Some b' \<Rightarrow> b' | None \<Rightarrow> b) p t \<and> st_position st' = None \<and> st_trades st' = st_trades st @ [t])) \<and>
         (st_skipped st' = st_skipped st \<or>
          (\<exists>e. snd (exit_loop g ctx (exit_conditions (run_spec g))) = Some e \<and>
               st_skipped st' = st_skipped st @ [(minute_ts b, ExitEvalFailed e)]))"
proof -
  obtain explicit failed where el: "exit_loop g ctx (exit_conditions (run_spec g)) = (explicit, failed)" by fastforce
  define st1 where "st1 = (case failed of None \<Rightarrow> st | Some e \<Rightarrow> skip_bar b (ExitEvalFailed e) st)"
  have st1: "st_position st1 = st_position st" "st_trades st1 = st_trades st"
    "st_skipped st1 = st_skipped st \<or> (\<exists>e. failed = Some e \<and> st_skipped st1 = st_skipped st @ [(minute_ts b, ExitEvalFailed e)])"
    by (cases failed; simp add: st1_def)+
  show ?thesis
  proof (cases "explicit \<or> of_int (time_stop_sec (run_spec g)) \<le> fsub (elapsed_game_sec b) (pos_entry_game_sec p)")
    case True
    then obtain t where "closes g (case next of Some b' \<Rightarrow> b' | None \<Rightarrow> b) p t"
      and "st' = st1\<lparr>st_trades := st_trades st1 @ [t], st_position := None\<rparr>"
      using assms by (auto simp: try_exit_def el Let_def st1_def [symmetric] sbind_eq_Inr closes_def)
    then show ?thesis using st1 el by auto
  next
    case False
    then have "st' = st1" using assms by (simp add: try_exit_def el Let_def st1_def [symmetric])
    then show ?thesis using st1 el by auto
  qed
qed

lemma resolve_side_values: "resolve_side want b feats = Inr (Some sd) \<Longrightarrow> sd \<in> {''long_home'', ''long_away''}"
  unfolding resolve_side_def sbind_def by (simp split: if_split_asm sum.split_asm option.split_asm)

lemma try_entry_effect:
  assumes "try_entry g b next feats ctx st = Inr st'"
  shows "st_trades st' = st_trades st \<and>
         (st_position st' = st_position st \<or>
          (\<exists>b' p. next = Some b' \<and> opens g b' p \<and> st_position st' = Some p)) \<and>
         (st_skipped st' = st_skipped st \<or>
          (\<exists>s. (\<forall>e. s = EntryEvalFailed e \<longrightarrow>
                  eval_condition (run_rt g) (run_parse g) (entry_condition (run_spec g)) ctx = Inl e) \<and>
               (\<forall>e. s \<noteq> ExitEvalFailed e) \<and> st_skipped st' = st_skipped st @ [(minute_ts b, s)]))"
proof (cases "\<exists>b'. next = Some b' \<and> eval_condition (run_rt g) (run_parse g) (entry_condition (run_spec g)) ctx = Inr True")
  case False
  then show ?thesis using assms
    by (auto simp: try_entry_def split: option.split_asm sum.split_asm bool.split_asm)
next
  case True
  then obtain b' where b': "next = Some b'"
    and fires: "eval_condition (run_rt g) (run_parse g) (entry_condition (run_spec g)) ctx = Inr True" by blast
  obtain so where so: "resolve_side (spec_side (run_spec g)) b feats = Inr so"
    using assms by (auto simp: try_entry_def b' fires sbind_eq_Inr)
  show ?thesis
  proof (cases so)
    case None
    then show ?thesis using assms so by (auto simp: try_entry_def b' fires)
  next
    case (Some sd)
    obtain snap syn where mk: "make_orderbook (run_prof g) (run_venue g) sd b' = Inr (snap, syn)"
      using assms so Some by (auto simp: try_entry_def b' fires sbind_eq_Inr)
    show ?thesis
    proof (cases snap)
      case None
      then show ?thesis using assms so Some mk by (auto simp: try_entry_def b' fires)
    next
      case snap: (Some ob)
      obtain fill where fill: "simulate_fill (run_prof g) ob ''buy'' (sizing_value (sizing (run_spec g))) 250 None
          (Some (fl (of_int (minute_ts b')))) 0 = Inr fill"
        using assms so Some mk snap by (auto simp: try_entry_def b' fires sbind_eq_Inr lift_exn_def split: sum.split_asm)
      have "opens g b' \<lparr>pos_side = sd, pos_size = filled_size fill, pos_entry_price = price_of fill, pos_entry_fill = fill,
             pos_entry_wall = minute_ts b', pos_entry_game_sec = elapsed_game_sec b'\<rparr>" if "filled fill"
        using mk snap fill that resolve_side_values so Some by (auto simp: opens_def)
      then show ?thesis using assms so Some mk snap fill
        by (auto simp: try_entry_def b' fires lift_exn_def Let_def split: if_split_asm)
    qed
  qed
qed

lemma bar_step_effect:
  assumes "bar_step g b next st = Inr st'"
  obtains (keep) "st_position st' = st_position st" "st_trades st' = st_trades st"
  | (close) p t where "st_position st = Some p" "closes g (case next of Some b' \<Rightarrow> b' | None \<Rightarrow> b) p t"
      "st_position st' = None" "st_trades st' = st_trades st @ [t]"
  | (opened) b' p where "st_position st = None" "next = Some b'" "opens g b' p"
      "st_position st' = Some p" "st_trades st' = st_trades st"
proof -
  obtain fs where fs: "resolve_features (run_reg g) b (features (run_spec g)) (\<lambda>_. None) = Inr fs"
    using assms by (auto simp: bar_step_def sbind_eq_Inr)
  show thesis
  proof (cases fs)
    case (Inl n)
    then have "st' = skip_bar b (FeatureUnavailable n) st" using assms fs by (simp add: bar_step_def)
    then show thesis using keep by simp
  next
    case (Inr feats)
    obtain ctx where ctx: "build_context (run_venue g) b (st_position st) feats = Inr ctx"
      using assms fs Inr by (auto simp: bar_step_def sbind_eq_Inr)
    show thesis
    proof (cases "st_position st")
      case None
      then have "try_entry g b next feats ctx st = Inr st'" using assms fs Inr ctx by (simp add: bar_step_def)
      from try_entry_effect [OF this] show thesis using None keep opened by metis
    next
      case (Some p)
      then have "try_exit g b next ctx p st = Inr st'" using assms fs Inr ctx by (simp add: bar_step_def)
      from try_exit_effect [OF this] show thesis using Some keep close by metis
    qed
  qed
qed


text \<open>The same run with another outcome.\<close>

definition with_outcome :: "pyval \<Rightarrow> game_run \<Rightarrow> game_run" where
  "with_outcome hw g = g\<lparr>home_won := hw\<rparr>"

lemma with_outcome_fields [simp]:
  "run_rt (with_outcome hw g) = run_rt g" "run_parse (with_outcome hw g) = run_parse g" "run_reg (with_outcome hw g) = run_reg g"
  "run_prof (with_outcome hw g) = run_prof g" "run_game_id (with_outcome hw g) = run_game_id g"
  "run_venue (with_outcome hw g) = run_venue g" "run_spec (with_outcome hw g) = run_spec g"
  by (simp_all add: with_outcome_def)

lemma exit_loop_outcome: "exit_loop (with_outcome hw g) ctx cs = exit_loop g ctx cs"
  by (induction cs) (simp_all only: exit_loop.simps with_outcome_fields)











definition next_bar :: "rbar list \<Rightarrow> nat \<Rightarrow> rbar option" where
  "next_bar bars i = (if Suc i < length bars then Some (bars ! Suc i) else None)"

lemma steps_Suc:
  "n < length bs \<Longrightarrow> steps g (Suc n) bs st = sbind (steps g n bs st) (bar_step g (bs ! n) (next_bar bs n))"
proof (induction n arbitrary: bs st)
  case 0
  have "sbind x (steps g 0 bs') = x" for x :: "replay_state eval" and bs' by (cases x) simp_all
  then show ?case using 0 by (cases bs) (auto simp: next_bar_def split: list.split)
next
  case (Suc n)
  then obtain b bs' where bs: "bs = b # bs'" "n < length bs'" by (cases bs) auto
  let ?s = "bar_step g b (case bs' of [] \<Rightarrow> None | b' # _ \<Rightarrow> Some b') st"
  have "steps g (Suc (Suc n)) bs st = sbind ?s (steps g (Suc n) bs')" by (simp only: bs(1) steps.simps)
  also have "\<dots> = sbind ?s (\<lambda>x. sbind (steps g n bs' x) (bar_step g (bs' ! n) (next_bar bs' n)))"
    by (rule sbind_cong [OF refl]) (rule Suc.IH [OF bs(2)])
  finally show ?case by (cases ?s) (simp_all add: bs(1) next_bar_def)
qed

lemma steps_all: "replay_loop g bars st = steps g (length bars) bars st"
  using loop_split [of g bars st "length bars"] by (cases "steps g (length bars) bars st") auto


section \<open>One position at a time\<close>

text \<open>Trades one after the other, the last ending by \<open>now\<close>; an open position after all of them.\<close>

definition in_order :: "int \<Rightarrow> trade list \<Rightarrow> bool" where
  "in_order t0 ts =
     (sorted_wrt (\<lambda>t u. exit_ts_wall t < entry_ts_wall u) ts \<and>
      (\<forall>t\<in>set ts. entry_ts_wall t \<le> exit_ts_wall t \<and> exit_ts_wall t \<le> t0))"

definition timely :: "int \<Rightarrow> replay_state \<Rightarrow> bool" where
  "timely t0 st =
     (in_order t0 (st_trades st) \<and>
      (\<forall>p. st_position st = Some p \<longrightarrow>
         pos_entry_wall p \<le> t0 \<and> (\<forall>t\<in>set (st_trades st). exit_ts_wall t < pos_entry_wall p)))"

lemma in_order_mono: "in_order t0 ts \<Longrightarrow> t0 \<le> t1 \<Longrightarrow> in_order t1 ts"
  by (auto simp: in_order_def)

lemma timely_mono: "timely t0 st \<Longrightarrow> t0 \<le> t1 \<Longrightarrow> timely t1 st"
  unfolding timely_def using in_order_mono by fastforce

lemma in_order_snoc:
  "in_order t0 ts \<Longrightarrow> (\<forall>t\<in>set ts. exit_ts_wall t < entry_ts_wall u) \<Longrightarrow>
   entry_ts_wall u \<le> exit_ts_wall u \<Longrightarrow> exit_ts_wall u \<le> t1 \<Longrightarrow> t0 \<le> t1 \<Longrightarrow> in_order t1 (ts @ [u])"
  by (auto simp: in_order_def sorted_wrt_append)

lemma bar_step_timely:
  assumes "bar_step g b next st = Inr st'" and "timely (minute_ts b) st"
    and "t1 = (case next of Some b' \<Rightarrow> minute_ts b' | None \<Rightarrow> minute_ts b)" and "\<And>b'. next = Some b' \<Longrightarrow> minute_ts b < minute_ts b'"
  shows "timely t1 st'"
proof -
  have le: "minute_ts b \<le> t1" using assms(3,4) by (auto split: option.split)
  from assms(1) show ?thesis
  proof (cases rule: bar_step_effect)
    case keep
    then show ?thesis using timely_mono [OF assms(2) le] by (simp add: timely_def)
  next
    case (close p t)
    have x: "exit_ts_wall t = t1" "entry_ts_wall t = pos_entry_wall p"
      using closes_times [OF close(2)] assms(3) by (auto split: option.split)
    have "in_order t1 (st_trades st @ [t])"
      using assms(2) close(1) x le by (intro in_order_snoc [of "minute_ts b"]) (auto simp: timely_def)
    then show ?thesis using close by (simp add: timely_def)
  next
    case (opened b' p)
    have x: "pos_entry_wall p = t1" "minute_ts b < t1"
      using opened assms(3,4) by (auto simp: opens_def)
    have "in_order t1 (st_trades st)" using assms(2) le in_order_mono by (auto simp: timely_def)
    then show ?thesis using opened x assms(2) by (fastforce simp: timely_def in_order_def)
  qed
qed

lemma loop_timely:
  "replay_loop g (b # bs) st = Inr st' \<Longrightarrow> timely (minute_ts b) st \<Longrightarrow>
   sorted_wrt (\<lambda>x y. minute_ts x < minute_ts y) (b # bs) \<Longrightarrow> timely (minute_ts (last (b # bs))) st'"
proof (induction bs arbitrary: b st)
  case Nil
  then show ?case using bar_step_timely [of g b None st st'] by (auto simp: sbind_eq_Inr)
next
  case (Cons b2 bs)
  obtain st1 where st1: "bar_step g b (Some b2) st = Inr st1" "replay_loop g (b2 # bs) st1 = Inr st'"
    using Cons.prems(1) by (auto simp: sbind_eq_Inr)
  have "timely (minute_ts b2) st1"
    using bar_step_timely [OF st1(1) Cons.prems(2)] Cons.prems(3) by simp
  then show ?case using Cons.IH [OF st1(2)] Cons.prems(3) by simp
qed

text \<open>The origin of a position: the round in which it was taken, from a flat state, and the bar after it.\<close>

definition taken :: "game_run \<Rightarrow> rbar list \<Rightarrow> position \<Rightarrow> bool" where
  "taken g bars p =
     (\<exists>i st s. Suc i < length bars \<and> steps g i bars start = Inr st \<and> st_position st = None \<and>
        steps g (Suc i) bars start = Inr s \<and> st_position s = Some p \<and> pos_entry_wall p = minute_ts (bars ! Suc i))"

definition carries :: "trade \<Rightarrow> position \<Rightarrow> bool" where
  "carries t p =
     (entry_ts_wall t = pos_entry_wall p \<and> trade_side t = pos_side p \<and> entry_price t = pos_entry_price p)"

lemma closes_carries: "closes g b p t \<Longrightarrow> carries t p"
  by (erule closes_cases) (auto simp: carries_def)

lemma steps_origin:
  "n \<le> length bars \<Longrightarrow> steps g n bars start = Inr st \<Longrightarrow>
     (\<forall>p. st_position st = Some p \<longrightarrow> taken g bars p) \<and> (\<forall>t\<in>set (st_trades st). \<exists>p. taken g bars p \<and> carries t p)"
proof (induction n arbitrary: st)
  case 0
  then have "st = start" by simp
  then show ?case by (simp add: start_def)
next
  case (Suc n)
  obtain st0 where st0: "steps g n bars start = Inr st0" "bar_step g (bars ! n) (next_bar bars n) st0 = Inr st"
    using Suc.prems steps_Suc [of n bars g start] by (auto simp: sbind_eq_Inr)
  have IH: "\<forall>p. st_position st0 = Some p \<longrightarrow> taken g bars p" "\<forall>t\<in>set (st_trades st0). \<exists>p. taken g bars p \<and> carries t p"
    using Suc.IH [OF _ st0(1)] Suc.prems(1) by auto
  from st0(2) show ?case
  proof (cases rule: bar_step_effect)
    case keep
    then show ?thesis using IH by simp
  next
    case (close p t)
    then show ?thesis using IH closes_carries by auto
  next
    case (opened b' p)
    have "Suc n < length bars" "b' = bars ! Suc n" using opened(2) by (simp_all add: next_bar_def split: if_split_asm)
    moreover have "pos_entry_wall p = minute_ts b'" using opened(3) by (auto simp: opens_def)
    ultimately have "taken g bars p" using opened(1,4) st0(1) Suc.prems(2) unfolding taken_def by blast
    then show ?thesis using opened IH by simp
  qed
qed

text \<open>C18. One position at a time, in time order: in a game whose bars have increasing timestamps every trade
  is entered no later than it is left and strictly after the previous one was left, and none outlives
  the last bar. Every trade belongs to a position taken from a flat book in some round, and is entered
  at the bar after the bar of that round, so later than the bar that gave the signal.\<close>

theorem trades_are_sequential:
  assumes "run_game g bars hash seed = Inr r" and "sorted_wrt (\<lambda>x y. minute_ts x < minute_ts y) bars" and "bars \<noteq> []"
  shows "in_order (minute_ts (last bars)) (res_trades r) \<and>
    (\<forall>t\<in>set (res_trades r). \<exists>i st s p. Suc i < length bars \<and>
       steps g i bars start = Inr st \<and> st_position st = None \<and> steps g (Suc i) bars start = Inr s \<and> st_position s = Some p \<and>
       trade_side t = pos_side p \<and> entry_price t = pos_entry_price p \<and> entry_ts_wall t = minute_ts (bars ! Suc i) \<and>
       minute_ts (bars ! i) < entry_ts_wall t)"
proof -
  obtain st where st: "replay_loop g bars start = Inr st" "res_trades r = settle_open g bars st"
    using assms(1) by (auto simp: run_game_def sbind_eq_Inr summarise_def)
  obtain b bs where bs: "bars = b # bs" using assms(3) by (cases bars) auto
  have "timely (minute_ts b) start" by (simp add: timely_def in_order_def start_def)
  then have t: "timely (minute_ts (last bars)) st" using loop_timely st(1) assms(2) unfolding bs by blast
  have o: "\<forall>p. st_position st = Some p \<longrightarrow> taken g bars p" "\<forall>t\<in>set (st_trades st). \<exists>p. taken g bars p \<and> carries t p"
    using steps_origin [OF order_refl] st(1) steps_all by metis+
  have "in_order (minute_ts (last bars)) (res_trades r) \<and> (\<forall>t\<in>set (res_trades r). \<exists>p. taken g bars p \<and> carries t p)"
  proof (cases "st_position st")
    case None
    then show ?thesis using t st o by (simp add: settle_open_def timely_def)
  next
    case (Some p)
    then have "in_order (minute_ts (last bars)) (st_trades st @ [settle_position g p (Some (last bars)) None])"
      using t by (intro in_order_snoc [of "minute_ts (last bars)"]) (auto simp: timely_def)
    moreover have "carries (settle_position g p (Some (last bars)) None) p" by (simp add: carries_def)
    ultimately show ?thesis using st Some assms(3) o by (auto simp: settle_open_def)
  qed
  moreover have "minute_ts (bars ! i) < minute_ts (bars ! Suc i)" if "Suc i < length bars" for i
    using sorted_wrt_nth_less [OF assms(2), of i "Suc i"] that by simp
  ultimately show ?thesis unfolding taken_def carries_def by (metis (no_types, lifting))
qed

section \<open>The leakage canary\<close>

text \<open>A bar whose ESPN win probability (a model output that a live strategy cannot see) is replaced.\<close>

definition with_canary :: "pyval option \<Rightarrow> rbar \<Rightarrow> rbar" where
  "with_canary v b = b\<lparr>cols := (cols b)(''espn_home_winprob'' := v)\<rparr>"

lemma canary_fields [simp]:
  "minute_ts (with_canary v b) = minute_ts b" "elapsed_game_sec (with_canary v b) = elapsed_game_sec b"
  "pm_home_mid (with_canary v b) = pm_home_mid b" "pm_away_mid (with_canary v b) = pm_away_mid b"
  by (simp_all add: with_canary_def)

lemma canary_view [simp]: "k \<noteq> ''espn_home_winprob'' \<Longrightarrow> bar_get (row_view (with_canary v b)) k = bar_get (row_view b) k"
  by (simp add: bar_get_def row_view_def with_canary_def)

lemma canary_reads [simp]:
  "k \<noteq> ''espn_home_winprob'' \<Longrightarrow> quote (row_view (with_canary v b)) k = quote (row_view b) k"
  "k \<noteq> ''espn_home_winprob'' \<Longrightarrow> bar_float (with_canary v b) k = bar_float b k"
  by (simp_all add: quote_def bar_float_def)

lemma canary_books [simp]:
  "make_orderbook prof venue sd (with_canary v b) = make_orderbook prof venue sd b"
  "resolve_side want (with_canary v b) feats = resolve_side want b feats"
  "current_mark (with_canary v b) venue sd = current_mark b venue sd"
  "position_keys (with_canary v b) pos mark = position_keys b pos mark"
  by (simp_all add: make_orderbook_def resolve_side_def current_mark_def position_keys_def Let_def cong: option.case_cong if_cong)

lemma canary_context [simp]: "build_context venue (with_canary v b) pos feats = build_context venue b pos feats"
  by (simp add: build_context_def cong: option.case_cong)

lemma canary_settle [simp]: "settle_position g p (Some (with_canary v b)) r = settle_position g p (Some b) r"
  unfolding settle_position_def option.case canary_fields ..

lemma canary_close [simp]:
  "close_position g p (Some (with_canary v b)) reason = close_position g p (Some b) reason"
  unfolding close_position_def option.case canary_fields canary_books canary_settle ..

text \<open>The live-safe seed features with their availability and their functions.\<close>

definition live_table :: "(string \<times> (int \<times> computer)) list" where
  "live_table =
     [(''margin'', 0, compute_margin), (''time_remaining'', 0, compute_time_remaining), (''pace_ppm'', 120, compute_pace_ppm),
      (''recent_run_signed'', 240, compute_recent_run_signed), (''lineup_hash'', 60, compute_lineup_hash),
      (''home_stars_on'', 60, compute_home_stars_on), (''away_stars_on'', 60, compute_away_stars_on),
      (''kalshi_implied_wp'', 0, compute_kalshi_implied_wp), (''pm_implied_wp'', 0, compute_pm_implied_wp),
      (''lead_changes_cum'', 0, compute_lead_changes_cum)]"

lemma live_lookup:
  assumes "map_of (reg_specs REGISTRY) n = Some sp" "is_live_safe sp"
  shows "map_of live_table n \<noteq> None"
  using assms by (simp add: REGISTRY_eq seed_features_def seed_feature_def live_table_def split: if_split_asm) auto

lemma resolve_live:
  "list_all (\<lambda>(n, off, f). \<exists>sp. map_of (reg_specs REGISTRY) n = Some sp \<and> available_at_offset_sec sp = off \<and>
      resolve_path (compute_fn_path sp) = Inr f) live_table"
  by (simp add: REGISTRY_eq seed_features_def seed_feature_def live_table_def resolve_path_def rpartition_dot_def computers_def)

lemma compute_live:
  "map_of live_table n = Some (off, f) \<Longrightarrow>
     compute_value n b gc REGISTRY = (if gc < of_int off then Inl (RuntimeError n) else Inr (f b gc))"
  using resolve_live by (fastforce simp: list_all_iff compute_value_def get_feature_def dest: map_of_SomeD)

lemma live_blind:
  "list_all (\<lambda>(n, off, f). f (row_view (with_canary v b)) gc = f (row_view b) gc) live_table"
  by (simp add: live_table_def compute_margin_def compute_time_remaining_def compute_pace_ppm_def
      compute_recent_run_signed_def compute_lineup_hash_def compute_home_stars_on_def compute_away_stars_on_def
      compute_kalshi_implied_wp_def compute_pm_implied_wp_def compute_lead_changes_cum_def)

definition live_features :: "strategy_spec \<Rightarrow> bool" where
  "live_features spec = (\<forall>n\<in>set (features spec). map_of live_table n \<noteq> None)"

lemma validated_live: "validate parse REGISTRY spec = Inr () \<Longrightarrow> live_features spec"
  unfolding live_features_def using validate_Inr(1) live_lookup by blast

lemma canary_features:
  "(\<forall>n\<in>set ns. map_of live_table n \<noteq> None) \<Longrightarrow>
     resolve_features REGISTRY (with_canary v b) ns feats = resolve_features REGISTRY b ns feats"
proof (induction ns arbitrary: feats)
  case (Cons n ns)
  then obtain off f where of: "map_of live_table n = Some (off, f)" by auto
  have "f (row_view (with_canary v b)) (elapsed_game_sec b) = f (row_view b) (elapsed_game_sec b)"
    using live_blind [of v b "elapsed_game_sec b"] map_of_SomeD [OF of] by (fastforce simp: list_all_iff)
  then have "compute_value n (row_view (with_canary v b)) (elapsed_game_sec b) REGISTRY
      = compute_value n (row_view b) (elapsed_game_sec b) REGISTRY"
    by (simp add: compute_live [OF of])
  then show ?case using Cons by (simp split: sum.split evexn.split)
qed simp

lemma canary_step:
  assumes "run_reg g = REGISTRY" "live_features (run_spec g)"
  shows "bar_step g (with_canary v b) (map_option (with_canary w) next) st = bar_step g b next st"
proof -
  have "try_entry g (with_canary v b) (map_option (with_canary w) next) feats ctx st = try_entry g b next feats ctx st" for feats ctx
  proof (cases "next")
    case (Some b')
    show ?thesis unfolding Some try_entry_def option.map option.case canary_fields canary_books ..
  qed (simp add: try_entry_def)
  moreover have "try_exit g (with_canary v b) (map_option (with_canary w) next) ctx p st = try_exit g b next ctx p st" for ctx p
    by (cases "next") (simp_all only: try_exit_def option.map option.case option.distinct canary_fields canary_close)
  ultimately show ?thesis
    using assms canary_features [of "features (run_spec g)" v b]
    by (simp add: bar_step_def live_features_def cong: option.case_cong sum.case_cong)
qed

lemma canary_loop:
  assumes "run_reg g = REGISTRY" "live_features (run_spec g)"
  shows "replay_loop g (map (\<lambda>b. with_canary (v b) b) bs) st = replay_loop g bs st"
proof (induction bs arbitrary: st)
  case (Cons b bs)
  have "(case map (\<lambda>b. with_canary (v b) b) bs of [] \<Rightarrow> None | b' # _ \<Rightarrow> Some b')
      = map_option (with_canary (case bs of [] \<Rightarrow> None | b' # _ \<Rightarrow> v b')) (case bs of [] \<Rightarrow> None | b' # _ \<Rightarrow> Some b')"
    by (cases bs) auto
  then show ?case using canary_step [OF assms] Cons by (auto intro: sbind_cong)
qed simp

text \<open>C19. Non-interference: whatever values the ESPN win probability takes in the bars of a game, the result
  of the replay of a strategy that validation accepts is the same, trades, skips and money alike.\<close>

theorem canary_cannot_leak:
  assumes "validate parse REGISTRY spec = Inr ()"
  shows "replay_game rt parse REGISTRY prof hash
           (\<lambda>gid venue. sbind (load gid venue) (\<lambda>(bars, hw). Inr (map (\<lambda>b. with_canary (v b) b) bars, hw))) spec gid seed override
       = replay_game rt parse REGISTRY prof hash load spec gid seed override"
proof -
  have "run_game g (map (\<lambda>b. with_canary (v b) b) bars) h seed = run_game g bars h seed"
    if "run_reg g = REGISTRY" "live_features (run_spec g)" for g bars h
    unfolding run_game_def canary_loop [OF that]
    by (auto intro!: sbind_cong simp: settle_open_def last_map cong: option.case_cong)
  then show ?thesis using validated_live [OF assms]
    by (cases "load gid (venue_for override (spec_venue spec))") (auto simp: replay_game_def Let_def)
qed

section \<open>No unbound names\<close>

lemma position_key_names:
  "fst ` set (position_keys b pos mark) =
     {''pos_side'', ''pos_entry_price'', ''pos_entry_elapsed'', ''pos_size'', ''minutes_since_entry'', ''unrealized_pnl_bps''}"
  by (cases pos) (simp_all add: position_keys_def)

lemma context_shape:
  assumes "build_context venue b pos feats = Inr ctx"
  obtains al where "ctx = map_of al ++ (\<lambda>n. if dunder n then None else feats n)"
    and "fst ` set al = {''pos_side'', ''pos_entry_price'', ''pos_entry_elapsed'', ''pos_size'', ''minutes_since_entry'',
      ''unrealized_pnl_bps'', ''home_score'', ''away_score'', ''elapsed_game_sec'', ''margin'', ''total''}"
proof -
  obtain hs aw m t mark where "ctx = map_of ([(''home_score'', hs), (''away_score'', aw),
      (''elapsed_game_sec'', PFloat (elapsed_game_sec b)), (''margin'', m), (''total'', t)] @ position_keys b pos mark)
      ++ (\<lambda>n. if dunder n then None else feats n)"
    using assms unfolding build_context_def sbind_eq_Inr by blast
  then show thesis
    by (rule that) (simp only: set_append image_Un position_key_names, simp)
qed

lemma context_keys:
  assumes "build_context venue b pos feats = Inr ctx"
  shows "set BUILTIN_CONTEXT_KEYS - {''True'', ''False'', ''None''} \<subseteq> dom ctx"
    and "n \<in> dom feats \<Longrightarrow> \<not> dunder n \<Longrightarrow> n \<in> dom ctx"
proof -
  obtain al where c: "ctx = map_of al ++ (\<lambda>n. if dunder n then None else feats n)"
    and k: "fst ` set al = {''pos_side'', ''pos_entry_price'', ''pos_entry_elapsed'', ''pos_size'', ''minutes_since_entry'',
      ''unrealized_pnl_bps'', ''home_score'', ''away_score'', ''elapsed_game_sec'', ''margin'', ''total''}"
    by (rule context_shape [OF assms])
  have "set BUILTIN_CONTEXT_KEYS - {''True'', ''False'', ''None''} \<subseteq> fst ` set al"
    unfolding k BUILTIN_CONTEXT_KEYS_def Diff_subset_conv by simp
  then show "set BUILTIN_CONTEXT_KEYS - {''True'', ''False'', ''None''} \<subseteq> dom ctx"
    unfolding c dom_map_add dom_map_of_conv_image_fst by (rule le_supI2)
  show "n \<in> dom ctx" if "n \<in> dom feats" "\<not> dunder n"
    using that unfolding c by (auto simp: map_add_def split: option.split)
qed

lemma resolved_features:
  "resolve_features reg b ns feats = Inr (Inr feats') \<Longrightarrow> dom feats' = dom feats \<union> set ns"
  by (induction reg b ns feats rule: resolve_features.induct) (auto split: sum.split_asm evexn.split_asm)

lemma live_not_dunder: "map_of live_table n \<noteq> None \<Longrightarrow> \<not> dunder n"
  by (auto simp: live_table_def dunder_def split: if_split_asm)

definition no_name_error :: "(int \<times> skip) list \<Rightarrow> bool" where
  "no_name_error sk =
     (\<forall>ts n. (ts, EntryEvalFailed (NameError n)) \<notin> set sk \<and> (ts, ExitEvalFailed (NameError n)) \<notin> set sk)"

lemma exit_loop_error:
  "snd (exit_loop g ctx cs) = Some e \<Longrightarrow> \<exists>c\<in>set cs. eval_condition (run_rt g) (run_parse g) c ctx = Inl e"
  by (induction cs) (auto split: sum.split_asm bool.split_asm evexn.split_asm pyexn.split_asm)

lemma skip_errors:
  assumes g: "run_reg g = REGISTRY" "validate (run_parse g) REGISTRY (run_spec g) = Inr ()" "parser_ok (run_parse g)"
    and st: "bar_step g b next st = Inr st'" "no_name_error (st_skipped st)"
  shows "no_name_error (st_skipped st')"
proof -
  obtain fs where fs: "resolve_features REGISTRY b (features (run_spec g)) (\<lambda>_. None) = Inr fs"
    using st(1) g(1) by (auto simp: bar_step_def sbind_eq_Inr)
  show ?thesis
  proof (cases fs)
    case (Inl n)
    then have "st' = skip_bar b (FeatureUnavailable n) st" using st(1) fs g(1) by (simp add: bar_step_def)
    then show ?thesis using st(2) by (simp add: no_name_error_def)
  next
    case (Inr feats)
    obtain ctx where ctx: "build_context (run_venue g) b (st_position st) feats = Inr ctx"
      using st(1) fs Inr g(1) by (auto simp: bar_step_def sbind_eq_Inr)
    have "set (features (run_spec g)) \<subseteq> dom ctx"
      using context_keys(2) [OF ctx] resolved_features fs Inr live_not_dunder validated_live [OF g(2)]
      by (fastforce simp: live_features_def)
    then have dom: "set (features (run_spec g)) \<union> (set BUILTIN_CONTEXT_KEYS - {''True'', ''False'', ''None''}) \<subseteq> dom ctx"
      using context_keys(1) [OF ctx] by (rule Un_least)
    have err: "\<forall>c\<in>set (conditions (run_spec g)). \<forall>n. eval_condition (run_rt g) (run_parse g) c ctx \<noteq> Inl (NameError n)"
      using validated_conditions_never_unbound [OF g(2) _ g(3) dom] by blast
    show ?thesis
    proof (cases "st_position st")
      case None
      then have "try_entry g b next feats ctx st = Inr st'" using st(1) fs Inr ctx g(1) by (simp add: bar_step_def)
      from try_entry_effect [OF this] show ?thesis using err st(2)
        by (auto simp: no_name_error_def)
    next
      case (Some p)
      then have "try_exit g b next ctx p st = Inr st'" using st(1) fs Inr ctx g(1) by (simp add: bar_step_def)
      from try_exit_effect [OF this] show ?thesis using err exit_loop_error st(2)
        by (fastforce simp: no_name_error_def)
    qed
  qed
qed

lemma loop_errors:
  assumes "run_reg g = REGISTRY" "validate (run_parse g) REGISTRY (run_spec g) = Inr ()" "parser_ok (run_parse g)"
  shows "replay_loop g bs st = Inr st' \<Longrightarrow> no_name_error (st_skipped st) \<Longrightarrow> no_name_error (st_skipped st')"
proof (induction bs arbitrary: st)
  case (Cons b bs)
  then show ?case using skip_errors [OF assms] by (fastforce simp: sbind_eq_Inr)
qed simp

text \<open>C22. A strategy that validation accepts never runs into an unbound name: no bar of a replay with the
  seed registry is skipped because a condition raised NameError.\<close>

theorem replay_never_meets_unbound_name:
  assumes "replay_game rt parse REGISTRY prof hash load spec gid seed override = Inr r" and "parser_ok parse"
  shows "(ts, EntryEvalFailed (NameError n)) \<notin> set (res_skipped r) \<and> (ts, ExitEvalFailed (NameError n)) \<notin> set (res_skipped r)"
proof -
  obtain bars hw where v: "validate parse REGISTRY spec = Inr ()"
    and run: "run_game \<lparr>run_rt = rt, run_parse = parse, run_reg = REGISTRY, run_prof = prof, run_spec = spec,
      run_game_id = gid, run_venue = venue_for override (spec_venue spec), home_won = hw\<rparr> bars (hash spec) seed = Inr r"
    (is "run_game ?g _ _ _ = _")
    using assms(1) by (auto simp: replay_game_def Let_def sbind_eq_Inr)
  define g where "g = ?g"
  have g: "run_reg g = REGISTRY" "run_parse g = parse" "run_spec g = spec" by (simp_all add: g_def)
  obtain st where st: "replay_loop g bars start = Inr st" "res_skipped r = st_skipped st"
    using run by (auto simp: g_def run_game_def summarise_def sbind_eq_Inr)
  have "no_name_error (st_skipped start)" by (simp add: no_name_error_def start_def)
  then have "no_name_error (st_skipped st)" using loop_errors [OF g(1) _ _ st(1)] v assms(2) g by simp
  then show ?thesis using st(2) by (simp add: no_name_error_def)
qed

section \<open>Money\<close>

lemma payoff_bound:
  assumes "0 \<le> x" "x \<le> 1" "0 \<le> y" "y \<le> 1" "is_float c" "0 \<le> c"
  shows "\<bar>fmul (fsub x y) c\<bar> \<le> c"
proof -
  have m1: "is_float (- 1)" using f64.R_minus [of 1] by simp
  have "- 1 \<le> fsub x y" "fsub x y \<le> 1"
    using assms m1 by (auto simp: fsub_def intro!: fl_ge fl_le)
  then have d: "- c \<le> fsub x y * c" "fsub x y * c \<le> c"
    using assms(6) mult_right_mono [of "- 1" "fsub x y" c] mult_right_mono [of "fsub x y" 1 c] by simp_all
  have "is_float (- c)" using assms(5) f64.R_minus [of c] by simp
  then have "- c \<le> fmul (fsub x y) c" "fmul (fsub x y) c \<le> c"
    using d assms(5) by (auto simp: fmul_def intro: fl_ge fl_le)
  then show ?thesis by linarith
qed

definition sane_bar :: "rbar \<Rightarrow> bool" where
  "sane_bar b = (\<forall>m. pm_home_mid b = Some m \<longrightarrow> is_float m \<and> 0 \<le> m \<and> m \<le> 1)"

definition sane_position :: "rat \<Rightarrow> position \<Rightarrow> bool" where
  "sane_position cap p =
     (is_float (pos_size p) \<and> 0 < pos_size p \<and> pos_size p \<le> cap \<and> 0 \<le> pos_entry_price p \<and> pos_entry_price p \<le> 1)"

definition sane_trade :: "rat \<Rightarrow> trade \<Rightarrow> bool" where
  "sane_trade cap t =
     (0 < contracts_filled t \<and> contracts_filled t \<le> cap \<and> 0 \<le> exit_price t \<and> exit_price t \<le> 1 \<and>
      \<bar>pnl_gross t\<bar> \<le> contracts_filled t)"

lemma filled_facts:
  assumes "simulate_fill prof snap side sz latency stale now_wall wall = Inr r" "is_float sz" "filled r"
  shows "is_float (filled_size r)" "0 < filled_size r" "filled_size r \<le> sz" "0 \<le> price_of r" "price_of r \<le> 1"
  using fill_within_request [OF assms(1,2)] assms(3)
  by (auto simp: price_of_def) (cases rule: simulate_fill_cases [OF assms(1)]; simp add: killed_def)

lemma opens_sane:
  assumes "opens g b p" "is_float (sizing_value (sizing (run_spec g)))"
  shows "sane_position (sizing_value (sizing (run_spec g))) p"
  using assms filled_facts by (fastforce simp: opens_def sane_position_def)

lemma settle_sane:
  assumes "sane_position cap p" "\<And>b. lb = Some b \<Longrightarrow> sane_bar b"
  shows "sane_trade cap (settle_position g p lb r)"
proof -
  have p: "is_float (pos_size p)" "0 \<le> pos_size p" "0 < pos_size p" "pos_size p \<le> cap" "0 \<le> pos_entry_price p" "pos_entry_price p \<le> 1"
    using assms(1) by (auto simp: sane_position_def)
  have c: "0 \<le> fsub 1 m \<and> fsub 1 m \<le> 1" if "0 \<le> m" "m \<le> 1" for m
    using that fsub_nonneg [of m 1] fsub_le [of 1 m] by simp
  have "0 \<le> exit_price (settle_position g p lb r) \<and> exit_price (settle_position g p lb r) \<le> 1"
    using p(5,6) assms(2) c
    by (auto simp: settle_position_def Let_def sane_bar_def split: option.split)
  moreover have "pnl_gross (settle_position g p lb r) =
      fmul (fsub (exit_price (settle_position g p lb r)) (pos_entry_price p)) (pos_size p)"
    by (simp add: settle_position_def Let_def)
  ultimately show ?thesis using p payoff_bound by (simp add: sane_trade_def)
qed

lemma closes_sane:
  assumes "closes g b p t" "sane_position cap p" "sane_bar b"
  shows "sane_trade cap t"
  using assms(1)
proof (cases rule: closes_cases)
  case settled
  then show ?thesis using settle_sane assms(2,3) by blast
next
  case (sold snap ex)
  have p: "is_float (pos_size p)" "0 < pos_size p" "pos_size p \<le> cap" "0 \<le> pos_entry_price p" "pos_entry_price p \<le> 1"
    using assms(2) by (auto simp: sane_position_def)
  note x = filled_facts [OF sold(1) p(1) sold(2)]
  have c: "is_float (contracts_filled t)" "0 < contracts_filled t" "contracts_filled t \<le> cap"
    using sold(3) x p by (auto simp: min_def)
  show ?thesis using payoff_bound [OF x(4,5) p(4,5) c(1)] c x sold by (simp add: sane_trade_def)
qed

definition sane_state :: "rat \<Rightarrow> replay_state \<Rightarrow> bool" where
  "sane_state cap st =
     ((\<forall>t\<in>set (st_trades st). sane_trade cap t) \<and> (\<forall>p. st_position st = Some p \<longrightarrow> sane_position cap p))"

lemma bar_step_sane:
  assumes "bar_step g b next st = Inr st'" "sane_state cap st" "cap = sizing_value (sizing (run_spec g))" "is_float cap"
    and "sane_bar b" "\<And>b'. next = Some b' \<Longrightarrow> sane_bar b'"
  shows "sane_state cap st'"
  using assms(1)
proof (cases rule: bar_step_effect)
  case keep
  then show ?thesis using assms(2) by (simp add: sane_state_def)
next
  case (close p t)
  have "sane_bar (case next of Some b' \<Rightarrow> b' | None \<Rightarrow> b)" using assms(5,6) by (cases "next") auto
  moreover have "sane_position cap p" using close(1) assms(2) by (simp add: sane_state_def)
  ultimately have "sane_trade cap t" using closes_sane [OF close(2)] by blast
  then show ?thesis using close assms(2) by (auto simp: sane_state_def)
next
  case (opened b' p)
  then show ?thesis using opens_sane [OF opened(3)] assms(2-4) by (auto simp: sane_state_def)
qed

lemma loop_sane:
  assumes "cap = sizing_value (sizing (run_spec g))" "is_float cap"
  shows "replay_loop g bs st = Inr st' \<Longrightarrow> sane_state cap st \<Longrightarrow> (\<forall>b\<in>set bs. sane_bar b) \<Longrightarrow> sane_state cap st'"
proof (induction bs arbitrary: st)
  case (Cons b bs)
  obtain st1 where st1: "bar_step g b (case bs of [] \<Rightarrow> None | b' # _ \<Rightarrow> Some b') st = Inr st1" "replay_loop g bs st1 = Inr st'"
    using Cons.prems(1) by (auto simp: sbind_eq_Inr)
  have "sane_state cap st1"
    using Cons.prems(3) by (intro bar_step_sane [OF st1(1) Cons.prems(2) assms]) (auto split: list.split_asm)
  then show ?case using Cons.IH [OF st1(2)] Cons.prems(3) by simp
qed simp

text \<open>C21. The money at stake: when the sizing value is a float and every home mid a float between 0 and 1, every
  trade of a replay is for a positive number of contracts of at most the sizing value (which the engine
  reads as contracts in every sizing mode), leaves at a price
  between 0 and 1, and gains or loses (before fees) at most one dollar per contract, with float
  rounding included.\<close>

theorem trade_bounded_by_contracts:
  assumes "run_game g bars hash seed = Inr r" and "is_float (sizing_value (sizing (run_spec g)))"
    and "\<forall>b\<in>set bars. sane_bar b" and "t \<in> set (res_trades r)"
  shows "0 < contracts_filled t \<and> contracts_filled t \<le> sizing_value (sizing (run_spec g)) \<and>
         0 \<le> exit_price t \<and> exit_price t \<le> 1 \<and> \<bar>pnl_gross t\<bar> \<le> contracts_filled t"
proof -
  obtain st where st: "replay_loop g bars start = Inr st" "res_trades r = settle_open g bars st"
    using assms(1) by (auto simp: run_game_def sbind_eq_Inr summarise_def)
  have "sane_state (sizing_value (sizing (run_spec g))) start" by (simp add: sane_state_def start_def)
  then have s: "sane_state (sizing_value (sizing (run_spec g))) st"
    using loop_sane [OF refl assms(2) st(1)] assms(3) by blast
  have "sane_trade (sizing_value (sizing (run_spec g))) t"
  proof (cases "st_position st")
    case None
    then show ?thesis using s st(2) assms(4) by (simp add: settle_open_def sane_state_def)
  next
    case (Some p)
    have "sane_trade (sizing_value (sizing (run_spec g)))
        (settle_position g p (if bars = [] then None else Some (last bars)) None)"
      using s Some assms(3) by (intro settle_sane) (auto simp: sane_state_def split: if_split_asm)
    then show ?thesis using s Some st(2) assms(4) by (auto simp: settle_open_def sane_state_def)
  qed
  then show ?thesis by (simp add: sane_trade_def)
qed

section \<open>The outcome is not read early\<close>

lemma sum_fees_total: "(\<And>p s. \<exists>x. fee p s = Inr x) \<Longrightarrow> \<exists>x. sum_fees fee acc fills = Inr x"
proof (induction fills arbitrary: acc)
  case (Cons l fills)
  obtain p s where l: "l = (p, s)" by fastforce
  obtain x where "fee p s = Inr x" using Cons.prems by blast
  then show ?case using Cons l by simp
qed simp

lemma polymarket_fees_total: "\<exists>x. fees_for_fills prof ''polymarket'' fills (Some bps) = Inr x"
  by (simp add: fees_for_fills_def) (rule sum_fees_total, simp add: polymarket_fee_def polymarket_curve_fee_def pm_taker_fee_def pm_rate_def)

lemma deep_walk:
  assumes "ws \<noteq> []" "\<forall>l\<in>set ws. snd l = d" "0 < sz" "sz \<le> d" "is_float sz"
  shows "\<exists>p. walk_levels sz ws = ([(p, sz)], 0)"
proof -
  obtain l ls where ws: "ws = l # ls" using assms(1) by (cases ws) auto
  have "min (snd l) sz = sz" "0 < snd l" using assms ws by auto
  then show ?thesis using assms(3) ws by (simp add: walk_take walk_stop)
qed

text \<open>On a synthetic Polymarket book as deep as the order, either side fills the order completely.\<close>

lemma synthetic_fill:
  assumes "side = ''buy'' \<or> side = ''sell''" "0 < sz" "sz \<le> depth_per_level prof" "is_float sz"
  shows "\<exists>f. simulate_fill prof (synthesize_orderbook_from_mid prof ''polymarket'' sd mid tw tg) side sz lat None now_wall wall = Inr f
           \<and> filled f \<and> filled_size f = sz"
proof -
  define ob where "ob = synthesize_orderbook_from_mid prof ''polymarket'' sd mid tw tg"
  define levels where "levels = (if side = ''buy'' then ob_asks ob else ob_bids ob)"
  define ws where "ws = (if side = ''buy'' then sort_asks (ob_asks ob) else sort_bids (ob_bids ob))"
  have books: "ob_asks ob \<noteq> []" "ob_bids ob \<noteq> []"
    "\<forall>l\<in>set (ob_asks ob) \<union> set (ob_bids ob). snd l = depth_per_level prof"
    by (auto simp: ob_def synthesize_orderbook_from_mid_def Let_def)
  have "sort_asks xs = [] \<longleftrightarrow> xs = []" "sort_bids xs = [] \<longleftrightarrow> xs = []" "set (sort_asks xs) = set xs"
    "set (sort_bids xs) = set xs" for xs
    by (auto simp: sort_asks_def sort_bids_def simp flip: set_empty)
  with books have lv: "levels \<noteq> []" "ws \<noteq> []" "\<forall>l\<in>set ws. snd l = depth_per_level prof"
    by (simp_all add: levels_def ws_def)
  obtain q where w: "walk_levels sz ws = ([(q, sz)], 0)" using deep_walk [OF lv(2,3) assms(2-4)] by blast
  have walked: "(if side = ''buy'' then walk_asks levels sz else walk_bids levels sz) = ([(q, sz)], sz)"
    using w assms(4) by (auto simp: walk_asks_def walk_bids_def levels_def ws_def)
  obtain fee where fee: "fees_for_fills prof (ob_venue ob) [(q, sz)] (ob_fee_rate_bps ob) = Inr fee"
    using polymarket_fees_total [of prof "[(q, sz)]" "pm_curve_fee_rate_bps prof"]
    by (auto simp: ob_def synthesize_orderbook_from_mid_def Let_def)
  obtain best_p best_s rest where l: "levels = (best_p, best_s) # rest" using lv(1) by (cases levels) auto
  have "\<exists>f. simulate_fill prof ob side sz lat None now_wall wall = Inr f \<and> filled f \<and> filled_size f = sz"
    unfolding simulate_fill_def Let_def levels_def [symmetric] walked
    using assms(1,2) fee by (auto simp: l)
  then show ?thesis by (simp add: ob_def)
qed

definition quoted_bar :: "rbar \<Rightarrow> bool" where
  "quoted_bar b = (pm_home_mid b \<noteq> None \<and> pm_away_mid b \<noteq> None)"

definition deep_enough :: "game_run \<Rightarrow> bool" where
  "deep_enough g =
     (run_venue g = ''polymarket'' \<and> is_float (sizing_value (sizing (run_spec g))) \<and>
      0 < sizing_value (sizing (run_spec g)) \<and> sizing_value (sizing (run_spec g)) \<le> depth_per_level (run_prof g))"

lemma quoted_book:
  assumes "quoted_bar b"
  obtains mid where "make_orderbook prof ''polymarket'' sd b =
    Inr (Some (synthesize_orderbook_from_mid prof ''polymarket'' ''yes'' mid (minute_ts b) (elapsed_game_sec b)), True)"
proof -
  obtain mid where "(if sd = ''long_home'' then pm_home_mid b else pm_away_mid b) = Some mid"
    using assms by (cases "sd = ''long_home''") (auto simp: quoted_bar_def)
  then show thesis by (intro that [of mid]) (simp add: make_orderbook_def Let_def)
qed

lemma opens_full_size:
  assumes "opens g b p" "deep_enough g" "quoted_bar b"
  shows "pos_size p = sizing_value (sizing (run_spec g))"
proof -
  obtain sd ob syn fill where o: "make_orderbook (run_prof g) (run_venue g) sd b = Inr (Some ob, syn)"
    "simulate_fill (run_prof g) ob ''buy'' (sizing_value (sizing (run_spec g))) 250 None (Some (fl (of_int (minute_ts b)))) 0 = Inr fill"
    "pos_size p = filled_size fill"
    using assms(1) by (auto simp: opens_def)
  have v: "run_venue g = ''polymarket''" using assms(2) by (simp add: deep_enough_def)
  obtain mid where mk: "make_orderbook (run_prof g) ''polymarket'' sd b =
      Inr (Some (synthesize_orderbook_from_mid (run_prof g) ''polymarket'' ''yes'' mid (minute_ts b) (elapsed_game_sec b)), True)"
    by (rule quoted_book [OF assms(3)])
  define fills where "fills = simulate_fill (run_prof g)
      (synthesize_orderbook_from_mid (run_prof g) ''polymarket'' ''yes'' mid (minute_ts b) (elapsed_game_sec b))
      ''buy'' (sizing_value (sizing (run_spec g))) 250 None (Some (fl (of_int (minute_ts b)))) 0"
  have "\<exists>f. fills = Inr f \<and> filled f \<and> filled_size f = sizing_value (sizing (run_spec g))"
    unfolding fills_def using assms(2) by (intro synthetic_fill) (auto simp: deep_enough_def)
  moreover have "fills = Inr fill" using o(1,2) mk v by (simp add: fills_def)
  ultimately show ?thesis using o(3) by auto
qed

lemma close_ignores_outcome:
  assumes "deep_enough g" "quoted_bar b" "pos_size p = sizing_value (sizing (run_spec g))"
  shows "close_position (with_outcome hw g) p (Some b) reason = close_position g p (Some b) reason"
proof -
  obtain mid where mk: "make_orderbook (run_prof g) ''polymarket'' (pos_side p) b =
      Inr (Some (synthesize_orderbook_from_mid (run_prof g) ''polymarket'' ''yes'' mid (minute_ts b) (elapsed_game_sec b)), True)"
    by (rule quoted_book [OF assms(2)])
  obtain f where "simulate_fill (run_prof g)
      (synthesize_orderbook_from_mid (run_prof g) ''polymarket'' ''yes'' mid (minute_ts b) (elapsed_game_sec b))
      ''sell'' (pos_size p) 250 None (Some (fl (of_int (minute_ts b)))) 0 = Inr f" "filled f"
    using synthetic_fill [where side = "''sell''" and sz = "pos_size p" and prof = "run_prof g" and sd = "''yes''" and mid = mid
        and tw = "minute_ts b" and tg = "elapsed_game_sec b" and lat = 250 and now_wall = "Some (fl (of_int (minute_ts b)))" and wall = 0]
      assms by (auto simp: deep_enough_def)
  then show ?thesis using mk assms(1) by (simp add: close_position_def deep_enough_def lift_exn_def)
qed

lemma step_ignores_outcome:
  assumes "deep_enough g" "quoted_bar b" "\<And>b'. next = Some b' \<Longrightarrow> quoted_bar b'"
    and "\<And>p. st_position st = Some p \<Longrightarrow> pos_size p = sizing_value (sizing (run_spec g))"
  shows "bar_step (with_outcome hw g) b next st = bar_step g b next st"
proof -
  have "quoted_bar (case next of Some b' \<Rightarrow> b' | None \<Rightarrow> b)" using assms(2,3) by (cases "next") auto
  have "try_exit (with_outcome hw g) b next ctx p st = try_exit g b next ctx p st" if "st_position st = Some p" for ctx p
    unfolding try_exit_def exit_loop_outcome with_outcome_fields
      close_ignores_outcome [OF assms(1) \<open>quoted_bar (case next of Some b' \<Rightarrow> b' | None \<Rightarrow> b)\<close> assms(4) [OF that]] ..
  moreover have "try_entry (with_outcome hw g) b next feats ctx st = try_entry g b next feats ctx st" for feats ctx
    unfolding try_entry_def with_outcome_fields ..
  ultimately show ?thesis unfolding bar_step_def with_outcome_fields
    by (cases "st_position st") simp_all
qed

lemma loop_ignores_outcome:
  assumes "deep_enough g"
  shows "(\<forall>b\<in>set bs. quoted_bar b) \<Longrightarrow> (\<forall>p. st_position st = Some p \<longrightarrow> pos_size p = sizing_value (sizing (run_spec g))) \<Longrightarrow>
    replay_loop (with_outcome hw g) bs st = replay_loop g bs st"
proof (induction bs arbitrary: st)
  case (Cons b bs)
  define nb where "nb = (case bs of [] \<Rightarrow> None | b' # _ \<Rightarrow> Some b')"
  have nq: "quoted_bar b'" if "nb = Some b'" for b'
    using that Cons.prems(1) by (auto simp: nb_def split: list.split_asm)
  have step: "bar_step (with_outcome hw g) b nb st = bar_step g b nb st"
    using Cons.prems nq by (intro step_ignores_outcome [OF assms]) auto
  have "replay_loop (with_outcome hw g) bs st1 = replay_loop g bs st1" if st1: "bar_step g b nb st = Inr st1" for st1
  proof (rule Cons.IH)
    show "\<forall>p. st_position st1 = Some p \<longrightarrow> pos_size p = sizing_value (sizing (run_spec g))"
      using st1
    proof (cases rule: bar_step_effect)
      case (opened b' p)
      then show ?thesis using opens_full_size [OF opened(3) assms] nq by auto
    qed (use Cons.prems(2) in auto)
  qed (use Cons.prems(1) in auto)
  then show ?case unfolding replay_loop.simps nb_def [symmetric] step by (auto intro: sbind_cong)
qed simp

text \<open>C20. On Polymarket, as long as every bar has Polymarket quotes and a level is as deep as an order (the
  sizing value, a positive float), nothing the engine does before the end of the game depends on who
  wins it.\<close>

theorem outcome_not_read_when_quoted:
  assumes "deep_enough g" and "\<forall>b\<in>set bars. quoted_bar b"
  shows "replay_loop (with_outcome hw g) bars start = replay_loop g bars start"
  by (rule loop_ignores_outcome [OF assms]) (simp add: start_def)

section \<open>Where the engine departs from its description\<close>

text \<open>An exit whose next bar has no quote is booked at the final outcome of the game, at that bar's
  time: the result of the game is read before it is known, although an exit without a quote is
  documented to be marked to market.\<close>

theorem exit_without_quote_reads_outcome:
  assumes "run_venue g = ''polymarket''" and "home_won g = PBool won"
    and "(if pos_side p = ''long_home'' then pm_home_mid b else pm_away_mid b) = None"
  shows "\<exists>t. close_position g p (Some b) reason = Inr t \<and> exit_ts_wall t = minute_ts b \<and>
           exit_price t = (if (pos_side p = ''long_home'') = won then 1 else 0)"
  using assms by (auto simp: close_position_def make_orderbook_def settle_position_def Let_def outcome_def)

text \<open>The engine does not enter on the last bar so that no exit is priced in the minute of its entry; an entry
  on the bar before is filled at the last bar, and an exit that fires there is filled in that minute.\<close>

lemma last_bar_exit_is_immediate:
  assumes "opens g b p" "try_exit g b None ctx p st = Inr st'" "st_trades st' \<noteq> st_trades st"
  shows "\<exists>t. st_trades st' = st_trades st @ [t] \<and> exit_ts_wall t = entry_ts_wall t"
  using try_exit_effect [OF assms(2)] assms(1,3) closes_times by (fastforce simp: opens_def)

text \<open>Kalshi sides: when the ticks name the team by its tri-code, as the lake's schema has it, neither
  side of a game is recognised and both are priced from the same book, at one minus the mid.\<close>

theorem kalshi_sides_share_book:
  assumes "bar_get (row_view b) ''kalshi_team'' = PStr team" and "team \<notin> {''home'', ''away''}"
    and "bar_get (row_view b) ''kalshi_mid'' = PFloat mid"
  shows "make_orderbook prof ''kalshi'' ''long_home'' b = make_orderbook prof ''kalshi'' ''long_away'' b \<and>
         make_orderbook prof ''kalshi'' ''long_home'' b =
           Inr (Some (synthesize_orderbook_from_mid prof ''kalshi'' ''yes'' (fsub 1 mid) (minute_ts b) (elapsed_game_sec b)), True)"
  using assms by (simp add: make_orderbook_def quote_def want_team_def py_equal_def Let_def)

text \<open>The same run with another sizing mode and another cap on the contracts of a position.\<close>

definition resized :: "string \<Rightarrow> int \<Rightarrow> game_run \<Rightarrow> game_run" where
  "resized mode k g = g\<lparr>run_spec := (run_spec g)\<lparr>sizing := (sizing (run_spec g))\<lparr>sizing_mode := mode, max_position_contracts := k\<rparr>\<rparr>\<rparr>"

lemma resized_fields [simp]:
  "run_rt (resized m k g) = run_rt g" "run_parse (resized m k g) = run_parse g" "run_reg (resized m k g) = run_reg g"
  "run_prof (resized m k g) = run_prof g" "run_game_id (resized m k g) = run_game_id g"
  "run_venue (resized m k g) = run_venue g" "home_won (resized m k g) = home_won g"
  "features (run_spec (resized m k g)) = features (run_spec g)"
  "entry_condition (run_spec (resized m k g)) = entry_condition (run_spec g)"
  "exit_conditions (run_spec (resized m k g)) = exit_conditions (run_spec g)"
  "time_stop_sec (run_spec (resized m k g)) = time_stop_sec (run_spec g)"
  "spec_side (run_spec (resized m k g)) = spec_side (run_spec g)"
  "sizing_value (sizing (run_spec (resized m k g))) = sizing_value (sizing (run_spec g))"
  by (simp_all add: resized_def)

lemma resized_settle [simp]: "settle_position (resized m k g) = settle_position g"
  by (rule ext)+ (simp only: settle_position_def resized_fields)

lemma resized_close [simp]: "close_position (resized m k g) = close_position g"
  by (rule ext)+ (simp only: close_position_def resized_fields resized_settle)

lemma resized_exit_loop [simp]: "exit_loop (resized m k g) ctx cs = exit_loop g ctx cs"
  by (induction cs) (simp_all only: exit_loop.simps resized_fields)

lemma resized_settle_open [simp]: "settle_open (resized m k g) = settle_open g"
  by (rule ext)+ (simp only: settle_open_def resized_settle)

lemma resized_step [simp]: "bar_step (resized m k g) = bar_step g"
  by (rule ext)+ (simp only: bar_step_def try_exit_def try_entry_def resized_fields resized_close resized_exit_loop)

lemma resized_loop [simp]: "replay_loop (resized m k g) bs st = replay_loop g bs st"
  by (induction bs arbitrary: st) (auto intro: sbind_cong)

text \<open>The sizing mode and the cap on contracts are never read: a replay sized in dollars or as a Kelly
  fraction trades the sizing value in contracts, and \<open>max_position_contracts\<close>, documented as a hard
  cap per trade whatever the mode, limits nothing.\<close>

theorem sizing_mode_and_cap_ignored:
  "run_game (resized mode k g) bars hash seed = run_game g bars hash seed"
  by (simp add: run_game_def)

section \<open>Concrete runs\<close>

definition no_rt :: runtime where
  "no_rt = \<lparr>printf = (\<lambda>s v. Inl TypeError), identical = (\<lambda>v w. False)\<rparr>"

definition demo_bar :: "int \<Rightarrow> rat \<Rightarrow> rat option \<Rightarrow> int \<Rightarrow> rbar" where
  "demo_bar ts gs mid margin =
     \<lparr>minute_ts = ts, elapsed_game_sec = gs, pm_home_mid = mid, pm_away_mid = map_option (fsub 1) mid,
      cols = [''margin'' \<mapsto> PInt margin]\<rparr>"

definition demo_run :: "pyval \<Rightarrow> game_run" where
  "demo_run hw = \<lparr>run_rt = no_rt, run_parse = demo_parse, run_reg = REGISTRY, run_prof = ZERO_COST, run_spec = demo_spec,
     run_game_id = ''g'', run_venue = ''polymarket'', home_won = hw\<rparr>"

definition demo_bars :: "rbar list" where
  "demo_bars = [demo_bar 0 0 (Some 1) 9, demo_bar 60 60 (Some 1) 2]"

text \<open>The first bar opens a position at the second; what is left is the settlement.\<close>

lemma demo_features:
  "resolve_features REGISTRY (demo_bar ts gs mid m) [''margin''] (\<lambda>_. None) =
     (if gs < 0 then Inr (Inl ''margin'') else Inr (Inr [''margin'' \<mapsto> PFloat (fl (of_int m))]))"
proof -
  have "compute_value ''margin'' b gc REGISTRY = (if gc < of_int 0 then Inl (RuntimeError ''margin'') else Inr (compute_margin b gc))" for b gc
    by (rule compute_live) (simp add: live_table_def)
  moreover have "compute_margin (row_view (demo_bar ts gs mid m)) gc = PFloat (fl (of_int m))" for gc
    by (simp add: compute_margin_def bar_get_def row_view_def demo_bar_def to_float_def)
  ultimately show ?thesis by (simp add: demo_bar_def)
qed

lemma demo_context:
  "\<exists>ctx. build_context ''polymarket'' (demo_bar ts gs mid m) None [''margin'' \<mapsto> PFloat x] = Inr ctx \<and> ctx ''margin'' = Some (PFloat x)"
  by (simp add: build_context_def bar_float_def bar_get_def row_view_def demo_bar_def dunder_def)

lemma demo_entry_condition:
  "ctx ''margin'' = Some (PFloat x) \<Longrightarrow> eval_condition rt demo_parse (entry_condition demo_spec) ctx = Inr (5 < x)"
  by (simp add: eval_condition_def demo_spec_def validate_expr_ast_def demo_parse_def namespace_def ordered_def)

lemma demo_entry:
  "\<exists>p. bar_step (demo_run hw) (demo_bar 0 0 (Some 1) 9) (Some (demo_bar 60 60 (Some 1) m)) start
     = Inr (start\<lparr>st_synthetic := True, st_position := Some p\<rparr>) \<and> pos_size p = 10 \<and> pos_side p = ''long_home'' \<and> pos_entry_game_sec p = 60"
proof -
  obtain ctx where ctx: "build_context ''polymarket'' (demo_bar 0 0 (Some 1) 9) None [''margin'' \<mapsto> PFloat 9] = Inr ctx"
    "ctx ''margin'' = Some (PFloat 9)"
    using demo_context by blast
  have fires: "eval_condition no_rt demo_parse (entry_condition demo_spec) ctx = Inr True"
    using demo_entry_condition [of ctx 9] ctx(2) by simp
  let ?b = "demo_bar 60 60 (Some 1) m"
  have mk: "make_orderbook ZERO_COST ''polymarket'' ''long_home'' ?b =
      Inr (Some (synthesize_orderbook_from_mid ZERO_COST ''polymarket'' ''yes'' 1 60 60), True)"
    by (simp add: make_orderbook_def demo_bar_def Let_def)
  obtain f where f: "simulate_fill ZERO_COST (synthesize_orderbook_from_mid ZERO_COST ''polymarket'' ''yes'' 1 60 60)
      ''buy'' 10 250 None (Some (fl (of_int 60))) 0 = Inr f" "filled f" "filled_size f = 10"
    using synthetic_fill [of "''buy''" 10 ZERO_COST "''yes''" 1 60 60 250 "Some (fl (of_int 60))" 0]
    by (auto simp: ZERO_COST_def fl_simps)
  have "kill_reason f = None" using fill_within_request [OF f(1)] f(2) by (simp add: fl_simps)
  have try_e: "\<exists>p. try_entry (demo_run hw) (demo_bar 0 0 (Some 1) 9) (Some ?b) feats ctx start
     = Inr (start\<lparr>st_synthetic := True, st_position := Some p\<rparr>) \<and> pos_size p = 10 \<and> pos_side p = ''long_home'' \<and> pos_entry_game_sec p = 60" for feats
    using fires mk f \<open>kill_reason f = None\<close>
    by (simp add: try_entry_def demo_run_def resolve_side_def lift_exn_def demo_spec_def [THEN arg_cong, of spec_side]
        demo_spec_def [THEN arg_cong, of sizing] demo_bar_def [of 60]) (rule exI, rule conjI, rule refl, simp)
  show ?thesis
    using try_e ctx demo_features [of 0 0 "Some 1" 9]
    by (simp add: bar_step_def demo_run_def demo_spec_def [THEN arg_cong, of features] start_def fl_simps)
qed

lemma demo_hold:
  assumes "st_position st = Some p" "pos_side p = ''long_home''" "pos_entry_game_sec p = 60"
  shows "bar_step (demo_run hw) (demo_bar 60 60 (Some 1) 2) None st = Inr st"
proof -
  let ?b = "demo_bar 60 60 (Some 1) 2"
  obtain ctx where ctx: "build_context ''polymarket'' ?b (Some p) [''margin'' \<mapsto> PFloat 2] = Inr ctx"
    "ctx ''minutes_since_entry'' = Some (PFloat 0)"
    using assms by (simp add: build_context_def bar_float_def bar_get_def row_view_def demo_bar_def dunder_def current_mark_def
        position_keys_def fdiv_def map_add_def)
  then have "eval_condition no_rt demo_parse (hd (exit_conditions demo_spec)) ctx = Inr False"
    by (simp add: eval_condition_def demo_spec_def validate_expr_ast_def demo_parse_def namespace_def ordered_def)
  then have "exit_loop (demo_run hw) ctx (exit_conditions demo_spec) = (False, None)"
    by (simp add: demo_run_def demo_spec_def)
  then have "try_exit (demo_run hw) ?b None ctx p st = Inr st"
    using assms by (simp add: try_exit_def demo_run_def demo_spec_def [THEN arg_cong, of time_stop_sec] demo_bar_def)
  then show ?thesis
    using assms ctx demo_features [of 60 60 "Some 1" 2]
    by (simp add: bar_step_def demo_run_def demo_spec_def [THEN arg_cong, of features] fl_simps)
qed

lemma demo_result:
  "\<exists>r t. run_game (demo_run hw) demo_bars [] 0 = Inr r \<and> t \<in> set (res_trades r) \<and> contracts_filled t = 10"
proof -
  obtain p where p: "bar_step (demo_run hw) (demo_bar 0 0 (Some 1) 9) (Some (demo_bar 60 60 (Some 1) 2)) start
     = Inr (start\<lparr>st_synthetic := True, st_position := Some p\<rparr>)" "pos_size p = 10" "pos_side p = ''long_home''" "pos_entry_game_sec p = 60"
    using demo_entry by blast
  have "replay_loop (demo_run hw) demo_bars start = Inr (start\<lparr>st_synthetic := True, st_position := Some p\<rparr>)"
    using p(1) demo_hold [of "start\<lparr>st_synthetic := True, st_position := Some p\<rparr>" p hw] p(3,4) by (simp add: demo_bars_def)
  moreover have "demo_bars \<noteq> []" by (simp add: demo_bars_def)
  ultimately show ?thesis using p(2) by (simp add: run_game_def settle_open_def summarise_def) (metis settle_fields(4))
qed


theorem trades_are_sequential_witness:
  "\<exists>r. run_game (demo_run (PBool True)) demo_bars [] 0 = Inr r \<and> in_order 60 (res_trades r) \<and>
     (\<exists>t\<in>set (res_trades r). entry_ts_wall t = 60)"
proof -
  obtain r t where r: "run_game (demo_run (PBool True)) demo_bars [] 0 = Inr r" "t \<in> set (res_trades r)" using demo_result by blast
  have bars: "sorted_wrt (\<lambda>x y. minute_ts x < minute_ts y) demo_bars" "demo_bars \<noteq> []" "minute_ts (last demo_bars) = 60"
    "length demo_bars = 2" "minute_ts (demo_bars ! 1) = 60"
    by (simp_all add: demo_bars_def demo_bar_def)
  note seq = trades_are_sequential [OF r(1) bars(1,2)]
  obtain i where "Suc i < length demo_bars" "entry_ts_wall t = minute_ts (demo_bars ! Suc i)"
    using bspec [OF conjunct2 [OF seq] r(2)] by blast
  then have "entry_ts_wall t = 60" using bars(4,5) by (simp add: less_Suc_eq)
  then show ?thesis using r conjunct1 [OF seq] bars(3) by auto
qed

theorem trade_bounded_by_contracts_witness:
  "\<exists>r t. run_game (demo_run (PBool True)) demo_bars [] 0 = Inr r \<and> t \<in> set (res_trades r) \<and> \<bar>pnl_gross t\<bar> \<le> 10"
proof -
  obtain r t where r: "run_game (demo_run (PBool True)) demo_bars [] 0 = Inr r" "t \<in> set (res_trades r)" using demo_result by blast
  have "\<bar>pnl_gross t\<bar> \<le> contracts_filled t \<and> contracts_filled t \<le> 10"
    using trade_bounded_by_contracts [OF r(1) _ _ r(2)]
    by (simp add: demo_run_def demo_spec_def demo_bars_def demo_bar_def sane_bar_def fl_simps)
  then show ?thesis using r by (meson order_trans)
qed

theorem canary_cannot_leak_witness:
  "replay_game no_rt demo_parse REGISTRY ZERO_COST (\<lambda>s. [])
     (\<lambda>gid venue. sbind (Inr (demo_bars, PNone)) (\<lambda>(bars, hw). Inr (map (\<lambda>b. with_canary (Some (PFloat 1)) b) bars, hw))) demo_spec ''g'' 0 None
   = replay_game no_rt demo_parse REGISTRY ZERO_COST (\<lambda>s. []) (\<lambda>gid venue. Inr (demo_bars, PNone)) demo_spec ''g'' 0 None"
  by (rule canary_cannot_leak [OF demo_valid])

theorem replay_never_meets_unbound_name_witness:
  "\<exists>r. replay_game no_rt demo_parse REGISTRY ZERO_COST (\<lambda>s. []) (\<lambda>gid venue. Inr (demo_bars, PBool True)) demo_spec ''g'' 0 None = Inr r
     \<and> (0, EntryEvalFailed (NameError ''x'')) \<notin> set (res_skipped r)"
proof -
  have v: "venue_for None (spec_venue demo_spec) = ''polymarket''" by (simp add: venue_for_def demo_spec_def)
  obtain r where "run_game (demo_run (PBool True)) demo_bars [] 0 = Inr r" using demo_result by blast
  then have r: "replay_game no_rt demo_parse REGISTRY ZERO_COST (\<lambda>s. []) (\<lambda>gid venue. Inr (demo_bars, PBool True)) demo_spec ''g'' 0 None = Inr r"
    by (simp add: replay_game_def demo_valid v demo_run_def)
  then show ?thesis using replay_never_meets_unbound_name [OF r demo_parser_ok] by blast
qed

theorem outcome_not_read_when_quoted_witness:
  "replay_loop (with_outcome (PBool False) (demo_run (PBool True))) demo_bars start = replay_loop (demo_run (PBool True)) demo_bars start"
  by (rule outcome_not_read_when_quoted)
     (simp_all add: deep_enough_def demo_run_def demo_spec_def ZERO_COST_def fl_simps demo_bars_def demo_bar_def quoted_bar_def)

definition demo_position :: position where
  "demo_position = \<lparr>pos_side = ''long_home'', pos_size = 10, pos_entry_price = 1 / 2, pos_entry_fill = killed [] 0 0 0,
     pos_entry_wall = 0, pos_entry_game_sec = 0\<rparr>"

theorem exit_without_quote_reads_outcome_witness:
  "\<exists>t. close_position (demo_run (PBool True)) demo_position (Some (demo_bar 60 60 None 0)) ''explicit_exit'' = Inr t
     \<and> exit_ts_wall t = 60 \<and> exit_price t = 1"
  using exit_without_quote_reads_outcome [of "demo_run (PBool True)" True demo_position "demo_bar 60 60 None 0" "''explicit_exit''"]
  by (simp add: demo_run_def demo_position_def demo_bar_def)

theorem kalshi_sides_share_book_witness:
  "make_orderbook ZERO_COST ''kalshi'' ''long_home''
       (demo_bar 0 0 None 0 \<lparr>cols := [''kalshi_team'' \<mapsto> PStr ''BOS'', ''kalshi_mid'' \<mapsto> PFloat (3 / 4)]\<rparr>)
     = make_orderbook ZERO_COST ''kalshi'' ''long_away''
       (demo_bar 0 0 None 0 \<lparr>cols := [''kalshi_team'' \<mapsto> PStr ''BOS'', ''kalshi_mid'' \<mapsto> PFloat (3 / 4)]\<rparr>)"
  using kalshi_sides_share_book [of "demo_bar 0 0 None 0 \<lparr>cols := [''kalshi_team'' \<mapsto> PStr ''BOS'', ''kalshi_mid'' \<mapsto> PFloat (3 / 4)]\<rparr>"
      "''BOS''" "3 / 4" ZERO_COST]
  by (simp add: bar_get_def row_view_def)

end
