(* ===== verification/Contract.thy ===== *)
theory Contract
  imports Strategy "HOL-Library.Word"
begin

text \<open>
  The JSON form of a strategy and its hash (\<open>StrategySpec.to_dict\<close>, \<open>to_json\<close>, \<open>from_dict\<close>,
  \<open>from_json\<close>, \<open>spec_hash\<close> of \<open>research/harness/strategy_spec.py\<close>). \<open>json.loads\<close> and \<open>json.dumps\<close>
  are the parameters of a \<open>jsonlib\<close> (\<open>loads\<close> is None when it raises; \<open>dumps\<close> prints with the default
  separators, \<open>dumps_compact\<close> without blanks), \<open>sha256\<close> is a parameter with values of 256 bits. The
  dataclass does not check its field types; a document whose name, description, side, venue, mode,
  feature or expression is not a text raises TypeError here.
\<close>

section \<open>Built-ins\<close>

record jsonlib =
  loads :: "string \<Rightarrow> json option"
  dumps :: "json \<Rightarrow> string"
  dumps_compact :: "json \<Rightarrow> string"

type_synonym digest = "string \<Rightarrow> 256 word"

definition hex_digit :: "nat \<Rightarrow> char" where
  "hex_digit n = (if n < 10 then char_of (48 + n) else char_of (87 + n))"

definition hexdigest :: "256 word \<Rightarrow> string" where
  "hexdigest w = map (\<lambda>i. hex_digit (unat (drop_bit (4 * i) w) mod 16)) (rev [0..<64])"

fun map_sum_list :: "('a \<Rightarrow> 'e + 'b) \<Rightarrow> 'a list \<Rightarrow> 'e + 'b list" where
  "map_sum_list f [] = Inr []"
| "map_sum_list f (x # xs) = sbind (f x) (\<lambda>y. sbind (map_sum_list f xs) (\<lambda>ys. Inr (y # ys)))"

definition from_exn :: "pyexn + 'a \<Rightarrow> 'a eval" where
  "from_exn r = (case r of Inl e \<Rightarrow> Inl (Exn e) | Inr x \<Rightarrow> Inr x)"

text \<open>\<open>d[k]\<close> of an untyped value, and a text.\<close>

fun item :: "json \<Rightarrow> string \<Rightarrow> json eval" where
  "item (JObj ob) k = (case map_of ob k of Some v \<Rightarrow> Inr v | None \<Rightarrow> Inl (Exn KeyError))"
| "item _ k = type_error"

fun text_of :: "json \<Rightarrow> string eval" where
  "text_of (JStr s) = Inr s"
| "text_of _ = type_error"

definition item_or :: "json \<Rightarrow> json \<Rightarrow> string \<Rightarrow> json eval" where
  "item_or d v k = (if is_obj v then Inr (get_or d (obj_of v) k) else Inl (Exn AttributeError))"

text \<open>\<open>sort_keys=True\<close>.\<close>

fun sorted_keys :: "json \<Rightarrow> json" where
  "sorted_keys (JObj ob) = JObj (sort_key fst (map (\<lambda>kv. (fst kv, sorted_keys (snd kv))) ob))"
| "sorted_keys (JList xs) = JList (map sorted_keys xs)"
| "sorted_keys v = v"

section \<open>The strategy as JSON\<close>

definition condition_dict :: "condition \<Rightarrow> json" where
  "condition_dict c = JObj [(''expr'', JStr (expr_src c)), (''description'', JStr (cond_description c))]"

definition sizing_dict :: "sizing_rule \<Rightarrow> json" where
  "sizing_dict z = JObj [(''mode'', JStr (sizing_mode z)), (''value'', JNum (sizing_value z)),
     (''max_position_contracts'', JInt (max_position_contracts z))]"

definition to_dict :: "strategy_spec \<Rightarrow> json" where
  "to_dict s =
     JObj [(''name'', JStr (spec_name s)), (''description'', JStr (spec_description s)),
           (''features'', JList (map JStr (features s))),
           (''entry_condition'', condition_dict (entry_condition s)),
           (''exit_conditions'', JList (map condition_dict (exit_conditions s))),
           (''sizing'', sizing_dict (sizing s)), (''time_stop_sec'', JInt (time_stop_sec s)),
           (''side'', JStr (spec_side s)), (''venue'', JStr (spec_venue s)),
           (''cost_assumption_bps'', case cost_assumption_bps s of None \<Rightarrow> JNull | Some b \<Rightarrow> JInt b)]"

definition to_json :: "jsonlib \<Rightarrow> strategy_spec \<Rightarrow> string" where
  "to_json j s = dumps_compact j (sorted_keys (to_dict s))"

definition condition_of :: "json \<Rightarrow> condition eval" where
  "condition_of c =
     sbind (item c ''expr'') (\<lambda>x. sbind (item_or (JStr []) c ''description'') (\<lambda>d.
       sbind (text_of x) (\<lambda>x'. sbind (text_of d) (\<lambda>d'. Inr \<lparr>expr_src = x', cond_description = d'\<rparr>))))"

definition sizing_of :: "json \<Rightarrow> sizing_rule eval" where
  "sizing_of z =
     sbind (sbind (item z ''mode'') text_of) (\<lambda>m.
       sbind (sbind (item z ''value'') (\<lambda>v. from_exn (py_float v))) (\<lambda>x.
         sbind (sbind (item z ''max_position_contracts'') (\<lambda>v. from_exn (py_int v))) (\<lambda>n.
           Inr \<lparr>sizing_mode = m, sizing_value = x, max_position_contracts = n\<rparr>)))"

definition from_dict :: "json \<Rightarrow> strategy_spec eval" where
  "from_dict data =
     sbind (item data ''entry_condition'') (\<lambda>entry.
     sbind (item data ''exit_conditions'') (\<lambda>exits.
     sbind (item data ''sizing'') (\<lambda>z.
     sbind (sbind (item data ''name'') text_of) (\<lambda>nm.
     sbind (sbind (item data ''description'') text_of) (\<lambda>d.
     sbind (sbind (item data ''features'') (\<lambda>v. sbind (from_exn (py_iter v)) (map_sum_list text_of))) (\<lambda>fs.
     sbind (condition_of entry) (\<lambda>en.
     sbind (sbind (from_exn (py_iter exits)) (map_sum_list condition_of)) (\<lambda>ex.
     sbind (sizing_of z) (\<lambda>sz.
     sbind (sbind (item data ''time_stop_sec'') (\<lambda>v. from_exn (py_int v))) (\<lambda>ts.
     sbind (sbind (item data ''side'') text_of) (\<lambda>sd.
     sbind (sbind (item data ''venue'') text_of) (\<lambda>vn.
     sbind (item_or JNull data ''cost_assumption_bps'') (\<lambda>cb.
     sbind (if cb = JNull then Inr None else sbind (from_exn (py_int cb)) (\<lambda>i. Inr (Some i))) (\<lambda>bps.
       Inr \<lparr>spec_name = nm, spec_description = d, features = fs, entry_condition = en, exit_conditions = ex,
            sizing = sz, time_stop_sec = ts, spec_side = sd, spec_venue = vn, cost_assumption_bps = bps\<rparr>))))))))))))))"

definition from_json :: "jsonlib \<Rightarrow> string \<Rightarrow> strategy_spec eval" where
  "from_json j text = (case loads j text of None \<Rightarrow> value_error | Some v \<Rightarrow> from_dict v)"

definition spec_hash :: "jsonlib \<Rightarrow> digest \<Rightarrow> strategy_spec \<Rightarrow> string" where
  "spec_hash j sha256 s = hexdigest (sha256 (to_json j s))"

section \<open>Round trip\<close>

text \<open>What the code relies on: reading the printed document gives it back.\<close>

definition printed_well :: "jsonlib \<Rightarrow> strategy_spec \<Rightarrow> bool" where
  "printed_well j s = (loads j (to_json j s) = Some (sorted_keys (to_dict s)))"

lemma map_sum_list_inverse: "(\<And>x. x \<in> set xs \<Longrightarrow> f (g x) = Inr x) \<Longrightarrow> map_sum_list f (map g xs) = Inr xs"
  by (induction xs) auto

lemma condition_round: "condition_of (sorted_keys (condition_dict c)) = Inr c"
  by (simp add: condition_of_def condition_dict_def item_or_def get_or_def)

lemma sizing_round: "sizing_of (sorted_keys (sizing_dict z)) = Inr z"
  by (simp add: sizing_of_def sizing_dict_def from_exn_def)

lemma from_dict_round: "from_dict (sorted_keys (to_dict s)) = Inr s"
proof -
  have fs: "map_sum_list text_of (map (sorted_keys \<circ> JStr) (features s)) = Inr (features s)"
    by (rule map_sum_list_inverse) simp
  have ex: "map_sum_list condition_of (map (sorted_keys \<circ> condition_dict) (exit_conditions s)) = Inr (exit_conditions s)"
    by (rule map_sum_list_inverse) (simp add: condition_round)
  show ?thesis
    by (cases "cost_assumption_bps s")
       (simp_all add: from_dict_def to_dict_def item_or_def get_or_def from_exn_def fs ex condition_round sizing_round)
qed

text \<open>C26. A strategy survives its JSON form: what a worker or the promotion command reads back is the
  strategy that was written, so hashes and unlock tokens computed on either side agree.\<close>

theorem spec_json_round_trip:
  assumes "printed_well j s"
  shows "from_json j (to_json j s) = Inr s \<and> map_sum id (spec_hash j sha) (from_json j (to_json j s)) = Inr (spec_hash j sha s)"
  using assms by (simp add: from_json_def to_json_def printed_well_def from_dict_round)

lemma from_json_round: "printed_well j s \<Longrightarrow> from_json j (to_json j s) = Inr s"
  by (simp add: from_json_def printed_well_def from_dict_round)

text \<open>Digests are texts of 64 hexadecimal digits.\<close>

lemma length_hexdigest [simp]: "length (hexdigest w) = 64"
  by (simp add: hexdigest_def)

lemma hexdigest_digits: "c \<in> set (hexdigest w) \<Longrightarrow> \<exists>n<16. c = hex_digit n"
proof -
  have "\<exists>n<16. hex_digit (k mod 16) = hex_digit n" for k by (rule exI [of _ "k mod 16"]) simp
  then show "c \<in> set (hexdigest w) \<Longrightarrow> \<exists>n<16. c = hex_digit n" by (auto simp: hexdigest_def)
qed


definition demo_json :: jsonlib where
  "demo_json = \<lparr>loads = (\<lambda>s. if s = ''spec'' then Some (sorted_keys (to_dict demo_spec)) else None),
     dumps = (\<lambda>v. []), dumps_compact = (\<lambda>v. ''spec'')\<rparr>"

lemma demo_printed: "printed_well demo_json demo_spec"
  by (simp add: printed_well_def to_json_def demo_json_def)

theorem spec_json_round_trip_witness:
  "from_json demo_json (to_json demo_json demo_spec) = Inr demo_spec"
  using spec_json_round_trip [OF demo_printed] by blast

end
