(* ===== verification/Batch.thy ===== *)
theory Batch
  imports Contract ReplayProps Roots
begin

text \<open>
  \<open>research/harness/run_batch.py\<close>: a strategy over all games of a split, behind the test-set guard, and
  the guarded reads of \<open>research/lake/reader.py\<close>. The lake is a map from game ids to what their
  shards hold (the split label, None when it is NULL, the bars that \<open>_build_bars\<close> makes of the
  tables for a venue, and the outcome). A Python float that may be infinite or NaN is an \<open>xnum
  option\<close>, NaN being None. \<open>pool.map\<close> keeps the order of its tasks and gives the workers the same
  profile, so a parallel run is the serial one. \<open>reason_text\<close> stands for \<open>str\<close> of a skip and
  \<open>message\<close> for \<open>str\<close> of an exception; \<open>x ** 2\<close> rounds once.
\<close>

section \<open>Floats with infinities\<close>

datatype xnum = NegInf | Fin rat | PosInf

fun xrank :: "xnum \<Rightarrow> int \<times> rat" where
  "xrank NegInf = (0, 0)"
| "xrank (Fin x) = (1, x)"
| "xrank PosInf = (2, 0)"

lemma xrank_inj: "xrank a = xrank b \<Longrightarrow> a = b"
  by (cases a; cases b) auto

instantiation xnum :: linorder
begin

definition less_eq_xnum :: "xnum \<Rightarrow> xnum \<Rightarrow> bool" where
  "less_eq_xnum a b \<longleftrightarrow> (fst (xrank a) < fst (xrank b) \<or> fst (xrank a) = fst (xrank b) \<and> snd (xrank a) \<le> snd (xrank b))"

definition less_xnum :: "xnum \<Rightarrow> xnum \<Rightarrow> bool" where
  "less_xnum a b \<longleftrightarrow> (fst (xrank a) < fst (xrank b) \<or> fst (xrank a) = fst (xrank b) \<and> snd (xrank a) < snd (xrank b))"

instance
proof
  fix a b c :: xnum
  show "a < b \<longleftrightarrow> a \<le> b \<and> \<not> b \<le> a" by (auto simp: less_eq_xnum_def less_xnum_def)
  show "a \<le> a" by (simp add: less_eq_xnum_def)
  show "a \<le> b \<Longrightarrow> b \<le> c \<Longrightarrow> a \<le> c" by (auto simp: less_eq_xnum_def)
  show "a \<le> b \<Longrightarrow> b \<le> a \<Longrightarrow> a = b" by (rule xrank_inj) (auto simp: less_eq_xnum_def prod_eq_iff)
  show "a \<le> b \<or> b \<le> a" by (auto simp: less_eq_xnum_def)
qed

end

type_synonym pyfloat = "xnum option"

section \<open>The lake\<close>

record lake_game =
  split_label :: "string option"
  game_bars :: "string \<Rightarrow> rbar list"
  game_home_won :: pyval

type_synonym lake = "string \<Rightarrow> lake_game option"

definition split_of :: "lake \<Rightarrow> string \<Rightarrow> string option" where
  "split_of lk gid = (case lk gid of None \<Rightarrow> None | Some g \<Rightarrow> split_label g)"

definition load_game :: "lake \<Rightarrow> bool \<Rightarrow> string \<Rightarrow> lake_game eval" where
  "load_game lk allow_test gid =
     (case lk gid of
        None \<Rightarrow> Inl (FileNotFoundError gid)
      | Some g \<Rightarrow>
          if split_of lk gid = Some ''test'' \<and> \<not> allow_test then Inl (TestSetAccessError gid) else Inr g)"

text \<open>\<open>load_game\<close> and \<open>_build_bars\<close> as the replay engine calls them.\<close>

definition load_bars :: "lake \<Rightarrow> bool \<Rightarrow> string \<Rightarrow> string \<Rightarrow> (rbar list \<times> pyval) eval" where
  "load_bars lk allow_test gid venue =
     sbind (load_game lk allow_test gid) (\<lambda>g. Inr (game_bars g venue, game_home_won g))"

section \<open>Splits and the guard\<close>

record lab_services =
  rt :: runtime
  expr_parser :: parser
  json_of :: jsonlib
  sha256 :: digest
  the_lake :: lake
  splits_file :: "string option"
  reason_text :: "int \<times> skip \<Rightarrow> string"
  message :: "evexn \<Rightarrow> string"

definition VALID_SPLITS :: "string list" where
  "VALID_SPLITS = [''train'', ''val'', ''test'']"

definition load_split :: "lab_services \<Rightarrow> string \<Rightarrow> string list eval" where
  "load_split sv name =
     (if name \<notin> set VALID_SPLITS then value_error
      else case splits_file sv of
          None \<Rightarrow> Inl (FileNotFoundError ''splits.json'')
        | Some text \<Rightarrow>
            (case loads (json_of sv) text of
               None \<Rightarrow> value_error
             | Some data \<Rightarrow>
                 sbind (item data (name @ ''_game_ids'')) (\<lambda>v. sbind (from_exn (py_iter v)) (map_sum_list text_of))))"

abbreviation hash_of :: "lab_services \<Rightarrow> strategy_spec \<Rightarrow> string" where
  "hash_of sv spec \<equiv> spec_hash (json_of sv) (sha256 sv) spec"

definition expected_unlock_token :: "lab_services \<Rightarrow> strategy_spec \<Rightarrow> string" where
  "expected_unlock_token sv spec = hexdigest (sha256 sv (to_json (json_of sv) spec))"

definition check_test_guard :: "lab_services \<Rightarrow> strategy_spec \<Rightarrow> string option \<Rightarrow> unit eval" where
  "check_test_guard sv spec token =
     (case token of
        None \<Rightarrow> Inl PermissionError
      | Some t \<Rightarrow> if t \<noteq> expected_unlock_token sv spec then Inl PermissionError else Inr ())"

text \<open>A row of the unlock log (a list of lines), with the text of the time.\<close>

definition batch_attempt_row :: "lab_services \<Rightarrow> string \<Rightarrow> strategy_spec \<Rightarrow> string" where
  "batch_attempt_row sv ts spec = ts @ '' '' @ hash_of sv spec @ '' attempt run_batch(split=test)''"

definition game_rng_seed :: "lab_services \<Rightarrow> int \<Rightarrow> string \<Rightarrow> int" where
  "game_rng_seed sv seed gid =
     uint (and (ucast (drop_bit 192 (sha256 sv (int_str seed @ '':'' @ gid))) :: 64 word) (mask 63))"

section \<open>Aggregation\<close>

datatype outcome_of_game = Played trial_result | Raised_in string evexn

record batch_result =
  br_spec_hash :: string
  br_split :: string
  n_games :: int
  n_games_with_trades :: int
  n_trades_total :: int
  br_pnl_gross :: rat
  br_pnl_net :: rat
  br_notional :: rat
  mean_pnl_gross :: rat
  mean_pnl_net :: rat
  sharpe_per_trade_net :: pyfloat
  win_rate :: pyfloat
  br_avg_holding_sec :: rat
  n_games_skipped :: int
  skipped_reasons :: "(string \<times> int) list"
  br_trials :: "trial_result list"
  br_rng_seed :: int

definition trade_holding_sec :: "trade \<Rightarrow> rat" where
  "trade_holding_sec t = fsub (exit_ts_game_sec t) (entry_ts_game_sec t)"

definition trade_notional :: "trade \<Rightarrow> rat" where
  "trade_notional t = \<bar>fmul (contracts_filled t) (entry_price t)\<bar>"

fun good_trials :: "outcome_of_game list \<Rightarrow> trial_result list" where
  "good_trials [] = []"
| "good_trials (Played r # os) = r # good_trials os"
| "good_trials (Raised_in g e # os) = good_trials os"

fun exception_stubs :: "outcome_of_game list \<Rightarrow> (string \<times> evexn) list" where
  "exception_stubs [] = []"
| "exception_stubs (Played r # os) = exception_stubs os"
| "exception_stubs (Raised_in g e # os) = (g, e) # exception_stubs os"

definition count_reason :: "string \<Rightarrow> (string \<times> int) list \<Rightarrow> (string \<times> int) list" where
  "count_reason r counts = AList.update r ((case map_of counts r of Some k \<Rightarrow> k | None \<Rightarrow> 0) + 1) counts"

fun exn_name :: "evexn \<Rightarrow> string" where
  "exn_name (Exn TypeError) = ''TypeError''"
| "exn_name (Exn ValueError) = ''ValueError''"
| "exn_name (Exn KeyError) = ''KeyError''"
| "exn_name (Exn AttributeError) = ''AttributeError''"
| "exn_name ZeroDivisionError = ''ZeroDivisionError''"
| "exn_name (NameError n) = ''NameError''"
| "exn_name SyntaxError = ''SyntaxError''"
| "exn_name (RuntimeError n) = ''RuntimeError''"
| "exn_name ImportError = ''ImportError''"
| "exn_name (FileNotFoundError n) = ''FileNotFoundError''"
| "exn_name PermissionError = ''PermissionError''"
| "exn_name (TestSetAccessError n) = ''TestSetAccessError''"

definition stub_reason :: "lab_services \<Rightarrow> evexn \<Rightarrow> string" where
  "stub_reason sv e = ''exception:'' @ exn_name e @ '':'' @ take 80 (message sv e)"

definition reason_counts :: "lab_services \<Rightarrow> trial_result list \<Rightarrow> (string \<times> evexn) list \<Rightarrow> (string \<times> int) list" where
  "reason_counts sv good stubs =
     fold count_reason
       (concat (map (\<lambda>r. if res_trades r = [] then map (reason_text sv) (res_skipped r) else []) good)
        @ map (\<lambda>s. stub_reason sv (snd s)) stubs) []"

definition sharpe_of :: "rat \<Rightarrow> rat list \<Rightarrow> pyfloat" where
  "sharpe_of mu nets =
     (if 2 \<le> length nets then
        let variance = fdiv (fsum (map (\<lambda>x. fmul (fsub x mu) (fsub x mu)) nets)) (of_nat (length nets - 1));
            std = (if 0 < variance then fl_sqrt variance else 0)
        in if 0 < std then Some (Fin (fdiv mu std))
           else Some (if 0 < mu then PosInf else if mu < 0 then NegInf else Fin 0)
      else None)"

definition aggregate :: "lab_services \<Rightarrow> strategy_spec \<Rightarrow> string \<Rightarrow> outcome_of_game list \<Rightarrow> int \<Rightarrow> batch_result" where
  "aggregate sv spec split outcomes seed =
     (let good = good_trials outcomes; stubs = exception_stubs outcomes;
          trades = concat (map res_trades good);
          nets = map pnl_net trades; holds = map trade_holding_sec trades;
          n = length trades; gross_sum = fsum (map pnl_gross trades); net_sum = fsum nets;
          mean_net = (if 0 < n then fdiv net_sum (of_nat n) else 0)
      in \<lparr>br_spec_hash = hash_of sv spec, br_split = split, n_games = int (length outcomes),
          n_games_with_trades = int (length [r \<leftarrow> good. res_trades r \<noteq> []]),
          n_trades_total = int n, br_pnl_gross = gross_sum, br_pnl_net = net_sum,
          br_notional = fsum (map trade_notional trades),
          mean_pnl_gross = (if 0 < n then fdiv gross_sum (of_nat n) else 0), mean_pnl_net = mean_net,
          sharpe_per_trade_net = sharpe_of mean_net nets,
          win_rate = (if 0 < n then Some (Fin (fdiv (of_nat (length [x \<leftarrow> nets. 0 < x])) (of_nat n))) else None),
          br_avg_holding_sec = (if holds \<noteq> [] then fdiv (fsum holds) (of_nat (length holds)) else 0),
          n_games_skipped = int (length [r \<leftarrow> good. res_trades r = [] \<and> res_skipped r \<noteq> []]) + int (length stubs),
          skipped_reasons = take 10 (sort_key (\<lambda>kv. - snd kv) (reason_counts sv good stubs)),
          br_trials = good, br_rng_seed = seed\<rparr>)"

section \<open>The batch\<close>

definition run_one_game ::
  "lab_services \<Rightarrow> string \<Rightarrow> string \<Rightarrow> int \<Rightarrow> bool \<Rightarrow> cost_profile \<Rightarrow> outcome_of_game" where
  "run_one_game sv spec_json gid seed allow_test prof =
     (case sbind (from_json (json_of sv) spec_json) (\<lambda>spec.
             replay_game (rt sv) (expr_parser sv) REGISTRY prof (spec_hash (json_of sv) (sha256 sv))
               (load_bars (the_lake sv) allow_test) spec gid seed None) of
        Inl e \<Rightarrow> Raised_in gid e
      | Inr r \<Rightarrow> Played r)"

text \<open>The result and the unlock log after the run; \<open>ts\<close> is the text of the time of the attempt row.\<close>

definition run_batch ::
  "lab_services \<Rightarrow> cost_profile \<Rightarrow> strategy_spec \<Rightarrow> string \<Rightarrow> int \<Rightarrow> string option \<Rightarrow> string \<Rightarrow> string list
     \<Rightarrow> batch_result eval \<times> string list" where
  "run_batch sv prof spec split seed token ts rows =
     (if split \<notin> set VALID_SPLITS then (value_error, rows)
      else
        (case (if split = ''test'' then check_test_guard sv spec token else Inr ()) of
           Inl e \<Rightarrow> (Inl e, rows)
         | Inr u \<Rightarrow>
             let rows' = (if split = ''test'' then rows @ [batch_attempt_row sv ts spec] else rows)
             in (sbind (load_split sv split) (\<lambda>gids.
                   Inr (aggregate sv spec split
                     (map (\<lambda>gid. run_one_game sv (to_json (json_of sv) spec) gid (game_rng_seed sv seed gid)
                              (split = ''test'') prof) gids) seed)), rows')))"

section \<open>Properties\<close>

text \<open>C24. The test set stays sealed: the result of a batch on any other split is the same whatever the
  games labelled \<open>test\<close> hold, so neither the numbers nor the skip reasons of a training or
  validation run can depend on test data, even when the id of a test game is listed in the split.\<close>

theorem other_splits_never_see_test_games:
  assumes "split \<noteq> ''test''"
    and "\<And>gid. split_of lk' gid = split_of (the_lake sv) gid \<and> (lk' gid = None \<longleftrightarrow> the_lake sv gid = None)"
    and "\<And>gid. split_of lk' gid \<noteq> Some ''test'' \<Longrightarrow> lk' gid = the_lake sv gid"
  shows "run_batch (sv\<lparr>the_lake := lk'\<rparr>) prof spec split seed token ts rows = run_batch sv prof spec split seed token ts rows"
proof -
  let ?sv = "sv\<lparr>the_lake := lk'\<rparr>"
  have load: "load_game lk' False gid = load_game (the_lake sv) False gid" for gid
    using assms(2,3) [of gid] by (cases "split_of lk' gid = Some ''test''")
      (auto simp: load_game_def split: option.split)
  then have "load_bars lk' False = load_bars (the_lake sv) False"
    by (intro ext) (simp add: load_bars_def)
  then have one: "run_one_game ?sv js gid sd False prof = run_one_game sv js gid sd False prof" for js gid sd
    by (simp add: run_one_game_def)
  have seed: "game_rng_seed ?sv = game_rng_seed sv" by (intro ext) (simp add: game_rng_seed_def)
  have agg: "aggregate ?sv = aggregate sv"
  proof -
    have "reason_text ?sv = reason_text sv" "message ?sv = message sv" "json_of ?sv = json_of sv" "sha256 ?sv = sha256 sv"
      by simp_all
    then show ?thesis by (intro ext) (simp only: aggregate_def reason_counts_def stub_reason_def)
  qed
  have ld: "load_split ?sv = load_split sv" by (intro ext) (simp add: load_split_def cong: option.case_cong)
  show ?thesis using assms(1) by (simp add: run_batch_def one seed agg ld)
qed

text \<open>A batch accounts for every game and trade: what it reports are the trades of its per-game
  results, every game either traded, was skipped or had nothing to report, and the win rate is a
  share.\<close>

theorem batch_accounts_for_games:
  assumes "fst (run_batch sv prof spec split seed token ts rows) = Inr r"
  shows "\<exists>gids. load_split sv split = Inr gids \<and> n_games r = int (length gids)
      \<and> n_trades_total r = (\<Sum>t\<leftarrow>br_trials r. int (length (res_trades t)))
      \<and> n_games_with_trades r + n_games_skipped r \<le> n_games r
      \<and> n_games r \<le> int (length (br_trials r)) + n_games_skipped r
      \<and> (case win_rate r of None \<Rightarrow> n_trades_total r = 0 | Some w \<Rightarrow> Fin 0 \<le> w \<and> w \<le> Fin 1)"
proof -
  define os where "os = (\<lambda>gids. map (\<lambda>gid. run_one_game sv (to_json (json_of sv) spec) gid (game_rng_seed sv seed gid)
                              (split = ''test'') prof) gids)"
  obtain gids where g: "load_split sv split = Inr gids" and r: "r = aggregate sv spec split (os gids) seed"
    using assms(1) by (auto simp: run_batch_def os_def Let_def sbind_eq_Inr split: if_split_asm sum.split_asm)
  have parts: "length xs = length (good_trials xs) + length (exception_stubs xs)" for xs
    by (induction xs rule: good_trials.induct) auto
  have filt: "length [t \<leftarrow> good. res_trades t \<noteq> []] + length [t \<leftarrow> good. res_trades t = [] \<and> P t] \<le> length good" for good P
    by (induction good) auto
  have len: "int (length (concat xss)) = (\<Sum>xs\<leftarrow>xss. int (length xs))" for xss :: "trade list list"
    by (induction xss) auto
  have share: "0 \<le> fdiv (of_nat k) (of_nat n) \<and> fdiv (of_nat k) (of_nat n) \<le> 1" if "k \<le> n" for k n :: nat
  proof -
    have "0 \<le> of_nat k / (of_nat n :: rat)" "of_nat k / (of_nat n :: rat) \<le> 1"
      using that by (auto simp: divide_le_eq)
    from fl_nonneg [OF this(1)] fl_mono [OF this(2)] show ?thesis by (simp add: fdiv_def)
  qed
  define trades where "trades = concat (map res_trades (good_trials (os gids)))"
  have win: "length (filter ((<) 0 \<circ> pnl_net) trades) \<le> length trades" by (rule length_filter_le)
  have "case win_rate r of None \<Rightarrow> n_trades_total r = 0 | Some w \<Rightarrow> Fin 0 \<le> w \<and> w \<le> Fin 1"
    using share [OF win] by (simp add: r aggregate_def Let_def trades_def [symmetric] less_eq_xnum_def filter_map)
      (simp add: trades_def)
  moreover have "length (os gids) = length gids" by (simp add: os_def)
  ultimately show ?thesis
    using g parts [of "os gids"] filt [of "good_trials (os gids)" "\<lambda>t. res_skipped t \<noteq> []"]
    by (simp add: r aggregate_def Let_def len o_def)
qed

section \<open>A concrete batch\<close>

definition demo_lake :: "rbar list \<Rightarrow> lake" where
  "demo_lake bars gid =
     (if gid = ''g'' then Some \<lparr>split_label = Some ''val'', game_bars = (\<lambda>v. demo_bars), game_home_won = PBool True\<rparr>
      else if gid = ''t'' then Some \<lparr>split_label = Some ''test'', game_bars = (\<lambda>v. bars), game_home_won = PBool False\<rparr>
      else None)"

definition demo_services :: lab_services where
  "demo_services =
     \<lparr>rt = no_rt, expr_parser = demo_parse,
      json_of = demo_json\<lparr>loads := (\<lambda>s. if s = ''splits''
        then Some (JObj [(''val_game_ids'', JList [JStr ''g'', JStr ''t'']), (''test_game_ids'', JList [JStr ''t''])]) else loads demo_json s)\<rparr>,
      sha256 = (\<lambda>s. 0), the_lake = demo_lake demo_bars, splits_file = Some ''splits'',
      reason_text = (\<lambda>s. []), message = (\<lambda>e. [])\<rparr>"

theorem other_splits_never_see_test_games_witness:
  "run_batch (demo_services\<lparr>the_lake := demo_lake []\<rparr>) ZERO_COST demo_spec ''val'' 0 None [] []
     = run_batch demo_services ZERO_COST demo_spec ''val'' 0 None [] []"
  by (rule other_splits_never_see_test_games) (auto simp: demo_services_def demo_lake_def split_of_def split: if_split_asm)

theorem batch_accounts_for_games_witness:
  "\<exists>r. fst (run_batch demo_services ZERO_COST demo_spec ''val'' 0 None [] []) = Inr r \<and> n_games r = 2"
proof -
  have "load_split demo_services ''val'' = Inr [''g'', ''t'']"
    by (simp add: load_split_def VALID_SPLITS_def demo_services_def from_exn_def)
  moreover from this obtain r where "fst (run_batch demo_services ZERO_COST demo_spec ''val'' 0 None [] []) = Inr r"
    by (simp add: run_batch_def VALID_SPLITS_def)
  ultimately show ?thesis using batch_accounts_for_games [of demo_services ZERO_COST demo_spec "''val''" 0 None "[]" "[]" r] by auto
qed

end
