(* ===== verification/Splits.thy ===== *)
theory Splits
  imports Effects "HOL-Library.List_Lexorder" "HOL-Library.Product_Lexorder"
begin

text \<open>
  The chronological split of \<open>research/splits/lock.py\<close>. A game is its date and its id, both texts, in
  the order in which pandas sorts them; positions are Python's, so a negative one counts from the
  end and one out of range is an IndexError (None). Writing the files is not modelled.
\<close>

section \<open>The split\<close>

type_synonym game_row = "string \<times> string"

definition iloc :: "'a list \<Rightarrow> int \<Rightarrow> 'a option" where
  "iloc xs i =
     (if 0 \<le> i \<and> i < int (length xs) then Some (xs ! nat i)
      else if - int (length xs) \<le> i \<and> i < 0 then Some (xs ! nat (int (length xs) + i))
      else None)"

text \<open>\<open>int(n * share)\<close> of a number of games.\<close>

definition share_of :: "rat \<Rightarrow> int \<Rightarrow> int" where
  "share_of share n = trunc (fmul (fl (of_int n)) (fl share))"

text \<open>A cut that falls inside a day moves to the end of the day.\<close>

definition day_clean :: "game_row list \<Rightarrow> int \<Rightarrow> game_row \<Rightarrow> int" where
  "day_clean s k last_game =
     (if k < int (length s) \<and> map_option fst (iloc s k) = Some (fst last_game)
      then int (length [r \<leftarrow> s. fst r \<le> fst last_game]) else k)"

record splits =
  train_ids :: "string list"
  val_ids :: "string list"
  test_ids :: "string list"
  train_end_date :: string
  val_end_date :: string
  test_end_date :: string

definition py_slice :: "int \<Rightarrow> int \<Rightarrow> 'a list \<Rightarrow> 'a list" where
  "py_slice a b xs = drop (nat a) (take (nat b) xs)"

definition val_cut :: "game_row list \<Rightarrow> int \<Rightarrow> int option" where
  "val_cut s n_val_end_raw =
     (if int (length s) \<le> n_val_end_raw then Some (int (length s) - 1)
      else map_option (day_clean s n_val_end_raw) (iloc s (n_val_end_raw - 1)))"

definition compute_splits :: "game_row list \<Rightarrow> splits option" where
  "compute_splits games =
     (let s = sort games; n = int (length s);
          n_train_raw = share_of (70 / 100) n; n_val_raw = share_of (15 / 100) n
      in case iloc s (n_train_raw - 1) of
           None \<Rightarrow> None
         | Some last_game \<Rightarrow>
             let n_train = day_clean s n_train_raw last_game
             in case (iloc s (n_train - 1), val_cut s (n_train + n_val_raw)) of
                  (Some a, Some n_val_end) \<Rightarrow>
                    (case (iloc s (n_val_end - 1), iloc s (- 1)) of
                       (Some b, Some c) \<Rightarrow>
                         Some \<lparr>train_ids = map snd (py_slice 0 n_train s),
                               val_ids = map snd (py_slice n_train n_val_end s),
                               test_ids = map snd (py_slice n_val_end n s),
                               train_end_date = fst a, val_end_date = fst b, test_end_date = fst c\<rparr>
                     | _ \<Rightarrow> None)
                | _ \<Rightarrow> None)"

section \<open>Cuts between days\<close>

lemma iloc_Some:
  "iloc xs i = Some x \<Longrightarrow> 0 \<le> i \<Longrightarrow> nat i < length xs \<and> x = xs ! nat i"
  by (auto simp: iloc_def split: if_split_asm)

lemma iloc_wrap: "iloc xs (- 1) = Some x \<Longrightarrow> xs \<noteq> [] \<and> x = last xs"
  by (cases xs rule: rev_cases) (auto simp: iloc_def nat_diff_distrib nth_append split: if_split_asm)

lemma iloc_0: "iloc xs 0 = Some x \<longleftrightarrow> xs \<noteq> [] \<and> x = hd xs"
  by (cases xs) (auto simp: iloc_def)

definition day_separated :: "game_row list \<Rightarrow> nat \<Rightarrow> bool" where
  "day_separated s k = (\<forall>a\<in>set (take k s). \<forall>b\<in>set (drop k s). fst a < fst b)"

lemma filter_le_takeWhile:
  "sorted (map f xs) \<Longrightarrow> [x \<leftarrow> xs. f x \<le> d] = takeWhile (\<lambda>x. f x \<le> d) xs" for d :: "'b :: linorder"
  by (induction xs) (auto simp: filter_empty_conv takeWhile_eq_Nil_iff dest: order_trans)

lemma dates_sorted: "sorted (map fst (sort rows))" for rows :: "game_row list"
proof -
  have "sorted_wrt (\<lambda>x y. fst x \<le> fst y) (sort rows)"
    by (rule sorted_wrt_mono_rel [of _ "(\<le>)"]) (auto simp: less_eq_prod_def)
  then show ?thesis by (simp add: sorted_map)
qed

lemma separated_at_count:
  assumes "sorted (map fst s)"
  shows "day_separated s (length [r \<leftarrow> s. fst r \<le> d])"
proof -
  let ?P = "\<lambda>r. fst r \<le> d"
  have "take (length (takeWhile ?P s)) s = takeWhile ?P s" "drop (length (takeWhile ?P s)) s = dropWhile ?P s"
    using takeWhile_eq_take dropWhile_eq_drop by metis+
  moreover have "fst a \<le> d" if "a \<in> set (takeWhile ?P s)" for a using set_takeWhileD [OF that] by simp
  moreover have "d < fst b" if "b \<in> set (dropWhile ?P s)" for b
  proof -
    have "dropWhile ?P s \<noteq> []" using that by (metis empty_iff list.set(1))
    then obtain y ys where ys: "dropWhile ?P s = y # ys" by (meson neq_Nil_conv)
    have "\<not> ?P y" using ys by (metis dropWhile_eq_Cons_conv)
    moreover have "sorted (map fst (y # ys))"
      unfolding ys [symmetric] using assms by (metis dropWhile_eq_drop drop_map sorted_wrt_drop)
    ultimately show ?thesis using that ys by auto
  qed
  ultimately show ?thesis
    unfolding day_separated_def filter_le_takeWhile [OF assms] by fastforce
qed

lemma separated_between:
  assumes "sorted (map fst s)" "0 < k" "k < length s" "fst (s ! (k - 1)) \<noteq> fst (s ! k)"
  shows "day_separated s k"
proof -
  have le: "fst (s ! i) \<le> fst (s ! j)" if "i \<le> j" "j < length s" for i j
    using sorted_nth_mono [OF assms(1), of i j] that by simp
  have "fst (s ! (k - 1)) < fst (s ! k)" using le [of "k - 1" k] assms by simp
  moreover have "fst a \<le> fst (s ! (k - 1))" if "a \<in> set (take k s)" for a
    using that le assms by (fastforce simp: in_set_conv_nth)
  moreover have "fst (s ! k) \<le> fst b" if "b \<in> set (drop k s)" for b
    using that le assms by (fastforce simp: in_set_conv_nth)
  ultimately show ?thesis unfolding day_separated_def by (meson le_less_trans less_le_trans)
qed

text \<open>The cut of the code: where it lands, no day is on both sides, and it never moves back.\<close>

lemma day_clean_cut:
  assumes s: "sorted (map fst s)" and k: "0 \<le> k" and last: "iloc s (k - 1) = Some r"
  shows "day_separated s (nat (day_clean s k r))"
    and "k \<le> day_clean s k r" and "day_clean s k r \<le> int (length s)"
proof -
  have kn: "k \<le> int (length s)" using last k by (auto simp: iloc_def split: if_split_asm)
  consider (inside) "k < int (length s)" "map_option fst (iloc s k) = Some (fst r)"
    | (edge) "\<not> (k < int (length s) \<and> map_option fst (iloc s k) = Some (fst r))" by blast
  then have "day_separated s (nat (day_clean s k r)) \<and> k \<le> day_clean s k r \<and> day_clean s k r \<le> int (length s)"
  proof cases
    case inside
    then obtain q where q: "iloc s k = Some q" "fst q = fst r" by auto
    have q': "nat k < length s" "q = s ! nat k" using iloc_Some [OF q(1) k] by auto
    have "fst x \<le> fst r" if "x \<in> set (take (nat k) s)" for x
      using that q q' sorted_nth_mono [OF s, of _ "nat k"] by (fastforce simp: in_set_conv_nth)
    then have "length (take (nat k) s) \<le> length [x \<leftarrow> take (nat k) s. fst x \<le> fst r]"
      by (simp add: filter_True)
    also have "\<dots> \<le> length [x \<leftarrow> s. fst x \<le> fst r]"
      by (subst (2) append_take_drop_id [of "nat k" s, symmetric]) (simp only: filter_append length_append)
    finally show ?thesis using inside separated_at_count [OF s] q' k by (simp add: day_clean_def)
  next
    case edge
    then have d: "day_clean s k r = k" unfolding day_clean_def by (rule if_not_P)
    show ?thesis
    proof (cases "k = 0 \<or> k = int (length s)")
      case True
      then show ?thesis using d kn k by (auto simp: day_separated_def)
    next
      case False
      then have r: "0 < nat k" "nat k < length s" "r = s ! (nat k - 1)"
        using k kn iloc_Some [OF last] by (auto simp: nat_diff_distrib)
      moreover have "fst (s ! (nat k - 1)) \<noteq> fst (s ! nat k)"
        using edge r k by (cases "s ! nat k") (auto simp: iloc_def)
      ultimately show ?thesis using separated_between [OF s r(1,2)] d k kn by simp
    qed
  qed
  then show "day_separated s (nat (day_clean s k r))"
    and "k \<le> day_clean s k r" and "day_clean s k r \<le> int (length s)" by auto
qed

lemma share_nonneg: "0 \<le> n \<Longrightarrow> 0 \<le> share \<Longrightarrow> 0 \<le> share_of share n"
  by (simp add: share_of_def trunc_def fl_nonneg fl_intros)

lemma share_le:
  assumes "0 \<le> n" "n \<le> 9007199254740992" "0 \<le> share" "share \<le> 1"
  shows "share_of share n \<le> n"
proof -
  have "fl share \<le> 1" using fl_mono [OF assms(4)] by simp
  then have "of_int n * fl share \<le> of_int n" using assms(1) by (simp add: mult_left_le)
  then have "fl (of_int n * fl share) \<le> fl (of_int n)" by (rule fl_mono)
  then have le: "fl (fl (of_int n) * fl share) \<le> of_int n" using fl_int [of n] assms by simp
  have "0 \<le> fl (fl (of_int n) * fl share)" using assms by (simp add: fl_nonneg)
  then show ?thesis using le by (simp add: share_of_def trunc_def fmul_def floor_le_iff)
qed

section \<open>The split is a chronological partition\<close>

text \<open>C25. The three sets are one chronological partition of the games, cut between days: in the order of
  dates and ids, training games come first, validation games next, test games last, no game is
  dropped or in two sets, no date is in two sets, and the training set holds at least the share it
  asks for. This holds when the validation share does not reach past the last game (the clamp of the
  code, see below).\<close>

theorem splits_partition_by_day:
  assumes "compute_splits games = Some sp"
    and "int (length (train_ids sp)) + share_of (15 / 100) (int (length games)) < int (length games)"
  shows "\<exists>A B C. sort games = A @ B @ C \<and> train_ids sp = map snd A \<and> val_ids sp = map snd B \<and> test_ids sp = map snd C
           \<and> (\<forall>a\<in>set A. \<forall>x\<in>set (B @ C). fst a < fst x) \<and> (\<forall>b\<in>set B. \<forall>c\<in>set C. fst b < fst c)
           \<and> share_of (70 / 100) (int (length games)) \<le> int (length A)"
proof -
  define s where "s = sort games"
  define n where "n = int (length s)"
  define raw where "raw = share_of (70 / 100) n"
  define raw2 where "raw2 = share_of (15 / 100) n"
  have gl: "length games = length s" by (simp add: s_def)
  note simps = s_def [symmetric] gl n_def [symmetric] raw_def [symmetric] raw2_def [symmetric]
  have len: "int (length s) = n" by (simp add: n_def)
  have srt: "sorted (map fst s)" unfolding s_def by (rule dates_sorted)
  have nn: "0 \<le> raw" "0 \<le> raw2" by (simp_all add: raw_def raw2_def share_nonneg n_def)
  obtain r where r: "iloc s (raw - 1) = Some r"
    using assms(1) unfolding compute_splits_def Let_def simps len by (cases "iloc s (raw - 1)") simp_all
  define k where "k = day_clean s raw r"
  obtain m where m: "val_cut s (k + raw2) = Some m"
    and sp: "train_ids sp = map snd (py_slice 0 k s)" "val_ids sp = map snd (py_slice k m s)"
      "test_ids sp = map snd (py_slice m n s)"
    using assms(1) unfolding compute_splits_def Let_def simps
    by (cases "iloc s (k - 1)"; cases "val_cut s (k + raw2)"; cases "iloc s (- 1)")
       (auto simp: r k_def [symmetric] split: option.split_asm)
  have k: "day_separated s (nat k)" "raw \<le> k" "k \<le> n"
    using day_clean_cut [OF srt nn(1) r] len by (simp_all add: k_def)
  have lt: "k + raw2 < n"
  proof -
    have "length (py_slice 0 k s) = nat k" using k(3) len by (simp add: py_slice_def)
    then show ?thesis using assms(2) k nn(1) unfolding simps sp by simp
  qed
  then obtain q where q: "iloc s (k + raw2 - 1) = Some q" "m = day_clean s (k + raw2) q"
    using m len by (auto simp: val_cut_def)
  have kr: "0 \<le> k + raw2" using k nn by simp
  have mm: "day_separated s (nat m)" "k \<le> m" "m \<le> n"
    using day_clean_cut [OF srt kr q(1)] len nn by (simp_all add: q(2))
  let ?A = "take (nat k) s" and ?B = "drop (nat k) (take (nat m) s)" and ?C = "drop (nat m) s"
  have km: "nat k \<le> nat m" using mm by simp
  have AB: "take (nat m) s = ?A @ ?B" by (metis km append_take_drop_id min.absorb1 take_take)
  then have "s = ?A @ ?B @ ?C" by (metis append_take_drop_id append_assoc)
  note ABC = this
  then have D: "drop (nat k) s = ?B @ ?C" by (metis append_eq_conv_conj append_take_drop_id same_append_eq)
  have "sort games = ?A @ ?B @ ?C" using ABC unfolding s_def .
  moreover have "train_ids sp = map snd ?A" "val_ids sp = map snd ?B" "test_ids sp = map snd ?C"
    using sp len by (simp_all add: py_slice_def)
  moreover have "\<forall>a\<in>set ?A. \<forall>x\<in>set (?B @ ?C). fst a < fst x" using k(1) unfolding day_separated_def D .
  moreover have "\<forall>b\<in>set ?B. \<forall>c\<in>set ?C. fst b < fst c"
    using mm(1) set_drop_subset [of "nat k" "take (nat m) s"] unfolding day_separated_def by blast
  moreover have "share_of (70 / 100) (int (length games)) \<le> int (length ?A)"
  proof -
    have "int (length ?A) = k" using k(2,3) nn(1) len by simp
    then show ?thesis using k(2) by (simp only: gl raw_def n_def)
  qed
  ultimately show ?thesis by (intro exI conjI)
qed

text \<open>The clamp leaks: when all games are on one day (or the last day takes in everything after the
  training cut), the training set is moved up to the last game while the test set is clamped to hold
  that game, so the last game is in both.\<close>

theorem one_day_leaks_into_test:
  assumes "games \<noteq> []" and "\<forall>g\<in>set games. fst g = day" and "length games \<le> 9007199254740992"
  shows "\<exists>sp. compute_splits games = Some sp \<and> train_ids sp = map snd (sort games) \<and>
           test_ids sp = [snd (last (sort games))]"
proof -
  define s where "s = sort games"
  define n where "n = int (length games)"
  have s: "length s = length games" "s \<noteq> []" "set s = set games" "int (length s) = n"
    using assms(1) by (auto simp: s_def n_def simp del: length_0_conv) (metis length_0_conv length_sort)
  have n: "0 < n" "n \<le> 9007199254740992" using assms(1,3) by (auto simp: n_def)
  have raw: "0 \<le> share_of (70 / 100) n" "share_of (70 / 100) n \<le> n" "0 \<le> share_of (15 / 100) n"
    using n share_nonneg share_le by simp_all
  have at: "\<exists>x. iloc s i = Some x \<and> fst x = day" if "- n \<le> i" "i < n" for i
  proof -
    have "iloc s i = Some (s ! nat (if i < 0 then n + i else i))" using that s(4) by (auto simp: iloc_def)
    moreover have "nat (if i < 0 then n + i else i) < length s" using that s(4) n by auto
    ultimately show ?thesis using assms(2) s(3) nth_mem by blast
  qed
  obtain r where r: "iloc s (share_of (70 / 100) n - 1) = Some r" "fst r = day" using at raw n by force
  have "[x \<leftarrow> s. fst x \<le> day] = s" using assms(2) s(3) by (simp add: filter_id_conv)
  then have k: "day_clean s (share_of (70 / 100) n) r = n"
  proof (cases "share_of (70 / 100) n < n")
    case True
    then obtain q where "iloc s (share_of (70 / 100) n) = Some q" "fst q = day"
      using at [of "share_of (70 / 100) n"] raw n by force
    then show ?thesis using True \<open>[x \<leftarrow> s. fst x \<le> day] = s\<close> s(4) r(2) by (simp add: day_clean_def)
  next
    case False
    then show ?thesis using raw(2) s(4) unfolding day_clean_def by simp
  qed
  have m: "val_cut s (n + share_of (15 / 100) n) = Some (n - 1)" using raw s(4) by (simp add: val_cut_def)
  obtain a b c where abc: "iloc s (n - 1) = Some a" "iloc s (n - 1 - 1) = Some b" "iloc s (- 1) = Some c"
    using at [of "n - 1"] at [of "n - 1 - 1"] at [of "- 1"] n by auto
  have "py_slice (n - 1) n s = [last s]"
    using s(2,4) by (cases s rule: rev_cases) (auto simp: py_slice_def nat_add_distrib)
  moreover have "py_slice 0 n s = s" using s(4) by (auto simp: py_slice_def)
  ultimately show ?thesis
    unfolding compute_splits_def Let_def s_def [symmetric] s(4) n_def [symmetric]
    using r k m abc by (simp add: s(4))
qed

theorem splits_partition_by_day_witness:
  "\<exists>sp. compute_splits [(''d1'', ''a''), (''d2'', ''b''), (''d2'', ''c''), (''d3'', ''d''), (''d3'', ''e''), (''d4'', ''f''),
       (''d5'', ''g''), (''d6'', ''h'')] = Some sp \<and> share_of (70 / 100) 8 \<le> int (length (train_ids sp))"
proof -
  let ?g = "[(''d1'', ''a''), (''d2'', ''b''), (''d2'', ''c''), (''d3'', ''d''), (''d3'', ''e''), (''d4'', ''f''),
       (''d5'', ''g''), (''d6'', ''h'')]"
  have "case compute_splits ?g of None \<Rightarrow> False
      | Some sp \<Rightarrow> int (length (train_ids sp)) + share_of (15 / 100) 8 < 8" by code_simp
  then obtain sp where sp: "compute_splits ?g = Some sp" "int (length (train_ids sp)) + share_of (15 / 100) 8 < 8"
    by (auto split: option.split_asm)
  then show ?thesis using splits_partition_by_day [OF sp(1)] by auto
qed

theorem one_day_leaks_into_test_witness:
  "\<exists>sp. compute_splits [(''d1'', ''b''), (''d1'', ''a'')] = Some sp \<and> set (test_ids sp) \<subseteq> set (train_ids sp)"
  using one_day_leaks_into_test [of "[(''d1'', ''b''), (''d1'', ''a'')]" "''d1''"] by fastforce

end
