(* ===== verification/TrialRegistry.thy ===== *)
theory TrialRegistry
  imports Batch "HOL-Library.Option_ord" "HOL-Library.Product_Lexorder"
begin

text \<open>
  The append-only registry of trials (\<open>research/registry/api.py\<close>, \<open>db.py\<close>). The database is the column
  list of its one table (None before it exists), its rows in the order of their insertion and the
  last AUTOINCREMENT id; a row gives every column a SQLite value. Each call opens its own
  connection and commits, so calls are steps on the database. \<open>tm\<close> is the reading of the clock in
  whole seconds (the default of \<open>ts_created\<close>, and \<open>time.time()\<close>). NULL sorts below every number. The
  two assertions on the SQL texts are modelled on the words of the text, the dictionaries of a
  decision are left out.
\<close>

section \<open>Tables\<close>

datatype sqlval = SNull | SInt int | SReal xnum | SText string

type_synonym sqlrow = "string \<Rightarrow> sqlval"

record database =
  db_columns :: "string list option"
  db_rows :: "sqlrow list"
  db_seq :: int

definition EXPECTED_COLUMNS :: "string list" where
  "EXPECTED_COLUMNS =
     [''id'', ''spec_hash'', ''spec_json'', ''spec_name'', ''features_used'', ''agent_id'', ''parent_trial_id'',
      ''train_pnl_gross'', ''train_pnl_net'', ''train_sharpe_net'', ''train_n_trades'', ''train_win_rate'',
      ''val_pnl_gross'', ''val_pnl_net'', ''val_sharpe_net'', ''val_n_trades'', ''val_win_rate'',
      ''test_pnl_gross'', ''test_pnl_net'', ''test_sharpe_net'', ''test_n_trades'', ''test_win_rate'',
      ''scorer_block_bootstrap_ci_lo'', ''scorer_block_bootstrap_ci_hi'', ''scorer_dsr'', ''scorer_dsr_pvalue'',
      ''scorer_promotion_gate_passed'', ''scorer_promotion_gate_reasons'', ''mechanistic_writeup'',
      ''claude_review'', ''claude_review_ts'', ''claude_review_model'', ''codex_worker_id'',
      ''cost_usd_estimate'', ''ts_created'']"

definition ensure_schema :: "database \<Rightarrow> database eval" where
  "ensure_schema d =
     (case db_columns d of
        None \<Rightarrow> Inr \<lparr>db_columns = Some EXPECTED_COLUMNS, db_rows = [], db_seq = 0\<rparr>
      | Some cs \<Rightarrow> if cs \<noteq> EXPECTED_COLUMNS then Inl (RuntimeError ''schema mismatch'') else Inr d)"

text \<open>An INSERT, and the UPDATE of a review.\<close>

definition sql_insert :: "int \<Rightarrow> (string \<times> sqlval) list \<Rightarrow> database \<Rightarrow> database" where
  "sql_insert tm vals d =
     (let i = db_seq d + 1
      in d\<lparr>db_rows := db_rows d @ [(\<lambda>c. if c = ''id'' then SInt i else if c = ''ts_created'' then SInt tm
              else case map_of vals c of Some v \<Rightarrow> v | None \<Rightarrow> SNull)], db_seq := i\<rparr>)"

definition set_review :: "string \<Rightarrow> int \<Rightarrow> string \<Rightarrow> sqlrow \<Rightarrow> sqlrow" where
  "set_review body ts model r =
     r(''claude_review'' := SText body, ''claude_review_ts'' := SInt ts, ''claude_review_model'' := SText model)"

definition sql_update_review :: "string \<Rightarrow> int \<Rightarrow> string \<Rightarrow> int \<Rightarrow> database \<Rightarrow> database" where
  "sql_update_review body ts model i d =
     d\<lparr>db_rows := map (\<lambda>r. if r ''id'' = SInt i then set_review body ts model r else r) (db_rows d)\<rparr>"

definition int_col :: "string \<Rightarrow> sqlrow \<Rightarrow> int" where
  "int_col c r = (case r c of SInt i \<Rightarrow> i | _ \<Rightarrow> 0)"

fun real_val :: "sqlval \<Rightarrow> xnum option" where
  "real_val (SReal x) = Some x"
| "real_val (SInt i) = Some (Fin (of_int i))"
| "real_val _ = None"

fun text_val :: "sqlval \<Rightarrow> string option" where
  "text_val (SText s) = Some s"
| "text_val _ = None"

text \<open>\<open>ORDER BY ts_created DESC, id DESC\<close>, \<open>ORDER BY val_sharpe_net DESC, id DESC\<close> and \<open>LIMIT\<close>.\<close>

definition newest_first :: "sqlrow list \<Rightarrow> sqlrow list" where
  "newest_first rs = rev (sort_key (\<lambda>r. (int_col ''ts_created'' r, int_col ''id'' r)) rs)"

definition best_first :: "sqlrow list \<Rightarrow> sqlrow list" where
  "best_first rs = rev (sort_key (\<lambda>r. (real_val (r ''val_sharpe_net''), int_col ''id'' r)) rs)"

definition sql_limit :: "int \<Rightarrow> 'a list \<Rightarrow> 'a list" where
  "sql_limit n xs = (if n < 0 then xs else take (nat n) xs)"

section \<open>What may be executed\<close>

definition lstrip :: "string \<Rightarrow> string" where "lstrip s = dropWhile is_space s"

definition word_char :: "char \<Rightarrow> bool" where
  "word_char c \<longleftrightarrow> c \<in> set ''abcdefghijklmnopqrstuvwxyzABCDEFGHIJKLMNOPQRSTUVWXYZ0123456789_''"

datatype sql_token = Wrd string | Sym char

fun sql_tokens :: "string \<Rightarrow> string \<Rightarrow> sql_token list" where
  "sql_tokens acc [] = (if acc = [] then [] else [Wrd (rev acc)])"
| "sql_tokens acc (c # cs) =
     (if word_char c then sql_tokens (c # acc) cs
      else (if acc = [] then [] else [Wrd (rev acc)]) @ Sym c # sql_tokens [] cs)"

definition FORBIDDEN_KEYWORDS :: "string list" where
  "FORBIDDEN_KEYWORDS = [''UPDATE'', ''DELETE'', ''REPLACE'', ''DROP'', ''ALTER'', ''TRUNCATE'']"

fun is_keyword :: "string list \<Rightarrow> sql_token \<Rightarrow> bool" where
  "is_keyword ks (Wrd w) = (upper w \<in> set ks)"
| "is_keyword ks (Sym c) = False"

definition has_forbidden :: "string \<Rightarrow> bool" where
  "has_forbidden sql = list_ex (is_keyword FORBIDDEN_KEYWORDS) (sql_tokens [] sql)"

definition assert_insert_only :: "string \<Rightarrow> unit eval" where
  "assert_insert_only sql =
     (if \<not> prefix ''INSERT INTO TRIALS'' (upper (lstrip sql)) then Inl (RuntimeError ''must start with INSERT'')
      else if has_forbidden sql then Inl (RuntimeError ''forbidden keyword'') else Inr ())"

fun replace_first :: "string \<Rightarrow> string \<Rightarrow> string" where
  "replace_first pat [] = []"
| "replace_first pat (c # cs) =
     (if prefix pat (c # cs) then drop (length pat) (c # cs) else c # replace_first pat cs)"

definition set_clause :: "sql_token list \<Rightarrow> sql_token list option" where
  "set_clause ts =
     (case dropWhile (\<lambda>t. \<not> is_keyword [''SET''] t) ts of
        [] \<Rightarrow> None
      | _ # rest \<Rightarrow> if list_ex (is_keyword [''WHERE'']) rest
                    then Some (takeWhile (\<lambda>t. \<not> is_keyword [''WHERE''] t) rest) else None)"

fun blank :: "sql_token \<Rightarrow> bool" where
  "blank (Sym c) = is_space c"
| "blank (Wrd w) = False"

fun assigned :: "sql_token list \<Rightarrow> string list" where
  "assigned [] = []"
| "assigned (Sym c # ts) = assigned ts"
| "assigned (Wrd w # ts) =
     (case dropWhile blank ts of
        Sym c # us \<Rightarrow> if c = CHR ''='' \<and> dropWhile is_digit w \<noteq> [] then [dropWhile is_digit w] else []
      | _ \<Rightarrow> []) @ assigned ts"

definition REVIEW_COLUMNS :: "string list" where
  "REVIEW_COLUMNS = [''claude_review'', ''claude_review_ts'', ''claude_review_model'']"

definition assert_review_only :: "string \<Rightarrow> unit eval" where
  "assert_review_only sql =
     (if \<not> prefix ''UPDATE TRIALS SET CLAUDE_REVIEW'' (upper (lstrip sql)) then Inl (RuntimeError ''must begin with UPDATE'')
      else if has_forbidden (replace_first ''UPDATE'' (upper sql)) then Inl (RuntimeError ''forbidden keyword'')
      else case set_clause (sql_tokens [] sql) of
          None \<Rightarrow> Inl (RuntimeError ''no WHERE clause'')
        | Some clause \<Rightarrow>
            if [c \<leftarrow> assigned clause. lower c \<notin> set REVIEW_COLUMNS] = [] then Inr ()
            else Inl (RuntimeError ''disallowed column''))"

section \<open>Marshalling\<close>

record promotion_decision =
  passed :: bool
  reasons :: "string list"
  block_bootstrap_ci_lo :: pyfloat
  block_bootstrap_ci_hi :: pyfloat
  block_bootstrap_mean :: pyfloat
  dsr :: pyfloat
  dsr_p_value :: pyfloat
  n_trades_val :: int
  n_games_val :: int

text \<open>\<open>_as_float_or_none\<close>: None and NaN are NULL.\<close>

definition as_float_or_none :: "pyfloat option \<Rightarrow> sqlval" where
  "as_float_or_none v = (case v of Some (Some x) \<Rightarrow> SReal x | _ \<Rightarrow> SNull)"

definition opt_text :: "string option \<Rightarrow> sqlval" where
  "opt_text v = (case v of Some s \<Rightarrow> SText s | None \<Rightarrow> SNull)"

definition opt_int :: "int option \<Rightarrow> sqlval" where
  "opt_int v = (case v of Some i \<Rightarrow> SInt i | None \<Rightarrow> SNull)"

definition batch_metrics :: "string \<Rightarrow> batch_result option \<Rightarrow> (string \<times> sqlval) list" where
  "batch_metrics pre res =
     [(pre @ ''pnl_gross'', as_float_or_none (map_option (\<lambda>r. Some (Fin (br_pnl_gross r))) res)),
      (pre @ ''pnl_net'', as_float_or_none (map_option (\<lambda>r. Some (Fin (br_pnl_net r))) res)),
      (pre @ ''sharpe_net'', as_float_or_none (map_option sharpe_per_trade_net res)),
      (pre @ ''n_trades'', opt_int (map_option n_trades_total res)),
      (pre @ ''win_rate'', as_float_or_none (map_option win_rate res))]"

text \<open>The decision comes through the adapter of \<open>run_backtest.py\<close>, which names its \<open>dsr_p_value\<close> also
  \<open>dsr_pvalue\<close>, the name read here.\<close>

definition scorer_fields :: "jsonlib \<Rightarrow> promotion_decision option \<Rightarrow> (string \<times> sqlval) list" where
  "scorer_fields j dec =
     [(''scorer_block_bootstrap_ci_lo'', as_float_or_none (map_option block_bootstrap_ci_lo dec)),
      (''scorer_block_bootstrap_ci_hi'', as_float_or_none (map_option block_bootstrap_ci_hi dec)),
      (''scorer_dsr'', as_float_or_none (map_option dsr dec)),
      (''scorer_dsr_pvalue'', as_float_or_none (map_option dsr_p_value dec)),
      (''scorer_promotion_gate_passed'', opt_int (map_option (\<lambda>d. if passed d then 1 else 0) dec)),
      (''scorer_promotion_gate_reasons'', opt_text (map_option (\<lambda>d. dumps j (JList (map JStr (reasons d)))) dec))]"

section \<open>Operations\<close>

record trial_args =
  ta_spec :: strategy_spec
  ta_agent_id :: string
  ta_train :: "batch_result option"
  ta_val :: "batch_result option"
  ta_test :: "batch_result option"
  ta_writeup :: "string option"
  ta_parent :: "int option"
  ta_worker :: "string option"
  ta_cost :: "pyfloat option"
  ta_scorer :: "promotion_decision option"

definition row_values :: "lab_services \<Rightarrow> trial_args \<Rightarrow> (string \<times> sqlval) list" where
  "row_values sv a =
     [(''spec_hash'', SText (hash_of sv (ta_spec a))), (''spec_json'', SText (to_json (json_of sv) (ta_spec a))),
      (''spec_name'', SText (spec_name (ta_spec a))),
      (''features_used'', SText (dumps (json_of sv) (JList (map JStr (features (ta_spec a)))))),
      (''agent_id'', SText (ta_agent_id a)), (''parent_trial_id'', opt_int (ta_parent a))]
     @ batch_metrics ''train_'' (ta_train a) @ batch_metrics ''val_'' (ta_val a) @ batch_metrics ''test_'' (ta_test a)
     @ scorer_fields (json_of sv) (ta_scorer a)
     @ [(''mechanistic_writeup'', opt_text (ta_writeup a)), (''codex_worker_id'', opt_text (ta_worker a)),
        (''cost_usd_estimate'', as_float_or_none (ta_cost a))]"

definition INSERT_COLUMNS :: "string list" where
  "INSERT_COLUMNS =
     [''spec_hash'', ''spec_json'', ''spec_name'', ''features_used'', ''agent_id'', ''parent_trial_id'',
      ''train_pnl_gross'', ''train_pnl_net'', ''train_sharpe_net'', ''train_n_trades'', ''train_win_rate'',
      ''val_pnl_gross'', ''val_pnl_net'', ''val_sharpe_net'', ''val_n_trades'', ''val_win_rate'',
      ''test_pnl_gross'', ''test_pnl_net'', ''test_sharpe_net'', ''test_n_trades'', ''test_win_rate'',
      ''scorer_block_bootstrap_ci_lo'', ''scorer_block_bootstrap_ci_hi'', ''scorer_dsr'', ''scorer_dsr_pvalue'',
      ''scorer_promotion_gate_passed'', ''scorer_promotion_gate_reasons'', ''mechanistic_writeup'',
      ''codex_worker_id'', ''cost_usd_estimate'']"

definition build_insert_sql :: string where
  "build_insert_sql = ''INSERT INTO trials ('' @ comma_join INSERT_COLUMNS @ '') VALUES ('' @
     comma_join (map (\<lambda>c. ''?'') INSERT_COLUMNS) @ '')''"

definition build_review_update_sql :: string where
  "build_review_update_sql =
     ''UPDATE trials SET claude_review = ?, claude_review_ts = ?, claude_review_model = ? WHERE id = ?''"

definition record_trial :: "lab_services \<Rightarrow> int \<Rightarrow> trial_args \<Rightarrow> database \<Rightarrow> int eval \<times> database" where
  "record_trial sv tm a d =
     (case sbind (assert_insert_only build_insert_sql) (\<lambda>u. ensure_schema d) of
        Inl e \<Rightarrow> (Inl e, d)
      | Inr d' \<Rightarrow> let d'' = sql_insert tm (zip INSERT_COLUMNS (map snd (row_values sv a))) d' in (Inr (db_seq d''), d''))"

definition record_claude_review :: "int \<Rightarrow> string \<Rightarrow> string \<Rightarrow> string \<Rightarrow> database \<Rightarrow> int eval \<times> database" where
  "record_claude_review tm h body model d =
     (case sbind (assert_review_only build_review_update_sql) (\<lambda>u. ensure_schema d) of
        Inl e \<Rightarrow> (Inl e, d)
      | Inr d' \<Rightarrow>
          (case sql_limit 1 (newest_first [r \<leftarrow> db_rows d'. r ''spec_hash'' = SText h]) of
             [] \<Rightarrow> (value_error, d')
           | r # rs \<Rightarrow>
               if r ''claude_review'' \<noteq> SNull then (value_error, d')
               else (Inr (int_col ''id'' r), sql_update_review body tm model (int_col ''id'' r) d')))"

record trial_row =
  tr_id :: int
  tr_spec_hash :: "string option"
  tr_spec_name :: "string option"
  tr_agent_id :: "string option"
  tr_train_pnl_net :: "xnum option"
  tr_val_pnl_net :: "xnum option"
  tr_val_sharpe_net :: "xnum option"
  tr_val_n_trades :: "int option"
  tr_test_pnl_net :: "xnum option"
  tr_gate_passed :: "bool option"
  tr_ci_lo :: "xnum option"
  tr_claude_review :: "string option"
  tr_ts_created :: int

definition row_to_trial :: "sqlrow \<Rightarrow> trial_row" where
  "row_to_trial r =
     \<lparr>tr_id = int_col ''id'' r, tr_spec_hash = text_val (r ''spec_hash''), tr_spec_name = text_val (r ''spec_name''),
      tr_agent_id = text_val (r ''agent_id''), tr_train_pnl_net = real_val (r ''train_pnl_net''),
      tr_val_pnl_net = real_val (r ''val_pnl_net''), tr_val_sharpe_net = real_val (r ''val_sharpe_net''),
      tr_val_n_trades = (case r ''val_n_trades'' of SInt i \<Rightarrow> Some i | _ \<Rightarrow> None), tr_test_pnl_net = real_val (r ''test_pnl_net''),
      tr_gate_passed = (case r ''scorer_promotion_gate_passed'' of SInt i \<Rightarrow> Some (i \<noteq> 0) | _ \<Rightarrow> None),
      tr_ci_lo = real_val (r ''scorer_block_bootstrap_ci_lo''), tr_claude_review = text_val (r ''claude_review''),
      tr_ts_created = int_col ''ts_created'' r\<rparr>"

definition query_rows ::
  "string option \<Rightarrow> string option \<Rightarrow> bool option \<Rightarrow> int option \<Rightarrow> int \<Rightarrow> database \<Rightarrow> trial_row list eval" where
  "query_rows h agent gate since cap d =
     sbind (ensure_schema d) (\<lambda>d'. Inr (map row_to_trial (sql_limit cap (newest_first
       [r \<leftarrow> db_rows d'.
          (case h of None \<Rightarrow> True | Some x \<Rightarrow> r ''spec_hash'' = SText x) \<and>
          (case agent of None \<Rightarrow> True | Some x \<Rightarrow> r ''agent_id'' = SText x) \<and>
          (case gate of None \<Rightarrow> True | Some b \<Rightarrow> r ''scorer_promotion_gate_passed'' = SInt (if b then 1 else 0)) \<and>
          (case since of None \<Rightarrow> True | Some t \<Rightarrow> t \<le> int_col ''ts_created'' r)]))))"

definition count_total_trials :: "database \<Rightarrow> int eval" where
  "count_total_trials d = sbind (ensure_schema d) (\<lambda>d'. Inr (int (length (db_rows d'))))"

definition promotable :: "sqlrow \<Rightarrow> bool" where
  "promotable r = (r ''scorer_promotion_gate_passed'' = SInt 1 \<and> r ''claude_review'' = SNull \<and> r ''test_pnl_net'' = SNull)"

definition pending :: "sqlrow \<Rightarrow> bool" where
  "pending r = (r ''scorer_promotion_gate_passed'' = SInt 1 \<and> r ''claude_review'' \<noteq> SNull \<and> r ''test_pnl_net'' = SNull)"

definition query_promotable_candidates :: "int \<Rightarrow> database \<Rightarrow> trial_row list eval" where
  "query_promotable_candidates cap d =
     sbind (ensure_schema d) (\<lambda>d'. Inr (map row_to_trial (sql_limit cap (best_first (filter promotable (db_rows d'))))))"

definition query_pending_promotion :: "int \<Rightarrow> database \<Rightarrow> trial_row list eval" where
  "query_pending_promotion cap d =
     sbind (ensure_schema d) (\<lambda>d'. Inr (map row_to_trial (sql_limit cap (best_first (filter pending (db_rows d'))))))"

definition query_promoted :: "int \<Rightarrow> database \<Rightarrow> trial_row list eval" where
  "query_promoted cap d =
     sbind (ensure_schema d) (\<lambda>d'. Inr (map row_to_trial (sql_limit cap
       (newest_first [r \<leftarrow> db_rows d'. r ''test_pnl_net'' \<noteq> SNull]))))"

section \<open>Runs of the registry\<close>

lemma columns_in_lockstep: "map fst (row_values sv a) = INSERT_COLUMNS"
  by (simp add: row_values_def batch_metrics_def scorer_fields_def INSERT_COLUMNS_def)

text \<open>The characters of the two SQL texts.\<close>

lemma upper_chars:
  "char_upper (CHR ''a'') = CHR ''A''" "char_upper (CHR ''b'') = CHR ''B''" "char_upper (CHR ''c'') = CHR ''C''"
  "char_upper (CHR ''d'') = CHR ''D''" "char_upper (CHR ''e'') = CHR ''E''" "char_upper (CHR ''f'') = CHR ''F''"
  "char_upper (CHR ''g'') = CHR ''G''" "char_upper (CHR ''h'') = CHR ''H''" "char_upper (CHR ''i'') = CHR ''I''"
  "char_upper (CHR ''j'') = CHR ''J''" "char_upper (CHR ''k'') = CHR ''K''" "char_upper (CHR ''l'') = CHR ''L''"
  "char_upper (CHR ''m'') = CHR ''M''" "char_upper (CHR ''n'') = CHR ''N''" "char_upper (CHR ''o'') = CHR ''O''"
  "char_upper (CHR ''p'') = CHR ''P''" "char_upper (CHR ''q'') = CHR ''Q''" "char_upper (CHR ''r'') = CHR ''R''"
  "char_upper (CHR ''s'') = CHR ''S''" "char_upper (CHR ''t'') = CHR ''T''" "char_upper (CHR ''u'') = CHR ''U''"
  "char_upper (CHR ''v'') = CHR ''V''" "char_upper (CHR ''w'') = CHR ''W''" "char_upper (CHR ''x'') = CHR ''X''"
  "char_upper (CHR ''y'') = CHR ''Y''" "char_upper (CHR ''z'') = CHR ''Z''" "char_upper (CHR ''A'') = CHR ''A''"
  "char_upper (CHR ''B'') = CHR ''B''" "char_upper (CHR ''C'') = CHR ''C''" "char_upper (CHR ''D'') = CHR ''D''"
  "char_upper (CHR ''E'') = CHR ''E''" "char_upper (CHR ''F'') = CHR ''F''" "char_upper (CHR ''G'') = CHR ''G''"
  "char_upper (CHR ''H'') = CHR ''H''" "char_upper (CHR ''I'') = CHR ''I''" "char_upper (CHR ''J'') = CHR ''J''"
  "char_upper (CHR ''K'') = CHR ''K''" "char_upper (CHR ''L'') = CHR ''L''" "char_upper (CHR ''M'') = CHR ''M''"
  "char_upper (CHR ''N'') = CHR ''N''" "char_upper (CHR ''O'') = CHR ''O''" "char_upper (CHR ''P'') = CHR ''P''"
  "char_upper (CHR ''Q'') = CHR ''Q''" "char_upper (CHR ''R'') = CHR ''R''" "char_upper (CHR ''S'') = CHR ''S''"
  "char_upper (CHR ''T'') = CHR ''T''" "char_upper (CHR ''U'') = CHR ''U''" "char_upper (CHR ''V'') = CHR ''V''"
  "char_upper (CHR ''W'') = CHR ''W''" "char_upper (CHR ''X'') = CHR ''X''" "char_upper (CHR ''Y'') = CHR ''Y''"
  "char_upper (CHR ''Z'') = CHR ''Z''" "char_upper (CHR ''_'') = CHR ''_''" "char_upper (CHR ''('') = CHR ''(''"
  "char_upper (CHR '')'') = CHR '')''" "char_upper (CHR '','') = CHR '',''" "char_upper (CHR ''?'') = CHR ''?''"
  "char_upper (CHR ''='') = CHR ''=''" "char_upper (CHR '' '') = CHR '' ''"
  by (simp_all add: char_upper_def Let_def char_of_def bit_iff_odd)

lemma word_chars:
  "word_char (CHR ''a'')" "word_char (CHR ''b'')" "word_char (CHR ''c'')" "word_char (CHR ''d'')" "word_char (CHR ''e'')"
  "word_char (CHR ''f'')" "word_char (CHR ''g'')" "word_char (CHR ''h'')" "word_char (CHR ''i'')" "word_char (CHR ''j'')"
  "word_char (CHR ''k'')" "word_char (CHR ''l'')" "word_char (CHR ''m'')" "word_char (CHR ''n'')" "word_char (CHR ''o'')"
  "word_char (CHR ''p'')" "word_char (CHR ''q'')" "word_char (CHR ''r'')" "word_char (CHR ''s'')" "word_char (CHR ''t'')"
  "word_char (CHR ''u'')" "word_char (CHR ''v'')" "word_char (CHR ''w'')" "word_char (CHR ''x'')" "word_char (CHR ''y'')"
  "word_char (CHR ''z'')" "word_char (CHR ''A'')" "word_char (CHR ''B'')" "word_char (CHR ''C'')" "word_char (CHR ''D'')"
  "word_char (CHR ''E'')" "word_char (CHR ''F'')" "word_char (CHR ''G'')" "word_char (CHR ''H'')" "word_char (CHR ''I'')"
  "word_char (CHR ''J'')" "word_char (CHR ''K'')" "word_char (CHR ''L'')" "word_char (CHR ''M'')" "word_char (CHR ''N'')"
  "word_char (CHR ''O'')" "word_char (CHR ''P'')" "word_char (CHR ''Q'')" "word_char (CHR ''R'')" "word_char (CHR ''S'')"
  "word_char (CHR ''T'')" "word_char (CHR ''U'')" "word_char (CHR ''V'')" "word_char (CHR ''W'')" "word_char (CHR ''X'')"
  "word_char (CHR ''Y'')" "word_char (CHR ''Z'')" "word_char (CHR ''_'')" "\<not> word_char (CHR ''('')" "\<not> word_char (CHR '')'')"
  "\<not> word_char (CHR '','')" "\<not> word_char (CHR ''?'')" "\<not> word_char (CHR ''='')" "\<not> word_char (CHR '' '')"
  by (simp_all add: word_char_def)

lemma tokens_split: "\<not> word_char c \<Longrightarrow> sql_tokens acc (u @ c # v) = sql_tokens acc u @ Sym c # sql_tokens [] v"
  by (induction acc u rule: sql_tokens.induct) auto

lemma forbidden_split: "\<not> word_char c \<Longrightarrow> has_forbidden (u @ c # v) \<longleftrightarrow> has_forbidden u \<or> has_forbidden v"
  by (simp add: has_forbidden_def tokens_split)

lemma forbidden_Nil [simp]: "\<not> has_forbidden []"
  by (simp add: has_forbidden_def)

lemma forbidden_join: "has_forbidden (comma_join ws) \<longleftrightarrow> (\<exists>w\<in>set ws. has_forbidden w)"
proof (cases ws)
  case (Cons s r)
  have "has_forbidden (s @ concat (map ((@) '', '') r)) \<longleftrightarrow> has_forbidden s \<or> (\<exists>t\<in>set r. has_forbidden t)" for s
  proof (induction r arbitrary: s)
    case (Cons t r)
    have "has_forbidden (s @ CHR '','' # ([] @ CHR '' '' # z)) \<longleftrightarrow> has_forbidden s \<or> has_forbidden z" for z
      by (simp only: forbidden_split word_chars not_False_eq_True forbidden_Nil) simp
    then show ?case using Cons [of t] by simp
  qed simp
  then show ?thesis using Cons by (simp add: comma_join_def)
qed (simp add: comma_join_def)

lemma forbidden_insert:
  "has_forbidden (''INSERT INTO trials ('' @ x @ '') VALUES ('' @ y @ '')'') \<longleftrightarrow> has_forbidden x \<or> has_forbidden y"
proof -
  have "has_forbidden (''INSERT INTO trials '' @ CHR ''('' # (x @ CHR '')'' # ('' VALUES '' @ CHR ''('' # (y @ CHR '')'' # []))))
      \<longleftrightarrow> has_forbidden x \<or> has_forbidden y"
    by (simp only: forbidden_split word_chars not_False_eq_True forbidden_Nil)
       (simp add: has_forbidden_def FORBIDDEN_KEYWORDS_def upper_def upper_chars word_chars)
  then show ?thesis by simp
qed

lemma insert_assertion: "assert_insert_only build_insert_sql = Inr ()"
proof -
  have "\<forall>w\<in>set INSERT_COLUMNS. \<not> has_forbidden w"
    by (simp add: INSERT_COLUMNS_def has_forbidden_def FORBIDDEN_KEYWORDS_def upper_def upper_chars word_chars)
  moreover have "\<not> has_forbidden ''?''"
    by (simp add: has_forbidden_def word_chars)
  moreover have "prefix ''INSERT INTO TRIALS'' (upper (lstrip build_insert_sql))"
    unfolding build_insert_sql_def by (simp add: upper_def lstrip_def is_space_def upper_chars)
  ultimately show ?thesis unfolding assert_insert_only_def build_insert_sql_def forbidden_insert forbidden_join
    by auto
qed

lemma review_assertion: "assert_review_only build_review_update_sql = Inr ()"
  by (simp add: assert_review_only_def build_review_update_sql_def has_forbidden_def FORBIDDEN_KEYWORDS_def set_clause_def
     REVIEW_COLUMNS_def upper_def lstrip_def is_space_def upper_chars word_chars is_digit_def lower_def char_lower_def)

lemmas assertions_pass = insert_assertion review_assertion

datatype registry_call = Record int trial_args | Review int string string string

fun is_record :: "registry_call \<Rightarrow> bool" where
  "is_record (Record tm a) = True"
| "is_record (Review tm h body model) = False"

fun registry_step :: "lab_services \<Rightarrow> database \<Rightarrow> registry_call \<Rightarrow> database" where
  "registry_step sv d (Record tm a) = snd (record_trial sv tm a d)"
| "registry_step sv d (Review tm h body model) = snd (record_claude_review tm h body model d)"

definition fresh_db :: database where
  "fresh_db = \<lparr>db_columns = None, db_rows = [], db_seq = 0\<rparr>"

definition registry_run :: "lab_services \<Rightarrow> registry_call list \<Rightarrow> database" where
  "registry_run sv = run (registry_step sv) fresh_db"

text \<open>Ids are handed out in order and never again.\<close>

definition db_ok :: "database \<Rightarrow> bool" where
  "db_ok d \<longleftrightarrow> map (\<lambda>r. r ''id'') (db_rows d) = map SInt [1..db_seq d] \<and> 0 \<le> db_seq d \<and>
     (case db_columns d of None \<Rightarrow> db_rows d = [] | Some cs \<Rightarrow> cs = EXPECTED_COLUMNS)"

lemma length_rows: "db_ok d \<Longrightarrow> int (length (db_rows d)) = db_seq d"
proof -
  assume "db_ok d"
  then have "length (map (\<lambda>r. r ''id'') (db_rows d)) = length (map SInt [1..db_seq d])" and "0 \<le> db_seq d"
    unfolding db_ok_def by (simp_all only:)
  then show ?thesis by simp
qed

lemma ensure_schema_ok:
  assumes "db_ok d"
  obtains d' where "ensure_schema d = Inr d'" "db_ok d'" "db_rows d' = db_rows d" "db_seq d' = db_seq d"
    "db_columns d' = Some EXPECTED_COLUMNS"
proof (cases "db_columns d")
  case None
  then have "db_rows d = []" "db_seq d = 0" using assms by (auto simp: db_ok_def)
  then show thesis using None that [of "\<lparr>db_columns = Some EXPECTED_COLUMNS, db_rows = [], db_seq = 0\<rparr>"]
    by (simp add: ensure_schema_def db_ok_def)
next
  case (Some cs)
  then show thesis using assms that [of d] by (simp add: ensure_schema_def db_ok_def)
qed

lemma review_keeps:
  "c \<notin> set REVIEW_COLUMNS \<Longrightarrow> set_review body ts model r c = r c"
  by (simp add: set_review_def REVIEW_COLUMNS_def)

lemma id_of_review [simp]: "set_review body ts model r ''id'' = r ''id''"
  by (simp add: set_review_def)

lemma insert_ok: "db_ok d \<Longrightarrow> db_columns d \<noteq> None \<Longrightarrow> db_ok (sql_insert tm vals d)"
  by (auto simp: db_ok_def sql_insert_def Let_def upto_rec2)

lemma update_ok: "db_ok d \<Longrightarrow> db_ok (sql_update_review body ts model i d)"
proof -
  have "map (\<lambda>r. r ''id'') (map (\<lambda>r. if P r then set_review body ts model r else r) rs) = map (\<lambda>r. r ''id'') rs" for P rs
    by simp
  note ids = this
  show "db_ok d \<Longrightarrow> ?thesis" unfolding db_ok_def sql_update_review_def
    by (auto simp: ids simp del: list.map_comp map_map split: option.split_asm)
qed

lemma record_trial_effect:
  assumes "db_ok d"
  obtains d' vals where "ensure_schema d = Inr d'" "db_rows d' = db_rows d" "db_seq d' = db_seq d"
    "snd (record_trial sv tm a d) = sql_insert tm vals d'" "map fst vals = INSERT_COLUMNS"
    "fst (record_trial sv tm a d) = Inr (db_seq d + 1)" "db_ok (snd (record_trial sv tm a d))"
proof -
  obtain d' where d': "ensure_schema d = Inr d'" "db_ok d'" "db_rows d' = db_rows d" "db_seq d' = db_seq d"
    "db_columns d' = Some EXPECTED_COLUMNS" using ensure_schema_ok [OF assms] .
  have "length (map snd (row_values sv a)) = length INSERT_COLUMNS"
    using arg_cong [OF columns_in_lockstep, of length] by simp
  then have "map fst (zip INSERT_COLUMNS (map snd (row_values sv a))) = INSERT_COLUMNS" by simp
  then show thesis using that [OF d'(1,3,4)] d' insert_ok [OF d'(2)]
    by (simp add: record_trial_def assertions_pass Let_def sql_insert_def)
qed

lemma review_effect:
  assumes "db_ok d"
  obtains (none) "db_rows (snd (record_claude_review tm h body model d)) = db_rows d"
      "db_seq (snd (record_claude_review tm h body model d)) = db_seq d"
      "db_ok (snd (record_claude_review tm h body model d))"
    | (set) d' r where "r \<in> set (db_rows d)" "r ''claude_review'' = SNull" "db_rows d' = db_rows d" "db_ok d'"
      "snd (record_claude_review tm h body model d) = sql_update_review body tm model (int_col ''id'' r) d'"
proof -
  obtain d' where d': "ensure_schema d = Inr d'" "db_ok d'" "db_rows d' = db_rows d" "db_seq d' = db_seq d"
    using ensure_schema_ok [OF assms] .
  show thesis
  proof (cases "sql_limit 1 (newest_first [r \<leftarrow> db_rows d'. r ''spec_hash'' = SText h])")
    case Nil
    then show thesis using none d' by (simp add: record_claude_review_def assertions_pass)
  next
    case (Cons r rs)
    then have "r \<in> set (newest_first [r \<leftarrow> db_rows d'. r ''spec_hash'' = SText h])"
      by (metis in_set_takeD list.set_intros(1) sql_limit_def)
    then have "r \<in> set (db_rows d)" using d'(3) by (simp add: newest_first_def)
    then show thesis using none set d' Cons
      by (cases "r ''claude_review'' = SNull") (simp_all add: record_claude_review_def assertions_pass)
  qed
qed

interpretation trials: machine "registry_step sv" "\<lambda>c. True" db_ok for sv
proof
  fix d c
  assume ok: "db_ok d"
  show "db_ok (registry_step sv d c)"
  proof (cases c)
    case (Record tm a)
    then show ?thesis using record_trial_effect [OF ok, of sv tm a] by (metis registry_step.simps(1))
  next
    case (Review tm h body model)
    from ok show ?thesis unfolding Review registry_step.simps
      by (cases rule: review_effect [of d tm h body model]) (auto simp: update_ok)
  qed
qed

lemma fresh_ok: "db_ok fresh_db"
  by (simp add: db_ok_def fresh_db_def)

lemma run_ok: "db_ok (registry_run sv cs)"
  unfolding registry_run_def by (rule trials.run_inv [OF fresh_ok]) (simp add: list_all_iff)

section \<open>Nothing is forgotten\<close>

text \<open>A later version of a row: only a missing review may have been added.\<close>

definition kept_row :: "sqlrow \<Rightarrow> sqlrow \<Rightarrow> bool" where
  "kept_row r r' = ((\<forall>c. c \<notin> {''claude_review'', ''claude_review_ts'', ''claude_review_model''} \<longrightarrow> r' c = r c) \<and> (r ''claude_review'' \<noteq> SNull \<longrightarrow> r' = r))"

definition extends :: "database \<Rightarrow> database \<Rightarrow> bool" where
  "extends d d' = (\<exists>kept new. db_rows d' = kept @ new \<and> list_all2 kept_row (db_rows d) kept)"

lemma kept_refl: "kept_row r r"
  by (simp add: kept_row_def)

lemma kept_trans: "kept_row r s \<Longrightarrow> kept_row s t \<Longrightarrow> kept_row r t"
  unfolding kept_row_def by metis

lemma extends_rows: "db_rows d' = db_rows d \<Longrightarrow> extends d d'"
  unfolding extends_def by (metis append_Nil2 kept_refl list_all2_refl)

lemma extends_trans:
  assumes "extends d d'" "extends d' d''"
  shows "extends d d''"
proof -
  obtain k n where 1: "db_rows d' = k @ n" "list_all2 kept_row (db_rows d) k" using assms(1) by (auto simp: extends_def)
  obtain k' n' where 2: "db_rows d'' = k' @ n'" "list_all2 kept_row (k @ n) k'" using assms(2) 1(1) by (auto simp: extends_def)
  then obtain k1 k2 where 3: "k' = k1 @ k2" "list_all2 kept_row k k1" by (auto simp: list_all2_append1)
  have "list_all2 kept_row (db_rows d) k1" using list_all2_trans [OF kept_trans 1(2) 3(2)] .
  then show ?thesis using 2(1) 3(1) unfolding extends_def by auto
qed

lemma unique_id:
  assumes "db_ok d" "r \<in> set (db_rows d)" "s \<in> set (db_rows d)" "s ''id'' = SInt (int_col ''id'' r)"
  shows "s = r"
proof -
  have "distinct (map (\<lambda>r. r ''id'') (db_rows d))"
    using assms(1) by (simp add: db_ok_def distinct_map inj_on_def)
  moreover have "r ''id'' \<in> set (map SInt [1..db_seq d])"
    using assms(1,2) unfolding db_ok_def by (metis (no_types, lifting) imageI set_map)
  then have "s ''id'' = r ''id''" using assms(4) by (auto simp: int_col_def)
  ultimately show ?thesis using assms(2,3) by (auto simp: distinct_map inj_on_def)
qed

lemma step_extends:
  assumes ok: "db_ok d"
  shows "extends d (registry_step sv d c)"
proof (cases c)
  case (Record tm a)
  obtain d' vals where "db_rows d' = db_rows d" "snd (record_trial sv tm a d) = sql_insert tm vals d'"
    using record_trial_effect [OF ok] by metis
  then show ?thesis unfolding Record registry_step.simps extends_def
    by (auto simp: sql_insert_def Let_def intro!: exI list_all2_refl kept_refl)
next
  case (Review tm h body model)
  from ok show ?thesis unfolding Review registry_step.simps
  proof (cases rule: review_effect [of d tm h body model])
    case (set d' r)
    have "kept_row s (if s ''id'' = SInt (int_col ''id'' r) then set_review body tm model s else s)"
      if "s \<in> set (db_rows d)" for s
      using unique_id [OF ok set(1) that] set(2) by (auto simp: kept_row_def set_review_def)
    then have "list_all2 kept_row (db_rows d) (db_rows (snd (record_claude_review tm h body model d)))"
      using set(3,5) by (simp add: sql_update_review_def list_all2_conv_all_nth)
    then show "extends d (snd (record_claude_review tm h body model d))"
      unfolding extends_def by (metis append_Nil2)
  qed (rule extends_rows)
qed

text \<open>C36. The registry is append-only: whatever is recorded or reviewed later, every trial keeps its place
  and all its columns but the three of the review, and a review, once written, is never changed.\<close>

theorem registry_append_only:
  "\<exists>kept new. db_rows (registry_run sv (cs @ ds)) = kept @ new \<and> list_all2 kept_row (db_rows (registry_run sv cs)) kept"
proof -
  have "extends d (run (registry_step sv) d ds)" if "db_ok d" for d
    using that
  proof (induction ds arbitrary: d)
    case (Cons c ds)
    then show ?case using extends_trans [OF step_extends] trials.step_inv by (metis run.simps(2))
  qed (simp add: extends_rows)
  from this [OF run_ok [of sv cs]] show ?thesis
    by (simp add: registry_run_def run_append extends_def)
qed

text \<open>The denominator of the multiple-testing correction counts every trial ever recorded, failed ones
  included, and reviews do not change it; the ids handed out are 1, 2, 3 and so on.\<close>

theorem registry_counts_every_trial:
  "count_total_trials (registry_run sv cs) = Inr (int (length (filter is_record cs)))
     \<and> fst (record_trial sv tm a (registry_run sv cs))
         = Inr (int (length (filter is_record cs)) + 1)"
proof -
  have step: "db_seq (registry_step sv d c) = db_seq d + (if is_record c then 1 else 0)" if ok: "db_ok d" for d c
  proof (cases c)
    case (Record tm a)
    obtain d' vals where "db_seq d' = db_seq d" "snd (record_trial sv tm a d) = sql_insert tm vals d'"
      using record_trial_effect [OF ok] by metis
    then show ?thesis using Record by (simp add: sql_insert_def Let_def)
  next
    case (Review tm h body model)
    show ?thesis
    proof (cases rule: review_effect [OF ok, of tm h body model])
      case (2 d' r)
      then show ?thesis using length_rows [OF ok] length_rows [of d'] Review by (simp add: sql_update_review_def)
    qed (use Review in simp)
  qed
  have "db_seq (run (registry_step sv) d cs) = db_seq d + int (length (filter is_record cs))"
    if "db_ok d" for d
    using that
  proof (induction cs arbitrary: d)
    case (Cons c cs)
    have "db_ok (registry_step sv d c)" by (rule trials.step_inv [OF Cons.prems]) simp
    then show ?case using step [OF Cons.prems, of c] Cons.IH [of "registry_step sv d c"] by simp
  qed simp
  from this [OF fresh_ok] have seq: "db_seq (registry_run sv cs) = int (length (filter is_record cs))"
    by (simp add: registry_run_def fresh_db_def)
  obtain d' where d': "ensure_schema (registry_run sv cs) = Inr d'" "db_ok d'" "db_seq d' = db_seq (registry_run sv cs)"
    using ensure_schema_ok [OF run_ok] by metis
  have "int (length (db_rows d')) = db_seq d'" by (rule length_rows [OF d'(2)])
  then show ?thesis using seq d' record_trial_effect [OF run_ok, of sv cs sv tm a]
    by (metis count_total_trials_def sbind_simps(2))
qed

text \<open>A promoted trial stays pending: the test result of a burned unlock is recorded as a new trial, so
  whatever is recorded, the list of candidates waiting for a test run is what it was, although it is
  documented to hold trials that have not yet been promoted.\<close>

theorem promotion_leaves_trial_pending:
  "query_pending_promotion cap (snd (record_trial sv tm a (registry_run sv cs)))
     = query_pending_promotion cap (registry_run sv cs)"
proof -
  obtain d' vals where d': "ensure_schema (registry_run sv cs) = Inr d'" "db_rows d' = db_rows (registry_run sv cs)"
    and ins: "snd (record_trial sv tm a (registry_run sv cs)) = sql_insert tm vals d'" "map fst vals = INSERT_COLUMNS"
    and ok: "db_ok (snd (record_trial sv tm a (registry_run sv cs)))"
    using record_trial_effect [OF run_ok] by metis
  have "map_of vals ''claude_review'' = None"
    using ins(2) by (simp add: map_of_eq_None_iff flip: set_map) (simp add: INSERT_COLUMNS_def)
  then have "filter pending (db_rows (sql_insert tm vals d')) = filter pending (db_rows d')"
    by (simp add: sql_insert_def Let_def pending_def)
  moreover obtain e where "ensure_schema (sql_insert tm vals d') = Inr e" "db_rows e = db_rows (sql_insert tm vals d')"
    using ensure_schema_ok [OF ok] ins(1) by metis
  ultimately show ?thesis using d' ins(1) by (simp add: query_pending_promotion_def)
qed

end
