(* ===== verification/UnlockLog.thy ===== *)
theory UnlockLog
  imports Contract
begin

text \<open>
  The log of test-set unlocks: its rows as \<open>run_backtest.py\<close>, \<open>run_batch.py\<close> and \<open>review_cli.py\<close> write
  and read them. The log is the list of its lines, a missing file the empty list. A row is a time, a
  hash, a kind (\<open>attempt\<close> or \<open>burn\<close>) and a reason.
\<close>

section \<open>Texts\<close>

record civil =
  year :: nat
  month :: nat
  day :: nat
  hour :: nat
  minute :: nat
  second :: nat
  microsecond :: nat

definition padded :: "nat \<Rightarrow> nat \<Rightarrow> string" where
  "padded k n = (let ds = nat_digits (int n) in replicate (k - length ds) (CHR ''0'') @ ds)"

definition date_time :: "civil \<Rightarrow> string" where
  "date_time c = padded 4 (year c) @ ''-'' @ padded 2 (month c) @ ''-'' @ padded 2 (day c) @ ''T'' @
     padded 2 (hour c) @ '':'' @ padded 2 (minute c) @ '':'' @ padded 2 (second c)"

definition iso_now :: "civil \<Rightarrow> string" where
  "iso_now c = date_time c @ ''Z''"

text \<open>\<open>datetime.now(tz=utc).isoformat()\<close>.\<close>

definition isoformat :: "civil \<Rightarrow> string" where
  "isoformat c = date_time c @ (if microsecond c = 0 then [] else ''.'' @ padded 6 (microsecond c)) @ ''+00:00''"

text \<open>\<open>s.split(None, n)\<close> and \<open>s.split()\<close>.\<close>

fun split_ws :: "nat \<Rightarrow> string \<Rightarrow> string list" where
  "split_ws 0 s = (let t = dropWhile is_space s in if t = [] then [] else [t])"
| "split_ws (Suc n) s =
     (let t = dropWhile is_space s
      in if t = [] then []
         else takeWhile (\<lambda>c. \<not> is_space c) t # split_ws n (dropWhile (\<lambda>c. \<not> is_space c) t))"

definition py_split :: "string \<Rightarrow> string list" where
  "py_split s = split_ws (length s) s"

section \<open>Reading the log\<close>

definition data_line :: "string \<Rightarrow> bool" where
  "data_line line = (let s = strip line in s \<noteq> [] \<and> hd s \<noteq> CHR ''#'')"

definition unlock_row :: "string \<Rightarrow> (string \<times> string) option" where
  "unlock_row line =
     (let parts = py_split (strip line)
      in if data_line line \<and> 3 \<le> length parts then Some (parts ! 1, lower (parts ! 2)) else None)"

definition count_burns :: "string list \<Rightarrow> int" where
  "count_burns rows = int (length [l \<leftarrow> rows. \<exists>h. unlock_row l = Some (h, ''burn'')])"

definition row_with_reason :: "string \<Rightarrow> (string \<times> string \<times> string) option" where
  "row_with_reason line =
     (let parts = split_ws 3 (strip line)
      in if data_line line \<and> 3 \<le> length parts
         then Some (parts ! 1, parts ! 2, if 3 < length parts then parts ! 3 else []) else None)"

definition burn_fingerprint :: "string \<Rightarrow> int \<Rightarrow> string" where
  "burn_fingerprint profile seed = ''profile='' @ profile @ '' seed='' @ int_str seed"

definition spec_hash_has_burn :: "string list \<Rightarrow> string \<Rightarrow> string \<Rightarrow> bool" where
  "spec_hash_has_burn rows h fingerprint =
     list_ex (\<lambda>l. case row_with_reason l of
         None \<Rightarrow> False
       | Some (row_hash, kind, reason) \<Rightarrow> kind = ''burn'' \<and> row_hash = h \<and> contains fingerprint reason) rows"

section \<open>Writing the log\<close>

definition burn_row :: "civil \<Rightarrow> string \<Rightarrow> string \<Rightarrow> string" where
  "burn_row c h fingerprint = iso_now c @ '' '' @ h @ '' burn run_backtest_cli '' @ fingerprint"

definition attempt_row :: "string \<Rightarrow> string \<Rightarrow> string \<Rightarrow> string" where
  "attempt_row ts h reason = ts @ '' '' @ h @ '' attempt '' @ reason"

definition TEST_UNLOCK_BUDGET :: int where "TEST_UNLOCK_BUDGET = 5"

section \<open>Clean words\<close>

text \<open>A word: not empty, without white space, and not starting a comment.\<close>

definition wordlike :: "string \<Rightarrow> bool" where
  "wordlike w = (w \<noteq> [] \<and> (\<forall>c\<in>set w. \<not> is_space c) \<and> hd w \<noteq> CHR ''#'')"

lemma digit_char: "0 \<le> n \<Longrightarrow> n < 10 \<Longrightarrow> char_of (48 + nat n) \<in> set ''0123456789''"
proof -
  assume "0 \<le> n" "n < 10"
  then have "nat n \<in> set [0..<10]" by auto
  then show ?thesis by (simp add: upt_rec char_of_def bit_iff_odd) (elim disjE, simp_all)
qed

lemma nat_digits_chars: "0 \<le> n \<Longrightarrow> set (nat_digits n) \<subseteq> set ''0123456789''"
proof (induction n rule: nat_digits.induct)
  case (1 n)
  then show ?case
    using digit_char [of n] digit_char [of "n mod 10"] by (subst nat_digits.simps) auto
qed

lemma nat_digits_not_Nil: "nat_digits n \<noteq> []"
  by (subst nat_digits.simps) simp

lemma digits_wordlike: "w \<noteq> [] \<Longrightarrow> set w \<subseteq> set ''0123456789'' \<Longrightarrow> wordlike w"
proof -
  assume w: "w \<noteq> []" "set w \<subseteq> set ''0123456789''"
  then have "hd w \<in> set ''0123456789''" using list.set_sel(1) by blast
  then show ?thesis using w unfolding wordlike_def is_space_def by (intro conjI ballI) auto
qed

lemma wordlike_append: "wordlike v \<Longrightarrow> (\<forall>c\<in>set w. \<not> is_space c) \<Longrightarrow> wordlike (v @ w)"
  by (auto simp: wordlike_def)

lemma wordlike_chars: "wordlike w \<Longrightarrow> \<forall>c\<in>set w. \<not> is_space c"
  by (simp add: wordlike_def)

lemma mark_chars [simp]: "\<not> is_space (CHR ''-'')" "\<not> is_space (CHR ''T'')" "\<not> is_space (CHR '':'')" "\<not> is_space (CHR ''Z'')"
  "\<not> is_space (CHR ''.'')" "\<not> is_space (CHR ''+'')" "\<not> is_space (CHR ''0'')" "\<not> is_space (CHR ''r'')"
  by (simp_all add: is_space_def)

lemma padded_wordlike: "wordlike (padded k n)"
  unfolding padded_def Let_def using nat_digits_not_Nil [of "int n"] nat_digits_chars [of "int n"]
  by (intro digits_wordlike) auto

lemma date_time_wordlike: "wordlike (date_time c)"
  unfolding date_time_def
  using wordlike_chars [OF padded_wordlike]
  by (intro wordlike_append [OF padded_wordlike]) auto

lemma iso_wordlike: "wordlike (iso_now c)" "wordlike (isoformat c)"
  unfolding iso_now_def isoformat_def
  using wordlike_chars [OF padded_wordlike]
  by (auto intro!: wordlike_append [OF date_time_wordlike])

lemma hex_digit_char: "n < 16 \<Longrightarrow> hex_digit n \<in> set ''0123456789abcdef''"
proof -
  assume "n < 16"
  then have "n \<in> set [0..<16]" by auto
  then show ?thesis by (simp add: upt_rec hex_digit_def char_of_def bit_iff_odd) (elim disjE, simp_all)
qed

lemma hexdigest_wordlike: "wordlike (hexdigest w)"
proof -
  have hex: "set (hexdigest w) \<subseteq> set ''0123456789abcdef''"
    using hexdigest_digits hex_digit_char by blast
  have "hexdigest w \<noteq> []" using length_hexdigest [of w] by (metis list.size(3) zero_neq_numeral)
  moreover from this have "hd (hexdigest w) \<in> set ''0123456789abcdef''" using hex list.set_sel(1) by blast
  ultimately show ?thesis using hex unfolding wordlike_def is_space_def by (intro conjI ballI) auto
qed

lemma split_ws_word:
  assumes "wordlike w"
  shows "split_ws (Suc n) (w @ CHR '' '' # r) = w # split_ws n r" "split_ws (Suc n) w = [w]"
proof -
  have sp: "dropWhile is_space (w @ x) = w @ x" for x
    using assms by (cases w) (auto simp: wordlike_def)
  have ch: "\<forall>c\<in>set w. \<not> is_space c" using assms by (simp add: wordlike_def)
  have "takeWhile (\<lambda>c. \<not> is_space c) (w @ CHR '' '' # r) = w" "dropWhile (\<lambda>c. \<not> is_space c) (w @ CHR '' '' # r) = CHR '' '' # r"
    using ch by (simp_all add: is_space_def)
  moreover have "split_ws n (CHR '' '' # r) = split_ws n r" by (cases n) (simp_all add: is_space_def)
  ultimately show "split_ws (Suc n) (w @ CHR '' '' # r) = w # split_ws n r"
    using sp [of "CHR '' '' # r"] assms by (simp add: Let_def wordlike_def)
  have "takeWhile (\<lambda>c. \<not> is_space c) w = w" "dropWhile (\<lambda>c. \<not> is_space c) w = []" using ch by simp_all
  moreover have "split_ws n [] = []" by (cases n) simp_all
  ultimately show "split_ws (Suc n) w = [w]" using sp [of "[]"] assms
    by (simp add: Let_def wordlike_def del: dropWhile_eq_Nil_conv)
qed

lemma strip_clean:
  assumes "wordlike w" "s \<noteq> []" "\<not> is_space (last s)"
  shows "strip (w @ s) = w @ s"
proof -
  have "dropWhile is_space (w @ s) = w @ s" using assms(1) by (cases w) (auto simp: wordlike_def)
  moreover have "dropWhile is_space (rev (w @ s)) = rev (w @ s)"
    using assms(2,3) by (cases s rule: rev_cases) auto
  ultimately show ?thesis by (simp add: strip_def)
qed

text \<open>What is read back from a written row.\<close>

lemma row_parts:
  assumes "wordlike t" "wordlike h" "wordlike k" "r \<noteq> []" "\<not> is_space (hd r)" "\<not> is_space (last r)"
  defines "line \<equiv> t @ '' '' @ h @ '' '' @ k @ '' '' @ r"
  shows "unlock_row line = Some (h, lower k)" "row_with_reason line = Some (h, k, r)"
proof -
  have strip: "strip line = line" unfolding line_def
    using assms by (intro strip_clean) auto
  have data: "data_line line"
    unfolding data_line_def Let_def strip using assms(1) by (cases t) (auto simp: line_def wordlike_def)
  have ln: "line = t @ CHR '' '' # h @ CHR '' '' # k @ CHR '' '' # r" by (simp add: line_def)
  have "length line = Suc (Suc (Suc (length line - 3)))" using assms(1-3) by (cases t; cases h; cases k) (auto simp: ln wordlike_def)
  then have "py_split line = t # h # k # split_ws (length line - 3) r"
    unfolding py_split_def by (metis ln split_ws_word(1) assms(1-3))
  then show "unlock_row line = Some (h, lower k)" using data by (simp add: unlock_row_def strip)
  have "split_ws 0 r = [r]" using assms(4,5) by (cases r) auto
  then have "split_ws 3 line = [t, h, k, r]" unfolding ln
    by (simp add: numeral_3_eq_3 split_ws_word(1) assms(1-3) del: split_ws.simps)
  then show "row_with_reason line = Some (h, k, r)" using data by (simp add: row_with_reason_def strip)
qed

lemma int_str_last: "\<not> is_space (last (int_str i))" "int_str i \<noteq> []"
proof -
  have ne: "int_str i \<noteq> []" using nat_digits_not_Nil by (simp add: int_str_def)
  then have "last (int_str i) \<in> set (int_str i)" by simp
  moreover define D where "D = set ''0123456789''"
  have "set (int_str i) \<subseteq> insert (CHR ''-'') D"
    using nat_digits_chars [of i] nat_digits_chars [of "- i"] unfolding D_def [symmetric] int_str_def
    by (cases "i < 0") auto
  ultimately have "last (int_str i) \<in> insert (CHR ''-'') D" by blast
  then show "\<not> is_space (last (int_str i))" by (auto simp: D_def is_space_def)
  show "int_str i \<noteq> []" by (rule ne)
qed

lemma fingerprint_ends: "burn_fingerprint p s \<noteq> []" "\<not> is_space (last (burn_fingerprint p s))"
  using int_str_last [of s] by (simp_all add: burn_fingerprint_def)

lemma kinds_wordlike: "wordlike ''burn''" "wordlike ''attempt''"
  by (simp_all add: wordlike_def is_space_def)

lemma burn_row_read:
  assumes "wordlike h"
  shows "unlock_row (burn_row c h (burn_fingerprint p s)) = Some (h, ''burn'')"
    and "row_with_reason (burn_row c h (burn_fingerprint p s)) = Some (h, ''burn'', ''run_backtest_cli '' @ burn_fingerprint p s)"
proof -
  have eq: "burn_row c h (burn_fingerprint p s)
      = iso_now c @ '' '' @ h @ '' '' @ ''burn'' @ '' '' @ (''run_backtest_cli '' @ burn_fingerprint p s)"
    by (simp add: burn_row_def)
  let ?r = "''run_backtest_cli '' @ burn_fingerprint p s"
  have r: "?r \<noteq> []" "\<not> is_space (hd ?r)" "\<not> is_space (last ?r)"
    using fingerprint_ends [of p s] by simp_all
  show "unlock_row (burn_row c h (burn_fingerprint p s)) = Some (h, ''burn'')"
    unfolding eq row_parts(1) [OF iso_wordlike(1) assms kinds_wordlike(1) r] by (simp add: lower_def char_lower_def)
  show "row_with_reason (burn_row c h (burn_fingerprint p s)) = Some (h, ''burn'', ?r)"
    unfolding eq by (rule row_parts(2) [OF iso_wordlike(1) assms kinds_wordlike(1) r])
qed

lemma attempt_row_read:
  assumes "wordlike t" "wordlike h" "r \<noteq> []" "\<not> is_space (hd r)" "\<not> is_space (last r)"
  shows "unlock_row (attempt_row t h r) = Some (h, ''attempt'')"
proof -
  have eq: "attempt_row t h r = t @ '' '' @ h @ '' '' @ ''attempt'' @ '' '' @ r" by (simp add: attempt_row_def)
  show ?thesis unfolding eq row_parts(1) [OF assms(1,2) kinds_wordlike(2) assms(3-5)]
    by (simp add: lower_def char_lower_def)
qed

lemma count_append: "count_burns (rows @ rows') = count_burns rows + count_burns rows'"
  by (simp add: count_burns_def)

lemma count_burn: "wordlike h \<Longrightarrow> count_burns [burn_row c h (burn_fingerprint p s)] = 1"
  by (simp add: count_burns_def burn_row_read)

lemma count_attempt:
  "wordlike t \<Longrightarrow> wordlike h \<Longrightarrow> r \<noteq> [] \<Longrightarrow> \<not> is_space (hd r) \<Longrightarrow> \<not> is_space (last r) \<Longrightarrow> count_burns [attempt_row t h r] = 0"
  by (simp add: count_burns_def attempt_row_read)

lemma has_burn_append:
  "spec_hash_has_burn (rows @ rows') h fp \<longleftrightarrow> spec_hash_has_burn rows h fp \<or> spec_hash_has_burn rows' h fp"
  by (simp add: spec_hash_has_burn_def)

lemma has_burn_own: "wordlike h \<Longrightarrow> spec_hash_has_burn [burn_row c h (burn_fingerprint p s)] h (burn_fingerprint p s)"
proof -
  assume h: "wordlike h"
  have "contains (burn_fingerprint p s) (''run_backtest_cli '' @ burn_fingerprint p s)"
    unfolding contains_iff by (rule exI [of _ "''run_backtest_cli ''"], rule exI [of _ "[]"]) simp
  then show ?thesis by (simp add: spec_hash_has_burn_def burn_row_read [OF h])
qed

text \<open>A burn covers more than its run: the row of a burn also matches every seed whose digits begin the
  digits of the burned one, since the fingerprint is only looked for inside the reason, so a burn under
  seed 12 gives free runs on the test set under seed 1, although the match is documented to be exact.\<close>

theorem burn_covers_seed_prefixes:
  assumes "wordlike h" and "prefix (int_str s) (int_str s')"
  shows "spec_hash_has_burn (rows @ [burn_row c h (burn_fingerprint p s')]) h (burn_fingerprint p s)"
proof -
  obtain z where "int_str s' = int_str s @ z" using assms(2) by (auto simp: prefix_def)
  then have "''run_backtest_cli '' @ burn_fingerprint p s' = ''run_backtest_cli '' @ burn_fingerprint p s @ z"
    by (simp add: burn_fingerprint_def)
  then have "contains (burn_fingerprint p s) (''run_backtest_cli '' @ burn_fingerprint p s')"
    unfolding contains_iff by blast
  then show ?thesis by (simp add: spec_hash_has_burn_def burn_row_read [OF assms(1)])
qed

definition demo_time :: civil where
  "demo_time = \<lparr>year = 2026, month = 6, day = 1, hour = 0, minute = 0, second = 0, microsecond = 0\<rparr>"

theorem burn_covers_seed_prefixes_witness:
  "spec_hash_has_burn [burn_row demo_time ''ab12'' (burn_fingerprint ''zero'' 12)] ''ab12'' (burn_fingerprint ''zero'' 1)"
  using burn_covers_seed_prefixes [of "''ab12''" 1 12 "[]"]
  by (simp add: wordlike_def is_space_def int_str_def nat_digits.simps)

end
