(* ===== verification/Backtest.thy ===== *)
theory Backtest
  imports TrialRegistry UnlockLog
begin

text \<open>
  \<open>research/agents/tools/run_backtest.py\<close>, the boundary every backtest goes through, and the burn command
  of \<open>research/promotion/review_cli.py\<close> on top of it. A call is a step on the world: files, trial
  registries, unlock logs and audit logs, each by its path. The arguments are parsed; the value of
  an option outside its choices ends the call with exit code 2. The scorer (\<open>evaluate_trial\<close>, which
  samples with numpy) and \<open>np.var\<close> are parameters, \<open>environ\<close> is the environment. Every process starts
  with the pessimistic profile. The audit log can be written; a read of a registry that creates its
  table is not a step.
\<close>

section \<open>World\<close>

datatype disk_file = Missing | Unreadable evexn | Contents string

record lab_world =
  files :: "string \<Rightarrow> disk_file"
  dbs :: "string \<Rightarrow> database"
  unlock_logs :: "string \<Rightarrow> string list"
  audit_logs :: "string \<Rightarrow> obj list"

type_synonym score_rows = "(rat \<times> string \<times> string \<times> string \<times> string) list"

record holdout_services =
  lab :: lab_services
  calibration :: "json option"
  np_var :: "xnum list \<Rightarrow> pyfloat"
  evaluate_trial :: "score_rows \<Rightarrow> int \<Rightarrow> pyfloat \<Rightarrow> int \<Rightarrow> promotion_decision eval"
  environ :: "string \<Rightarrow> string option"

record backtest_args =
  ba_spec_file :: string
  ba_split :: string
  ba_agent_id :: string
  ba_writeup :: "string option"
  ba_token :: "string option"
  ba_seed :: int
  ba_registry_db :: "string option"
  ba_audit_log :: string
  ba_unlock_log :: string
  ba_dry_run :: bool
  ba_cost_profile :: "string option"
  ba_argv :: "string list"

record times =
  t_unlock :: civil
  t_batch :: civil
  t_audit :: civil
  t_command :: civil
  t_insert :: int

record run_summary =
  out_trial_id :: "int option"
  out_spec_hash :: string
  out_n_trades :: "int option"
  out_pnl_net :: "rat option"
  out_sharpe_net :: pyfloat
  out_win_rate :: pyfloat
  out_gate_passed :: "bool option"
  out_gate_reasons :: "string list"

datatype run_output = Nothing | Refused string string | Printed run_summary

section \<open>Audit log and refusals\<close>

definition opt_json :: "string option \<Rightarrow> json" where
  "opt_json v = (case v of Some s \<Rightarrow> JStr s | None \<Rightarrow> JNull)"

definition audit_row ::
  "times \<Rightarrow> backtest_args \<Rightarrow> string option \<Rightarrow> int \<Rightarrow> bool \<Rightarrow> string option \<Rightarrow> int option \<Rightarrow> obj \<Rightarrow> obj" where
  "audit_row t a h code refused reason trial extra =
     (let row = [(''ts'', JStr (iso_now (t_audit t))), (''agent_id'', JStr (ba_agent_id a)), (''spec_hash'', opt_json h),
                 (''split'', JStr (ba_split a)), (''command_argv'', JList (map JStr (ba_argv a))), (''exit_code'', JInt code)]
              @ (if refused then [(''refused'', JBool True)] else [])
              @ (case reason of Some r \<Rightarrow> [(''reason'', JStr r)] | None \<Rightarrow> [])
              @ (case trial of Some i \<Rightarrow> [(''trial_id'', JInt i)] | None \<Rightarrow> [])
      in row @ [kv \<leftarrow> extra. fst kv \<notin> fst ` set row])"

definition append_audit :: "string \<Rightarrow> obj \<Rightarrow> lab_world \<Rightarrow> lab_world" where
  "append_audit p row w = w\<lparr>audit_logs := (audit_logs w)(p := audit_logs w p @ [row])\<rparr>"

definition refuse ::
  "times \<Rightarrow> backtest_args \<Rightarrow> string option \<Rightarrow> string \<Rightarrow> string \<Rightarrow> obj \<Rightarrow> lab_world \<Rightarrow> (int \<times> run_output) \<times> lab_world" where
  "refuse t a h err reason extra w =
     ((1, Refused err reason),
      append_audit (ba_audit_log a) (audit_row t a h 1 True (Some (err @ '': '' @ reason)) None extra) w)"

definition exn_line :: "holdout_services \<Rightarrow> evexn \<Rightarrow> string" where
  "exn_line sv e = exn_name e @ '': '' @ message (lab sv) e"

definition or_else :: "string option \<Rightarrow> string option \<Rightarrow> string option" where
  "or_else a b = (case a of Some s \<Rightarrow> if s \<noteq> [] then Some s else b | None \<Rightarrow> b)"

section \<open>The steps of a run\<close>

text \<open>Cost profile and strategy; the left is the hash, the error and the reason of a refusal.\<close>

definition chosen_profile :: "holdout_services \<Rightarrow> backtest_args \<Rightarrow> pyexn + cost_profile" where
  "chosen_profile sv a =
     (case or_else (ba_cost_profile a) (or_else (environ sv ''RESEARCH_COST_PROFILE'') None) of
        None \<Rightarrow> Inr PESSIMISTIC
      | Some n \<Rightarrow>
          (case set_active_profile (calibration sv) (ByName n) PESSIMISTIC of
             (Inl e, p) \<Rightarrow> Inl e
           | (Inr old, p) \<Rightarrow> Inr p))"

fun recheck :: "string list \<Rightarrow> (string \<times> string) option" where
  "recheck [] = None"
| "recheck (n # ns) =
     (case get_feature REGISTRY n of
        Inl e \<Rightarrow> Some (''feature_unregistered'', str_quote n @ '' is not in the feature registry'')
      | Inr sp \<Rightarrow>
          if \<not> is_live_safe sp
          then Some (''feature_not_live_safe'', ''feature '' @ str_quote n @
                 '' has is_live_safe=False; this is a leakage canary. Spec refused.'')
          else recheck ns)"

definition load_spec ::
  "holdout_services \<Rightarrow> backtest_args \<Rightarrow> lab_world \<Rightarrow> (string option \<times> string \<times> string) + (strategy_spec \<times> cost_profile)" where
  "load_spec sv a w =
     (case chosen_profile sv a of
        Inl e \<Rightarrow> Inl (None, ''invalid_cost_profile'', exn_line sv (Exn e))
      | Inr prof \<Rightarrow>
          (case files w (ba_spec_file a) of
             Missing \<Rightarrow> Inl (None, ''spec_file_missing'', ''spec file not found: '' @ ba_spec_file a)
           | Unreadable e \<Rightarrow> Inl (None, ''spec_read_error'', exn_line sv e)
           | Contents body \<Rightarrow>
               (case from_json (json_of (lab sv)) body of
                  Inl e \<Rightarrow> Inl (None, ''spec_parse_error'', exn_line sv e)
                | Inr spec \<Rightarrow>
                    (case validate (expr_parser (lab sv)) REGISTRY spec of
                       Inl e \<Rightarrow> Inl (Some (hash_of (lab sv) spec), ''spec_validation_failed'', exn_line sv e)
                     | Inr u \<Rightarrow>
                         (case recheck (features spec) of
                            Some (err, reason) \<Rightarrow> Inl (Some (hash_of (lab sv) spec), err, reason)
                          | None \<Rightarrow> Inr (spec, prof))))))"

definition unlock_token :: "holdout_services \<Rightarrow> backtest_args \<Rightarrow> string \<Rightarrow> string option" where
  "unlock_token sv a h =
     (case ba_token a of
        Some tok \<Rightarrow> Some tok
      | None \<Rightarrow>
          (case or_else (environ sv ''RESEARCH_UNLOCK_TEST'') None of
             None \<Rightarrow> None
           | Some tok \<Rightarrow> if environ sv ''RESEARCH_UNLOCK_SPEC_HASH'' = Some h then Some tok else None))"

text \<open>The guard of the test set: an error and its reason, or None, and the unlock log after it.\<close>

definition test_guard ::
  "holdout_services \<Rightarrow> times \<Rightarrow> backtest_args \<Rightarrow> strategy_spec \<Rightarrow> cost_profile \<Rightarrow> string list
     \<Rightarrow> (string \<times> string) option \<times> string list" where
  "test_guard sv t a spec prof rows =
     (let h = hash_of (lab sv) spec; fp = burn_fingerprint (profile_name prof) (ba_seed a)
      in if ba_split a \<noteq> ''test'' then (None, rows)
         else case unlock_token sv a h of
             None \<Rightarrow> (Some (''test_split_requires_unlock_token'', ''test split requires --unlock-test-token''), rows)
           | Some tok \<Rightarrow>
               if tok \<noteq> expected_unlock_token (lab sv) spec
               then (Some (''test_unlock_token_mismatch'', ''unlock token does not match this spec''), rows)
               else if spec_hash_has_burn rows h fp
               then (None, rows @ [attempt_row (iso_now (t_unlock t)) h (''run_backtest_cli(rerun:already_burned '' @ fp @ '')'')])
               else if TEST_UNLOCK_BUDGET \<le> count_burns rows
               then (Some (''test_unlock_budget_exhausted'', ''test-set unlock budget exhausted ('' @
                       int_str (count_burns rows) @ ''/'' @ int_str TEST_UNLOCK_BUDGET @ '' burned)''), rows)
               else (None, rows @ [burn_row (t_unlock t) h fp]))"

definition read_writeup :: "backtest_args \<Rightarrow> lab_world \<Rightarrow> string option eval" where
  "read_writeup a w =
     (case ba_writeup a of
        None \<Rightarrow> Inr None
      | Some p \<Rightarrow>
          (case files w p of
             Missing \<Rightarrow> Inl (FileNotFoundError p)
           | Unreadable e \<Rightarrow> Inl e
           | Contents body \<Rightarrow> Inr (Some body)))"

section \<open>Scoring\<close>

fun split_char :: "char \<Rightarrow> string \<Rightarrow> string list" where
  "split_char d [] = [[]]"
| "split_char d (c # cs) =
     (if c = d then [] # split_char d cs
      else case split_char d cs of [] \<Rightarrow> [[c]] | w # ws \<Rightarrow> (c # w) # ws)"

definition parse_game_id :: "string \<Rightarrow> string \<times> string \<times> string" where
  "parse_game_id gid =
     (let parts = split_char (CHR ''_'') gid
      in if 4 \<le> length parts \<and> parts ! 2 = ''at'' then (parts ! 0, parts ! 1, parts ! 3)
         else if 4 \<le> length parts \<and> ''at'' \<in> set parts then
           (let i = length (takeWhile (\<lambda>p. p \<noteq> ''at'') parts)
            in (parts ! 0, if 1 \<le> i then parts ! (i - 1) else [], if i + 1 < length parts then parts ! (i + 1) else []))
         else (gid, [], []))"

definition score_row :: "trial_result \<Rightarrow> trade \<Rightarrow> rat \<times> string \<times> string \<times> string \<times> string" where
  "score_row r tr =
     (let (date, away, home) = parse_game_id (res_game_id r)
      in (pnl_net tr, res_game_id r, date, home,
          if trade_side tr = ''long_home'' then home else if trade_side tr = ''long_away'' then away else []))"

definition build_score_arrays :: "batch_result \<Rightarrow> score_rows" where
  "build_score_arrays br = concat (map (\<lambda>r. map (score_row r) (res_trades r)) (br_trials br))"

definition sharpe_variance_in_registry :: "holdout_services \<Rightarrow> database \<Rightarrow> pyfloat eval" where
  "sharpe_variance_in_registry sv d =
     sbind (count_total_trials d) (\<lambda>n.
       if n < 20 then Inr (Some (Fin (fl (5 / 100))))
       else sbind (query_rows None None None None 200 d) (\<lambda>rs.
         let vs = List.map_filter tr_val_sharpe_net rs
         in Inr (if length vs < 2 then Some (Fin (fl (5 / 100))) else np_var sv vs)))"

definition score_batch :: "holdout_services \<Rightarrow> database \<Rightarrow> batch_result \<Rightarrow> int \<Rightarrow> promotion_decision eval" where
  "score_batch sv d br seed =
     sbind (sharpe_variance_in_registry sv d) (\<lambda>v. sbind (count_total_trials d) (\<lambda>n.
       evaluate_trial sv (build_score_arrays br) (n + 1) v seed))"

section \<open>A run\<close>

definition registry_path :: "holdout_services \<Rightarrow> backtest_args \<Rightarrow> string" where
  "registry_path sv a =
     (case or_else (ba_registry_db a) (or_else (environ sv ''RESEARCH_REGISTRY_DB'') None) of
        Some p \<Rightarrow> p
      | None \<Rightarrow> ''market_data/trials.db'')"

definition set_log :: "string \<Rightarrow> string list \<Rightarrow> lab_world \<Rightarrow> lab_world" where
  "set_log p rows w = w\<lparr>unlock_logs := (unlock_logs w)(p := rows)\<rparr>"

definition execute_run ::
  "holdout_services \<Rightarrow> times \<Rightarrow> backtest_args \<Rightarrow> strategy_spec \<Rightarrow> cost_profile \<Rightarrow> string option \<Rightarrow> lab_world
     \<Rightarrow> (int \<times> run_output) \<times> lab_world" where
  "execute_run sv t a spec prof mech w =
     (let h = hash_of (lab sv) spec; p = registry_path sv a; split = ba_split a;
          (res, rows) = run_batch (lab sv) prof spec split (ba_seed a) (unlock_token sv a h) (isoformat (t_batch t))
                          (unlock_logs w (ba_unlock_log a));
          w' = set_log (ba_unlock_log a) rows w
      in case res of
          Inl e \<Rightarrow> refuse t a (Some h) ''batch_run_failed'' (exn_line sv e) [] w'
        | Inr br \<Rightarrow>
            let n = (''n_trades'', JInt (n_trades_total br))
            in case score_batch sv (dbs w' p) br (ba_seed a) of
                Inl e \<Rightarrow> refuse t a (Some h) ''scoring_failed'' (exn_line sv e) [n] w'
              | Inr dec \<Rightarrow>
                  let gate = (''gate_passed'', JBool (passed dec));
                      (r, d) = record_trial (lab sv) (t_insert t)
                        \<lparr>ta_spec = spec, ta_agent_id = ba_agent_id a,
                         ta_train = (if split = ''train'' then Some br else None),
                         ta_val = (if split = ''val'' then Some br else None),
                         ta_test = (if split = ''test'' then Some br else None),
                         ta_writeup = mech, ta_parent = None, ta_worker = None, ta_cost = None,
                         ta_scorer = Some dec\<rparr> (dbs w' p);
                      w'' = w'\<lparr>dbs := (dbs w')(p := d)\<rparr>
                  in case r of
                      Inl e \<Rightarrow> refuse t a (Some h) ''registry_write_failed'' (exn_line sv e) [n, gate] w''
                    | Inr i \<Rightarrow>
                        ((0, Printed \<lparr>out_trial_id = Some i, out_spec_hash = h, out_n_trades = Some (n_trades_total br),
                            out_pnl_net = Some (br_pnl_net br), out_sharpe_net = sharpe_per_trade_net br,
                            out_win_rate = win_rate br, out_gate_passed = Some (passed dec),
                            out_gate_reasons = reasons dec\<rparr>),
                         append_audit (ba_audit_log a) (audit_row t a (Some h) 0 False None (Some i) [n, gate]) w''))"

definition COST_PROFILE_CHOICES :: "string list" where
  "COST_PROFILE_CHOICES = [''pessimistic'', ''live_pm'', ''zero'', ''calibrated_pm'', ''official_2026'']"

definition run_backtest ::
  "holdout_services \<Rightarrow> times \<Rightarrow> backtest_args \<Rightarrow> lab_world \<Rightarrow> (int \<times> run_output) \<times> lab_world" where
  "run_backtest sv t a w =
     (if ba_split a \<notin> set VALID_SPLITS \<or> (case ba_cost_profile a of None \<Rightarrow> False | Some p \<Rightarrow> p \<notin> set COST_PROFILE_CHOICES)
      then ((2, Nothing), w)
      else case load_spec sv a w of
          Inl (h, err, reason) \<Rightarrow> refuse t a h err reason [] w
        | Inr (spec, prof) \<Rightarrow>
            let h = hash_of (lab sv) spec;
                (denied, rows) = test_guard sv t a spec prof (unlock_logs w (ba_unlock_log a));
                w' = set_log (ba_unlock_log a) rows w
            in case denied of
                Some (err, reason) \<Rightarrow> refuse t a (Some h) err reason [] w'
              | None \<Rightarrow>
                  (case read_writeup a w' of
                     Inl e \<Rightarrow> refuse t a (Some h) ''mechanistic_writeup_unreadable'' (exn_line sv e) [] w'
                   | Inr mech \<Rightarrow>
                       if ba_dry_run a then
                         ((0, Printed \<lparr>out_trial_id = None, out_spec_hash = h, out_n_trades = None, out_pnl_net = None,
                             out_sharpe_net = None, out_win_rate = None, out_gate_passed = None, out_gate_reasons = []\<rparr>),
                          append_audit (ba_audit_log a)
                            (audit_row t a (Some h) 0 False None None [(''dry_run'', JBool True)]) w')
                       else execute_run sv t a spec prof mech w'))"

section \<open>The burn command\<close>

record burn_args =
  bu_spec_hash :: string
  bu_yes :: bool
  bu_answer :: string
  bu_log :: string
  bu_db :: "string option"
  bu_profile :: string
  bu_temp_file :: string

definition burn_backtest_args :: "burn_args \<Rightarrow> string \<Rightarrow> backtest_args" where
  "burn_backtest_args b token =
     \<lparr>ba_spec_file = bu_temp_file b, ba_split = ''test'', ba_agent_id = ''promotion_cli'', ba_writeup = None,
      ba_token = Some token, ba_seed = 0, ba_registry_db = bu_db b, ba_audit_log = ''market_data/audit.log'',
      ba_unlock_log = bu_log b, ba_dry_run = False, ba_cost_profile = Some (bu_profile b),
      ba_argv = [''--spec-file'', bu_temp_file b, ''--split'', ''test'', ''--unlock-test-token'', token,
                 ''--agent-id'', ''promotion_cli'', ''--unlock-log'', bu_log b, ''--cost-profile'', bu_profile b]
                @ (case bu_db b of Some p \<Rightarrow> [''--registry-db'', p] | None \<Rightarrow> [])\<rparr>"

definition cmd_burn_unlock :: "holdout_services \<Rightarrow> times \<Rightarrow> burn_args \<Rightarrow> lab_world \<Rightarrow> int \<times> lab_world" where
  "cmd_burn_unlock sv t b w =
     (if TEST_UNLOCK_BUDGET - count_burns (unlock_logs w (bu_log b)) \<le> 0 then (1, w)
      else case ensure_schema (dbs w (case bu_db b of Some p \<Rightarrow> p | None \<Rightarrow> ''market_data/trials.db'')) of
          Inl e \<Rightarrow> (1, w)
        | Inr d \<Rightarrow>
            (case sql_limit 1 (newest_first [r \<leftarrow> db_rows d. r ''spec_hash'' = SText (bu_spec_hash b)]) of
               [] \<Rightarrow> (1, w)
             | r # rs \<Rightarrow>
                 if \<not> bu_yes b \<and> strip (bu_answer b) \<noteq> ''BURN'' then (1, w)
                 else let js = (case r ''spec_json'' of SText s \<Rightarrow> s | _ \<Rightarrow> []);
                          token = hexdigest (sha256 (lab sv) js);
                          w' = w\<lparr>files := (files w)(bu_temp_file b := Contents js)\<rparr>;
                          ((code, out), w'') = run_backtest sv t (burn_backtest_args b token) w';
                          w3 = w''\<lparr>files := (files w'')(bu_temp_file b := Missing)\<rparr>
                      in if code \<noteq> 0 then (1, w3)
                         else (0, set_log (bu_log b) (unlock_logs w3 (bu_log b) @
                                [attempt_row (iso_now (t_command t)) (bu_spec_hash b) ''promotion_cli'']) w3)))"

section \<open>What a run leaves behind\<close>

lemma audit_fields [simp]:
  "unlock_logs (append_audit p row w) = unlock_logs w" "dbs (append_audit p row w) = dbs w"
  "files (append_audit p row w) = files w"
  by (simp_all add: append_audit_def)

lemma refuse_fields [simp]:
  "unlock_logs (snd (refuse t a h e r x w)) = unlock_logs w" "dbs (snd (refuse t a h e r x w)) = dbs w"
  "fst (fst (refuse t a h e r x w)) = 1"
  by (simp_all add: refuse_def)

lemma set_log_fields [simp]:
  "unlock_logs (set_log p rows w) = (unlock_logs w)(p := rows)" "dbs (set_log p rows w) = dbs w"
  "files (set_log p rows w) = files w"
  by (simp_all add: set_log_def)

text \<open>The effect of a guard on the log: nothing, a free repetition, or one unit of the budget.\<close>

lemma guard_cases:
  obtains (refused) err where "test_guard sv t a spec prof rows = (Some err, rows)" "ba_split a = ''test''"
    | (other) "ba_split a \<noteq> ''test''" "test_guard sv t a spec prof rows = (None, rows)"
    | (rerun) "test_guard sv t a spec prof rows = (None, rows @ [attempt_row (iso_now (t_unlock t)) (hash_of (lab sv) spec)
          (''run_backtest_cli(rerun:already_burned '' @ burn_fingerprint (profile_name prof) (ba_seed a) @ '')'')])"
        "spec_hash_has_burn rows (hash_of (lab sv) spec) (burn_fingerprint (profile_name prof) (ba_seed a))"
        "unlock_token sv a (hash_of (lab sv) spec) = Some (expected_unlock_token (lab sv) spec)"
    | (burn) "test_guard sv t a spec prof rows = (None, rows @ [burn_row (t_unlock t) (hash_of (lab sv) spec)
          (burn_fingerprint (profile_name prof) (ba_seed a))])"
        "count_burns rows < TEST_UNLOCK_BUDGET"
        "unlock_token sv a (hash_of (lab sv) spec) = Some (expected_unlock_token (lab sv) spec)"
proof (cases "ba_split a = ''test''")
  case True
  show thesis
  proof (cases "unlock_token sv a (hash_of (lab sv) spec)")
    case None
    then show thesis using True refused by (simp add: test_guard_def Let_def)
  next
    case (Some tok)
    then show thesis using True refused rerun burn
      by (cases "tok = expected_unlock_token (lab sv) spec";
          cases "spec_hash_has_burn rows (hash_of (lab sv) spec) (burn_fingerprint (profile_name prof) (ba_seed a))";
          cases "TEST_UNLOCK_BUDGET \<le> count_burns rows")
         (simp_all add: test_guard_def Let_def)
  qed
qed (use other in \<open>simp add: test_guard_def Let_def\<close>)

lemma hash_wordlike: "wordlike (spec_hash j sha s)"
  unfolding spec_hash_def by (rule hexdigest_wordlike)

lemma batch_rows:
  "snd (run_batch sv prof spec split seed tok ts rows) = rows \<or>
   snd (run_batch sv prof spec split seed tok ts rows) = rows @ [attempt_row ts (hash_of sv spec) ''run_batch(split=test)'']"
proof -
  have "batch_attempt_row sv ts spec = attempt_row ts (hash_of sv spec) ''run_batch(split=test)''"
    by (simp add: batch_attempt_row_def attempt_row_def)
  then show ?thesis by (auto simp: run_batch_def Let_def split: sum.split)
qed

lemma execute_run_logs:
  "unlock_logs (snd (execute_run sv t a spec prof mech w)) =
     (unlock_logs w)(ba_unlock_log a := snd (run_batch (lab sv) prof spec (ba_split a) (ba_seed a)
        (unlock_token sv a (hash_of (lab sv) spec)) (isoformat (t_batch t)) (unlock_logs w (ba_unlock_log a))))"
  unfolding execute_run_def Let_def by (simp split: prod.split sum.split)

text \<open>How a run ends.\<close>

lemma run_cases:
  obtains (usage) "run_backtest sv t a w = ((2, Nothing), w)"
    | (unread) h err reason where "load_spec sv a w = Inl (h, err, reason)"
        "run_backtest sv t a w = refuse t a h err reason [] w"
    | (denied) spec prof err reason rows where "load_spec sv a w = Inr (spec, prof)"
        "test_guard sv t a spec prof (unlock_logs w (ba_unlock_log a)) = (Some (err, reason), rows)"
        "run_backtest sv t a w = refuse t a (Some (hash_of (lab sv) spec)) err reason [] (set_log (ba_unlock_log a) rows w)"
    | (writeup) spec prof err reason rows where "load_spec sv a w = Inr (spec, prof)"
        "test_guard sv t a spec prof (unlock_logs w (ba_unlock_log a)) = (None, rows)"
        "run_backtest sv t a w = refuse t a (Some (hash_of (lab sv) spec)) err reason [] (set_log (ba_unlock_log a) rows w)"
    | (dry) spec prof out row rows where "load_spec sv a w = Inr (spec, prof)"
        "test_guard sv t a spec prof (unlock_logs w (ba_unlock_log a)) = (None, rows)" "ba_dry_run a"
        "run_backtest sv t a w = ((0, out), append_audit (ba_audit_log a) row (set_log (ba_unlock_log a) rows w))"
    | (executed) spec prof mech rows where "load_spec sv a w = Inr (spec, prof)"
        "test_guard sv t a spec prof (unlock_logs w (ba_unlock_log a)) = (None, rows)" "\<not> ba_dry_run a"
        "run_backtest sv t a w = execute_run sv t a spec prof mech (set_log (ba_unlock_log a) rows w)"
proof (cases "ba_split a \<notin> set VALID_SPLITS \<or> (case ba_cost_profile a of None \<Rightarrow> False | Some p \<Rightarrow> p \<notin> set COST_PROFILE_CHOICES)")
  case True
  then show thesis by (intro usage) (simp only: run_backtest_def if_True)
next
  case False
  note run = run_backtest_def [of sv t a w, unfolded if_not_P [OF False] Let_def]
  show thesis
  proof (cases "load_spec sv a w")
    case (Inl x)
    then show thesis using unread by (cases x) (simp add: run)
  next
    case (Inr x)
    then obtain spec prof where ld: "load_spec sv a w = Inr (spec, prof)" by (cases x) simp
    obtain d rows where g: "test_guard sv t a spec prof (unlock_logs w (ba_unlock_log a)) = (d, rows)"
      by (cases "test_guard sv t a spec prof (unlock_logs w (ba_unlock_log a))")
    show thesis
    proof (cases d)
      case (Some x)
      then show thesis using denied [OF ld] g ld by (cases x) (simp add: run)
    next
      case None
      then show thesis
        using writeup [OF ld] dry [OF ld] executed [OF ld] g ld
        by (cases "read_writeup a (set_log (ba_unlock_log a) rows w)"; cases "ba_dry_run a") (simp_all add: run)
    qed
  qed
qed

text \<open>A log only grows, and by burns only up to the budget.\<close>

definition spends :: "string list \<Rightarrow> string list \<Rightarrow> bool" where
  "spends rows rows' = ((\<exists>new. rows' = rows @ new) \<and> count_burns rows' \<le> max TEST_UNLOCK_BUDGET (count_burns rows))"

lemma spends_refl: "spends rows rows"
  by (simp add: spends_def)

lemma spends_trans: "spends a b \<Longrightarrow> spends b c \<Longrightarrow> spends a c"
  by (auto simp: spends_def)

lemma spends_attempt:
  assumes "wordlike ts" "wordlike h" "r \<noteq> []" "\<not> is_space (hd r)" "\<not> is_space (last r)"
  shows "spends rows (rows @ [attempt_row ts h r])"
  by (simp add: spends_def count_append count_attempt [OF assms])

lemma guard_spends: "spends rows (snd (test_guard sv t a spec prof rows))"
proof (cases rule: guard_cases [of sv t a spec prof rows])
  case rerun
  have "spends rows (rows @ [attempt_row (iso_now (t_unlock t)) (hash_of (lab sv) spec)
          (''run_backtest_cli(rerun:already_burned '' @ burn_fingerprint (profile_name prof) (ba_seed a) @ '')'')])"
    by (rule spends_attempt [OF iso_wordlike(1) hash_wordlike]) (simp_all add: is_space_def)
  then show ?thesis using rerun(1) by simp
next
  case burn
  then show ?thesis by (simp add: spends_def count_append count_burn [OF hash_wordlike])
qed (simp_all add: spends_refl)

lemma batch_spends: "spends rows (snd (run_batch sv prof spec split seed tok (isoformat c) rows))"
proof -
  have "spends rows (rows @ [attempt_row (isoformat c) (hash_of sv spec) ''run_batch(split=test)''])"
    by (rule spends_attempt [OF iso_wordlike(2) hash_wordlike]) (simp_all add: is_space_def)
  then show ?thesis using batch_rows [of sv prof spec split seed tok "isoformat c" rows] spends_refl by metis
qed

lemma run_spends: "spends (unlock_logs w p) (unlock_logs (snd (run_backtest sv t a w)) p)"
proof -
  have guarded: "spends (unlock_logs w p) (unlock_logs (set_log (ba_unlock_log a) rows w) p)"
    if "test_guard sv t a spec prof (unlock_logs w (ba_unlock_log a)) = (d, rows)" for spec prof d rows
    using guard_spends [of "unlock_logs w (ba_unlock_log a)" sv t a spec prof] that spends_refl by simp
  have ran: "spends (unlock_logs v p) (unlock_logs (snd (execute_run sv t a spec prof mech v)) p)" for spec prof mech v
    by (simp add: execute_run_logs batch_spends spends_refl)
  show ?thesis
    by (cases rule: run_cases [of sv t a w])
       (use guarded spends_trans [OF guarded ran] in \<open>simp_all add: spends_refl del: set_log_fields\<close>)
qed

section \<open>The lifetime budget\<close>

datatype lab_event = Backtest times backtest_args | Promote times burn_args

fun lab_step :: "holdout_services \<Rightarrow> lab_world \<Rightarrow> lab_event \<Rightarrow> lab_world" where
  "lab_step sv w (Backtest t a) = snd (run_backtest sv t a w)"
| "lab_step sv w (Promote t b) = snd (cmd_burn_unlock sv t b w)"

text \<open>The hash a person types is a word.\<close>

fun clean_event :: "lab_event \<Rightarrow> bool" where
  "clean_event (Backtest t a) = True"
| "clean_event (Promote t b) = wordlike (bu_spec_hash b)"

text \<open>A burn command is nothing, or a run and, if that succeeds, one more attempt row.\<close>

lemma burn_command_cases:
  obtains (nothing) "snd (cmd_burn_unlock sv t b w) = w"
    | (failed) fs fs' a where "snd (cmd_burn_unlock sv t b w) = (snd (run_backtest sv t a (w\<lparr>files := fs\<rparr>)))\<lparr>files := fs'\<rparr>"
    | (promoted) fs fs' a where "snd (cmd_burn_unlock sv t b w) =
        (let w' = (snd (run_backtest sv t a (w\<lparr>files := fs\<rparr>)))\<lparr>files := fs'\<rparr>
         in set_log (bu_log b) (unlock_logs w' (bu_log b) @
              [attempt_row (iso_now (t_command t)) (bu_spec_hash b) ''promotion_cli'']) w')"
proof (cases "TEST_UNLOCK_BUDGET - count_burns (unlock_logs w (bu_log b)) \<le> 0")
  case True
  then have "snd (cmd_burn_unlock sv t b w) = w" by (simp add: cmd_burn_unlock_def)
  then show thesis by (rule nothing)
next
  case budget: False
  let ?db = "ensure_schema (dbs w (case bu_db b of Some p \<Rightarrow> p | None \<Rightarrow> ''market_data/trials.db''))"
  show thesis
  proof (cases ?db)
    case (Inl e)
    then have "snd (cmd_burn_unlock sv t b w) = w" using budget by (simp add: cmd_burn_unlock_def)
    then show thesis by (rule nothing)
  next
    case (Inr d)
    let ?rows = "sql_limit 1 (newest_first [r \<leftarrow> db_rows d. r ''spec_hash'' = SText (bu_spec_hash b)])"
    show thesis
    proof (cases "?rows = [] \<or> \<not> bu_yes b \<and> strip (bu_answer b) \<noteq> ''BURN''")
      case True
      then have "snd (cmd_burn_unlock sv t b w) = w" using budget Inr by (auto simp: cmd_burn_unlock_def split: list.split)
      then show thesis by (rule nothing)
    next
      case False
      then obtain x xs where rows: "?rows = x # xs" by (cases ?rows) auto
      define js where "js = (case x ''spec_json'' of SText s \<Rightarrow> s | _ \<Rightarrow> [])"
      define a where "a = burn_backtest_args b (hexdigest (sha256 (lab sv) js))"
      define fs where "fs = (files w)(bu_temp_file b := Contents js)"
      obtain code out w'' where run: "run_backtest sv t a (w\<lparr>files := fs\<rparr>) = ((code, out), w'')"
        by (metis prod.exhaust)
      define fs' where "fs' = (files w'')(bu_temp_file b := Missing)"
      have eq: "snd (cmd_burn_unlock sv t b w) = (let w' = w''\<lparr>files := fs'\<rparr> in if code \<noteq> 0 then w'
          else set_log (bu_log b) (unlock_logs w' (bu_log b) @
              [attempt_row (iso_now (t_command t)) (bu_spec_hash b) ''promotion_cli'']) w')"
        using budget Inr False rows run
        by (auto simp: cmd_burn_unlock_def Let_def js_def [symmetric] a_def [symmetric] fs_def [symmetric] fs'_def [symmetric])
      show thesis
      proof (cases "code = 0")
        case True
        then show thesis using promoted [where a = a and fs = fs and fs' = fs'] eq run by (simp add: Let_def)
      next
        case False
        then show thesis using failed [where a = a and fs = fs and fs' = fs'] eq run by (simp add: Let_def)
      qed
    qed
  qed
qed

lemma promote_spends:
  fixes w :: lab_world
  assumes "wordlike (bu_spec_hash b)"
  shows "spends (unlock_logs w p) (unlock_logs (snd (cmd_burn_unlock sv t b w)) p)"
proof -
  have add: "spends rows (rows @ [attempt_row (iso_now (t_command t)) (bu_spec_hash b) ''promotion_cli''])" for rows
    by (rule spends_attempt [OF iso_wordlike(1) assms]) (simp_all add: is_space_def)
  have ran: "spends (unlock_logs w q) (unlock_logs (snd (run_backtest sv t a (w\<lparr>files := fs\<rparr>))) q)" for a fs q
    using run_spends [of "w\<lparr>files := fs\<rparr>" q sv t a] by simp
  show ?thesis
    by (cases rule: burn_command_cases [of sv t b w])
       (use ran spends_trans [OF ran add] in \<open>simp_all add: spends_refl Let_def\<close>)
qed

interpretation holdout: machine "lab_step sv" clean_event
    "\<lambda>w. (\<exists>new. unlock_logs w p = rows @ new) \<and> count_burns (unlock_logs w p) \<le> TEST_UNLOCK_BUDGET" for sv p rows
proof
  fix w :: lab_world and e
  assume w: "(\<exists>new. unlock_logs w p = rows @ new) \<and> count_burns (unlock_logs w p) \<le> TEST_UNLOCK_BUDGET" and "clean_event e"
  then have "spends (unlock_logs w p) (unlock_logs (lab_step sv w e) p)"
    by (cases e) (simp_all add: run_spends promote_spends)
  with w show "(\<exists>new. unlock_logs (lab_step sv w e) p = rows @ new) \<and> count_burns (unlock_logs (lab_step sv w e) p) \<le> TEST_UNLOCK_BUDGET"
    by (auto simp: spends_def)
qed

text \<open>The rows of a log that record a use of the test set, whatever the reader of the log makes of them.\<close>

definition burned :: "string \<Rightarrow> bool" where
  "burned l = (\<exists>c h p s. wordlike h \<and> l = burn_row c h (burn_fingerprint p s))"

lemma burned_counted: "int (length (filter burned rows)) \<le> count_burns rows"
proof -
  have "filter burned rows = filter burned [l \<leftarrow> rows. \<exists>h. unlock_row l = Some (h, ''burn'')]"
    unfolding filter_filter by (intro filter_cong refl) (auto simp: burned_def burn_row_read(1))
  then show ?thesis unfolding count_burns_def by (metis length_filter_le of_nat_mono)
qed

text \<open>C6. The lifetime budget of the test set: through any sequence of backtests and burn commands, failed
  and dry ones included and with several logs, registries and strategies at once, a log only grows,
  and at most five of its rows ever record a use of the test set (if it does not start with more).\<close>

theorem test_unlocks_within_budget:
  assumes "list_all clean_event es" and "count_burns (unlock_logs w p) \<le> 5"
  shows "\<exists>new. unlock_logs (run (lab_step sv) w es) p = unlock_logs w p @ new \<and>
    length (filter burned (unlock_logs (run (lab_step sv) w es) p)) \<le> 5"
proof -
  let ?log = "unlock_logs (run (lab_step sv) w es) p"
  have "(\<exists>new. ?log = unlock_logs w p @ new) \<and> count_burns ?log \<le> TEST_UNLOCK_BUDGET"
    by (rule holdout.run_inv [OF _ assms(1)]) (use assms(2) in \<open>simp add: TEST_UNLOCK_BUDGET_def\<close>)
  then show ?thesis using burned_counted [of ?log] by (auto simp: TEST_UNLOCK_BUDGET_def)
qed

definition demo_holdout :: holdout_services where
  "demo_holdout = \<lparr>lab = demo_services, calibration = None, np_var = (\<lambda>vs. None),
     evaluate_trial = (\<lambda>rows n v seed. Inl (RuntimeError ''scorer'')), environ = (\<lambda>n. None)\<rparr>"

definition demo_world :: lab_world where
  "demo_world = \<lparr>files = (\<lambda>p. Missing), dbs = (\<lambda>p. fresh_db),
     unlock_logs = (\<lambda>p. [burn_row demo_time ''ab12'' (burn_fingerprint ''zero'' 12)]), audit_logs = (\<lambda>p. [])\<rparr>"

definition demo_burn :: burn_args where
  "demo_burn = \<lparr>bu_spec_hash = ''ab12'', bu_yes = True, bu_answer = [], bu_log = ''log'', bu_db = None,
     bu_profile = ''zero'', bu_temp_file = ''spec''\<rparr>"

theorem test_unlocks_within_budget_witness:
  "let t = \<lparr>t_unlock = demo_time, t_batch = demo_time, t_audit = demo_time, t_command = demo_time, t_insert = 0\<rparr>;
       w = run (lab_step demo_holdout) demo_world [Promote t demo_burn, Backtest t (burn_backtest_args demo_burn ''0'')]
   in length (filter burned (unlock_logs w ''log'')) \<le> 5"
proof -
  have "wordlike ''ab12''" by code_simp
  then show ?thesis
    using test_unlocks_within_budget [where w = demo_world and p = "''log''" and sv = demo_holdout
        and es = "[Promote t demo_burn, Backtest t (burn_backtest_args demo_burn ''0'')]" for t]
    by (simp add: demo_burn_def demo_world_def count_burn Let_def)
qed

end
