(* ===== verification/Spec2Isabelle.thy ===== *)
theory Spec2Isabelle
  imports Placement Trade Sizing Hedging Reconcile WsBooks Operator Capture Screens RiskEngine Strategy ReplayProps
    Batch Splits Backtest
begin

text \<open>
  A verification library for the arbitrage bot and its strategy research: how an order gets from an
  opportunity to a venue, what stops it, what the bot books afterwards, and how a strategy is judged
  on recorded games before it may trade.

  Foundations. \<open>Floating\<close> models Python's floats (binary64) and decimals (28 digits) as rationals with an
  explicit rounding after every operation, and holds the evaluation equations that make them
  computable; \<open>Roots\<close> square roots; \<open>PyBase\<close> the untyped values decoded from JSON, dictionaries and the
  built-in conversions with their exceptions; \<open>Machines\<close> the contract of a component with a step
  function and an invariant; \<open>Effects\<close> operations that read and change the world and may raise;
  \<open>Config\<close> the settings of config.py. File names below are under src/, those of the trading stack
  under src/kalshi_arbitrage/.

  Placing orders. \<open>VenueFees\<close> (src/venue_fees.py): the fee schedules. \<open>SafetyGates\<close>
  (execution/kill_switch.py, execution/live_lock.py): the gates with their files, and that a trip
  outlives restarts. \<open>CircuitBreaker\<close> (circuit_breaker.py): the breaker refines a three-state automaton.
  \<open>OrderTypes\<close>, \<open>Engine\<close> (execution/order_types.py, execution/single_leg.py): retries, breaker and halt
  around one order. \<open>Venues\<close>, \<open>KalshiClient\<close>, \<open>PolymarketClient\<close> (kalshi_executor.py,
  polymarket_executor.py): requests to the venues. \<open>MockExecution\<close>, \<open>VenueGateway\<close> (mock_execution.py,
  execution/venue_gateway.py, execution/simulated_gateway.py): the three gateways. \<open>Placement\<close>: the
  properties of engine and gateways together, what can be sent, when, and how often.

  Trading. \<open>Executor\<close> (arbitrage_executor.py): pre-flight checks, legs, hedge and results of a two-leg
  trade; \<open>Trade\<close>, \<open>Sizing\<close> and \<open>Hedging\<close> hold its properties. \<open>Trade\<close> says what a scheduling of the legs
  may do (\<open>scheduled\<close>: orders through the engine, calls of gateways, trips and waits in any order), and
  \<open>Hedging\<close> what undoes an imbalance (\<open>undoes\<close>), apart from the code that builds the order. \<open>ConfirmedPnL\<close> and \<open>Reconcile\<close>
  (confirmed_pnl.py, reconcile.py): the ledger, its rebuild from the capture log and the settlement.
  \<open>Capture\<close> and \<open>Operator\<close> (execution/capture.py, execution/operator.py): the row written for every
  attempt, and halt, resume and flatten, whose orders are compared with the exits of the positions the
  venues report (\<open>exits\<close>, \<open>unwound\<close>). \<open>WsBooks\<close> (ws_books.py): the mirror of the venues' books, which
  shows the books of both clients.

  Finding opportunities. \<open>BookWalk\<close>, \<open>PairPricing\<close> and \<open>Screens\<close> (live_probe.py, pmus.py): walks of the
  books, priced pairs and baskets, and the screens over events. A walk is specified contract by contract
  (\<open>matches\<close>, \<open>pays\<close>, \<open>basket_of\<close>), the legs of a basket by the offers of the two venues
  (\<open>leg_offers\<close>), a candidate by the event it comes from (\<open>screened\<close>). \<open>Normalizer\<close> (data_normalizer.py) and
  \<open>RiskEngine\<close> (risk_engine.py): normalized books, slippage, fees and the risk score with its gate.

  Research. \<open>Expressions\<close>, \<open>Strategy\<close> and \<open>Contract\<close> (research/harness/strategy_spec.py,
  research/features/): the condition language, the feature registry, validation and the JSON form of
  a strategy; what a validated strategy may read. \<open>Fills\<close> (research/harness/realistic_fills.py,
  cost_profile.py): simulated fills and cost profiles. \<open>Replay\<close> and \<open>ReplayProps\<close>
  (research/harness/replay.py): the replay of one game, that it never looks ahead, and where it departs
  from its description. \<open>Batch\<close> (research/harness/run_batch.py, research/lake/reader.py): a strategy over
  all games of a split, and that other splits never see test games. \<open>Splits\<close>
  (research/splits/lock.py): the chronological split, a partition by days unless it is clamped.
  \<open>TrialRegistry\<close> (research/registry/): the append-only table of trials. \<open>UnlockLog\<close> and \<open>Backtest\<close>
  (research/agents/tools/run_backtest.py, research/promotion/review_cli.py): the one way to run a
  backtest, with the log and the lifetime budget of the uses of the test set.

  How the code is modelled. A coroutine is a function of the world: the safety gates, the breakers,
  the clock and what lies behind the gateways. The clock is an arbitrary stream of readings, so no
  property depends on how fast time passes unless it says so. A gateway given to the engine is any
  function of the request and the world, which also covers what other coroutines do while the
  engine waits; the modelled gateways themselves are run without such interference. The legs of a
  trade run under any scheduling (a parameter of the trade). Threads and sockets are events of a step
  function. Floats are finite unless a type says otherwise, and overflow is not represented; the sum
  of a list adds from left to right. Services outside the repository (the HTTP exchange, the CLOB
  SDK, the RSA signature, SHA-256, \<open>uuid4\<close>, the fee endpoint, reading and printing JSON, dates,
  \<open>ln\<close> and \<open>std\<close>, the parser of Python expressions) are arbitrary functions; where a property needs
  their documented behaviour it is a named hypothesis (\<open>well_formed_replies\<close>, \<open>parser_ok\<close>,
  \<open>printed_well\<close>). The text of a built-in exception is its class name. Logging is not modelled.

  Interfaces are locales: \<open>rounding\<close> (what a float or decimal format promises), \<open>machine\<close> and
  \<open>monotone_machine\<close> (a step function with an invariant), \<open>world_relation\<close> with its extensions (what
  operations, engines, trades and flattens keep of the world) and \<open>draining\<close> (a loop that uses up its
  books). Each is interpreted on the definitions of the components.

  Loops. \<open>_backoff_poll\<close> has an argument \<open>rounds\<close> that bounds the polls, and \<open>backoff_rounds_enough\<close>
  shows that the bound does not matter once the clock passes the deadline within that many readings.
  The book walks are while loops with a proved bound on their rounds; all other loops are recursions
  over their data.

  Not modelled, and why. The joins that build a game's bars from the data lake are table operations
  of pandas, and the scorer's bootstrap statistics random sampling of numpy. Title matching rests on
  large tables of text rules and on a language model. The analyzer with its websocket and HTTP
  clients, the process supervision of src/ops, dashboards, command lines, studies and reports are
  input, output and orchestration, as are the lab's sessions. Of the promotion command only the burn of
  an unlock is modelled, not the listings.
\<close>

end
